(* ===== verification/Prelude.thy ===== *)
theory Prelude
  imports Main "HOL-Library.AList" "HOL-Library.Multiset" "HOL-Library.Char_ord" "HOL-Library.List_Lexorder"
begin

text \<open>
  What every other theory shares: Python values that have no direct HOL counterpart and the
  lemmas the component proofs rest on.

  \<^item> A Python \<^verbatim>\<open>str\<close> is the list of the bytes of its UTF-8 encoding, as HOL's \<open>string\<close>, so that
    \<^verbatim>\<open>s.encode("utf-8")\<close> is the identity; a \<^verbatim>\<open>bytes\<close> value is a \<open>string\<close> as well. Comparison,
    concatenation, splitting and membership at ASCII characters read the same on both, and so does
    the order of dictionary keys. Where code points matter, theory \<^verbatim>\<open>Text\<close> decodes them.
  \<^item> A Python \<^verbatim>\<open>dict\<close> is an association list in insertion order. \<open>map_of\<close> is \<^verbatim>\<open>get\<close>,
    \<open>AList.update\<close> is item assignment (an existing key keeps its place, a new one goes to the
    end), \<open>AList.delete\<close> is \<^verbatim>\<open>del\<close>.
  \<^item> A raise is the \<open>Inl\<close> of a sum.
\<close>

named_theorems dict_simps "reading Python dictionaries after a write"
named_theorems py_defs "one-line definitions of Python string operations"

section \<open>Dictionaries\<close>

type_synonym 'v dict = "(string \<times> 'v) list"

text \<open>\<^verbatim>\<open>dict(pairs)\<close>: a repeated key keeps its first place and takes its last value.\<close>

definition dict_of :: "('k \<times> 'v) list \<Rightarrow> ('k \<times> 'v) list" where
  "dict_of ps = fold (\<lambda>(k, v) d. AList.update k v d) ps []"

definition keys :: "('k \<times> 'v) list \<Rightarrow> 'k list" where
  "keys d = map fst d"

definition wf_dict :: "('k \<times> 'v) list \<Rightarrow> bool" where
  "wf_dict d \<longleftrightarrow> distinct (map fst d)"

lemma map_of_update [dict_simps]:
  "map_of (AList.update k v d) k' = (if k' = k then Some v else map_of d k')"
  by (simp add: update_conv)

lemma map_of_delete [dict_simps]:
  "map_of (AList.delete k d) k' = (if k' = k then None else map_of d k')"
  by (simp add: delete_conv)

lemma keys_iff: "k \<in> set (keys d) \<longleftrightarrow> map_of d k \<noteq> None"
  by (auto simp: keys_def map_of_eq_None_iff)

lemma keys_of_map: "map_of d = map_of d' \<Longrightarrow> set (keys d) = set (keys d')"
  using keys_iff [of _ d] keys_iff [of _ d'] by auto

lemma wf_dict_update [simp]: "wf_dict d \<Longrightarrow> wf_dict (AList.update k v d)"
  by (simp add: wf_dict_def distinct_update)

lemma wf_dict_Nil [simp]: "wf_dict []"
  by (simp add: wf_dict_def)

lemma update_new_append: "k \<notin> fst ` set d \<Longrightarrow> AList.update k v d = d @ [(k, v)]"
  by (induction d) auto

lemma fold_update_distinct:
  "distinct (map fst (d @ ps)) \<Longrightarrow>
    fold (\<lambda>(k, v) d. AList.update k v d) ps d = d @ ps"
proof (induction ps arbitrary: d)
  case Nil
  then show ?case by simp
next
  case (Cons p ps)
  obtain k v where p: "p = (k, v)" by (cases p)
  from Cons.prems p have "AList.update k v d = d @ [(k, v)]"
    by (intro update_new_append) auto
  with Cons p show ?case by simp
qed

lemma dict_of_distinct: "wf_dict ps \<Longrightarrow> dict_of ps = ps"
  by (simp add: dict_of_def wf_dict_def fold_update_distinct)

lemma wf_fold_update:
  "wf_dict d \<Longrightarrow> wf_dict (fold (\<lambda>(k, v) d. AList.update k v d) ps d)"
  by (induction ps arbitrary: d) auto

lemma wf_dict_of [simp]: "wf_dict (dict_of ps)"
  by (simp add: dict_of_def wf_fold_update)

lemma set_update_subset: "set (AList.update k v d) \<subseteq> insert (k, v) (set d)"
  by (induction d) auto

lemma set_fold_update_subset:
  "set (fold (\<lambda>(k, v) d. AList.update k v d) ps d) \<subseteq> set ps \<union> set d"
proof (induction ps arbitrary: d)
  case Nil
  then show ?case by simp
next
  case (Cons p ps)
  obtain k v where p: "p = (k, v)" by (cases p)
  have "set (fold (\<lambda>(k, v) d. AList.update k v d) ps (AList.update k v d))
      \<subseteq> set ps \<union> set (AList.update k v d)"
    by (rule Cons.IH)
  with set_update_subset [of k v d] p show ?case by auto
qed

lemma set_dict_of_subset: "set (dict_of ps) \<subseteq> set ps"
  using set_fold_update_subset [of ps "[]"] by (simp add: dict_of_def)

subsection \<open>Dictionaries in key order\<close>

lemma map_fst_sort_key: "map fst (sort_key fst d) = sort (map fst (d :: ('k::linorder \<times> 'v) list))"
proof -
  have "sorted (map fst (sort_key fst d))" by simp
  moreover have "mset (map fst (sort_key fst d)) = mset (map fst d)" by (simp only: mset_map mset_sort)
  ultimately show ?thesis
    by (metis properties_for_sort)
qed

lemma wf_dict_sort [simp]:
  "wf_dict (sort_key fst d) = wf_dict (d :: ('k::linorder \<times> 'v) list)"
  by (simp add: wf_dict_def map_fst_sort_key)

lemma map_of_sort_key [dict_simps]:
  fixes d :: "('k::linorder \<times> 'v) list"
  assumes "wf_dict d"
  shows "map_of (sort_key fst d) = map_of d"
proof (rule map_of_eqI)
  show "set (map fst (sort_key fst d)) = set (map fst d)" by simp
  show "\<forall>k \<in> set (map fst (sort_key fst d)). map_of (sort_key fst d) k = map_of d k"
  proof
    fix k assume "k \<in> set (map fst (sort_key fst d))"
    then obtain v where kv: "(k, v) \<in> set d" by auto
    have "map_of d k = Some v"
      using assms kv by (simp add: wf_dict_def)
    moreover have "map_of (sort_key fst d) k = Some v"
    proof -
      have "distinct (map fst (sort_key fst d))"
        using assms wf_dict_sort [of d] by (simp add: wf_dict_def)
      moreover have "(k, v) \<in> set (sort_key fst d)" using kv by simp
      ultimately show ?thesis by simp
    qed
    ultimately show "map_of (sort_key fst d) k = map_of d k" by simp
  qed
qed

lemma wf_dict_filter [simp]: "wf_dict d \<Longrightarrow> wf_dict (filter P d)"
  by (simp add: wf_dict_def distinct_map_filter)

lemma wf_dict_map_snd [simp]: "wf_dict (map (\<lambda>(k, v). (k, f v)) d) = wf_dict d"
  by (simp add: wf_dict_def comp_def case_prod_unfold)

lemma map_of_map_snd [dict_simps]:
  "map_of (map (\<lambda>(k, v). (k, f v)) d) k = map_option f (map_of d k)"
  by (induction d) auto

lemma map_of_filter_keys [dict_simps]:
  "map_of (filter (\<lambda>(k, v). Q k) d) k = (if Q k then map_of d k else None)"
  by (induction d) auto

lemma filter_length_mono: "(\<And>x. P x \<Longrightarrow> Q x) \<Longrightarrow> length (filter P xs) \<le> length (filter Q xs)"
  by (induction xs) auto

section \<open>Strings\<close>

definition startswith :: "string \<Rightarrow> string \<Rightarrow> bool" where
  "startswith s p \<longleftrightarrow> take (length p) s = p"

definition endswith :: "string \<Rightarrow> string \<Rightarrow> bool" where
  "endswith s p \<longleftrightarrow> length p \<le> length s \<and> drop (length s - length p) s = p"

text \<open>\<^verbatim>\<open>s.split(c, 1)\<close> for a separator that occurs: what is before and after its first occurrence.\<close>

definition split_first :: "char \<Rightarrow> string \<Rightarrow> string \<times> string" where
  "split_first c s = (takeWhile (\<lambda>x. x \<noteq> c) s, tl (dropWhile (\<lambda>x. x \<noteq> c) s))"

text \<open>\<^verbatim>\<open>s.split(c)\<close>: every piece between separators, one piece when there is none.\<close>

fun split_on :: "char \<Rightarrow> string \<Rightarrow> string list" where
  "split_on c [] = [[]]"
| "split_on c (x # xs) =
     (if x = c then [] # split_on c xs
      else (case split_on c xs of [] \<Rightarrow> [[x]] | p # ps \<Rightarrow> (x # p) # ps))"

fun join :: "string \<Rightarrow> string list \<Rightarrow> string" where
  "join sep [] = []"
| "join sep [s] = s"
| "join sep (s # t # ss) = s @ sep @ join sep (t # ss)"

text \<open>\<^verbatim>\<open>str.upper\<close> on the ASCII letters, which is all it is applied to.\<close>

definition upper_char :: "char \<Rightarrow> char" where
  "upper_char c = (if 97 \<le> (of_char c :: nat) \<and> (of_char c :: nat) \<le> 122 then char_of ((of_char c :: nat) - 32) else c)"

definition ascii :: "string \<Rightarrow> bool" where
  "ascii s \<longleftrightarrow> (\<forall>c \<in> set s. (of_char c :: nat) < 128)"

lemma ascii_simps [simp]:
  "ascii []" "ascii (c # s) \<longleftrightarrow> (of_char c :: nat) < 128 \<and> ascii s" "ascii (s @ t) \<longleftrightarrow> ascii s \<and> ascii t"
  by (auto simp: ascii_def)

lemma split_first_join:
  "c \<in> set s \<Longrightarrow> split_first c s = (a, b) \<Longrightarrow> s = a @ c # b \<and> c \<notin> set a"
proof -
  assume c: "c \<in> set s" and sp: "split_first c s = (a, b)"
  from sp have a: "a = takeWhile (\<lambda>x. x \<noteq> c) s" and b: "b = tl (dropWhile (\<lambda>x. x \<noteq> c) s)"
    by (auto simp: split_first_def)
  have "dropWhile (\<lambda>x. x \<noteq> c) s \<noteq> []" using c by auto
  then obtain d ds where d: "dropWhile (\<lambda>x. x \<noteq> c) s = d # ds"
    by (cases "dropWhile (\<lambda>x. x \<noteq> c) s") auto
  then have "d = c" using hd_dropWhile [of "\<lambda>x. x \<noteq> c" s] by simp
  with d a b have "s = a @ c # b" by (metis list.sel(3) takeWhile_dropWhile_id)
  moreover have "c \<notin> set a" using a by (auto dest: set_takeWhileD)
  ultimately show ?thesis by simp
qed

lemma split_first_append: "c \<notin> set a \<Longrightarrow> split_first c (a @ c # b) = (a, b)"
proof -
  assume ca: "c \<notin> set a"
  then have "takeWhile (\<lambda>x. x \<noteq> c) (a @ c # b) = a"
    by (subst takeWhile_append2) auto
  moreover have "dropWhile (\<lambda>x. x \<noteq> c) (a @ c # b) = c # b"
    using ca by (subst dropWhile_append2) auto
  ultimately show ?thesis by (simp add: split_first_def)
qed

subsection \<open>Decimal numerals\<close>

definition digit :: "nat \<Rightarrow> char" where
  "digit n = char_of (48 + n)"

definition is_digit :: "char \<Rightarrow> bool" where
  "is_digit c \<longleftrightarrow> 48 \<le> (of_char c :: nat) \<and> (of_char c :: nat) \<le> 57"

definition digit_val :: "char \<Rightarrow> nat" where
  "digit_val c = of_char c - 48"

fun string_of_nat :: "nat \<Rightarrow> string" where
  "string_of_nat n = (if n < 10 then [digit n] else string_of_nat (n div 10) @ [digit (n mod 10)])"

declare string_of_nat.simps [simp del]

definition string_of_int :: "int \<Rightarrow> string" where
  "string_of_int i = (if i < 0 then CHR ''-'' # string_of_nat (nat (- i)) else string_of_nat (nat i))"

definition nat_of_digits :: "string \<Rightarrow> nat" where
  "nat_of_digits s = foldl (\<lambda>acc c. 10 * acc + digit_val c) 0 s"

lemma of_char_digit: "n < 10 \<Longrightarrow> (of_char (digit n) :: nat) = 48 + n"
  by (simp add: digit_def)

lemma is_digit_digit [simp]: "n < 10 \<Longrightarrow> is_digit (digit n)"
  by (simp add: is_digit_def of_char_digit)

lemma digit_val_digit [simp]: "n < 10 \<Longrightarrow> digit_val (digit n) = n"
  by (simp add: digit_val_def of_char_digit)

lemma digit_eq_0 [simp]: "n < 10 \<Longrightarrow> digit n = CHR ''0'' \<longleftrightarrow> n = 0"
proof -
  assume n: "n < 10"
  have "digit n = CHR ''0'' \<longleftrightarrow> (of_char (digit n) :: nat) = of_char CHR ''0''"
    by (simp only: of_char_eq_iff)
  then show ?thesis using n by (simp add: of_char_digit)
qed

lemma string_of_nat_digits: "\<forall>c \<in> set (string_of_nat n). is_digit c"
proof (induction n rule: string_of_nat.induct)
  case (1 n)
  show ?case
    using 1 by (subst string_of_nat.simps) auto
qed

lemma nat_of_digits_snoc: "nat_of_digits (s @ [c]) = 10 * nat_of_digits s + digit_val c"
  by (simp add: nat_of_digits_def)

lemma nat_of_string_of_nat [simp]: "nat_of_digits (string_of_nat n) = n"
proof (induction n rule: string_of_nat.induct)
  case (1 n)
  show ?case
  proof (cases "n < 10")
    case True
    then show ?thesis by (subst string_of_nat.simps) (simp add: nat_of_digits_def)
  next
    case False
    with 1 show ?thesis
      by (subst string_of_nat.simps) (simp add: nat_of_digits_snoc)
  qed
qed

lemma string_of_nat_head:
  "\<exists>c cs. string_of_nat n = c # cs \<and> is_digit c \<and> (c = CHR ''0'' \<longrightarrow> n = 0 \<and> cs = [])"
proof (induction n rule: string_of_nat.induct)
  case (1 n)
  show ?case
  proof (cases "n < 10")
    case True
    then show ?thesis by (subst string_of_nat.simps) auto
  next
    case False
    with 1 obtain c cs where IH: "string_of_nat (n div 10) = c # cs" "is_digit c"
      "c = CHR ''0'' \<longrightarrow> n div 10 = 0 \<and> cs = []" by blast
    with False show ?thesis
      by (subst string_of_nat.simps) auto
  qed
qed

lemma string_of_nat_inj: "string_of_nat m = string_of_nat n \<Longrightarrow> m = n"
  by (metis nat_of_string_of_nat)

section \<open>Results\<close>

text \<open>
  A computation that may raise is a sum; \<open>Inl e\<close> is the exception. \<open>bind\<close> runs the next
  statement unless the previous one raised.
\<close>

fun bind_res :: "'e + 'a \<Rightarrow> ('a \<Rightarrow> 'e + 'b) \<Rightarrow> 'e + 'b" where
  "bind_res (Inl e) f = Inl e"
| "bind_res (Inr x) f = f x"

fun_cases bind_res_InrE: "bind_res r f = Inr y"
fun_cases bind_res_InlE: "bind_res r f = Inl e"

definition require :: "bool \<Rightarrow> 'e \<Rightarrow> 'e + unit" where
  "require b e = (if b then Inr () else Inl e)"

lemma bind_require [simp]:
  "bind_res (require b e) f = Inr y \<longleftrightarrow> b \<and> f () = Inr y"
  "bind_res (require b e) f = Inl e' \<longleftrightarrow> (\<not> b \<and> e' = e) \<or> (b \<and> f () = Inl e')"
  by (auto simp: require_def)

lemma bind_res_Inr: "bind_res r f = Inr y \<longleftrightarrow> (\<exists>x. r = Inr x \<and> f x = Inr y)"
  by (cases r) auto

end
