(* ===== verification/Text.thy ===== *)
theory Text
  imports Prelude
begin

text \<open>
  The code points of a string. A byte sequence that is not UTF-8 stands for no Python \<^verbatim>\<open>str\<close>; to
  keep the functions total and reversible, a byte that starts no encoded character decodes to a
  code point of U+DC80 .. U+DCFF, Python's \<^verbatim>\<open>surrogateescape\<close> convention.
\<close>

section \<open>Decoding\<close>

definition cont :: "char \<Rightarrow> bool" where
  "cont c \<longleftrightarrow> 128 \<le> (of_char c :: nat) \<and> (of_char c :: nat) < 192"

definition cbits :: "char \<Rightarrow> nat" where
  "cbits c = of_char c - 128"

definition is_surrogate :: "nat \<Rightarrow> bool" where
  "is_surrogate n \<longleftrightarrow> 0xD800 \<le> n \<and> n < 0xE000"

fun seq2 :: "char \<Rightarrow> string \<Rightarrow> (nat \<times> string) option" where
  "seq2 a (b # s) =
     (if 194 \<le> (of_char a :: nat) \<and> (of_char a :: nat) < 224 \<and> cont b
      then Some ((of_char a - 192) * 64 + cbits b, s) else None)"
| "seq2 a _ = None"

fun seq3 :: "char \<Rightarrow> string \<Rightarrow> (nat \<times> string) option" where
  "seq3 a (b # c # s) =
     (let n = ((of_char a - 224) * 64 + cbits b) * 64 + cbits c in
      if 224 \<le> (of_char a :: nat) \<and> (of_char a :: nat) < 240 \<and> cont b \<and> cont c \<and> 0x800 \<le> n \<and> \<not> is_surrogate n
      then Some (n, s) else None)"
| "seq3 a _ = None"

fun seq4 :: "char \<Rightarrow> string \<Rightarrow> (nat \<times> string) option" where
  "seq4 a (b # c # d # s) =
     (let n = (((of_char a - 240) * 64 + cbits b) * 64 + cbits c) * 64 + cbits d in
      if 240 \<le> (of_char a :: nat) \<and> (of_char a :: nat) < 245 \<and> cont b \<and> cont c \<and> cont d \<and> 0x10000 \<le> n \<and> n < 0x110000
      then Some (n, s) else None)"
| "seq4 a _ = None"

definition next_cp :: "char \<Rightarrow> string \<Rightarrow> nat \<times> string" where
  "next_cp a s =
     (if (of_char a :: nat) < 128 then (of_char a, s)
      else case seq2 a s of Some r \<Rightarrow> r
      | None \<Rightarrow> (case seq3 a s of Some r \<Rightarrow> r
      | None \<Rightarrow> (case seq4 a s of Some r \<Rightarrow> r
      | None \<Rightarrow> (0xDC00 + of_char a, s))))"

text \<open>The encoding of one code point.\<close>

definition enc :: "nat \<Rightarrow> string" where
  "enc n =
     (if n < 128 then [char_of n]
      else if n < 0x800 then [char_of (192 + n div 64), char_of (128 + n mod 64)]
      else if 0xDC80 \<le> n \<and> n < 0xDD00 then [char_of (n - 0xDC00)]
      else if n < 0x10000 then
        [char_of (224 + n div 64 div 64), char_of (128 + n div 64 mod 64), char_of (128 + n mod 64)]
      else [char_of (240 + n div 64 div 64 div 64), char_of (128 + n div 64 div 64 mod 64),
            char_of (128 + n div 64 mod 64), char_of (128 + n mod 64)])"

text \<open>The code points a string can have.\<close>

definition code_point :: "nat \<Rightarrow> bool" where
  "code_point n \<longleftrightarrow> n < 0x110000 \<and> (is_surrogate n \<longrightarrow> 0xDC80 \<le> n \<and> n < 0xDD00)"

lemma cbits_less: "cont c \<Longrightarrow> cbits c < 64"
  by (auto simp: cont_def cbits_def)

lemma char_of_cbits: "cont c \<Longrightarrow> char_of (128 + cbits c) = c"
  by (simp add: cont_def cbits_def)

lemma div_mod_64: "(y::nat) < 64 \<Longrightarrow> (x * 64 + y) div 64 = x \<and> (x * 64 + y) mod 64 = y"
  by simp

lemma char_of_lead: "k \<le> (of_char a :: nat) \<Longrightarrow> char_of (k + (of_char a - k)) = a"
  by simp

lemma seq2_enc: "seq2 a s = Some (n, r) \<Longrightarrow> enc n @ r = a # s \<and> length r < length s \<and> code_point n"
proof (cases s)
  case (Cons b s')
  assume "seq2 a s = Some (n, r)"
  with Cons have a: "194 \<le> (of_char a :: nat)" "(of_char a :: nat) < 224" "cont b" and r: "r = s'"
    and n: "n = (of_char a - 192) * 64 + cbits b"
    by (auto split: if_splits)
  let ?x = "(of_char a :: nat) - 192"
  have x: "2 \<le> ?x" "?x < 32" using a by auto
  have d: "n div 64 = ?x" "n mod 64 = cbits b" using div_mod_64 [OF cbits_less [OF a(3)], of ?x] n by auto
  have "128 \<le> n" "n < 0x800" using x cbits_less [OF a(3)] n by auto
  then show ?thesis
    using d a r Cons by (simp add: enc_def char_of_cbits code_point_def is_surrogate_def)
qed simp

lemma seq3_enc: "seq3 a s = Some (n, r) \<Longrightarrow> enc n @ r = a # s \<and> length r < length s \<and> code_point n"
proof -
  assume s3: "seq3 a s = Some (n, r)"
  then obtain b c where s: "s = b # c # r"
    by (cases "(a, s)" rule: seq3.cases) (auto simp: Let_def split: if_splits)
  with s3 have a: "224 \<le> (of_char a :: nat)" "(of_char a :: nat) < 240" "cont b" "cont c"
    "0x800 \<le> n" "\<not> is_surrogate n"
    and n: "n = ((of_char a - 224) * 64 + cbits b) * 64 + cbits c"
    by (auto simp: Let_def split: if_splits)
  let ?x = "(of_char a :: nat) - 224"
  have d: "n div 64 = ?x * 64 + cbits b" "n mod 64 = cbits c"
    using div_mod_64 [OF cbits_less [OF a(4)], of "?x * 64 + cbits b"] n by auto
  have e: "(?x * 64 + cbits b) div 64 = ?x" "(?x * 64 + cbits b) mod 64 = cbits b"
    using div_mod_64 [OF cbits_less [OF a(3)], of ?x] by auto
  have "n < 0x10000" using a(2) cbits_less [OF a(3)] cbits_less [OF a(4)] n by auto
  moreover have "\<not> (0xDC80 \<le> n \<and> n < 0xDD00)" using a(6) by (auto simp: is_surrogate_def)
  ultimately show ?thesis
    using d e a s by (simp add: enc_def char_of_cbits code_point_def)
qed

lemma seq4_enc: "seq4 a s = Some (n, r) \<Longrightarrow> enc n @ r = a # s \<and> length r < length s \<and> code_point n"
proof -
  assume s4: "seq4 a s = Some (n, r)"
  then obtain b c d where s: "s = b # c # d # r"
    by (cases "(a, s)" rule: seq4.cases) (auto simp: Let_def split: if_splits)
  with s4 have a: "240 \<le> (of_char a :: nat)" "(of_char a :: nat) < 245" "cont b" "cont c" "cont d"
    "0x10000 \<le> n" "n < 0x110000"
    and n: "n = (((of_char a - 240) * 64 + cbits b) * 64 + cbits c) * 64 + cbits d"
    by (auto simp: Let_def split: if_splits)
  let ?x = "(of_char a :: nat) - 240"
  have q: "n div 64 = (?x * 64 + cbits b) * 64 + cbits c" "n mod 64 = cbits d"
    using div_mod_64 [OF cbits_less [OF a(5)], of "(?x * 64 + cbits b) * 64 + cbits c"] n by auto
  have q2: "((?x * 64 + cbits b) * 64 + cbits c) div 64 = ?x * 64 + cbits b"
    "((?x * 64 + cbits b) * 64 + cbits c) mod 64 = cbits c"
    using div_mod_64 [OF cbits_less [OF a(4)], of "?x * 64 + cbits b"] by auto
  have q3: "(?x * 64 + cbits b) div 64 = ?x" "(?x * 64 + cbits b) mod 64 = cbits b"
    using div_mod_64 [OF cbits_less [OF a(3)], of ?x] by auto
  show ?thesis
    using q q2 q3 a s by (simp add: enc_def char_of_cbits code_point_def is_surrogate_def)
qed

lemma next_cp_enc:
  "next_cp a s = (n, r) \<Longrightarrow> enc n @ r = a # s \<and> length r \<le> length s \<and> code_point n"
proof -
  assume nx: "next_cp a s = (n, r)"
  have "(of_char a :: nat) < 256" using nat_of_char_less_256 by simp
  then have "enc (of_char a) = [a] \<and> code_point (of_char a)" if "(of_char a :: nat) < 128"
    using that by (simp add: enc_def code_point_def is_surrogate_def)
  moreover have "enc (0xDC00 + of_char a) = [a] \<and> code_point (0xDC00 + of_char a)" if "\<not> (of_char a :: nat) < 128"
  proof -
    have "0xDC00 + (of_char a :: nat) < 0xDD00" using \<open>(of_char a :: nat) < 256\<close> by linarith
    then have "0xDC00 + (of_char a :: nat) < 0x110000" by linarith
    with \<open>0xDC00 + (of_char a :: nat) < 0xDD00\<close> show ?thesis
      using that by (simp add: enc_def code_point_def is_surrogate_def del: of_char_eq_iff)
  qed
  ultimately show ?thesis
    using nx seq2_enc [of a s n r] seq3_enc [of a s n r] seq4_enc [of a s n r]
    by (auto simp: next_cp_def split: if_splits option.splits)
qed

function code_points :: "string \<Rightarrow> nat list" where
  "code_points [] = []"
| "code_points (a # s) = (let (n, r) = next_cp a s in n # code_points r)"
  by pat_completeness auto
termination
  by (relation "measure length") (auto dest!: next_cp_enc [OF sym])

definition encode :: "nat list \<Rightarrow> string" where
  "encode ns = concat (map enc ns)"

lemma code_points_valid: "\<forall>n \<in> set (code_points s). code_point n"
proof (induction s rule: code_points.induct)
  case (2 a s)
  obtain n r where "next_cp a s = (n, r)" by fastforce
  then show ?case using 2 next_cp_enc [of a s n r] by simp
qed simp

lemma encode_code_points [simp]: "encode (code_points s) = s"
proof (induction s rule: code_points.induct)
  case (2 a s)
  obtain n r where "next_cp a s = (n, r)" by fastforce
  then show ?case using 2 next_cp_enc [of a s n r] by (simp add: encode_def)
qed (simp add: encode_def)

lemma code_points_ascii: "ascii s \<Longrightarrow> code_points s = map of_char s"
  by (induction s) (simp_all add: ascii_def next_cp_def)

section \<open>White space and lines\<close>

text \<open>\<^verbatim>\<open>str.isspace\<close>, \<^verbatim>\<open>str.strip()\<close>, \<^verbatim>\<open>str.split()\<close> and \<^verbatim>\<open>str.splitlines()\<close>.\<close>

definition is_space :: "nat \<Rightarrow> bool" where
  "is_space n \<longleftrightarrow> n = 32 \<or> 9 \<le> n \<and> n \<le> 13 \<or> 28 \<le> n \<and> n \<le> 31 \<or> n = 0x85 \<or> n = 0xA0 \<or> n = 0x1680 \<or>
     0x2000 \<le> n \<and> n \<le> 0x200A \<or> n = 0x2028 \<or> n = 0x2029 \<or> n = 0x202F \<or> n = 0x205F \<or> n = 0x3000"

definition strip :: "string \<Rightarrow> string" where
  "strip s = encode (rev (dropWhile is_space (rev (dropWhile is_space (code_points s)))))"

text \<open>\<open>words w ns\<close>: the maximal runs of non-spaces; \<open>w\<close> is the current run, reversed.\<close>

fun words :: "nat list \<Rightarrow> nat list \<Rightarrow> nat list list" where
  "words w [] = (if w = [] then [] else [rev w])"
| "words w (n # ns) =
     (if is_space n then (if w = [] then [] else [rev w]) @ words [] ns else words (n # w) ns)"

definition split_ws :: "string \<Rightarrow> string list" where
  "split_ws s = map encode (words [] (code_points s))"

definition is_linebreak :: "nat \<Rightarrow> bool" where
  "is_linebreak n \<longleftrightarrow> 10 \<le> n \<and> n \<le> 13 \<or> 28 \<le> n \<and> n \<le> 30 \<or> n = 0x85 \<or> n = 0x2028 \<or> n = 0x2029"

text \<open>\<open>l\<close> is the current line, reversed; a carriage return takes a following line feed with it.\<close>

definition drop_lf :: "nat list \<Rightarrow> nat list" where
  "drop_lf ns = (case ns of [] \<Rightarrow> [] | m # ms \<Rightarrow> if m = 10 then ms else ns)"

lemma drop_lf_length [simp]: "length (drop_lf ns) < Suc (length ns)"
  by (auto simp: drop_lf_def split: list.split)

function lines :: "nat list \<Rightarrow> nat list \<Rightarrow> nat list list" where
  "lines l [] = (if l = [] then [] else [rev l])"
| "lines l (n # ns) =
     (if n = 13 then rev l # lines [] (drop_lf ns)
      else if is_linebreak n then rev l # lines [] ns
      else lines (n # l) ns)"
  by pat_completeness auto
termination
  by (relation "measure (length \<circ> snd)") auto

definition splitlines :: "string \<Rightarrow> string list" where
  "splitlines s = map encode (lines [] (code_points s))"

section \<open>Byte order marks\<close>

definition BOM :: string where
  "BOM = [CHR 0xEF, CHR 0xBB, CHR 0xBF]"

text \<open>\<^verbatim>\<open>bytes.decode("utf-8-sig")\<close>: one byte order mark is dropped; \<open>None\<close> is the \<^verbatim>\<open>UnicodeDecodeError\<close>.\<close>

definition decode_utf8_sig :: "string \<Rightarrow> string option" where
  "decode_utf8_sig b =
     (let s = (if startswith b BOM then drop (length BOM) b else b) in
      if list_ex is_surrogate (code_points s) then None else Some s)"

lemma code_points_BOM: "code_points (BOM @ s) = 0xFEFF # code_points s"
  by (simp add: BOM_def next_cp_def cont_def cbits_def is_surrogate_def Let_def)

lemma ascii_no_surrogate: "ascii s \<Longrightarrow> \<not> list_ex is_surrogate (code_points s)"
  by (simp add: code_points_ascii list_ex_iff) (auto simp: ascii_def is_surrogate_def)

lemma decode_utf8_sig_ascii:
  assumes "ascii s"
  shows "decode_utf8_sig s = Some s" "decode_utf8_sig (BOM @ s) = Some s"
proof -
  have "\<not> startswith s BOM" using assms by (simp add: startswith_def BOM_def ascii_def) (cases s, auto)
  then show "decode_utf8_sig s = Some s" "decode_utf8_sig (BOM @ s) = Some s"
    using ascii_no_surrogate [OF assms]
    by (simp_all add: decode_utf8_sig_def) (simp_all add: startswith_def BOM_def)
qed

end
