(* ===== verification/Json.thy ===== *)
theory Json
  imports Text
begin

text \<open>
  The JSON the program stores, hashes, signs and reads: \<^verbatim>\<open>json.dumps\<close> in the layouts the program
  uses, \<^verbatim>\<open>spine.canonical.canonical_bytes\<close> (the one encoding that is hashed and signed; the
  standalone verifiers and the chef repeat it) and \<^verbatim>\<open>json.loads\<close>.

  Numbers are integers: the program writes no floating-point number, and a text with one is
  outside the model (\<open>json_loads\<close> gives \<open>None\<close> for it, as for text that is not JSON).
  An escape for a surrogate that is not half of a pair is outside the model in the same way; so are
  Python's limits on the digits of a number and the nesting of a value.
  \<open>json_loads\<close> runs on fuel; \<open>pval_fuel\<close> shows that the amount it starts with is enough.
\<close>

datatype json =
    JNull
  | JBool bool
  | JInt int
  | JStr string
  | JArr "json list"
  | JObj "(string \<times> json) list"

section \<open>Well-formed and canonical values\<close>

text \<open>A Python dict has each key once; in a value built from dicts, that holds at every level.\<close>

fun wf_json :: "json \<Rightarrow> bool" where
  "wf_json (JArr js) \<longleftrightarrow> (\<forall>j \<in> set js. wf_json j)"
| "wf_json (JObj kvs) \<longleftrightarrow> wf_dict kvs \<and> (\<forall>p \<in> set kvs. wf_json (snd p))"
| "wf_json _ \<longleftrightarrow> True"

text \<open>\<^verbatim>\<open>sort_keys=True\<close> visits every dict in key order.\<close>

fun canon :: "json \<Rightarrow> json" where
  "canon (JArr js) = JArr (map canon js)"
| "canon (JObj kvs) = JObj (sort_key fst (map (\<lambda>p. (fst p, canon (snd p))) kvs))"
| "canon j = j"

section \<open>Encoding\<close>

text \<open>A nibble as a lower-case hexadecimal digit, and the \<^verbatim>\<open>ensure_ascii\<close> escape of one code point.\<close>

definition hex_digit :: "nat \<Rightarrow> char" where
  "hex_digit n = (if n < 10 then char_of (48 + n) else char_of (87 + n))"

definition u_escape :: "nat \<Rightarrow> string" where
  "u_escape n = [CHR 0x5C, CHR ''u'', hex_digit (n div 16 div 16 div 16), hex_digit (n div 16 div 16 mod 16),
     hex_digit (n div 16 mod 16), hex_digit (n mod 16)]"

definition esc_cp :: "nat \<Rightarrow> string" where
  "esc_cp n =
     (if n = 0x22 then [CHR 0x5C, CHR 0x22]
      else if n = 0x5C then [CHR 0x5C, CHR 0x5C]
      else if n = 0x08 then [CHR 0x5C, CHR ''b'']
      else if n = 0x0C then [CHR 0x5C, CHR ''f'']
      else if n = 0x0A then [CHR 0x5C, CHR ''n'']
      else if n = 0x0D then [CHR 0x5C, CHR ''r'']
      else if n = 0x09 then [CHR 0x5C, CHR ''t'']
      else if 32 \<le> n \<and> n < 127 then [char_of n]
      else if n < 0x10000 then u_escape n
      else u_escape (0xD800 + (n - 0x10000) div 0x400) @ u_escape (0xDC00 + (n - 0x10000) mod 0x400))"

definition dump_str :: "string \<Rightarrow> string" where
  "dump_str s = CHR 0x22 # concat (map esc_cp (code_points s)) @ [CHR 0x22]"

text \<open>
  The layouts: what follows an item, what follows a key, and what a line break at depth \<open>d\<close>
  is (nothing without \<^verbatim>\<open>indent\<close>).
\<close>

record jstyle =
  item_sep :: string
  key_sep :: string
  newline :: "nat \<Rightarrow> string"

definition compact_style :: jstyle where
  "compact_style = \<lparr>item_sep = '','', key_sep = '':'', newline = \<lambda>d. []\<rparr>"

definition default_style :: jstyle where
  "default_style = \<lparr>item_sep = '', '', key_sep = '': '', newline = \<lambda>d. []\<rparr>"

definition indent2_style :: jstyle where
  "indent2_style = \<lparr>item_sep = '','', key_sep = '': '',
     newline = \<lambda>d. CHR 0x0A # replicate (2 * d) (CHR '' '')\<rparr>"

fun dumps :: "jstyle \<Rightarrow> nat \<Rightarrow> json \<Rightarrow> string"
  and dumps_elems :: "jstyle \<Rightarrow> nat \<Rightarrow> json list \<Rightarrow> string"
  and dumps_items :: "jstyle \<Rightarrow> nat \<Rightarrow> (string \<times> json) list \<Rightarrow> string" where
  "dumps st d JNull = ''null''"
| "dumps st d (JBool b) = (if b then ''true'' else ''false'')"
| "dumps st d (JInt i) = string_of_int i"
| "dumps st d (JStr s) = dump_str s"
| "dumps st d (JArr []) = ''[]''"
| "dumps st d (JArr (j # js)) =
     ''['' @ newline st (Suc d) @ dumps_elems st (Suc d) (j # js) @ newline st d @ '']''"
| "dumps st d (JObj []) = ''{}''"
| "dumps st d (JObj (p # ps)) =
     ''{'' @ newline st (Suc d) @ dumps_items st (Suc d) (p # ps) @ newline st d @ ''}''"
| "dumps_elems st d [] = []"
| "dumps_elems st d (j # js) =
     dumps st d j @ (if js = [] then [] else item_sep st @ newline st d @ dumps_elems st d js)"
| "dumps_items st d [] = []"
| "dumps_items st d ((k, v) # ps) =
     dump_str k @ key_sep st @ dumps st d v @
     (if ps = [] then [] else item_sep st @ newline st d @ dumps_items st d ps)"

text \<open>\<^verbatim>\<open>canonical_bytes(obj)\<close>: sorted keys, no white space, ASCII.\<close>

definition canonical_bytes :: "json \<Rightarrow> string" where
  "canonical_bytes j = dumps compact_style 0 (canon j)"

section \<open>Decoding\<close>

definition is_ws :: "char \<Rightarrow> bool" where
  "is_ws c \<longleftrightarrow> c = CHR '' '' \<or> c = CHR 0x09 \<or> c = CHR 0x0A \<or> c = CHR 0x0D"

definition skip_ws :: "string \<Rightarrow> string" where
  "skip_ws s = dropWhile is_ws s"

definition hex_val :: "char \<Rightarrow> nat option" where
  "hex_val c = (let n = (of_char c :: nat) in
     if 48 \<le> n \<and> n \<le> 57 then Some (n - 48)
     else if 97 \<le> n \<and> n \<le> 102 then Some (n - 87)
     else if 65 \<le> n \<and> n \<le> 70 then Some (n - 55)
     else None)"

text \<open>The value of four hexadecimal digits.\<close>

definition hex4 :: "char \<Rightarrow> char \<Rightarrow> char \<Rightarrow> char \<Rightarrow> nat option" where
  "hex4 a b c d =
     (case (hex_val a, hex_val b, hex_val c, hex_val d) of
        (Some w, Some x, Some y, Some z) \<Rightarrow> Some (((w * 16 + x) * 16 + y) * 16 + z)
      | _ \<Rightarrow> None)"

definition unescape :: "char \<Rightarrow> char option" where
  "unescape e =
     (if e = CHR 0x22 \<or> e = CHR 0x5C \<or> e = CHR ''/'' then Some e
      else if e = CHR ''b'' then Some (CHR 0x08)
      else if e = CHR ''f'' then Some (CHR 0x0C)
      else if e = CHR ''n'' then Some (CHR 0x0A)
      else if e = CHR ''r'' then Some (CHR 0x0D)
      else if e = CHR ''t'' then Some (CHR 0x09)
      else None)"

definition push :: "string \<Rightarrow> (string \<times> string) option \<Rightarrow> (string \<times> string) option" where
  "push c r = map_option (\<lambda>(s, rest). (c @ s, rest)) r"

text \<open>
  The rest of a string literal, after its opening quote. Two escapes that are the halves of a
  surrogate pair are one code point.
\<close>

fun pstr :: "string \<Rightarrow> (string \<times> string) option" where
  "pstr [] = None"
| "pstr (c # cs) =
     (if c = CHR 0x22 then Some ([], cs)
      else if c = CHR 0x5C then
        (case cs of
           [] \<Rightarrow> None
         | e # es \<Rightarrow>
             if e = CHR ''u'' then
               (case es of
                  h1 # h2 # h3 # h4 # r \<Rightarrow>
                    (case hex4 h1 h2 h3 h4 of
                       None \<Rightarrow> None
                     | Some n \<Rightarrow>
                         if 0xD800 \<le> n \<and> n < 0xDC00 then
                           (case r of
                              b # u # h5 # h6 # h7 # h8 # r' \<Rightarrow>
                                (case hex4 h5 h6 h7 h8 of
                                   None \<Rightarrow> None
                                 | Some m \<Rightarrow>
                                     if b = CHR 0x5C \<and> u = CHR ''u'' \<and> 0xDC00 \<le> m \<and> m < 0xE000
                                     then push (enc (0x10000 + (n - 0xD800) * 0x400 + (m - 0xDC00))) (pstr r')
                                     else None)
                            | _ \<Rightarrow> None)
                         else if code_point n then push (enc n) (pstr r)
                         else None)
                | _ \<Rightarrow> None)
             else (case unescape e of None \<Rightarrow> None | Some x \<Rightarrow> push [x] (pstr es)))
      else if (of_char c :: nat) < 32 then None
      else push [c] (pstr cs))"

text \<open>A run of digits: a leading zero stands alone.\<close>

definition pnat :: "string \<Rightarrow> (nat \<times> string) option" where
  "pnat s =
     (case s of
        [] \<Rightarrow> None
      | c # cs \<Rightarrow>
          if c = CHR ''0'' then Some (0, cs)
          else if is_digit c then
            Some (nat_of_digits (takeWhile is_digit s), dropWhile is_digit s)
          else None)"

definition pnum :: "string \<Rightarrow> (json \<times> string) option" where
  "pnum s =
     (case s of
        [] \<Rightarrow> None
      | c # cs \<Rightarrow>
          if c = CHR ''-'' then map_option (\<lambda>(n, r). (JInt (- int n), r)) (pnat cs)
          else map_option (\<lambda>(n, r). (JInt (int n), r)) (pnat s))"

definition plit :: "string \<Rightarrow> json \<Rightarrow> string \<Rightarrow> (json \<times> string) option" where
  "plit w j s = (if startswith s w then Some (j, drop (length w) s) else None)"

text \<open>A value, the elements of an array, the items of an object.\<close>

fun pval :: "nat \<Rightarrow> string \<Rightarrow> (json \<times> string) option"
  and pelems :: "nat \<Rightarrow> string \<Rightarrow> (json list \<times> string) option"
  and pitems :: "nat \<Rightarrow> string \<Rightarrow> ((string \<times> json) list \<times> string) option" where
  "pval 0 s = None"
| "pval (Suc n) [] = None"
| "pval (Suc n) (c # cs) =
     (if c = CHR 0x22 then map_option (\<lambda>(t, r). (JStr t, r)) (pstr cs)
      else if c = CHR ''{'' then
        (if startswith (skip_ws cs) ''}'' then Some (JObj [], tl (skip_ws cs))
         else map_option (\<lambda>(ps, r). (JObj (dict_of ps), r)) (pitems n (skip_ws cs)))
      else if c = CHR ''['' then
        (if startswith (skip_ws cs) '']'' then Some (JArr [], tl (skip_ws cs))
         else map_option (\<lambda>(js, r). (JArr js, r)) (pelems n (skip_ws cs)))
      else if c = CHR ''n'' then plit ''null'' JNull (c # cs)
      else if c = CHR ''t'' then plit ''true'' (JBool True) (c # cs)
      else if c = CHR ''f'' then plit ''false'' (JBool False) (c # cs)
      else pnum (c # cs))"
| "pelems 0 s = None"
| "pelems (Suc n) s =
     (case pval n s of
        None \<Rightarrow> None
      | Some (j, r) \<Rightarrow>
          (case skip_ws r of
             [] \<Rightarrow> None
           | d # ds \<Rightarrow>
               if d = CHR '']'' then Some ([j], ds)
               else if d = CHR '','' then
                 map_option (\<lambda>(js, r'). (j # js, r')) (pelems n (skip_ws ds))
               else None))"
| "pitems 0 s = None"
| "pitems (Suc n) s =
     (case s of
        [] \<Rightarrow> None
      | c # cs \<Rightarrow>
          if c \<noteq> CHR 0x22 then None
          else (case pstr cs of
             None \<Rightarrow> None
           | Some (k, r) \<Rightarrow>
               (case skip_ws r of
                  [] \<Rightarrow> None
                | e # es \<Rightarrow>
                    if e \<noteq> CHR '':'' then None
                    else (case pval n (skip_ws es) of
                       None \<Rightarrow> None
                     | Some (v, r') \<Rightarrow>
                         (case skip_ws r' of
                            [] \<Rightarrow> None
                          | d # ds \<Rightarrow>
                              if d = CHR ''}'' then Some ([(k, v)], ds)
                              else if d = CHR '','' then
                                map_option (\<lambda>(ps, r''). ((k, v) # ps, r''))
                                  (pitems n (skip_ws ds))
                              else None)))))"

definition json_loads :: "string \<Rightarrow> json option" where
  "json_loads s =
     (case pval (2 * length s + 2) (skip_ws s) of
        None \<Rightarrow> None
      | Some (j, r) \<Rightarrow> if skip_ws r = [] then Some j else None)"

section \<open>Round trip\<close>

subsection \<open>Strings\<close>

lemma hex_val_digit: "n < 16 \<Longrightarrow> hex_val (hex_digit n) = Some n"
  by (auto simp: hex_val_def hex_digit_def Let_def)

lemma nibble_join: "(z::nat) < 16 \<Longrightarrow> (x * 16 + z) div 16 = x \<and> (x * 16 + z) mod 16 = z"
  by simp

lemma hex4_esc:
  assumes "n < 0x10000"
  shows "hex4 (hex_digit (n div 16 div 16 div 16)) (hex_digit (n div 16 div 16 mod 16))
    (hex_digit (n div 16 mod 16)) (hex_digit (n mod 16)) = Some n"
proof -
  have "n div 16 div 16 div 16 < 16" using assms by (simp add: div_mult2_eq [symmetric] less_mult_imp_div_less)
  moreover have "n div 16 div 16 div 16 * 16 + n div 16 div 16 mod 16 = n div 16 div 16"
    "n div 16 div 16 * 16 + n div 16 mod 16 = n div 16" "n div 16 * 16 + n mod 16 = n"
    by (rule div_mult_mod_eq)+
  ultimately show ?thesis by (simp add: hex4_def hex_val_digit del: div_mult2_eq)
qed

lemma pstr_u_escape:
  assumes "n < 0x10000" and "code_point n" and "\<not> (0xD800 \<le> n \<and> n < 0xDC00)"
  shows "pstr (u_escape n @ t) = push (enc n) (pstr t)"
  using assms by (auto simp: u_escape_def hex4_esc)

lemma pstr_pair:
  assumes "0x10000 \<le> n" and "n < 0x110000"
  shows "pstr (u_escape (0xD800 + (n - 0x10000) div 0x400) @ u_escape (0xDC00 + (n - 0x10000) mod 0x400) @ t) =
    push (enc n) (pstr t)"
proof -
  let ?k = "n - 0x10000"
  have k: "?k div 0x400 < 0x400" "?k mod 0x400 < 0x400"
    using assms by (auto intro: less_mult_imp_div_less)
  have "0x10000 + (0xD800 + ?k div 0x400 - 0xD800) * 0x400 + (0xDC00 + ?k mod 0x400 - 0xDC00) =
      0x10000 + (?k div 0x400 * 0x400 + ?k mod 0x400)" by simp
  also have "\<dots> = n" using assms by (simp only: div_mult_mod_eq)
  finally show ?thesis
    using k by (simp add: u_escape_def hex4_esc)
qed

lemma char_of_escapes:
  "char_of (34::nat) = CHR 0x22" "char_of (92::nat) = CHR 0x5C" "char_of (8::nat) = CHR 0x08"
  "char_of (12::nat) = CHR 0x0C" "char_of (10::nat) = CHR 0x0A" "char_of (13::nat) = CHR 0x0D"
  "char_of (9::nat) = CHR 0x09"
  by code_simp+

lemma pstr_esc_cp: "code_point n \<Longrightarrow> pstr (esc_cp n @ t) = push (enc n) (pstr t)"
proof -
  assume n: "code_point n"
  consider "n \<in> {0x22, 0x5C, 0x08, 0x0C, 0x0A, 0x0D, 0x09}" | "n \<notin> {0x22, 0x5C}" "32 \<le> n" "n < 127"
    | "n \<notin> {0x22, 0x5C, 0x08, 0x0C, 0x0A, 0x0D, 0x09}" "\<not> (32 \<le> n \<and> n < 127)" "n < 0x10000"
    | "0x10000 \<le> n" by fastforce
  then show ?thesis
  proof cases
    case 1
    then show ?thesis by (auto simp: esc_cp_def unescape_def enc_def char_of_escapes)
  next
    case 2
    then have v: "(of_char (char_of n :: char) :: nat) = n" by simp
    have "char_of n \<noteq> c" if "n \<noteq> of_char c" for c using v that by metis
    moreover have "n \<noteq> of_char (CHR 0x22)" "n \<noteq> of_char (CHR 0x5C)" using 2 by simp_all
    moreover note v
    ultimately show ?thesis using 2 by (simp add: esc_cp_def enc_def)
  next
    case 3
    moreover have "\<not> (0xD800 \<le> n \<and> n < 0xDC00)" using n by (auto simp: code_point_def is_surrogate_def)
    moreover have "esc_cp n = u_escape n" using 3 by (auto simp: esc_cp_def)
    ultimately show ?thesis using n by (simp only: pstr_u_escape simp_thms)
  next
    case 4
    then have "esc_cp n = u_escape (0xD800 + (n - 0x10000) div 0x400) @ u_escape (0xDC00 + (n - 0x10000) mod 0x400)"
      by (simp add: esc_cp_def)
    moreover have "n < 0x110000" using n by (simp add: code_point_def)
    ultimately show ?thesis using pstr_pair [OF 4] by simp
  qed
qed

lemma pstr_dump: "pstr (concat (map esc_cp (code_points s)) @ CHR 0x22 # r) = Some (s, r)"
proof (induction s rule: code_points.induct)
  case (2 a s)
  obtain n t where nx: "next_cp a s = (n, t)" by fastforce
  with 2 next_cp_enc [OF nx] show ?case by (simp add: pstr_esc_cp push_def)
qed simp

lemma dump_str_inj: "dump_str s = dump_str t \<Longrightarrow> s = t"
proof -
  assume "dump_str s = dump_str t"
  then have "pstr (concat (map esc_cp (code_points s)) @ [CHR 0x22]) =
      pstr (concat (map esc_cp (code_points t)) @ [CHR 0x22])"
    by (simp add: dump_str_def)
  then show ?thesis by (simp add: pstr_dump)
qed

subsection \<open>Numbers\<close>

definition no_digit :: "string \<Rightarrow> bool" where
  "no_digit r \<longleftrightarrow> (case r of [] \<Rightarrow> True | c # _ \<Rightarrow> \<not> is_digit c)"

lemma no_digit_simps [simp]:
  "no_digit []" "no_digit (c # cs) \<longleftrightarrow> \<not> is_digit c"
  by (simp_all add: no_digit_def)

lemma takeWhile_digits: "\<forall>c \<in> set s. is_digit c \<Longrightarrow> no_digit r \<Longrightarrow>
    takeWhile is_digit (s @ r) = s \<and> dropWhile is_digit (s @ r) = r"
  by (induction s) (auto simp: no_digit_def split: list.splits)

lemma pnat_string_of_nat: "no_digit r \<Longrightarrow> pnat (string_of_nat n @ r) = Some (n, r)"
proof -
  assume r: "no_digit r"
  obtain c cs where n: "string_of_nat n = c # cs" "is_digit c"
      "c = CHR ''0'' \<longrightarrow> n = 0 \<and> cs = []"
    using string_of_nat_head [of n] by blast
  have "takeWhile is_digit (string_of_nat n @ r) = string_of_nat n \<and>
        dropWhile is_digit (string_of_nat n @ r) = r"
    using string_of_nat_digits r by (rule takeWhile_digits)
  then have "takeWhile is_digit (c # cs @ r) = c # cs \<and> dropWhile is_digit (c # cs @ r) = r"
    using n(1) by simp
  moreover have "nat_of_digits (c # cs) = n" using nat_of_string_of_nat [of n] n(1) by simp
  ultimately show ?thesis
    using n by (auto simp: pnat_def)
qed

lemma is_digit_literals [simp]:
  "\<not> is_digit (CHR ''-'')" "\<not> is_digit (CHR 0x22)" "\<not> is_digit (CHR ''{'')"
  "\<not> is_digit (CHR ''['')" "\<not> is_digit (CHR '']'')" "\<not> is_digit (CHR ''}'')"
  "\<not> is_digit (CHR '','')" "\<not> is_digit (CHR '':'')" "\<not> is_digit (CHR ''n'')"
  "\<not> is_digit (CHR ''t'')" "\<not> is_digit (CHR ''f'')" "\<not> is_digit (CHR '' '')"
  "\<not> is_digit (CHR 0x0A)" "\<not> is_digit (CHR 0x0D)" "\<not> is_digit (CHR 0x09)"
  by (simp_all add: is_digit_def)

lemma ws_not_digit: "is_ws c \<Longrightarrow> \<not> is_digit c"
  by (auto simp: is_ws_def)

lemma pnum_string_of_int: "no_digit r \<Longrightarrow> pnum (string_of_int i @ r) = Some (JInt i, r)"
proof -
  assume r: "no_digit r"
  obtain c cs where n: "string_of_nat (nat i) = c # cs" "is_digit c"
    using string_of_nat_head [of "nat i"] by blast
  show ?thesis
  proof (cases "i < 0")
    case True
    then show ?thesis
      using r by (simp add: string_of_int_def pnum_def pnat_string_of_nat)
  next
    case False
    have "c \<noteq> CHR ''-''" using n(2) by auto
    moreover have "pnat (c # cs @ r) = Some (nat i, r)"
      using pnat_string_of_nat [OF r, of "nat i"] n(1) by simp
    ultimately show ?thesis
      using False n(1) by (simp add: string_of_int_def pnum_def)
  qed
qed

lemma string_of_int_head:
  "\<exists>c cs. string_of_int i = c # cs \<and> (c = CHR ''-'' \<or> is_digit c)"
  using string_of_nat_head [of "nat i"] by (auto simp: string_of_int_def)

lemma pval_string_of_int:
  "no_digit r \<Longrightarrow> pval (Suc n) (string_of_int i @ r) = Some (JInt i, r)"
proof -
  assume r: "no_digit r"
  obtain c cs where c: "string_of_int i = c # cs" "c = CHR ''-'' \<or> is_digit c"
    using string_of_int_head by blast
  have ne: "c \<noteq> CHR 0x22" "c \<noteq> CHR ''{''" "c \<noteq> CHR ''[''" "c \<noteq> CHR ''n''"
      "c \<noteq> CHR ''t''" "c \<noteq> CHR ''f''"
    using c(2) by auto
  have "pnum (c # cs @ r) = Some (JInt i, r)"
    using pnum_string_of_int [OF r, of i] c(1) by simp
  with ne c(1) show ?thesis by simp
qed

subsection \<open>White space and first characters\<close>

definition all_ws :: "string \<Rightarrow> bool" where
  "all_ws w \<longleftrightarrow> (\<forall>c \<in> set w. is_ws c)"

lemma all_ws_simps [simp]:
  "all_ws []" "all_ws (c # w) \<longleftrightarrow> is_ws c \<and> all_ws w"
  by (auto simp: all_ws_def)

lemma skip_ws_append: "all_ws w \<Longrightarrow> skip_ws (w @ s) = skip_ws s"
  by (induction w) (auto simp: skip_ws_def)

lemma skip_ws_Cons: "\<not> is_ws c \<Longrightarrow> skip_ws (c # s) = c # s"
  by (simp add: skip_ws_def)

lemma skip_ws_length: "length (skip_ws s) \<le> length s"
  by (simp add: skip_ws_def length_dropWhile_le)

lemma is_ws_literals [simp]:
  "\<not> is_ws (CHR '']'')" "\<not> is_ws (CHR ''}'')" "\<not> is_ws (CHR '','')" "\<not> is_ws (CHR '':'')"
  "\<not> is_ws (CHR 0x22)" "\<not> is_ws (CHR ''['')" "\<not> is_ws (CHR ''{'')" "\<not> is_ws (CHR ''-'')"
  "\<not> is_ws (CHR ''n'')" "\<not> is_ws (CHR ''t'')" "\<not> is_ws (CHR ''f'')"
  "is_ws (CHR '' '')" "is_ws (CHR 0x0A)"
  by (simp_all add: is_ws_def)

definition style_ok :: "jstyle \<Rightarrow> bool" where
  "style_ok st \<longleftrightarrow> (\<exists>w. item_sep st = CHR '','' # w \<and> all_ws w) \<and>
     (\<exists>w. key_sep st = CHR '':'' # w \<and> all_ws w) \<and> (\<forall>d. all_ws (newline st d))"

lemma style_ok_layouts [simp]:
  "style_ok compact_style" "style_ok default_style" "style_ok indent2_style"
  by (auto simp: style_ok_def compact_style_def default_style_def indent2_style_def all_ws_def)

definition value_start :: "char \<Rightarrow> bool" where
  "value_start c \<longleftrightarrow> \<not> is_ws c \<and> c \<noteq> CHR '']'' \<and> c \<noteq> CHR ''}''"

lemma value_start_digit: "is_digit c \<Longrightarrow> value_start c"
  using ws_not_digit by (auto simp: value_start_def)

lemma dumps_head: "\<exists>c cs. dumps st d j = c # cs \<and> value_start c"
proof (cases j)
  case (JInt i)
  then show ?thesis
    using string_of_int_head [of i] value_start_digit by (auto simp: value_start_def)
next
  case (JArr js)
  then show ?thesis by (cases js) (auto simp: value_start_def)
next
  case (JObj ps)
  then show ?thesis by (cases ps) (auto simp: value_start_def)
qed (auto simp: value_start_def dump_str_def)

lemma dumps_nonempty: "0 < length (dumps st d j)"
  using dumps_head [of st d j] by auto

lemma dumps_elems_head: "js \<noteq> [] \<Longrightarrow> \<exists>c cs. dumps_elems st d js = c # cs \<and> value_start c"
proof (cases js)
  case (Cons j js')
  then show ?thesis using dumps_head [of st d j] by auto
qed simp

lemma dumps_items_head: "ps \<noteq> [] \<Longrightarrow> \<exists>cs. dumps_items st d ps = CHR 0x22 # cs"
  by (cases ps) (auto simp: dump_str_def)

lemma skip_ws_head: "s = c # cs \<Longrightarrow> value_start c \<Longrightarrow> skip_ws (s @ t) = s @ t"
  by (simp add: skip_ws_Cons value_start_def)

lemma no_digit_ws: "all_ws w \<Longrightarrow> no_digit t \<Longrightarrow> no_digit (w @ t)"
  by (cases w) (auto dest: ws_not_digit)

subsection \<open>Reading back what was written\<close>

text \<open>\<open>reads_value n j t\<close>: at fuel \<open>n\<close>, the parser reads \<open>t\<close> as \<open>j\<close> whatever (but a digit) follows.\<close>

definition reads_value :: "nat \<Rightarrow> json \<Rightarrow> string \<Rightarrow> bool" where
  "reads_value n j t \<longleftrightarrow> (\<forall>r. no_digit r \<longrightarrow> pval n (t @ r) = Some (j, r))"

lemma reads_valueI: "(\<And>r. no_digit r \<Longrightarrow> pval n (t @ r) = Some (j, r)) \<Longrightarrow> reads_value n j t"
  by (simp add: reads_value_def)

lemma reads_valueD: "reads_value n j t \<Longrightarrow> no_digit r \<Longrightarrow> pval n (t @ r) = Some (j, r)"
  by (simp add: reads_value_def)

lemma style_parts:
  assumes "style_ok st"
  obtains u w where "item_sep st = CHR '','' # u" "all_ws u" "key_sep st = CHR '':'' # w" "all_ws w"
    "\<And>d. all_ws (newline st d)"
  using assms by (auto simp: style_ok_def)

lemma pelems_last:
  assumes "reads_value n j (dumps st d j)" and "all_ws w"
  shows "pelems (Suc n) (dumps_elems st d [j] @ w @ CHR '']'' # r) = Some ([j], r)"
  using assms by (simp add: reads_valueD no_digit_ws skip_ws_append skip_ws_Cons)

lemma pelems_more:
  assumes st: "style_ok st" and js: "js \<noteq> []" and v: "reads_value n j (dumps st d j)"
    and IH: "pelems n (dumps_elems st d js @ w @ CHR '']'' # r) = Some (js, r)"
  shows "pelems (Suc n) (dumps_elems st d (j # js) @ w @ CHR '']'' # r) = Some (j # js, r)"
proof -
  obtain u where u: "item_sep st = CHR '','' # u" "all_ws u" "all_ws (newline st d)"
    using st by (rule style_parts) blast
  let ?t = "dumps_elems st d js @ w @ CHR '']'' # r"
  obtain c cs where h: "dumps_elems st d js = c # cs" "value_start c"
    using dumps_elems_head [OF js] by blast
  have "skip_ws (u @ newline st d @ ?t) = ?t"
    using skip_ws_append u skip_ws_head [OF h] by simp
  moreover have "pval n (dumps st d j @ item_sep st @ newline st d @ ?t) =
      Some (j, item_sep st @ newline st d @ ?t)"
    using v u by (intro reads_valueD) auto
  ultimately show ?thesis using IH js u by (simp add: skip_ws_Cons)
qed

lemma pitems_key:
  assumes st: "style_ok st" and v: "reads_value n v (dumps st d v)" and r: "no_digit r"
  shows "pitems (Suc n) (dump_str k @ key_sep st @ dumps st d v @ r) =
     (case skip_ws r of
        [] \<Rightarrow> None
      | c # ds \<Rightarrow>
          if c = CHR ''}'' then Some ([(k, v)], ds)
          else if c = CHR '','' then
            map_option (\<lambda>(ps, r''). ((k, v) # ps, r'')) (pitems n (skip_ws ds))
          else None)"
proof -
  obtain w where w: "key_sep st = CHR '':'' # w" "all_ws w" using st by (rule style_parts)
  obtain c cs where h: "dumps st d v = c # cs" "value_start c" using dumps_head by blast
  have "skip_ws (w @ dumps st d v @ r) = dumps st d v @ r"
    using skip_ws_append [OF w(2)] skip_ws_head [OF h, of r] by simp
  then show ?thesis
    using reads_valueD [OF v r] w(1) by (simp add: dump_str_def pstr_dump skip_ws_Cons)
qed

lemma pitems_last:
  assumes "style_ok st" and "reads_value n v (dumps st d v)" and "all_ws w"
  shows "pitems (Suc n) (dumps_items st d [(k, v)] @ w @ CHR ''}'' # r) = Some ([(k, v)], r)"
  using pitems_key [OF assms(1,2), of "w @ CHR ''}'' # r" k] assms(3)
  by (simp add: no_digit_ws skip_ws_append skip_ws_Cons)

lemma pitems_more:
  assumes st: "style_ok st" and ps: "ps \<noteq> []" and v: "reads_value n v (dumps st d v)"
    and IH: "pitems n (dumps_items st d ps @ w @ CHR ''}'' # r) = Some (ps, r)"
  shows "pitems (Suc n) (dumps_items st d ((k, v) # ps) @ w @ CHR ''}'' # r) = Some ((k, v) # ps, r)"
proof -
  obtain u where u: "item_sep st = CHR '','' # u" "all_ws u" "all_ws (newline st d)"
    using st by (rule style_parts) blast
  let ?t = "dumps_items st d ps @ w @ CHR ''}'' # r"
  let ?r = "item_sep st @ newline st d @ ?t"
  obtain cs where h: "dumps_items st d ps = CHR 0x22 # cs" using dumps_items_head [OF ps] by blast
  have "skip_ws (u @ newline st d @ ?t) = ?t"
    using skip_ws_append u h by (simp add: skip_ws_Cons)
  then show ?thesis
    using pitems_key [OF st v, of ?r k] IH ps u by (simp add: skip_ws_Cons)
qed

lemma pval_array:
  assumes st: "style_ok st"
    and IH: "pelems n (dumps_elems st (Suc d) (j # js) @ newline st d @ CHR '']'' # r) = Some (j # js, r)"
  shows "pval (Suc n) (dumps st d (JArr (j # js)) @ r) = Some (JArr (j # js), r)"
proof -
  let ?t = "dumps_elems st (Suc d) (j # js) @ newline st d @ CHR '']'' # r"
  obtain c cs where h: "dumps_elems st (Suc d) (j # js) = c # cs" "value_start c"
    using dumps_elems_head [of "j # js"] by blast
  have "all_ws (newline st (Suc d))" using st by (rule style_parts)
  then have "skip_ws (newline st (Suc d) @ ?t) = ?t"
    using skip_ws_append skip_ws_head [OF h] by simp
  moreover have "\<not> startswith ?t '']''"
    using h by (auto simp: startswith_def value_start_def)
  ultimately show ?thesis using IH by (simp del: dumps_elems.simps pelems.simps)
qed

lemma pval_object:
  assumes st: "style_ok st" and wf: "wf_dict (p # ps)"
    and IH: "pitems n (dumps_items st (Suc d) (p # ps) @ newline st d @ CHR ''}'' # r) = Some (p # ps, r)"
  shows "pval (Suc n) (dumps st d (JObj (p # ps)) @ r) = Some (JObj (p # ps), r)"
proof -
  let ?t = "dumps_items st (Suc d) (p # ps) @ newline st d @ CHR ''}'' # r"
  obtain cs where h: "dumps_items st (Suc d) (p # ps) = CHR 0x22 # cs"
    using dumps_items_head [of "p # ps"] by blast
  have "all_ws (newline st (Suc d))" using st by (rule style_parts)
  then have "skip_ws (newline st (Suc d) @ ?t) = ?t"
    using skip_ws_append h by (simp add: skip_ws_Cons)
  moreover have "\<not> startswith ?t ''}''" using h by (auto simp: startswith_def)
  ultimately show ?thesis
    using IH dict_of_distinct [OF wf] by (simp del: dumps_items.simps pitems.simps)
qed

lemma pval_scalars:
  "reads_value (Suc n) JNull (dumps st d JNull)"
  "reads_value (Suc n) (JBool b) (dumps st d (JBool b))"
  "reads_value (Suc n) (JStr t) (dumps st d (JStr t))"
  "reads_value (Suc n) (JInt i) (dumps st d (JInt i))"
  "reads_value (Suc n) (JArr []) (dumps st d (JArr []))"
  "reads_value (Suc n) (JObj []) (dumps st d (JObj []))"
proof -
  show "reads_value (Suc n) (JInt i) (dumps st d (JInt i))"
    by (simp add: reads_value_def pval_string_of_int del: pval.simps)
qed (simp_all add: reads_value_def plit_def startswith_def dump_str_def pstr_dump skip_ws_Cons)

lemma Suc_fuel:
  assumes "2 * length (dumps st d j) \<le> n"
  obtains m where "n = Suc m" "2 * length (dumps st d j) \<le> Suc m"
  using assms dumps_nonempty [of st d j] by (cases n) auto

definition is_leaf :: "json \<Rightarrow> bool" where
  "is_leaf j \<longleftrightarrow> (case j of JArr js \<Rightarrow> js = [] | JObj ps \<Rightarrow> ps = [] | _ \<Rightarrow> True)"

lemma leaf_reads:
  assumes "is_leaf j" and "2 * length (dumps st d j) \<le> n"
  shows "reads_value n j (dumps st d j)"
proof -
  obtain m where "n = Suc m" using assms(2) by (rule Suc_fuel)
  with assms(1) show ?thesis
    by (cases j) (simp_all add: is_leaf_def pval_scalars del: dumps.simps)
qed

lemma dumps_reads:
  "style_ok st \<Longrightarrow> wf_json j \<Longrightarrow> 2 * length (dumps st d j) \<le> n \<Longrightarrow> reads_value n j (dumps st d j)"
  "style_ok st \<Longrightarrow> js \<noteq> [] \<Longrightarrow> (\<forall>j \<in> set js. wf_json j) \<Longrightarrow>
     2 * length (dumps_elems st d js) + 1 \<le> n \<Longrightarrow> all_ws w \<Longrightarrow>
     pelems n (dumps_elems st d js @ w @ CHR '']'' # r) = Some (js, r)"
  "style_ok st \<Longrightarrow> ps \<noteq> [] \<Longrightarrow> (\<forall>p \<in> set ps. wf_json (snd p)) \<Longrightarrow>
     2 * length (dumps_items st d ps) + 1 \<le> n \<Longrightarrow> all_ws w \<Longrightarrow>
     pitems n (dumps_items st d ps @ w @ CHR ''}'' # r) = Some (ps, r)"
proof (induction st d j and st d js and st d ps arbitrary: n and n r w and n r w
    rule: dumps_dumps_elems_dumps_items.induct)
  case (6 st d j js)
  from 6(4) obtain m where n: "n = Suc m" by (rule Suc_fuel)
  have nl: "all_ws (newline st d)" using 6(2) by (rule style_parts)
  show ?case unfolding n
    using 6(2-4) n nl by (intro reads_valueI pval_array 6(1)) auto
next
  case (8 st d p ps)
  from 8(4) obtain m where n: "n = Suc m" by (rule Suc_fuel)
  have nl: "all_ws (newline st d)" using 8(2) by (rule style_parts)
  show ?case unfolding n
    using 8(2-4) n nl by (intro reads_valueI pval_object 8(1)) auto
next
  case (10 st d j js)
  from 10(6) obtain m where n: "n = Suc m" by (cases n) auto
  have v: "reads_value m j (dumps st d j)"
    using 10(3-6) n by (intro 10(1)) auto
  show ?case
  proof (cases "js = []")
    case True
    with v 10(7) show ?thesis unfolding n by (simp only: pelems_last)
  next
    case False
    then have "pelems m (dumps_elems st d js @ w @ CHR '']'' # r) = Some (js, r)"
      using 10(3-7) n by (intro 10(2)) (auto elim: style_parts)
    with 10(3) False v show ?thesis unfolding n by (rule pelems_more)
  qed
next
  case (12 st d k v ps)
  from 12(6) obtain m where n: "n = Suc m" by (cases n) auto
  have v: "reads_value m v (dumps st d v)"
    using 12(3-6) n by (intro 12(1)) auto
  show ?case
  proof (cases "ps = []")
    case True
    with 12(3) v 12(7) show ?thesis unfolding n by (simp only: pitems_last)
  next
    case False
    then have "pitems m (dumps_items st d ps @ w @ CHR ''}'' # r) = Some (ps, r)"
      using 12(3-7) n by (intro 12(2)) (auto elim: style_parts)
    with 12(3) False v show ?thesis unfolding n by (rule pitems_more)
  qed
qed (rule leaf_reads, simp add: is_leaf_def, assumption | simp)+

text \<open>Any of the program's layouts reads back as the value it was written from.\<close>

lemma loads_dumps:
  assumes st: "style_ok st" and wf: "wf_json j" and w: "all_ws w"
  shows "json_loads (dumps st 0 j @ w) = Some j"
proof -
  let ?s = "dumps st 0 j @ w"
  have "reads_value (2 * length ?s + 2) j (dumps st 0 j)"
    using st wf by (rule dumps_reads) simp
  then have "pval (2 * length ?s + 2) ?s = Some (j, w)"
    using no_digit_ws [OF w, of "[]"] by (intro reads_valueD) auto
  moreover obtain c cs where h: "dumps st 0 j = c # cs" "value_start c"
    using dumps_head by blast
  ultimately show ?thesis
    using skip_ws_head [OF h, of w] skip_ws_append [OF w, of "[]"]
    by (simp add: json_loads_def skip_ws_def [of "[]"])
qed

section \<open>The characters of an encoding\<close>

text \<open>Between the separators of the layout, an encoding has only the visible ASCII characters.\<close>

definition visible :: "char \<Rightarrow> bool" where
  "visible c \<longleftrightarrow> 32 \<le> (of_char c :: nat) \<and> (of_char c :: nat) < 127"

lemma visible_string_of_int: "list_all visible (string_of_int i)"
  using string_of_nat_digits [of "nat i"] string_of_nat_digits [of "nat (- i)"]
  by (auto simp: string_of_int_def list_all_iff visible_def is_digit_def)

lemma visible_hex_digit: "n < 16 \<Longrightarrow> visible (hex_digit n)"
  by (simp add: hex_digit_def visible_def)

lemma visible_u_escape: "n < 0x10000 \<Longrightarrow> list_all visible (u_escape n)"
proof -
  assume "n < 0x10000"
  then have "n div 16 div 16 div 16 < 16" by simp
  then show ?thesis
    by (simp add: u_escape_def visible_hex_digit del: div_mult2_eq) (simp add: visible_def)
qed

lemma visible_esc_cp: "code_point n \<Longrightarrow> list_all visible (esc_cp n)"
proof -
  assume n: "code_point n"
  have "list_all visible (u_escape n)" if "n < 0x10000" using that by (rule visible_u_escape)
  moreover have "list_all visible (u_escape (0xD800 + (n - 0x10000) div 0x400))"
    "list_all visible (u_escape (0xDC00 + (n - 0x10000) mod 0x400))"
    using n by (auto intro!: visible_u_escape simp: code_point_def)
  moreover have "visible c" if "c \<in> {CHR 0x5C, CHR 0x22, CHR ''b'', CHR ''f'', CHR ''n'', CHR ''r'', CHR ''t''}" for c
    using that by (auto simp: visible_def)
  moreover have "visible (char_of n)" if "32 \<le> n" "n < 127" using that by (simp add: visible_def)
  ultimately show ?thesis by (simp add: esc_cp_def)
qed

lemma visible_dump_str: "list_all visible (dump_str s)"
proof -
  have "list_all visible (concat (map esc_cp ns))" if "\<forall>n \<in> set ns. code_point n" for ns
    using that by (induction ns) (auto simp: visible_esc_cp)
  moreover have "visible CHR 0x22" by (simp add: visible_def)
  ultimately show ?thesis using code_points_valid by (simp add: dump_str_def)
qed

lemma dumps_chars:
  assumes P: "\<And>c. visible c \<Longrightarrow> P c"
    and st: "list_all P (item_sep st)" "list_all P (key_sep st)" "\<And>d. list_all P (newline st d)"
  shows "list_all P (dumps st d j)" "list_all P (dumps_elems st d js)" "list_all P (dumps_items st d ps)"
proof -
  have lift: "list_all P s" if "list_all visible s" for s using that P by (auto simp: list_all_iff)
  have lits: "list_all visible ''null''" "list_all visible ''true''" "list_all visible ''false''"
    "visible CHR ''[''" "visible CHR '']''" "visible CHR ''{''" "visible CHR ''}''"
    by (simp_all add: visible_def)
  note facts = lift [OF lits(1)] lift [OF lits(2)] lift [OF lits(3)] lits(4-7) [THEN P]
    lift [OF visible_dump_str] lift [OF visible_string_of_int]
  show "list_all P (dumps st d j)" "list_all P (dumps_elems st d js)" "list_all P (dumps_items st d ps)"
    using st
    by (induction st d j and st d js and st d ps rule: dumps_dumps_elems_dumps_items.induct)
      (use facts in simp_all)
qed

lemma all_ws_ascii: "all_ws w \<Longrightarrow> ascii w"
proof -
  have "(of_char c :: nat) < 128" if "is_ws c" for c
    using that unfolding is_ws_def by (elim disjE) simp_all
  then show "all_ws w \<Longrightarrow> ascii w" by (induction w) simp_all
qed

lemma dumps_ascii: "style_ok st \<Longrightarrow> ascii (dumps st d j)"
proof -
  assume "style_ok st"
  then have "ascii (item_sep st)" "ascii (key_sep st)" "ascii (newline st d)" for d
    by (auto simp: style_ok_def all_ws_ascii)
  then have "list_all (\<lambda>c. (of_char c :: nat) < 128) (dumps st d j)"
    by (intro dumps_chars) (auto simp: visible_def ascii_def list_all_iff)
  then show ?thesis by (simp add: ascii_def list_all_iff)
qed

lemma dumps_no_cr: "CHR 0x0D \<notin> set (dumps indent2_style d j)"
proof -
  have "list_all (\<lambda>c. c \<noteq> CHR 0x0D) (dumps indent2_style d j)"
    by (intro dumps_chars) (auto simp: visible_def indent2_style_def list_all_iff)
  then show ?thesis by (auto simp: list_all_iff)
qed

section \<open>Canonical form\<close>

abbreviation canon_item :: "string \<times> json \<Rightarrow> string \<times> json" where
  "canon_item p \<equiv> (fst p, canon (snd p))"

lemma wf_canon: "wf_json j \<Longrightarrow> wf_json (canon j)"
  by (induction j rule: canon.induct) (auto simp: wf_dict_def map_fst_sort_key comp_def)

lemma map_sort_key_fst:
  fixes d :: "('k::linorder \<times> 'v) list"
  assumes "\<And>p. fst (g p) = fst p"
  shows "map g (sort_key fst d) = sort_key fst (map g d)"
proof -
  have "map g (insort_key fst p d) = insort_key fst (g p) (map g d)" for p d
    using assms by (induction d) auto
  then show ?thesis by (induction d) auto
qed

lemma sort_key_idem: "sort_key fst (sort_key fst d) = sort_key fst (d :: ('k::linorder \<times> 'v) list)"
  by (simp add: sort_key_id_if_sorted)

lemma canon_idem [simp]: "canon (canon j) = canon j"
proof (induction j rule: canon.induct)
  case (2 kvs)
  then have "map (\<lambda>p. canon_item (canon_item p)) kvs = map canon_item kvs"
    by auto
  then show ?case by (simp add: map_sort_key_fst sort_key_idem comp_def del: map_eq_conv)
qed simp_all


text \<open>
  What is hashed and signed determines the value up to the order of keys, and reading it back
  gives that value in key order.
\<close>

lemma loads_canonical: "wf_json j \<Longrightarrow> json_loads (canonical_bytes j) = Some (canon j)"
  using loads_dumps [of compact_style "canon j" "[]"] by (simp add: canonical_bytes_def wf_canon)

lemma canonical_bytes_inj:
  "wf_json j \<Longrightarrow> wf_json k \<Longrightarrow> canonical_bytes j = canonical_bytes k \<longleftrightarrow> canon j = canon k"
  by (metis canonical_bytes_def loads_canonical option.inject)

lemma canonical_bytes_canon [simp]: "canonical_bytes (canon j) = canonical_bytes j"
  by (simp add: canonical_bytes_def)

lemma map_of_canon_obj:
  "wf_dict kvs \<Longrightarrow> map_of (sort_key fst (map canon_item kvs)) k = map_option canon (map_of kvs k)"
  using map_of_map_snd [of canon kvs k]
  by (subst map_of_sort_key) (auto simp: wf_dict_def comp_def case_prod_unfold)

text \<open>Taking a field away before or after sorting is the same.\<close>

lemma canon_filter_keys:
  "canon (JObj (filter (\<lambda>p. Q (fst p)) (sort_key fst (map canon_item kvs)))) =
   canon (JObj (filter (\<lambda>p. Q (fst p)) kvs))"
proof -
  have f: "filter (\<lambda>p. Q (fst p)) (map canon_item ds) = map canon_item (filter (\<lambda>p. Q (fst p)) ds)" for ds
    by (induction ds) auto
  have "map canon_item (filter (\<lambda>p. Q (fst p)) (sort_key fst (map canon_item kvs))) =
      sort_key fst (map canon_item (map canon_item (filter (\<lambda>p. Q (fst p)) kvs)))"
    by (simp only: filter_sort f) (simp add: map_sort_key_fst)
  also have "map canon_item (map canon_item ds) = map canon_item ds" for ds by simp
  finally show ?thesis by (simp only: canon.simps sort_key_idem)
qed

section \<open>The fuel of the parser is enough\<close>

lemma pstr_length: "pstr s = Some (t, r) \<Longrightarrow> length r < length s"
  by (induction s arbitrary: t r rule: pstr.induct)
    (force simp: push_def split: if_splits list.splits option.splits)+

lemma pnat_length: "pnat s = Some (n, r) \<Longrightarrow> length r < length s"
proof (cases s)
  case (Cons c cs)
  assume "pnat s = Some (n, r)"
  moreover have "length (dropWhile is_digit cs) \<le> length cs" by (rule length_dropWhile_le)
  ultimately show ?thesis using Cons by (auto simp: pnat_def split: if_splits)
qed (simp add: pnat_def)

lemma pnum_length: "pnum s = Some (j, r) \<Longrightarrow> length r < length s"
  by (cases s) (auto simp: pnum_def dest: pnat_length split: if_splits)

lemma plit_length: "w \<noteq> [] \<Longrightarrow> plit w k s = Some (j, r) \<Longrightarrow> length r < length s"
  by (cases s) (auto simp: plit_def startswith_def split: if_splits)

lemma skip_ws_Some: "skip_ws s = c # cs \<Longrightarrow> length cs < length s"
  using skip_ws_length [of s] by simp

text \<open>How each parser can succeed.\<close>

lemma pval_SomeE:
  assumes "pval n s = Some (j, r)"
  obtains (leaf) m where "n = Suc m" "is_leaf j" "length r < length s"
  | (arr) m c cs js where "n = Suc m" "s = c # cs" "pelems m (skip_ws cs) = Some (js, r)" "j = JArr js"
  | (obj) m c cs ps where "n = Suc m" "s = c # cs" "pitems m (skip_ws cs) = Some (ps, r)"
      "j = JObj (dict_of ps)"
proof (cases n)
  case (Suc m)
  note n = Suc
  obtain c cs where s: "s = c # cs" using assms n by (cases s) auto
  have ws: "length (tl (skip_ws cs)) < length s" using skip_ws_length [of cs] s by simp
  consider "c = CHR 0x22" | "c = CHR ''{''" | "c = CHR ''[''" | "c = CHR ''n''" | "c = CHR ''t''"
    | "c = CHR ''f''" | "c \<noteq> CHR 0x22" "c \<noteq> CHR ''{''" "c \<noteq> CHR ''[''" "c \<noteq> CHR ''n''"
      "c \<noteq> CHR ''t''" "c \<noteq> CHR ''f''"
    by blast
  then show thesis
  proof cases
    case 1
    then show thesis using assms n s by (intro leaf) (auto simp: is_leaf_def dest: pstr_length)
  next
    case 2
    then show thesis
      using assms n s ws leaf [OF n] obj [OF n s] by (auto simp: is_leaf_def split: if_splits)
  next
    case 3
    then show thesis
      using assms n s ws leaf [OF n] arr [OF n s] by (auto simp: is_leaf_def split: if_splits)
  next
    case 7
    then have "pnum s = Some (j, r)" using assms n s by simp
    moreover from this have "is_leaf j"
      by (auto simp: pnum_def is_leaf_def split: list.splits if_splits)
    ultimately show thesis using n by (intro leaf) (auto dest: pnum_length)
  qed (use assms n s in \<open>auto intro!: leaf simp: is_leaf_def plit_def startswith_def split: if_splits\<close>)
qed (use assms in simp)

lemma pelems_SomeE:
  assumes "pelems n s = Some (js, r)"
  obtains (last) m j r1 where "n = Suc m" "pval m s = Some (j, r1)" "skip_ws r1 = CHR '']'' # r" "js = [j]"
  | (more) m j r1 ds js' where "n = Suc m" "pval m s = Some (j, r1)" "skip_ws r1 = CHR '','' # ds"
      "pelems m (skip_ws ds) = Some (js', r)" "js = j # js'"
proof (cases n)
  case (Suc m)
  then obtain j1 r1 d ds where v: "pval m s = Some (j1, r1)" "skip_ws r1 = d # ds"
    using assms by (auto split: option.splits list.splits)
  with assms Suc show thesis using last [OF Suc] more [OF Suc] by (auto split: if_splits)
qed (use assms in simp)

lemma pitems_SomeE:
  assumes "pitems n s = Some (ps, r)"
  obtains (last) m cs k r0 es v r1 where "n = Suc m" "s = CHR 0x22 # cs" "pstr cs = Some (k, r0)"
      "skip_ws r0 = CHR '':'' # es" "pval m (skip_ws es) = Some (v, r1)"
      "skip_ws r1 = CHR ''}'' # r" "ps = [(k, v)]"
  | (more) m cs k r0 es v r1 ds ps' where "n = Suc m" "s = CHR 0x22 # cs" "pstr cs = Some (k, r0)"
      "skip_ws r0 = CHR '':'' # es" "pval m (skip_ws es) = Some (v, r1)"
      "skip_ws r1 = CHR '','' # ds" "pitems m (skip_ws ds) = Some (ps', r)" "ps = (k, v) # ps'"
proof (cases n)
  case (Suc m)
  then obtain cs k r0 es v r1 d ds where p: "s = CHR 0x22 # cs" "pstr cs = Some (k, r0)"
      "skip_ws r0 = CHR '':'' # es" "pval m (skip_ws es) = Some (v, r1)" "skip_ws r1 = d # ds"
    using assms by (auto split: option.splits list.splits if_splits)
  with assms Suc show thesis using last [OF Suc p(1-4)] more [OF Suc p(1-4)] by (auto split: if_splits)
qed (use assms in simp)

lemma skip_ws_le: "skip_ws s = c # cs \<Longrightarrow> Suc (length cs) \<le> length s"
  using skip_ws_Some [of s c cs] by simp

lemma parse_length:
  "(\<forall>s j r. pval n s = Some (j, r) \<longrightarrow> length r < length s) \<and>
   (\<forall>s js r. pelems n s = Some (js, r) \<longrightarrow> length r < length s) \<and>
   (\<forall>s ps r. pitems n s = Some (ps, r) \<longrightarrow> length r < length s)"
proof (induction n)
  case (Suc n)
  note sk = skip_ws_length [THEN le_trans, rotated]
  have v: "length r < length s" if "pval n s = Some (j, r)" for s j r using Suc that by blast
  have e: "length r < length s" if "pelems n s = Some (js, r)" for s js r using Suc that by blast
  have i: "length r < length s" if "pitems n s = Some (ps, r)" for s ps r using Suc that by blast
  have "length r < length s" if "pval (Suc n) s = Some (j, r)" for s j r
    using that
  proof (cases rule: pval_SomeE)
    case (arr m c cs js)
    then show ?thesis using e [of "skip_ws cs"] skip_ws_length [of cs] by simp
  next
    case (obj m c cs ps)
    then show ?thesis using i [of "skip_ws cs"] skip_ws_length [of cs] by simp
  qed simp
  moreover have "length r < length s" if "pelems (Suc n) s = Some (js, r)" for s js r
    using that
  proof (cases rule: pelems_SomeE)
    case (last m j r1)
    then show ?thesis using v [of s] skip_ws_le [of r1] by fastforce
  next
    case (more m j r1 ds js')
    then show ?thesis using v [of s] e [of "skip_ws ds"] skip_ws_le [of r1] skip_ws_length [of ds]
      by fastforce
  qed
  moreover have "length r < length s" if "pitems (Suc n) s = Some (ps, r)" for s ps r
    using that
  proof (cases rule: pitems_SomeE)
    case (last m cs k r0 es v' r1)
    then show ?thesis
      using v [of "skip_ws es"] skip_ws_le [of r1] skip_ws_le [of r0] skip_ws_length [of es]
        pstr_length [of cs] by fastforce
  next
    case (more m cs k r0 es v' r1 ds ps')
    then show ?thesis
      using v [of "skip_ws es"] i [of "skip_ws ds"] skip_ws_le [of r1] skip_ws_le [of r0]
        skip_ws_length [of es] skip_ws_length [of ds] pstr_length [of cs] by fastforce
  qed
  ultimately show ?case by blast
qed simp

lemmas pval_length = parse_length [THEN conjunct1, rule_format]

text \<open>More fuel changes nothing once there is twice the length of the text.\<close>

lemma parse_fuel:
  "(\<forall>s. 2 * length s \<le> n \<longrightarrow> pval (Suc n) s = pval n s) \<and>
   (\<forall>s. 2 * length s + 1 \<le> n \<longrightarrow> pelems (Suc n) s = pelems n s) \<and>
   (\<forall>s. 2 * length s + 1 \<le> n \<longrightarrow> pitems (Suc n) s = pitems n s)"
proof (induction n)
  case 0
  then show ?case by simp
next
  case (Suc n)
  have v: "pval (Suc n) s = pval n s" if "2 * length s \<le> n" for s using Suc that by blast
  have e: "pelems (Suc n) s = pelems n s" if "2 * length s + 1 \<le> n" for s using Suc that by blast
  have i: "pitems (Suc n) s = pitems n s" if "2 * length s + 1 \<le> n" for s using Suc that by blast
  have sk: "length (skip_ws s) \<le> length s" for s by (rule skip_ws_length)
  have "pval (Suc (Suc n)) s = pval (Suc n) s" if "2 * length s \<le> Suc n" for s
  proof (cases s)
    case (Cons c cs)
    then have "2 * length (skip_ws cs) + 1 \<le> n" using that sk [of cs] by simp
    then show ?thesis
      using Cons e i by (simp del: pelems.simps pitems.simps)
  qed simp
  moreover have "pelems (Suc (Suc n)) s = pelems (Suc n) s" if "2 * length s + 1 \<le> Suc n" for s
  proof -
    have "pelems (Suc n) (skip_ws ds) = pelems n (skip_ws ds)"
      if "pval n s = Some (j, r)" "skip_ws r = d # ds" for j r d ds
      using pval_length [OF that(1)] skip_ws_le [OF that(2)] sk [of ds] \<open>2 * length s + 1 \<le> Suc n\<close>
      by (intro e) simp
    then show ?thesis using v [of s] that
      by (subst (1 2) pelems.simps) (auto split: option.splits list.splits simp del: pelems.simps)
  qed
  moreover have "pitems (Suc (Suc n)) s = pitems (Suc n) s" if "2 * length s + 1 \<le> Suc n" for s
  proof -
    have 1: "pval (Suc n) (skip_ws es) = pval n (skip_ws es)"
      if "s = c # cs" "pstr cs = Some (k, r)" "skip_ws r = d # es" for c cs k r d es
      using pstr_length [OF that(2)] skip_ws_le [OF that(3)] sk [of es] \<open>2 * length s + 1 \<le> Suc n\<close> that(1)
      by (intro v) simp
    have 2: "pitems (Suc n) (skip_ws ds) = pitems n (skip_ws ds)"
      if "s = c # cs" "pstr cs = Some (k, r)" "skip_ws r = d # es" "pval n (skip_ws es) = Some (j, r')"
        "skip_ws r' = d' # ds" for c cs k r d es j r' d' ds
      using pstr_length [OF that(2)] skip_ws_le [OF that(3)] sk [of es] pval_length [OF that(4)]
        skip_ws_le [OF that(5)] sk [of ds] \<open>2 * length s + 1 \<le> Suc n\<close> that(1)
      by (intro i) simp
    show ?thesis using 1 2
      by (subst (1 2) pitems.simps) (auto split: option.splits list.splits simp del: pitems.simps pval.simps)
  qed
  ultimately show ?case by blast
qed

lemma pval_fuel: "m \<le> n \<Longrightarrow> 2 * length s \<le> m \<Longrightarrow> pval n s = pval m s"
proof (induction n rule: dec_induct)
  case (step n)
  then show ?case using parse_fuel [of n] by simp
qed simp

lemma json_loads_fuel:
  assumes "2 * length s + 2 \<le> n"
  shows "json_loads s = (case pval n (skip_ws s) of
      None \<Rightarrow> None
    | Some (j, r) \<Rightarrow> if skip_ws r = [] then Some j else None)"
proof -
  have "pval n (skip_ws s) = pval (2 * length s + 2) (skip_ws s)"
    using assms skip_ws_length [of s] by (intro pval_fuel) auto
  then show ?thesis by (simp add: json_loads_def)
qed

section \<open>What the parser builds\<close>

lemma wf_leaf: "is_leaf j \<Longrightarrow> wf_json j"
  by (cases j) (auto simp: is_leaf_def)

lemma parse_wf:
  "(\<forall>s j r. pval n s = Some (j, r) \<longrightarrow> wf_json j) \<and>
   (\<forall>s js r. pelems n s = Some (js, r) \<longrightarrow> (\<forall>j \<in> set js. wf_json j)) \<and>
   (\<forall>s ps r. pitems n s = Some (ps, r) \<longrightarrow> (\<forall>p \<in> set ps. wf_json (snd p)))"
proof (induction n)
  case (Suc n)
  then have v: "\<And>s j r. pval n s = Some (j, r) \<Longrightarrow> wf_json j"
    and e: "\<And>s js r j. pelems n s = Some (js, r) \<Longrightarrow> j \<in> set js \<Longrightarrow> wf_json j"
    and i: "\<And>s ps r p. pitems n s = Some (ps, r) \<Longrightarrow> p \<in> set ps \<Longrightarrow> wf_json (snd p)"
    by blast+
  have "wf_json j" if "pval (Suc n) s = Some (j, r)" for s j r
    using that by (cases rule: pval_SomeE) (auto dest: wf_leaf e i intro: i [simplified] dest!: subsetD [OF set_dict_of_subset])
  moreover have "\<forall>j \<in> set js. wf_json j" if "pelems (Suc n) s = Some (js, r)" for s js r
    using that by (cases rule: pelems_SomeE) (auto dest: v e)
  moreover have "\<forall>p \<in> set ps. wf_json (snd p)" if "pitems (Suc n) s = Some (ps, r)" for s ps r
    using that by (cases rule: pitems_SomeE) (auto dest: v i)
  ultimately show ?case by blast
qed simp

lemmas pval_wf = parse_wf [THEN conjunct1, rule_format]

lemma wf_json_loads: "json_loads s = Some j \<Longrightarrow> wf_json j"
  by (auto simp: json_loads_def split: option.splits if_splits simp del: mult_Suc_right
      dest: pval_wf)

section \<open>Property\<close>

text \<open>
  C37. The canonical encoding is faithful: the bytes that are hashed and signed read back as the
  value in key order, they do not depend on the order of keys, and two values have the same bytes
  only when they are the same value up to the order of keys.
\<close>

theorem canonical_bytes_are_faithful:
  assumes "wf_json j"
  shows "json_loads (canonical_bytes j) = Some (canon j) \<and> canonical_bytes (canon j) = canonical_bytes j \<and>
    (\<forall>k. wf_json k \<longrightarrow> (canonical_bytes j = canonical_bytes k \<longleftrightarrow> canon j = canon k))"
  using assms by (simp add: loads_canonical canonical_bytes_inj)

theorem canonical_bytes_are_faithful_witness:
  "json_loads (canonical_bytes (JObj [(''b'', JInt 2), (''a'', JNull)])) =
     Some (canon (JObj [(''b'', JInt 2), (''a'', JNull)]))"
proof -
  have "wf_json (JObj [(''b'', JInt 2), (''a'', JNull)])" by (simp add: wf_dict_def)
  then show ?thesis using canonical_bytes_are_faithful by blast
qed

end
