(* ===== verification/Base64.thy ===== *)
theory Base64
  imports Prelude
begin

text \<open>
  \<^verbatim>\<open>base64.b64encode\<close> and \<^verbatim>\<open>base64.b64decode\<close> of the standard library, in which every signature
  travels. \<open>b64decode\<close> is the state machine of \<^verbatim>\<open>binascii.a2b_base64\<close>: \<open>quad\<close> is the position
  in the current group of four, \<open>left\<close> the bits held back, \<open>pads\<close> the padding characters since
  the last data character. Without \<^verbatim>\<open>validate\<close> a character outside the alphabet is skipped and
  decoding stops at a complete padding; with it both are errors. \<open>None\<close> is the \<^verbatim>\<open>ValueError\<close>.
\<close>

section \<open>The alphabet\<close>

definition b64_char :: "nat \<Rightarrow> char" where
  "b64_char n =
     (if n < 26 then char_of (65 + n) else if n < 52 then char_of (71 + n)
      else if n < 62 then char_of (n - 4) else if n = 62 then CHR ''+'' else CHR ''/'')"

definition b64_val :: "char \<Rightarrow> nat option" where
  "b64_val c = (let n = (of_char c :: nat) in
     if 65 \<le> n \<and> n \<le> 90 then Some (n - 65)
     else if 97 \<le> n \<and> n \<le> 122 then Some (n - 71)
     else if 48 \<le> n \<and> n \<le> 57 then Some (n + 4)
     else if c = CHR ''+'' then Some 62
     else if c = CHR ''/'' then Some 63
     else None)"

definition byte :: "char \<Rightarrow> nat" where
  "byte c = of_char c"

section \<open>Encoding and decoding\<close>

fun b64encode :: "string \<Rightarrow> string" where
  "b64encode [] = []"
| "b64encode [a] =
     [b64_char (byte a div 4), b64_char (byte a mod 4 * 16), CHR ''='', CHR ''='']"
| "b64encode [a, b] =
     [b64_char (byte a div 4), b64_char (byte a mod 4 * 16 + byte b div 16),
      b64_char (byte b mod 16 * 4), CHR ''='']"
| "b64encode (a # b # c # s) =
     b64_char (byte a div 4) # b64_char (byte a mod 4 * 16 + byte b div 16) #
     b64_char (byte b mod 16 * 4 + byte c div 64) # b64_char (byte c mod 64) # b64encode s"

definition emit :: "nat \<Rightarrow> string option \<Rightarrow> string option" where
  "emit n r = map_option (\<lambda>s. char_of n # s) r"

text \<open>
  \<open>b64_run strict started quad left pads s\<close>; \<open>started\<close> tells that a padding character was seen.
\<close>

fun b64_run :: "bool \<Rightarrow> bool \<Rightarrow> nat \<Rightarrow> nat \<Rightarrow> nat \<Rightarrow> string \<Rightarrow> string option" where
  "b64_run strict started quad left pads [] = (if quad = 0 then Some [] else None)"
| "b64_run strict started quad left pads (c # s) =
     (if c = CHR ''='' then
        if strict \<and> quad = 0 then None
        else if 2 \<le> quad \<and> 4 \<le> quad + (pads + 1) then
          if strict \<and> s \<noteq> [] then None else Some []
        else b64_run strict True quad left (if 2 \<le> quad then pads + 1 else pads) s
      else (case b64_val c of
          None \<Rightarrow> if strict then None else b64_run strict started quad left pads s
        | Some v \<Rightarrow>
            if strict \<and> started then None
            else if quad = 0 then b64_run strict started 1 v 0 s
            else if quad = 1 then emit (left * 4 + v div 16) (b64_run strict started 2 (v mod 16) 0 s)
            else if quad = 2 then emit (left * 16 + v div 4) (b64_run strict started 3 (v mod 4) 0 s)
            else emit (left * 64 + v) (b64_run strict started 0 0 0 s)))"

text \<open>A \<^verbatim>\<open>str\<close> argument is first encoded as ASCII; another character is a \<^verbatim>\<open>ValueError\<close> too.\<close>

definition b64decode :: "string \<Rightarrow> string option" where
  "b64decode s = (if ascii s then b64_run False False 0 0 0 s else None)"

definition b64decode_validate :: "string \<Rightarrow> string option" where
  "b64decode_validate s = (if ascii s then b64_run True False 0 0 0 s else None)"

section \<open>Round trip\<close>

lemma byte_less: "byte c < 256"
  using nat_of_char_less_256 by (simp add: byte_def)

lemma char_of_byte [simp]: "char_of (byte c) = c"
  by (simp add: byte_def)

lemma of_char_b64_char:
  "n < 64 \<Longrightarrow> (of_char (b64_char n) :: nat) =
     (if n < 26 then 65 + n else if n < 52 then 71 + n else if n < 62 then n - 4
      else if n = 62 then 43 else 47)"
  by (simp add: b64_char_def)

lemma b64_val_char [simp]: "n < 64 \<Longrightarrow> b64_val (b64_char n) = Some n"
  by (auto simp: b64_val_def Let_def of_char_b64_char b64_char_def)

lemma b64_char_not_pad [simp]: "n < 64 \<Longrightarrow> b64_char n \<noteq> CHR ''=''"
proof
  assume n: "n < 64" and "b64_char n = CHR ''=''"
  then have "(of_char (b64_char n) :: nat) = 61" by simp
  with n show False by (simp add: of_char_b64_char split: if_splits)
qed

lemma b64_char_ascii [simp]: "n < 64 \<Longrightarrow> (of_char (b64_char n) :: nat) < 128"
  by (subst of_char_b64_char) auto

lemma byte_high [simp]: "byte a div 4 < 64" "byte a div 16 < 16" "byte a div 64 < 4"
  using byte_less [of a] by (simp_all add: div_less_iff_less_mult)

lemma byte_parts [simp]:
  "byte a mod 4 * 16 < 64" "byte a mod 4 * 16 + byte b div 16 < 64"
  "byte b mod 16 * 4 < 64" "byte b mod 16 * 4 + byte c div 64 < 64"
proof -
  have m: "byte a mod 4 < 4" "byte b mod 16 < 16" by simp_all
  show "byte a mod 4 * 16 < 64" "byte a mod 4 * 16 + byte b div 16 < 64"
    using m(1) byte_high(2) [of b] by linarith+
  show "byte b mod 16 * 4 < 64" "byte b mod 16 * 4 + byte c div 64 < 64"
    using m(2) byte_high(3) [of c] by linarith+
qed

lemma byte_join [simp]:
  "byte b div 16 div 16 = 0" "byte b div 16 mod 16 = byte b div 16"
  "byte c div 64 div 4 = 0" "byte c div 64 mod 4 = byte c div 64"
  by (simp_all del: div_mult2_eq div_mult2_eq')

lemma ascii_b64encode: "ascii (b64encode s)"
  by (induction s rule: b64encode.induct) simp_all

lemma b64_run_encode: "b64_run strict False 0 0 0 (b64encode s) = Some s"
  by (induction s rule: b64encode.induct) (simp_all add: emit_def)

lemma b64_roundtrip [simp]:
  "b64decode (b64encode s) = Some s" "b64decode_validate (b64encode s) = Some s"
  by (simp_all add: b64decode_def b64decode_validate_def ascii_b64encode b64_run_encode)

lemma b64encode_inj: "b64encode s = b64encode t \<longleftrightarrow> s = t"
  by (metis b64_roundtrip(1) option.inject)

end
