(* ===== verification/Spine.thy ===== *)
theory Spine
  imports Json Base64
begin

text \<open>
  \<^verbatim>\<open>spine/types.py\<close> and \<^verbatim>\<open>spine/hashing.py\<close>: the records that cross every boundary of the program,
  and what of a receipt is hashed.

  The cryptography comes from outside the repository (\<^verbatim>\<open>hashlib\<close> and the \<^verbatim>\<open>cryptography\<close> package):
  SHA-256 and Ed25519 are the fields of a record \<open>crypto\<close> that every definition takes. Keys are
  values of type \<open>string\<close> that nothing looks into. The only law ever assumed of them is
  \<open>sig_correct\<close>, that what a private key signs verifies under its public key; nothing assumes
  that the hash is injective or that signatures cannot be forged: the theorems about tampering
  exhibit the collision or the signature that the tampering needs.
\<close>

section \<open>The cryptography the code calls\<close>

record crypto =
  sha256_hex :: "string \<Rightarrow> string"
  ed_pub :: "string \<Rightarrow> string"
  ed_sign :: "string \<Rightarrow> string \<Rightarrow> string"
  ed_verify :: "string \<Rightarrow> string \<Rightarrow> string \<Rightarrow> bool"

text \<open>\<open>ed_verify C pk sig msg\<close> is false where \<^verbatim>\<open>public_key.verify(sig, msg)\<close> raises \<^verbatim>\<open>InvalidSignature\<close>.\<close>

definition sig_correct :: "crypto \<Rightarrow> bool" where
  "sig_correct C \<longleftrightarrow> (\<forall>sk m. ed_verify C (ed_pub C sk) (ed_sign C sk m) m)"

definition collision :: "crypto \<Rightarrow> string \<Rightarrow> string \<Rightarrow> bool" where
  "collision C a b \<longleftrightarrow> a \<noteq> b \<and> sha256_hex C a = sha256_hex C b"

text \<open>A concrete instance, for evaluating the model on examples.\<close>

definition example_crypto :: crypto where
  "example_crypto = \<lparr>sha256_hex = (\<lambda>m. string_of_nat (sum_list (map of_char m))),
     ed_pub = (\<lambda>sk. sk), ed_sign = (\<lambda>sk m. sk @ m), ed_verify = (\<lambda>pk s m. s = pk @ m)\<rparr>"

lemma sig_correct_example [simp]: "sig_correct example_crypto"
  by (simp add: sig_correct_def example_crypto_def)

lemma sig_correctD: "sig_correct C \<Longrightarrow> ed_verify C (ed_pub C sk) (ed_sign C sk m) m"
  by (simp add: sig_correct_def)

section \<open>Optional values as JSON\<close>

definition jstr_opt :: "string option \<Rightarrow> json" where
  "jstr_opt x = (case x of None \<Rightarrow> JNull | Some s \<Rightarrow> JStr s)"

definition jopt :: "json option \<Rightarrow> json" where
  "jopt x = (case x of None \<Rightarrow> JNull | Some j \<Rightarrow> j)"

text \<open>\<^verbatim>\<open>d.get(k)\<close>\<close>

definition jget :: "(string \<times> json) list \<Rightarrow> string \<Rightarrow> json" where
  "jget d k = jopt (map_of d k)"

text \<open>\<^verbatim>\<open>d.get(k, dflt)\<close>\<close>

definition field_or :: "json dict \<Rightarrow> string \<Rightarrow> json \<Rightarrow> json" where
  "field_or d k dflt = (case map_of d k of None \<Rightarrow> dflt | Some j \<Rightarrow> j)"

lemma jget_key: "k \<in> set (keys d) \<Longrightarrow> map_of d k = Some (jget d k)"
  by (auto simp: keys_iff jget_def jopt_def)

text \<open>The JSON values that are false in a condition.\<close>

definition falsy :: "json \<Rightarrow> bool" where
  "falsy j \<longleftrightarrow> j \<in> {JNull, JBool False, JInt 0, JStr [], JArr [], JObj []}"

lemma jget_Some [dict_simps]: "map_of d k = Some v \<Longrightarrow> jget d k = v"
  by (simp add: jget_def jopt_def)

lemma wf_jstr_opt [simp]: "wf_json (jstr_opt x)" "canon (jstr_opt x) = jstr_opt x"
  by (simp_all add: jstr_opt_def split: option.split)

lemma jstr_opt_inj [simp]: "jstr_opt x = jstr_opt y \<longleftrightarrow> x = y"
  by (simp add: jstr_opt_def split: option.split)

section \<open>types.py\<close>

record capability =
  c_id :: string
  c_name :: string
  c_inputs :: "string dict"
  c_outputs :: "string dict"
  c_side_effects :: string
  c_scope :: string
  c_risk_class :: string
  c_description :: string
  c_recommended_max_rate :: "int option"
  c_requires_second_admin :: bool
  c_requires_user_confirmation :: bool
  c_scoped_input :: string
  c_behavior :: "string option"
  c_enabled :: bool
  c_behavior_config :: "json dict"

definition resolved_behavior :: "capability \<Rightarrow> string" where
  "resolved_behavior c = (case c_behavior c of
     Some b \<Rightarrow> if b = '''' then c_id c else b | None \<Rightarrow> c_id c)"

record order =
  o_order_id :: string
  o_principal :: string
  o_role :: string
  o_capability_id :: string
  o_args :: "json dict"
  o_nonce :: string
  o_ts :: string

record ticket =
  t_ticket_id :: string
  t_order_id :: string
  t_capability_id :: string
  t_behavior :: string
  t_behavior_config :: "json dict"
  t_scoped_args :: "json dict"
  t_issued_ts :: string
  t_cashier_sig :: string

text \<open>
  Python does not check the annotations of a dataclass: \<^verbatim>\<open>Ledger.read_all\<close> fills a receipt with
  whatever JSON the row holds, so the fields are JSON values, but for the signature's bytes.
\<close>

record receipt =
  r_receipt_id :: json
  r_order_id :: json
  r_ticket_id :: json
  r_status :: json
  r_reason_code :: json
  r_result_digest :: json
  r_attestation :: json
  r_prev_hash :: json
  r_this_hash :: json
  r_sig :: string
  r_order_meta :: json
  r_containment :: json

definition order_meta_from_order :: "order \<Rightarrow> json" where
  "order_meta_from_order ord = JObj
     [(''principal'', JStr (o_principal ord)), (''role'', JStr (o_role ord)),
      (''capability_id'', JStr (o_capability_id ord)), (''ts'', JStr (o_ts ord))]"

section \<open>hashing.py\<close>

definition GENESIS_PREV_HASH :: "crypto \<Rightarrow> string" where
  "GENESIS_PREV_HASH C = sha256_hex C ''GENESIS''"

definition receipt_content_dict :: "receipt \<Rightarrow> json dict" where
  "receipt_content_dict r =
     [(''receipt_id'', r_receipt_id r), (''order_id'', r_order_id r),
      (''ticket_id'', r_ticket_id r), (''status'', r_status r),
      (''reason_code'', r_reason_code r), (''result_digest'', r_result_digest r),
      (''attestation'', r_attestation r), (''order_meta'', r_order_meta r),
      (''containment'', r_containment r), (''prev_hash'', r_prev_hash r)]"

definition receipt_content_hash :: "crypto \<Rightarrow> json dict \<Rightarrow> string" where
  "receipt_content_hash C content = sha256_hex C (canonical_bytes (JObj content))"

lemma wf_order_meta [simp]: "wf_json (order_meta_from_order ord)"
  by (simp add: order_meta_from_order_def wf_dict_def)

end
