(* ===== verification/Chain.thy ===== *)
theory Chain
  imports Spine
begin

text \<open>
  What the receipt ledger and the policy history have in common: a table whose rows are JSON
  texts, each naming the hash of the one before it, an append that reads the last row and adds
  one, and a verifier that walks the rows. The verifier's loop and the insertion are defined
  here; the two contracts are locales:

  \<^item> \<open>hash_chain\<close>: a row check that lets the walk advance only to the hash of the row's own
    preimage, a preimage that names the previous hash and that no genesis has. It gives the
    tamper evidence.
  \<^item> \<open>chain_store\<close>: an append whose new row the check accepts. It gives the verified growth.

  \<^verbatim>\<open>Verify_Ledger\<close> and \<^verbatim>\<open>Policy_History\<close> interpret both.
\<close>

section \<open>Tables\<close>

text \<open>
  A table \<^verbatim>\<open>(seq INTEGER PRIMARY KEY, json TEXT)\<close> in key order, as SQLite keeps it and as
  \<^verbatim>\<open>ORDER BY seq\<close> reads it. An insertion without a key takes the largest key plus one.
\<close>

type_synonym table = "(int \<times> string) list"

definition next_seq :: "table \<Rightarrow> int" where
  "next_seq t = (if t = [] then 1 else fst (last t) + 1)"

definition insert_row :: "string \<Rightarrow> table \<Rightarrow> table" where
  "insert_row raw t = t @ [(next_seq t, raw)]"

text \<open>The exceptions that the modelled code can raise.\<close>

datatype exn = ValueError | KeyError | TypeError | AttributeError | AssertionError | EOFError | OSError | RuntimeError | SubprocessError

text \<open>\<^verbatim>\<open>json.loads(s)\<close> and \<^verbatim>\<open>x[k]\<close> for a string \<open>k\<close>.\<close>

definition loads :: "string \<Rightarrow> exn + json" where
  "loads s = (case json_loads s of None \<Rightarrow> Inl ValueError | Some j \<Rightarrow> Inr j)"

fun subscript :: "json \<Rightarrow> string \<Rightarrow> exn + json" where
  "subscript (JObj d) k = (case map_of d k of None \<Rightarrow> Inl KeyError | Some v \<Rightarrow> Inr v)"
| "subscript _ k = Inl TypeError"

text \<open>\<^verbatim>\<open>k in x\<close> for a string \<open>k\<close>: a key, an element, a substring; a number has no membership.\<close>

fun is_infix :: "string \<Rightarrow> string \<Rightarrow> bool" where
  "is_infix p [] \<longleftrightarrow> p = []"
| "is_infix p (c # s) \<longleftrightarrow> startswith (c # s) p \<or> is_infix p s"

fun member :: "string \<Rightarrow> json \<Rightarrow> exn + bool" where
  "member k (JObj d) = Inr (k \<in> set (keys d))"
| "member k (JArr js) = Inr (JStr k \<in> set js)"
| "member k (JStr s) = Inr (is_infix k s)"
| "member k _ = Inl TypeError"

text \<open>\<^verbatim>\<open>for key in ks: if key not in x: raise KeyError(key)\<close>\<close>

fun check_keys :: "string list \<Rightarrow> json \<Rightarrow> exn + unit" where
  "check_keys [] j = Inr ()"
| "check_keys (k # ks) j = bind_res (member k j) (\<lambda>b. if b then check_keys ks j else Inl KeyError)"

text \<open>\<^verbatim>\<open>x.items()\<close>\<close>

fun items :: "json \<Rightarrow> exn + json dict" where
  "items (JObj d) = Inr d"
| "items _ = Inl AttributeError"

lemma check_keys_obj [simp]:
  "check_keys ks (JObj d) = (if set ks \<subseteq> set (keys d) then Inr () else Inl KeyError)"
  by (induction ks) auto

section \<open>The walk\<close>

text \<open>
  What one row does to the walk: it advances to a new expected hash, is refused with a reason,
  or raises an exception that nothing catches.
\<close>

datatype row_check = Advance string | Refuse string | Raise exn

datatype verdict = Verified nat | Broken int string | Crashed exn

fun walk :: "(string \<Rightarrow> 'r \<Rightarrow> row_check) \<Rightarrow> string \<Rightarrow> nat \<Rightarrow> (int \<times> 'r) list \<Rightarrow> verdict" where
  "walk row prev n [] = Verified n"
| "walk row prev n ((seq, raw) # rows) =
     (case row prev raw of
        Advance h \<Rightarrow> walk row h (Suc n) rows
      | Refuse reason \<Rightarrow> Broken seq reason
      | Raise e \<Rightarrow> Crashed e)"

text \<open>The hash an accepted table ends with; \<open>None\<close> when a row does not advance.\<close>

fun end_hash :: "(string \<Rightarrow> 'r \<Rightarrow> row_check) \<Rightarrow> string \<Rightarrow> (int \<times> 'r) list \<Rightarrow> string option" where
  "end_hash row prev [] = Some prev"
| "end_hash row prev ((seq, raw) # rows) =
     (case row prev raw of Advance h \<Rightarrow> end_hash row h rows | _ \<Rightarrow> None)"

lemma walk_Verified:
  "walk row prev n rows = Verified m \<longleftrightarrow> end_hash row prev rows \<noteq> None \<and> m = n + length rows"
  by (induction row prev n rows rule: walk.induct) (auto split: row_check.split)

lemma end_hash_Cons:
  "end_hash row p ((s, r) # rows) = Some h \<longleftrightarrow> (\<exists>q. row p r = Advance q \<and> end_hash row q rows = Some h)"
  by (auto split: row_check.splits)

lemma end_hash_append:
  "end_hash row prev (rows @ rows') =
     (case end_hash row prev rows of None \<Rightarrow> None | Some h \<Rightarrow> end_hash row h rows')"
  by (induction row prev rows rule: end_hash.induct) (auto split: row_check.split)

lemma end_hash_mono:
  assumes "\<And>p raw h. row p raw = Advance h \<Longrightarrow> row' p raw = Advance h"
  shows "end_hash row prev rows = Some h \<Longrightarrow> end_hash row' prev rows = Some h"
  using assms by (induction row prev rows rule: end_hash.induct) (auto split: row_check.splits)

lemma end_hash_snoc:
  "end_hash row prev (rows @ [(s, raw)]) = Some h \<longleftrightarrow>
     (\<exists>p. end_hash row prev rows = Some p \<and> row p raw = Advance h)"
  by (auto simp: end_hash_append split: option.split row_check.split)

text \<open>The walk stops at the first row that is refused, with that row's number and reason.\<close>

lemma walk_BrokenI:
  "end_hash row prev rows = Some h \<Longrightarrow> row h raw = Refuse r \<Longrightarrow>
    walk row prev n (rows @ (s, raw) # rest) = Broken s r"
  by (induction row prev rows arbitrary: n rule: end_hash.induct) (auto split: row_check.splits)

lemma walk_BrokenE:
  assumes "walk row prev n rows = Broken s r"
  obtains ok raw rest h where "rows = ok @ (s, raw) # rest" "end_hash row prev ok = Some h"
    "row h raw = Refuse r"
  using assms
proof (induction row prev n rows arbitrary: thesis rule: walk.induct)
  case (2 row prev n seq raw rows)
  show ?case
  proof (cases "row prev raw")
    case (Advance h)
    have "walk row h (Suc n) rows = Broken s r" using 2(3) Advance by simp
    from 2(1) [OF Advance _ this] obtain ok raw' rest h' where
      "rows = ok @ (s, raw') # rest" "end_hash row h ok = Some h'" "row h' raw' = Refuse r" by blast
    then show ?thesis using Advance by (intro 2(2) [of "(seq, raw) # ok" raw' rest h']) auto
  next
    case (Refuse r')
    then show ?thesis using 2(3) by (intro 2(2) [of "[]" raw rows prev]) auto
  qed (use 2(3) in simp)
qed simp

section \<open>Tamper evidence\<close>

locale hash_chain =
  fixes row :: "string \<Rightarrow> string \<Rightarrow> row_check"
    and hash :: "string \<Rightarrow> string"
    and preimage :: "string \<Rightarrow> string"
    and genesis :: string
  assumes row_hash: "row p raw = Advance h \<Longrightarrow> h = hash (preimage raw)"
    and row_names_prev: "row p raw = Advance h \<Longrightarrow> row p' raw' = Advance h' \<Longrightarrow>
      preimage raw = preimage raw' \<Longrightarrow> p = p'"
    and row_not_genesis: "row p raw = Advance h \<Longrightarrow> preimage raw \<noteq> genesis"
begin

text \<open>Two accepted tables with the same last hash have the same rows, up to a collision.\<close>

lemma same_head:
  assumes "end_hash row (hash genesis) t = Some h" and "end_hash row (hash genesis) u = Some h"
  shows "map (preimage \<circ> snd) t = map (preimage \<circ> snd) u \<or> (\<exists>a b. a \<noteq> b \<and> hash a = hash b)"
  using assms
proof (induction t arbitrary: u h rule: rev_induct)
  case Nil
  then show ?case
  proof (cases u rule: rev_cases)
    case (snoc u' r)
    obtain s raw where "r = (s, raw)" by (cases r)
    with Nil snoc obtain p where "row p raw = Advance (hash genesis)"
      by (auto simp: end_hash_snoc)
    then show ?thesis using row_hash row_not_genesis by metis
  qed simp
next
  case (snoc r t)
  obtain s raw where r: "r = (s, raw)" by (cases r)
  with snoc.prems(1) obtain p where p: "end_hash row (hash genesis) t = Some p" "row p raw = Advance h"
    by (auto simp: end_hash_snoc)
  show ?case
  proof (cases u rule: rev_cases)
    case Nil
    then show ?thesis using snoc.prems(2) p row_hash row_not_genesis by force
  next
    case (snoc u' r')
    obtain s' raw' where r': "r' = (s', raw')" by (cases r')
    with snoc \<open>end_hash row (hash genesis) u = Some h\<close>
    obtain p' where p': "end_hash row (hash genesis) u' = Some p'" "row p' raw' = Advance h"
      by (auto simp: end_hash_snoc)
    show ?thesis
    proof (cases "preimage raw = preimage raw'")
      case True
      then have "p' = p" using p(2) p'(2) row_names_prev by blast
      then show ?thesis using snoc.IH [OF p(1)] p'(1) True snoc r r' by auto
    next
      case False
      then show ?thesis using p(2) p'(2) row_hash by metis
    qed
  qed
qed

end

section \<open>Verified growth\<close>

locale chain_store = hash_chain +
  fixes head :: "table \<Rightarrow> exn + json"
    and append :: "'e \<Rightarrow> table \<Rightarrow> exn + table \<times> 'r"
    and good :: "'e \<Rightarrow> bool"
  assumes head_empty: "head [] = Inr (JStr (hash genesis))"
    and head_last: "row p raw = Advance h \<Longrightarrow> head (t @ [(s, raw)]) = Inr (JStr h)"
    and append_row: "good e \<Longrightarrow> head t = Inr (JStr p) \<Longrightarrow>
      \<exists>raw r h. append e t = Inr (insert_row raw t, r) \<and> row p raw = Advance h"
begin

lemma head_end_hash:
  "end_hash row (hash genesis) t = Some h \<Longrightarrow> head t = Inr (JStr h)"
proof (cases t rule: rev_cases)
  case (snoc t' r)
  moreover assume "end_hash row (hash genesis) t = Some h"
  ultimately show ?thesis by (cases r) (auto simp: end_hash_snoc intro: head_last)
qed (simp add: head_empty)

lemma append_verified:
  assumes "good e" and "walk row (hash genesis) 0 t = Verified n"
  shows "\<exists>raw r. append e t = Inr (insert_row raw t, r) \<and>
    walk row (hash genesis) 0 (insert_row raw t) = Verified (Suc n)"
proof -
  from assms(2) obtain h where h: "end_hash row (hash genesis) t = Some h" "n = length t"
    by (auto simp: walk_Verified)
  from append_row [OF assms(1) head_end_hash [OF h(1)]]
  obtain raw r h' where a: "append e t = Inr (insert_row raw t, r)" "row h raw = Advance h'" by blast
  then have "end_hash row (hash genesis) (insert_row raw t) = Some h'"
    using h(1) by (auto simp: insert_row_def end_hash_snoc)
  then show ?thesis using a(1) h(2) by (auto simp: walk_Verified insert_row_def)
qed

end

end
