(* ===== verification/Verify_Ledger.thy ===== *)
theory Verify_Ledger
  imports Chain
begin

text \<open>
  \<^verbatim>\<open>verify_ledger.py\<close>, the standalone verifier of the receipt chain. \<^verbatim>\<open>verify_policy_history.py\<close>
  repeats its text with other constants, so the checks take the file's \<^verbatim>\<open>CONTENT_KEYS\<close> as an
  argument. The exceptions a row's check does not catch (\<^verbatim>\<open>AttributeError\<close>) end the walk as
  \<open>Crashed\<close>.
\<close>

section \<open>The check of one row\<close>

definition CONTENT_KEYS :: "string list" where
  "CONTENT_KEYS = [''receipt_id'', ''order_id'', ''ticket_id'', ''status'', ''reason_code'',
     ''result_digest'', ''attestation'', ''prev_hash'']"

definition EXCLUDED_KEYS :: "string list" where
  "EXCLUDED_KEYS = [''this_hash'', ''sig'']"

definition drop_excluded :: "json dict \<Rightarrow> json dict" where
  "drop_excluded d = filter (\<lambda>p. fst p \<notin> set EXCLUDED_KEYS) d"

definition content_dict_from_row :: "string list \<Rightarrow> json \<Rightarrow> exn + json dict" where
  "content_dict_from_row core parsed =
     bind_res (check_keys core parsed) (\<lambda>_.
     bind_res (check_keys EXCLUDED_KEYS parsed) (\<lambda>_.
     bind_res (items parsed) (\<lambda>kvs. Inr (drop_excluded kvs))))"

definition recompute_hash :: "crypto \<Rightarrow> string list \<Rightarrow> json \<Rightarrow> exn + string" where
  "recompute_hash C core parsed =
     bind_res (content_dict_from_row core parsed)
       (\<lambda>content. Inr (sha256_hex C (canonical_bytes (JObj content))))"

text \<open>\<^verbatim>\<open>base64.b64decode(x)\<close>; \<open>None\<close> is the \<^verbatim>\<open>ValueError\<close> or \<^verbatim>\<open>TypeError\<close>.\<close>

definition decode_sig :: "json \<Rightarrow> string option" where
  "decode_sig j = (case j of JStr s \<Rightarrow> b64decode s | _ \<Rightarrow> None)"

definition check_signature :: "crypto \<Rightarrow> string \<Rightarrow> json \<Rightarrow> string \<Rightarrow> bool" where
  "check_signature C pk sig recomputed =
     (case decode_sig sig of None \<Rightarrow> False | Some raw_sig \<Rightarrow> ed_verify C pk raw_sig recomputed)"

definition check_row :: "crypto \<Rightarrow> string \<Rightarrow> string list \<Rightarrow> string \<Rightarrow> string \<Rightarrow> row_check" where
  "check_row C pk core expected_prev row_json =
     (case loads row_json of
        Inl _ \<Rightarrow> Refuse ''json_parse''
      | Inr parsed \<Rightarrow>
          (case recompute_hash C core parsed of
             Inl e \<Rightarrow> if e = KeyError \<or> e = TypeError then Refuse ''json_parse'' else Raise e
           | Inr recomputed \<Rightarrow>
               (case parsed of
                  JObj d \<Rightarrow>
                    if jget d ''this_hash'' \<noteq> JStr recomputed then Refuse ''hash_mismatch''
                    else if jget d ''prev_hash'' \<noteq> JStr expected_prev then Refuse ''prev_hash_mismatch''
                    else if \<not> check_signature C pk (jget d ''sig'') recomputed then Refuse ''bad_signature''
                    else Advance recomputed
                | _ \<Rightarrow> Raise AttributeError)))"

section \<open>The program\<close>

definition verify_ledger_rows :: "crypto \<Rightarrow> string \<Rightarrow> table \<Rightarrow> verdict" where
  "verify_ledger_rows C pk rows = walk (check_row C pk CONTENT_KEYS) (GENESIS_PREV_HASH C) 0 rows"

text \<open>What the two files on the command line hold.\<close>

datatype pem_file = Pem_unreadable | Pem_other_key | Pem_ed25519 string

datatype db_file = Db_no_open string | Db_no_table string | Db_rows table

text \<open>Exit code and printed line.\<close>

definition print_verdict :: "verdict \<Rightarrow> exn + nat \<times> string" where
  "print_verdict v =
     (case v of
        Verified n \<Rightarrow> Inr (0, ''OK verified='' @ string_of_nat n)
      | Broken s r \<Rightarrow> Inr (1, ''FAIL seq='' @ string_of_int s @ '' reason='' @ r)
      | Crashed e \<Rightarrow> Inl e)"

definition verify_ledger_main ::
  "crypto \<Rightarrow> (string \<Rightarrow> pem_file) \<Rightarrow> (string \<Rightarrow> db_file) \<Rightarrow> string list \<Rightarrow> exn + nat \<times> string" where
  "verify_ledger_main C pems dbs argv =
     (if length argv \<noteq> 3 then Inr (2, ''usage: verify_ledger.py <ledger.db> <pubkey.pem>'')
      else let db_path = argv ! 1; pem_path = argv ! 2 in
        (case pems pem_path of
           Pem_unreadable \<Rightarrow> Inr (2, ''usage: cannot read an Ed25519 public key from '' @ pem_path)
         | Pem_other_key \<Rightarrow> Inr (2, ''usage: public key is not an Ed25519 public key'')
         | Pem_ed25519 pk \<Rightarrow>
             (case dbs db_path of
                Db_no_open exc \<Rightarrow> Inr (2, ''usage: cannot open ledger db '' @ db_path @ '': '' @ exc)
              | Db_no_table exc \<Rightarrow>
                  Inr (2, ''usage: cannot read receipts table from '' @ db_path @ '': '' @ exc)
              | Db_rows rows \<Rightarrow> print_verdict (verify_ledger_rows C pk rows))))"

section \<open>What an accepted row satisfies\<close>

lemma check_row_Advance:
  "check_row C pk core p raw = Advance h \<longleftrightarrow>
     (\<exists>d. json_loads raw = Some (JObj d) \<and> set core \<union> set EXCLUDED_KEYS \<subseteq> set (keys d) \<and>
        h = sha256_hex C (canonical_bytes (JObj (drop_excluded d))) \<and>
        jget d ''this_hash'' = JStr h \<and> jget d ''prev_hash'' = JStr p \<and>
        check_signature C pk (jget d ''sig'') h)"
  by (auto simp: check_row_def loads_def recompute_hash_def content_dict_from_row_def
      split: option.splits sum.splits json.splits if_splits)

text \<open>The bytes a row's hash is taken of.\<close>

definition row_preimage :: "string \<Rightarrow> string" where
  "row_preimage raw = (case json_loads raw of
     Some (JObj d) \<Rightarrow> canonical_bytes (JObj (drop_excluded d)) | _ \<Rightarrow> [])"

lemma canonical_object_head: "\<exists>s. canonical_bytes (JObj d) = CHR ''{'' # s"
proof -
  obtain d' where "canon (JObj d) = JObj d'" by simp
  then show ?thesis by (cases d') (simp_all add: canonical_bytes_def)
qed

lemma jget_of_canonical:
  assumes "wf_json (JObj d)" and "wf_json (JObj d')"
    and "canonical_bytes (JObj d) = canonical_bytes (JObj d')"
  shows "canon (jget d k) = canon (jget d' k)"
proof -
  have "canon (JObj d) = canon (JObj d')" using assms canonical_bytes_inj by blast
  then have "map_option canon (map_of d k) = map_option canon (map_of d' k)"
    using assms(1,2) map_of_canon_obj [of d k] map_of_canon_obj [of d' k] by simp
  then show ?thesis by (auto simp: jget_def jopt_def split: option.splits)
qed

lemma wf_drop_excluded: "wf_json (JObj d) \<Longrightarrow> wf_json (JObj (drop_excluded d))"
  by (simp add: drop_excluded_def)

lemma jget_drop_excluded: "k \<notin> set EXCLUDED_KEYS \<Longrightarrow> jget (drop_excluded d) k = jget d k"
  using map_of_filter_keys [of "\<lambda>k. k \<notin> set EXCLUDED_KEYS" d k]
  by (simp add: jget_def drop_excluded_def case_prod_unfold)

text \<open>Rows whose hashed bytes agree name the same previous hash.\<close>

lemma same_preimage_same_prev:
  assumes "check_row C pk core p raw = Advance h" and "check_row C pk core' p' raw' = Advance h'"
    and "row_preimage raw = row_preimage raw'"
  shows "p = p'"
proof -
  obtain d where d: "json_loads raw = Some (JObj d)" "jget d ''prev_hash'' = JStr p"
    using assms(1) by (auto simp: check_row_Advance)
  obtain d' where d': "json_loads raw' = Some (JObj d')" "jget d' ''prev_hash'' = JStr p'"
    using assms(2) by (auto simp: check_row_Advance)
  have wf: "wf_json (JObj (drop_excluded d))" "wf_json (JObj (drop_excluded d'))"
    using d(1) d'(1) by (auto dest!: wf_json_loads simp del: wf_json.simps intro: wf_drop_excluded)
  have "canon (jget (drop_excluded d) ''prev_hash'') = canon (jget (drop_excluded d') ''prev_hash'')"
    using wf assms(3) d(1) d'(1) by (intro jget_of_canonical) (auto simp: row_preimage_def)
  then show ?thesis using d(2) d'(2) by (simp add: jget_drop_excluded EXCLUDED_KEYS_def)
qed

lemma check_row_chain:
  assumes "hd genesis \<noteq> CHR ''{''"
  shows "hash_chain (check_row C pk core) (sha256_hex C) row_preimage genesis"
proof
  fix p raw h
  assume adv: "check_row C pk core p raw = Advance h"
  then show "h = sha256_hex C (row_preimage raw)"
    by (auto simp: check_row_Advance row_preimage_def)
  from adv obtain d where "json_loads raw = Some (JObj d)" by (auto simp: check_row_Advance)
  then show "row_preimage raw \<noteq> genesis"
    using assms canonical_object_head [of "drop_excluded d"] by (auto simp: row_preimage_def)
next
  fix p raw h p' raw' h'
  assume "check_row C pk core p raw = Advance h" "check_row C pk core p' raw' = Advance h'"
    "row_preimage raw = row_preimage raw'"
  then show "p = p'" by (rule same_preimage_same_prev)
qed

interpretation ledger_chain: hash_chain
  "check_row C pk CONTENT_KEYS" "sha256_hex C" row_preimage "''GENESIS''" for C pk
  by (rule check_row_chain) simp

section \<open>Sealed rows\<close>

text \<open>
  What both appends store: the content dict with its hash and the signature of the hash, in
  canonical form. The check of such a row, against the previous hash it names, advances.
\<close>

definition seal :: "crypto \<Rightarrow> string \<Rightarrow> json dict \<Rightarrow> json dict" where
  "seal C sk content = (let this_hash = sha256_hex C (canonical_bytes (JObj content)) in
     content @ [(''this_hash'', JStr this_hash),
                (''sig'', JStr (b64encode (ed_sign C sk this_hash)))])"

lemma wf_seal:
  assumes "wf_json (JObj content)" and "set EXCLUDED_KEYS \<inter> set (keys content) = {}"
  shows "wf_json (JObj (seal C sk content))"
  using assms by (auto simp: seal_def wf_dict_def keys_def EXCLUDED_KEYS_def Let_def)

lemma drop_excluded_seal:
  assumes "set EXCLUDED_KEYS \<inter> set (keys content) = {}"
  shows "drop_excluded (seal C sk content) = content"
proof -
  have "filter (\<lambda>p. fst p \<notin> set EXCLUDED_KEYS) content = content"
    using assms by (intro filter_True) (auto simp: keys_def)
  then show ?thesis by (simp add: drop_excluded_def seal_def EXCLUDED_KEYS_def Let_def)
qed

lemma loads_seal:
  assumes wf: "wf_json (JObj content)" and ex: "set EXCLUDED_KEYS \<inter> set (keys content) = {}"
  obtains d where "json_loads (canonical_bytes (JObj (seal C sk content))) = Some (JObj d)"
    "set (keys d) = set (keys (seal C sk content))"
    "\<And>k. map_of d k = map_option canon (map_of (seal C sk content) k)"
    "canonical_bytes (JObj (drop_excluded d)) = canonical_bytes (JObj content)"
proof -
  let ?d = "sort_key fst (map canon_item (seal C sk content))"
  have w: "wf_json (JObj (seal C sk content))" using wf ex by (rule wf_seal)
  have "canon (JObj (drop_excluded ?d)) = canon (JObj (drop_excluded (seal C sk content)))"
    unfolding drop_excluded_def by (rule canon_filter_keys)
  then have "canonical_bytes (JObj (drop_excluded ?d)) = canonical_bytes (JObj content)"
    by (simp only: canonical_bytes_def drop_excluded_seal [OF ex])
  moreover have "map_of ?d k = map_option canon (map_of (seal C sk content) k)" for k
    using w by (intro map_of_canon_obj) simp
  moreover have "set (keys ?d) = set (keys (seal C sk content))" by (auto simp: keys_def image_image)
  ultimately show thesis using loads_canonical [OF w] that by simp
qed

lemma map_of_seal:
  assumes "set EXCLUDED_KEYS \<inter> set (keys content) = {}"
  shows "map_of (seal C sk content) ''this_hash'' =
      Some (JStr (sha256_hex C (canonical_bytes (JObj content))))"
    and "map_of (seal C sk content) ''sig'' =
      Some (JStr (b64encode (ed_sign C sk (sha256_hex C (canonical_bytes (JObj content))))))"
proof -
  have "map_of content ''this_hash'' = None" "map_of content ''sig'' = None"
    using assms by (auto simp: EXCLUDED_KEYS_def keys_def map_of_eq_None_iff)
  then show "map_of (seal C sk content) ''this_hash'' =
      Some (JStr (sha256_hex C (canonical_bytes (JObj content))))"
    and "map_of (seal C sk content) ''sig'' =
      Some (JStr (b64encode (ed_sign C sk (sha256_hex C (canonical_bytes (JObj content))))))"
    by (simp_all add: seal_def Let_def map_add_def)
qed

lemma map_of_seal_content: "map_of content k = Some v \<Longrightarrow> map_of (seal C sk content) k = Some v"
proof -
  assume "map_of content k = Some v"
  moreover have "map_of (xs @ ys) k = Some v" if "map_of xs k = Some v" for xs ys :: "json dict"
    using that by (simp add: map_add_def split: option.split)
  ultimately show ?thesis by (simp only: seal_def Let_def)
qed

lemma check_sealed:
  assumes "sig_correct C" and wf: "wf_json (JObj content)"
    and ex: "set EXCLUDED_KEYS \<inter> set (keys content) = {}"
    and core: "set core \<subseteq> set (keys content)"
    and prev: "map_of content ''prev_hash'' = Some (JStr p)"
  shows "check_row C (ed_pub C sk) core p (canonical_bytes (JObj (seal C sk content))) =
    Advance (sha256_hex C (canonical_bytes (JObj content)))"
proof -
  let ?h = "sha256_hex C (canonical_bytes (JObj content))"
  obtain d where d: "json_loads (canonical_bytes (JObj (seal C sk content))) = Some (JObj d)"
    "set (keys d) = set (keys (seal C sk content))"
    "\<And>k. map_of d k = map_option canon (map_of (seal C sk content) k)"
    "canonical_bytes (JObj (drop_excluded d)) = canonical_bytes (JObj content)"
    using loads_seal [OF wf ex, of C sk] by blast
  have "set core \<union> set EXCLUDED_KEYS \<subseteq> set (keys d)"
    using core unfolding d(2) by (auto simp: seal_def keys_def EXCLUDED_KEYS_def Let_def)
  moreover have "jget d ''this_hash'' = JStr ?h" "jget d ''prev_hash'' = JStr p"
    using map_of_seal(1) [OF ex] map_of_seal_content [OF prev] by (simp_all add: jget_def jopt_def d(3))
  moreover have "check_signature C (ed_pub C sk) (jget d ''sig'') ?h"
    using map_of_seal(2) [OF ex] assms(1)
    by (simp add: jget_def jopt_def d(3) check_signature_def decode_sig_def sig_correctD)
  ultimately show ?thesis using d(1,4) by (auto simp: check_row_Advance)
qed

text \<open>Both \<^verbatim>\<open>_head_hash\<close> methods: the stored hash of the last row, or the genesis.\<close>

definition head_hash :: "string \<Rightarrow> table \<Rightarrow> exn + json" where
  "head_hash genesis t =
     (if t = [] then Inr (JStr genesis)
      else bind_res (loads (snd (last t))) (\<lambda>j. subscript j ''this_hash''))"

lemma head_hash_Advance:
  "check_row C pk core p raw = Advance h \<Longrightarrow> head_hash g (t @ [(s, raw)]) = Inr (JStr h)"
  by (auto simp: check_row_Advance head_hash_def loads_def jget_def jopt_def split: option.splits)

lemma wf_head_hash: "head_hash g t = Inr p \<Longrightarrow> wf_json p"
proof -
  assume h: "head_hash g t = Inr p"
  show "wf_json p"
  proof (cases "t = []")
    case False
    with h obtain j where j: "json_loads (snd (last t)) = Some j" "subscript j ''this_hash'' = Inr p"
      by (auto simp: head_hash_def loads_def bind_res_Inr split: option.splits)
    then show ?thesis using wf_json_loads [OF j(1)]
      by (cases j) (auto split: option.splits dest!: map_of_SomeD)
  qed (use h in \<open>auto simp: head_hash_def\<close>)
qed

lemma end_hash_head:
  "end_hash (check_row C pk core) genesis t = Some h \<Longrightarrow> head_hash genesis t = Inr (JStr h)"
proof (cases t rule: rev_cases)
  case (snoc t' r)
  moreover assume "end_hash (check_row C pk core) genesis t = Some h"
  ultimately show ?thesis by (cases r) (auto simp: end_hash_snoc intro: head_hash_Advance)
qed (simp add: head_hash_def)

text \<open>
  Tamper evidence for both chains: accepted under whatever keys, two tables with the same head
  hash agree or exhibit a collision. The signatures play no part in it.
\<close>

lemma same_head_same_rows:
  assumes "hd genesis \<noteq> CHR ''{''"
    and "walk (check_row C pk core) (sha256_hex C genesis) 0 t = Verified n"
    and "walk (check_row C pk' core) (sha256_hex C genesis) 0 u = Verified m"
    and "head_hash (sha256_hex C genesis) t = head_hash (sha256_hex C genesis) u"
  shows "(n = m \<and> map (row_preimage \<circ> snd) t = map (row_preimage \<circ> snd) u) \<or> (\<exists>a b. collision C a b)"
proof -
  obtain h where h: "end_hash (check_row C pk core) (sha256_hex C genesis) t = Some h" "n = length t"
    using assms(2) by (auto simp: walk_Verified)
  obtain g where g: "end_hash (check_row C pk' core) (sha256_hex C genesis) u = Some g" "m = length u"
    using assms(3) by (auto simp: walk_Verified)
  have "g = h" using end_hash_head [OF h(1)] end_hash_head [OF g(1)] assms(4) by simp
  let ?C = "C\<lparr>ed_verify := \<lambda>_ _ _. True\<rparr>"
  note chain = check_row_chain [OF assms(1), of ?C pk core]
  have sha: "sha256_hex ?C = sha256_hex C" by simp
  have any: "check_row C key core p raw = Advance x \<Longrightarrow> check_row ?C pk core p raw = Advance x" for key p raw x
    by (auto simp: check_row_Advance check_signature_def split: option.splits)
  have h': "end_hash (check_row ?C pk core) (sha256_hex C genesis) t = Some h"
    using any h(1) by (rule end_hash_mono)
  have g': "end_hash (check_row ?C pk core) (sha256_hex C genesis) u = Some h"
    using any g(1) unfolding \<open>g = h\<close> by (rule end_hash_mono)
  have "map (row_preimage \<circ> snd) t = map (row_preimage \<circ> snd) u \<or>
      (\<exists>a b. a \<noteq> b \<and> sha256_hex C a = sha256_hex C b)"
    using hash_chain.same_head [OF chain, of t h u] h' g' unfolding sha by blast
  then show ?thesis unfolding h(2) g(2) collision_def by (metis length_map)
qed

end
