(* ===== verification/Ledger.thy ===== *)
theory Ledger
  imports Verify_Ledger
begin

text \<open>
  \<^verbatim>\<open>ledger/receipts.py\<close>: the receipt store. Its whole state is the table and the private key;
  \<open>append\<close> and the reads are the class's methods. The table of a fresh database is empty.
\<close>

section \<open>Appending\<close>

text \<open>The keyword arguments of \<^verbatim>\<open>Ledger.append\<close>.\<close>

record entry =
  e_receipt_id :: string
  e_order_id :: string
  e_ticket_id :: "string option"
  e_status :: string
  e_reason_code :: "string option"
  e_result_digest :: "string option"
  e_attestation :: "json option"
  e_order_meta :: "json option"
  e_containment :: "string option"

definition ledger_head_hash :: "crypto \<Rightarrow> table \<Rightarrow> exn + json" where
  "ledger_head_hash C t = head_hash (GENESIS_PREV_HASH C) t"

definition content_dict :: "entry \<Rightarrow> json \<Rightarrow> json dict" where
  "content_dict e prev_hash =
     [(''receipt_id'', JStr (e_receipt_id e)), (''order_id'', JStr (e_order_id e)),
      (''ticket_id'', jstr_opt (e_ticket_id e)), (''status'', JStr (e_status e)),
      (''reason_code'', jstr_opt (e_reason_code e)),
      (''result_digest'', jstr_opt (e_result_digest e)),
      (''attestation'', jopt (e_attestation e)), (''order_meta'', jopt (e_order_meta e)),
      (''containment'', jstr_opt (e_containment e)), (''prev_hash'', prev_hash)]"

definition ledger_append :: "crypto \<Rightarrow> string \<Rightarrow> entry \<Rightarrow> table \<Rightarrow> exn + table \<times> receipt" where
  "ledger_append C private_key e t =
     bind_res (ledger_head_hash C t) (\<lambda>prev_hash.
       let content = content_dict e prev_hash;
           this_hash = receipt_content_hash C content;
           raw_sig = ed_sign C private_key this_hash;
           row_dict = content @ [(''this_hash'', JStr this_hash), (''sig'', JStr (b64encode raw_sig))]
       in Inr (insert_row (canonical_bytes (JObj row_dict)) t,
          \<lparr>r_receipt_id = JStr (e_receipt_id e), r_order_id = JStr (e_order_id e),
           r_ticket_id = jstr_opt (e_ticket_id e), r_status = JStr (e_status e),
           r_reason_code = jstr_opt (e_reason_code e),
           r_result_digest = jstr_opt (e_result_digest e),
           r_attestation = jopt (e_attestation e), r_prev_hash = prev_hash,
           r_this_hash = JStr this_hash, r_sig = raw_sig,
           r_order_meta = jopt (e_order_meta e), r_containment = jstr_opt (e_containment e)\<rparr>))"

section \<open>Reading\<close>

fun map_res :: "('a \<Rightarrow> 'e + 'b) \<Rightarrow> 'a list \<Rightarrow> 'e + 'b list" where
  "map_res f [] = Inr []"
| "map_res f (x # xs) = bind_res (f x) (\<lambda>y. bind_res (map_res f xs) (\<lambda>ys. Inr (y # ys)))"

definition read_all_raw :: "table \<Rightarrow> exn + (int \<times> json) list" where
  "read_all_raw t = map_res (\<lambda>(seq, row_json). bind_res (loads row_json) (\<lambda>j. Inr (seq, j))) t"

definition b64_arg :: "json \<Rightarrow> exn + string" where
  "b64_arg j = (case j of
     JStr s \<Rightarrow> (case b64decode s of None \<Rightarrow> Inl ValueError | Some b \<Rightarrow> Inr b)
   | _ \<Rightarrow> Inl TypeError)"

definition receipt_from_row :: "json \<Rightarrow> exn + receipt" where
  "receipt_from_row row =
     bind_res (subscript row ''receipt_id'') (\<lambda>rid.
     bind_res (subscript row ''order_id'') (\<lambda>oid.
     bind_res (subscript row ''ticket_id'') (\<lambda>tid.
     bind_res (subscript row ''status'') (\<lambda>st.
     bind_res (subscript row ''reason_code'') (\<lambda>rc.
     bind_res (subscript row ''result_digest'') (\<lambda>rd.
     bind_res (subscript row ''attestation'') (\<lambda>att.
     bind_res (subscript row ''prev_hash'') (\<lambda>ph.
     bind_res (subscript row ''this_hash'') (\<lambda>th.
     bind_res (subscript row ''sig'') (\<lambda>sg.
     bind_res (b64_arg sg) (\<lambda>raw_sig.
     bind_res (items row) (\<lambda>d. Inr
       \<lparr>r_receipt_id = rid, r_order_id = oid, r_ticket_id = tid, r_status = st,
        r_reason_code = rc, r_result_digest = rd, r_attestation = att, r_prev_hash = ph,
        r_this_hash = th, r_sig = raw_sig, r_order_meta = jget d ''order_meta'',
        r_containment = jget d ''containment''\<rparr>))))))))))))"

definition read_all :: "table \<Rightarrow> exn + receipt list" where
  "read_all t = map_res (\<lambda>(seq, row_json). bind_res (loads row_json) receipt_from_row) t"

section \<open>The append is a chain store\<close>

text \<open>The dictionaries handed to \<open>append\<close> have each key once, as every Python dict does.\<close>

definition wf_entry :: "entry \<Rightarrow> bool" where
  "wf_entry e \<longleftrightarrow> wf_json (jopt (e_attestation e)) \<and> wf_json (jopt (e_order_meta e))"

lemma content_dict_keys:
  "keys (content_dict e p) = [''receipt_id'', ''order_id'', ''ticket_id'', ''status'',
     ''reason_code'', ''result_digest'', ''attestation'', ''order_meta'', ''containment'', ''prev_hash'']"
  by (simp add: content_dict_def keys_def)

lemma content_dict_facts:
  "set EXCLUDED_KEYS \<inter> set (keys (content_dict e p)) = {}"
  "set CONTENT_KEYS \<subseteq> set (keys (content_dict e p))"
  "map_of (content_dict e p) ''prev_hash'' = Some p"
  "wf_entry e \<Longrightarrow> wf_json p \<Longrightarrow> wf_json (JObj (content_dict e p))"
  unfolding content_dict_keys
  by (simp_all add: EXCLUDED_KEYS_def CONTENT_KEYS_def content_dict_def wf_dict_def wf_entry_def)

text \<open>What is stored is the sealed content.\<close>

lemma ledger_append_Inr:
  "ledger_head_hash C t = Inr p \<Longrightarrow> \<exists>r. ledger_append C sk e t =
     Inr (insert_row (canonical_bytes (JObj (seal C sk (content_dict e p)))) t, r)"
  by (simp add: ledger_append_def seal_def receipt_content_hash_def Let_def)

lemma ledger_append_receipt:
  "ledger_append C sk e t = Inr (t', r) \<Longrightarrow>
    r_receipt_id r = JStr (e_receipt_id e) \<and> r_order_id r = JStr (e_order_id e) \<and>
    r_ticket_id r = jstr_opt (e_ticket_id e) \<and> r_status r = JStr (e_status e) \<and>
    r_reason_code r = jstr_opt (e_reason_code e) \<and> r_result_digest r = jstr_opt (e_result_digest e) \<and>
    r_attestation r = jopt (e_attestation e) \<and> r_order_meta r = jopt (e_order_meta e) \<and>
    r_containment r = jstr_opt (e_containment e)"
  by (auto simp: ledger_append_def Let_def bind_res_Inr)

interpretation receipts: chain_store
  "check_row C (ed_pub C sk) CONTENT_KEYS" "sha256_hex C" row_preimage "''GENESIS''"
  "ledger_head_hash C" "ledger_append C sk" "\<lambda>e. sig_correct C \<and> wf_entry e"
  for C sk
proof
  fix p raw h t s
  assume "check_row C (ed_pub C sk) CONTENT_KEYS p raw = Advance h"
  then show "ledger_head_hash C (t @ [(s, raw)]) = Inr (JStr h)"
    unfolding ledger_head_hash_def by (rule head_hash_Advance)
next
  fix e t p
  assume e: "sig_correct C \<and> wf_entry e" and p: "ledger_head_hash C t = Inr (JStr p)"
  from e have "check_row C (ed_pub C sk) CONTENT_KEYS p
      (canonical_bytes (JObj (seal C sk (content_dict e (JStr p))))) =
      Advance (sha256_hex C (canonical_bytes (JObj (content_dict e (JStr p)))))"
    using content_dict_facts [of e "JStr p"] by (intro check_sealed) (simp_all del: wf_json.simps(2))
  then show "\<exists>raw r h. ledger_append C sk e t = Inr (insert_row raw t, r) \<and>
      check_row C (ed_pub C sk) CONTENT_KEYS p raw = Advance h"
    using ledger_append_Inr [OF p, of sk e] by blast
qed (simp add: ledger_head_hash_def head_hash_def GENESIS_PREV_HASH_def)

section \<open>Reading back what was appended\<close>

text \<open>A receipt as it comes back: its dictionaries in key order.\<close>

definition canon_receipt :: "receipt \<Rightarrow> receipt" where
  "canon_receipt r =
     \<lparr>r_receipt_id = canon (r_receipt_id r), r_order_id = canon (r_order_id r),
      r_ticket_id = canon (r_ticket_id r), r_status = canon (r_status r),
      r_reason_code = canon (r_reason_code r), r_result_digest = canon (r_result_digest r),
      r_attestation = canon (r_attestation r), r_prev_hash = canon (r_prev_hash r),
      r_this_hash = canon (r_this_hash r), r_sig = r_sig r,
      r_order_meta = canon (r_order_meta r), r_containment = canon (r_containment r)\<rparr>"

lemma map_res_append:
  "map_res f (xs @ ys) = bind_res (map_res f xs) (\<lambda>as. bind_res (map_res f ys) (\<lambda>bs. Inr (as @ bs)))"
proof (induction xs)
  case Nil
  then show ?case by (cases "map_res f ys") simp_all
next
  case (Cons x xs)
  then show ?case
    by (cases "f x"; cases "map_res f xs"; cases "map_res f ys") simp_all
qed

lemma sealed_fields:
  fixes C sk e p
  defines "m \<equiv> map_of (seal C sk (content_dict e p))"
    and "h \<equiv> receipt_content_hash C (content_dict e p)"
  shows "m ''receipt_id'' = Some (JStr (e_receipt_id e))" "m ''order_id'' = Some (JStr (e_order_id e))"
    "m ''ticket_id'' = Some (jstr_opt (e_ticket_id e))" "m ''status'' = Some (JStr (e_status e))"
    "m ''reason_code'' = Some (jstr_opt (e_reason_code e))"
    "m ''result_digest'' = Some (jstr_opt (e_result_digest e))"
    "m ''attestation'' = Some (jopt (e_attestation e))"
    "m ''order_meta'' = Some (jopt (e_order_meta e))"
    "m ''containment'' = Some (jstr_opt (e_containment e))" "m ''prev_hash'' = Some p"
    "m ''this_hash'' = Some (JStr h)" "m ''sig'' = Some (JStr (b64encode (ed_sign C sk h)))"
  unfolding m_def h_def using map_of_seal [OF content_dict_facts(1), of C sk e p]
  by (auto simp: receipt_content_hash_def content_dict_def intro!: map_of_seal_content)

lemma receipt_from_sealed:
  assumes d: "\<And>k. map_of d k = map_option canon (map_of (seal C sk (content_dict e p)) k)"
    and a: "ledger_head_hash C t = Inr p" "ledger_append C sk e t = Inr (t', r)"
  shows "receipt_from_row (JObj d) = Inr (canon_receipt r)"
proof -
  have r: "canon_receipt r = canon_receipt
      \<lparr>r_receipt_id = JStr (e_receipt_id e), r_order_id = JStr (e_order_id e),
       r_ticket_id = jstr_opt (e_ticket_id e), r_status = JStr (e_status e),
       r_reason_code = jstr_opt (e_reason_code e), r_result_digest = jstr_opt (e_result_digest e),
       r_attestation = jopt (e_attestation e), r_prev_hash = p,
       r_this_hash = JStr (receipt_content_hash C (content_dict e p)),
       r_sig = ed_sign C sk (receipt_content_hash C (content_dict e p)),
       r_order_meta = jopt (e_order_meta e), r_containment = jstr_opt (e_containment e)\<rparr>"
    using a by (simp add: ledger_append_def Let_def)
  show ?thesis unfolding r
    by (simp add: receipt_from_row_def d sealed_fields b64_arg_def jget_Some canon_receipt_def)
qed

lemma wf_ledger_head_hash: "ledger_head_hash C t = Inr p \<Longrightarrow> wf_json p"
  unfolding ledger_head_hash_def by (rule wf_head_hash)

lemma read_all_append:
  assumes wf: "wf_entry e" and app: "ledger_append C sk e t = Inr (t', r)"
    and old: "read_all t = Inr rs"
  shows "read_all t' = Inr (rs @ [canon_receipt r])"
proof -
  obtain p where p: "ledger_head_hash C t = Inr p"
    using app by (cases "ledger_head_hash C t") (auto simp: ledger_append_def)
  let ?raw = "canonical_bytes (JObj (seal C sk (content_dict e p)))"
  have t': "t' = insert_row ?raw t" using ledger_append_Inr [OF p, of sk e] app by auto
  obtain d where d: "json_loads ?raw = Some (JObj d)"
    "\<And>k. map_of d k = map_option canon (map_of (seal C sk (content_dict e p)) k)"
    using loads_seal [OF content_dict_facts(4) [OF wf wf_ledger_head_hash [OF p]] content_dict_facts(1), of C sk]
    by blast
  have "receipt_from_row (JObj d) = Inr (canon_receipt r)"
    by (rule receipt_from_sealed [OF d(2) p app])
  then show ?thesis
    using old d(1) by (simp add: t' insert_row_def read_all_def map_res_append loads_def)
qed

section \<open>Properties\<close>

lemma verify_ledger_rows_Verified:
  "verify_ledger_rows C pk t = Verified n \<longleftrightarrow>
     end_hash (check_row C pk CONTENT_KEYS) (sha256_hex C ''GENESIS'') t \<noteq> None \<and> n = length t"
  by (simp add: verify_ledger_rows_def GENESIS_PREV_HASH_def walk_Verified)

lemma head_of_verified:
  "end_hash (check_row C pk CONTENT_KEYS) (sha256_hex C ''GENESIS'') t = Some h \<Longrightarrow>
    ledger_head_hash C t = Inr (JStr h)"
  unfolding ledger_head_hash_def GENESIS_PREV_HASH_def by (rule end_hash_head)

text \<open>An entry for the witnesses.\<close>

definition example_entry :: entry where
  "example_entry = \<lparr>e_receipt_id = ''rcpt-1'', e_order_id = ''o1'', e_ticket_id = None,
     e_status = ''REJECTED'', e_reason_code = Some ''OFF_MENU'', e_result_digest = None,
     e_attestation = None, e_order_meta = None, e_containment = None\<rparr>"

lemma wf_example_entry [simp]: "wf_entry example_entry"
  by (simp add: wf_entry_def example_entry_def jopt_def)

lemma ledger_append_verified:
  assumes "sig_correct C" and "wf_entry e" and "verify_ledger_rows C (ed_pub C sk) t = Verified n"
  shows "\<exists>raw r. ledger_append C sk e t = Inr (insert_row raw t, r) \<and>
    verify_ledger_rows C (ed_pub C sk) (insert_row raw t) = Verified (Suc n)"
  using receipts.append_verified [of C e sk t n] assms
  by (simp add: verify_ledger_rows_def GENESIS_PREV_HASH_def)

text \<open>
  C22. Appending a receipt to a ledger that the standalone verifier accepts with \<open>n\<close> rows
  succeeds, only adds one row at the end, and gives a ledger that the verifier accepts with
  \<open>n + 1\<close> rows.
\<close>

theorem append_keeps_chain_verified:
  assumes "sig_correct C" and "wf_entry e" and "verify_ledger_rows C (ed_pub C sk) t = Verified n"
  shows "\<exists>raw r. ledger_append C sk e t = Inr (insert_row raw t, r) \<and>
    verify_ledger_rows C (ed_pub C sk) (insert_row raw t) = Verified (Suc n)"
  using assms by (rule ledger_append_verified)

theorem append_keeps_chain_verified_witness:
  "\<exists>raw r. ledger_append example_crypto ''sk'' example_entry [] = Inr (insert_row raw [], r) \<and>
    verify_ledger_rows example_crypto (ed_pub example_crypto ''sk'') (insert_row raw []) = Verified (Suc 0)"
  by (rule append_keeps_chain_verified) (simp_all add: verify_ledger_rows_def)

lemma example_pub: "ed_pub example_crypto sk = sk"
  by (simp add: example_crypto_def)

lemma example_append:
  "verify_ledger_rows example_crypto ''sk'' t = Verified n \<Longrightarrow>
    \<exists>raw. verify_ledger_rows example_crypto ''sk'' (insert_row raw t) = Verified (Suc n)"
  using ledger_append_verified [OF sig_correct_example wf_example_entry, of "''sk''" t n]
  unfolding example_pub by blast

lemma example_ledger:
  obtains raw where "verify_ledger_rows example_crypto ''sk'' [(1, raw)] = Verified 1"
  using example_append [of "[]" 0] by (auto simp: verify_ledger_rows_def insert_row_def next_seq_def)

lemma example_ledger2:
  obtains raw raw2 where "verify_ledger_rows example_crypto ''sk'' [(1, raw), (2, raw2)] = Verified 2"
proof -
  obtain raw where "verify_ledger_rows example_crypto ''sk'' [(1, raw)] = Verified 1"
    by (rule example_ledger)
  from example_append [OF this] show thesis
    using that by (auto simp: insert_row_def next_seq_def numeral_2_eq_2)
qed



text \<open>
  Editing in place: if one row of an accepted ledger is replaced and the rest kept, with at
  least one row after it, and the verifier still accepts, then the hashed content of the row is
  unchanged or there is a collision of SHA-256.
\<close>

theorem edit_in_place_is_detected:
  assumes "verify_ledger_rows C pk (a @ (s, raw) # (s2, next_raw) # b) = Verified n"
    and "verify_ledger_rows C pk (a @ (s', raw') # (s2, next_raw) # b) = Verified m"
  shows "row_preimage raw = row_preimage raw' \<or> collision C (row_preimage raw) (row_preimage raw')"
proof -
  let ?row = "check_row C pk CONTENT_KEYS"
  obtain p h k where 1: "end_hash ?row (sha256_hex C ''GENESIS'') a = Some p"
    "?row p raw = Advance h" "?row h next_raw = Advance k"
    using assms(1) by (auto simp: verify_ledger_rows_Verified end_hash_append split: option.splits row_check.splits)
  obtain p' h' k' where 2: "end_hash ?row (sha256_hex C ''GENESIS'') a = Some p'"
    "?row p' raw' = Advance h'" "?row h' next_raw = Advance k'"
    using assms(2) by (auto simp: verify_ledger_rows_Verified end_hash_append split: option.splits row_check.splits)
  have "h = h'" using 1(3) 2(3) same_preimage_same_prev by blast
  then show ?thesis
    using ledger_chain.row_hash [OF 1(2)] ledger_chain.row_hash [OF 2(2)] by (auto simp: collision_def)
qed

theorem edit_in_place_is_detected_witness:
  "\<exists>raw raw2. verify_ledger_rows example_crypto ''sk'' [(1, raw), (2, raw2)] = Verified 2 \<and>
     (row_preimage raw = row_preimage raw \<or> collision example_crypto (row_preimage raw) (row_preimage raw))"
proof -
  obtain raw raw2 where "verify_ledger_rows example_crypto ''sk'' [(1, raw), (2, raw2)] = Verified 2"
    by (rule example_ledger2)
  then show ?thesis
    using edit_in_place_is_detected [of example_crypto "''sk''" "[]" 1 raw 2 raw2 "[]" 2 1 raw 2] by auto
qed

text \<open>
  Every row of a ledger that the verifier accepts carries a signature by the holder of the
  key over the hash of that row's own content, and names the hash of the row before it.
\<close>

theorem accepted_rows_are_signed:
  assumes "verify_ledger_rows C pk (a @ (s, raw) # b) = Verified n"
  shows "\<exists>d sig. json_loads raw = Some (JObj d) \<and> decode_sig (jget d ''sig'') = Some sig \<and>
      ed_verify C pk sig (sha256_hex C (canonical_bytes (JObj (drop_excluded d)))) \<and>
      ledger_head_hash C a = Inr (jget d ''prev_hash'')"
proof -
  obtain p h where 1: "end_hash (check_row C pk CONTENT_KEYS) (sha256_hex C ''GENESIS'') a = Some p"
    "check_row C pk CONTENT_KEYS p raw = Advance h"
    using assms by (auto simp: verify_ledger_rows_Verified end_hash_append split: option.splits row_check.splits)
  then show ?thesis
    by (auto simp: check_row_Advance check_signature_def head_of_verified split: option.splits)
qed

theorem accepted_rows_are_signed_witness:
  "\<exists>raw d sig. json_loads raw = Some (JObj d) \<and> decode_sig (jget d ''sig'') = Some sig \<and>
     ed_verify example_crypto ''sk'' sig
       (sha256_hex example_crypto (canonical_bytes (JObj (drop_excluded d)))) \<and>
     ledger_head_hash example_crypto [] = Inr (jget d ''prev_hash'')"
proof -
  obtain raw raw2 where "verify_ledger_rows example_crypto ''sk'' [(1, raw), (2, raw2)] = Verified 2"
    by (rule example_ledger2)
  then show ?thesis
    using accepted_rows_are_signed [of example_crypto "''sk''" "[]" 1 raw "[(2, raw2)]" 2] by auto
qed

text \<open>
  The ledger reads back what was appended: after an append, \<^verbatim>\<open>read_all\<close> returns the old
  receipts and then the very receipt that \<^verbatim>\<open>append\<close> returned, its dictionaries in key order; it
  holds also when the stored head is not a hash at all.
\<close>

theorem read_all_returns_appended_receipt:
  assumes "wf_entry e" and "ledger_append C sk e t = Inr (t', r)" and "read_all t = Inr rs"
  shows "read_all t' = Inr (rs @ [canon_receipt r])"
  using assms by (rule read_all_append)

theorem read_all_returns_appended_receipt_witness:
  "\<exists>t' r. ledger_append example_crypto ''sk'' example_entry [] = Inr (t', r) \<and>
     read_all t' = Inr [canon_receipt r]"
proof -
  have "ledger_head_hash example_crypto [] = Inr (JStr (GENESIS_PREV_HASH example_crypto))"
    by (simp add: ledger_head_hash_def head_hash_def)
  from ledger_append_Inr [OF this] obtain t' r
    where a: "ledger_append example_crypto ''sk'' example_entry [] = Inr (t', r)" by blast
  have "read_all t' = Inr ([] @ [canon_receipt r])"
    using wf_example_entry a by (rule read_all_returns_appended_receipt) (simp add: read_all_def)
  then show ?thesis using a by auto
qed

text \<open>
  The verifier's report on a broken chain is about the first bad row: it prints
  \<^verbatim>\<open>FAIL seq=s reason=r\<close> with exit code 1 exactly when all rows before the row numbered \<open>s\<close> are
  accepted and that row's check refuses with reason \<open>r\<close> against their last hash.
\<close>

theorem first_broken_row_is_reported:
  "verify_ledger_rows C pk t = Broken s r \<longleftrightarrow>
     (\<exists>a raw b h. t = a @ (s, raw) # b \<and> verify_ledger_rows C pk a = Verified (length a) \<and>
        ledger_head_hash C a = Inr (JStr h) \<and> check_row C pk CONTENT_KEYS h raw = Refuse r)"
proof
  assume "verify_ledger_rows C pk t = Broken s r"
  then obtain a raw b h where "t = a @ (s, raw) # b"
    "end_hash (check_row C pk CONTENT_KEYS) (sha256_hex C ''GENESIS'') a = Some h"
    "check_row C pk CONTENT_KEYS h raw = Refuse r"
    unfolding verify_ledger_rows_def GENESIS_PREV_HASH_def by (elim walk_BrokenE) blast
  then show "\<exists>a raw b h. t = a @ (s, raw) # b \<and> verify_ledger_rows C pk a = Verified (length a) \<and>
        ledger_head_hash C a = Inr (JStr h) \<and> check_row C pk CONTENT_KEYS h raw = Refuse r"
    using head_of_verified by (fastforce simp: verify_ledger_rows_Verified)
next
  assume "\<exists>a raw b h. t = a @ (s, raw) # b \<and> verify_ledger_rows C pk a = Verified (length a) \<and>
        ledger_head_hash C a = Inr (JStr h) \<and> check_row C pk CONTENT_KEYS h raw = Refuse r"
  then obtain a raw b h where t: "t = a @ (s, raw) # b"
    and h: "end_hash (check_row C pk CONTENT_KEYS) (sha256_hex C ''GENESIS'') a = Some h"
    and r: "check_row C pk CONTENT_KEYS h raw = Refuse r"
    using head_of_verified by (fastforce simp: verify_ledger_rows_Verified)
  show "verify_ledger_rows C pk t = Broken s r"
    unfolding t verify_ledger_rows_def GENESIS_PREV_HASH_def using h r by (rule walk_BrokenI)
qed

text \<open>
  A defect of the verifier: a row that is a JSON list of the ten key names passes both
  membership tests, and the call of \<^verbatim>\<open>items()\<close> then raises \<^verbatim>\<open>AttributeError\<close>, which nothing
  catches. Instead of a line \<^verbatim>\<open>FAIL seq=... reason=json_parse\<close> the program ends in a traceback.
\<close>

definition listed_keys_row :: string where
  "listed_keys_row = canonical_bytes (JArr (map JStr (CONTENT_KEYS @ EXCLUDED_KEYS)))"

lemma check_keys_arr: "set ks \<subseteq> set ks' \<Longrightarrow> check_keys ks (JArr (map JStr ks')) = Inr ()"
  by (induction ks) auto

theorem list_row_crashes_verifier:
  "verify_ledger_main C (\<lambda>_. Pem_ed25519 pk) (\<lambda>_. Db_rows [(1, listed_keys_row)]) [prog, db, pem] =
     Inl AttributeError"
proof -
  have "json_loads listed_keys_row = Some (JArr (map JStr (CONTENT_KEYS @ EXCLUDED_KEYS)))"
    unfolding listed_keys_row_def by (subst loads_canonical) (auto simp: comp_def)
  moreover have "check_keys CONTENT_KEYS (JArr (map JStr (CONTENT_KEYS @ EXCLUDED_KEYS))) = Inr ()"
    "check_keys EXCLUDED_KEYS (JArr (map JStr (CONTENT_KEYS @ EXCLUDED_KEYS))) = Inr ()"
    by (rule check_keys_arr, simp)+
  ultimately have "check_row C pk CONTENT_KEYS p listed_keys_row = Raise AttributeError" for p
    by (simp add: check_row_def loads_def recompute_hash_def content_dict_from_row_def del: map_append)
  then show ?thesis by (simp add: verify_ledger_main_def verify_ledger_rows_def print_verdict_def)
qed

end
