(* ===== verification/Policy.thy ===== *)
theory Policy
  imports Ledger
begin

text \<open>
  \<^verbatim>\<open>cashier/policy.py\<close>: the policies and their loader. The loader copies values as they stand and
  the dataclass does not check them; the model's policies have the annotated types, and a file
  whose values have other types is \<open>Ill_typed\<close>, outside the model, as opposed to \<open>Raises\<close>, where
  the loader raises.
\<close>

record policy =
  p_role :: string
  p_allowed_capabilities :: "string list"
  p_rate_limit_per_hour :: int
  p_paused_capabilities :: "string list"

type_synonym policy_set = "policy list"

fun for_role :: "policy_set \<Rightarrow> string \<Rightarrow> policy option" where
  "for_role [] role = None"
| "for_role (p # ps) role = (if p_role p = role then Some p else for_role ps role)"

lemma for_role_find: "for_role ps role = find (\<lambda>p. p_role p = role) ps"
  by (induction ps) auto

lemma for_role_in_set: "for_role ps role = Some p \<Longrightarrow> p \<in> set ps \<and> p_role p = role"
  by (induction ps) (auto split: if_splits)

section \<open>Loading\<close>

datatype load_error = Raises exn | Ill_typed

definition lift :: "exn + 'a \<Rightarrow> load_error + 'a" where
  "lift r = (case r of Inl e \<Rightarrow> Inl (Raises e) | Inr x \<Rightarrow> Inr x)"

text \<open>Iterating a JSON value: the elements of a list, the keys of a dict, the characters of a string.\<close>

fun iterate :: "json \<Rightarrow> exn + json list" where
  "iterate (JArr js) = Inr js"
| "iterate (JObj d) = Inr (map JStr (keys d))"
| "iterate (JStr s) = Inr (map (\<lambda>c. JStr [c]) s)"
| "iterate _ = Inl TypeError"

fun as_str :: "json \<Rightarrow> load_error + string" where
  "as_str (JStr s) = Inr s"
| "as_str _ = Inl Ill_typed"

fun as_int :: "json \<Rightarrow> load_error + int" where
  "as_int (JInt i) = Inr i"
| "as_int _ = Inl Ill_typed"

definition str_tuple :: "json \<Rightarrow> load_error + string list" where
  "str_tuple j = bind_res (lift (iterate j)) (map_res as_str)"

definition policy_of_entry :: "json \<Rightarrow> load_error + policy" where
  "policy_of_entry entry =
     bind_res (lift (subscript entry ''role'')) (\<lambda>role.
     bind_res (lift (subscript entry ''allowed_capabilities'')) (\<lambda>allowed.
     bind_res (lift (iterate allowed)) (\<lambda>_.
     bind_res (lift (subscript entry ''rate_limit_per_hour'')) (\<lambda>rate.
     bind_res (lift (items entry)) (\<lambda>d.
     bind_res (case map_of d ''paused_capabilities'' of
         None \<Rightarrow> Inr [] | Some j \<Rightarrow> str_tuple j) (\<lambda>paused.
     bind_res (as_str role) (\<lambda>r.
     bind_res (str_tuple allowed) (\<lambda>a.
     bind_res (as_int rate) (\<lambda>n. Inr
       \<lparr>p_role = r, p_allowed_capabilities = a, p_rate_limit_per_hour = n,
        p_paused_capabilities = paused\<rparr>)))))))))"

definition policies_of_text :: "string \<Rightarrow> load_error + policy list" where
  "policies_of_text text =
     bind_res (lift (loads text)) (\<lambda>obj.
     bind_res (lift (subscript obj ''policies'')) (\<lambda>ps.
     bind_res (lift (iterate ps)) (map_res policy_of_entry)))"

text \<open>A directory is the list of its files' names and texts.\<close>

definition load_policy_set :: "(string \<times> string) list \<Rightarrow> load_error + policy_set" where
  "load_policy_set directory =
     bind_res (map_res (\<lambda>(name, text). policies_of_text text)
       (filter (\<lambda>(name, text). endswith name ''.json'') (sort_key fst directory)))
     (\<lambda>pss. Inr (concat pss))"

section \<open>Writing\<close>

text \<open>The entry of a policy as the authoring form and the console write it.\<close>

definition policy_entry :: "policy \<Rightarrow> json" where
  "policy_entry p = JObj
     [(''role'', JStr (p_role p)),
      (''allowed_capabilities'', JArr (map JStr (p_allowed_capabilities p))),
      (''rate_limit_per_hour'', JInt (p_rate_limit_per_hour p)),
      (''paused_capabilities'', JArr (map JStr (p_paused_capabilities p)))]"

lemma map_res_Inr: "(\<And>x. x \<in> set xs \<Longrightarrow> f x = Inr (g x)) \<Longrightarrow> map_res f xs = Inr (map g xs)"
  by (induction xs) auto

lemma str_tuple_strings: "str_tuple (JArr (map JStr ss)) = Inr ss"
proof -
  have "map_res as_str (map JStr ss) = Inr ss" by (induction ss) auto
  then show ?thesis by (simp add: str_tuple_def lift_def)
qed

lemma policy_of_policy_entry: "policy_of_entry (policy_entry p) = Inr p"
  by (simp add: policy_of_entry_def policy_entry_def lift_def str_tuple_strings)

lemma policies_of_emitted:
  assumes "style_ok st" and "all_ws w"
  shows "policies_of_text (dumps st 0 (JObj [(''policies'', JArr (map policy_entry ps))]) @ w) = Inr ps"
proof -
  have "wf_json (policy_entry p)" for p
    by (auto simp: policy_entry_def wf_dict_def)
  then have "wf_json (JObj [(''policies'', JArr (map policy_entry ps))])"
    by (simp add: wf_dict_def)
  then have "json_loads (dumps st 0 (JObj [(''policies'', JArr (map policy_entry ps))]) @ w) =
      Some (JObj [(''policies'', JArr (map policy_entry ps))])"
    using assms loads_dumps by blast
  moreover have "map_res policy_of_entry (map policy_entry ps) = Inr ps"
    using policy_of_policy_entry by (induction ps) auto
  ultimately show ?thesis by (simp add: policies_of_text_def loads_def lift_def)
qed

text \<open>The same for a file whose entries are in key order, as the stored versions have them.\<close>

lemma policy_of_canon_entry: "policy_of_entry (canon (policy_entry p)) = Inr p"
proof -
  let ?d = "[(''role'', JStr (p_role p)),
      (''allowed_capabilities'', JArr (map JStr (p_allowed_capabilities p))),
      (''rate_limit_per_hour'', JInt (p_rate_limit_per_hour p)),
      (''paused_capabilities'', JArr (map JStr (p_paused_capabilities p)))]"
  let ?c = "sort_key fst (map canon_item ?d)"
  have c: "canon (policy_entry p) = JObj ?c" by (simp add: policy_entry_def)
  have m: "map_of ?c k = map_option canon (map_of ?d k)" for k
    by (rule map_of_canon_obj) (simp add: wf_dict_def)
  have "map_of ?c ''role'' = Some (JStr (p_role p))"
    "map_of ?c ''allowed_capabilities'' = Some (JArr (map JStr (p_allowed_capabilities p)))"
    "map_of ?c ''rate_limit_per_hour'' = Some (JInt (p_rate_limit_per_hour p))"
    "map_of ?c ''paused_capabilities'' = Some (JArr (map JStr (p_paused_capabilities p)))"
    unfolding m by (simp_all add: comp_def)
  then show ?thesis
    unfolding c policy_of_entry_def by (simp add: lift_def str_tuple_strings del: sort_key_simps list.map)
qed

lemma policies_of_canon_emitted:
  assumes "style_ok st" and "all_ws w"
  shows "policies_of_text (dumps st 0 (JObj [(''policies'', canon (JArr (map policy_entry ps)))]) @ w) = Inr ps"
proof -
  have "wf_json (policy_entry p)" for p
    by (auto simp: policy_entry_def wf_dict_def)
  then have "wf_json (JObj [(''policies'', canon (JArr (map policy_entry ps)))])"
    by (auto simp: wf_dict_def intro!: wf_canon simp del: canon.simps(2))
  then have "json_loads (dumps st 0 (JObj [(''policies'', canon (JArr (map policy_entry ps)))]) @ w) =
      Some (JObj [(''policies'', canon (JArr (map policy_entry ps)))])"
    using assms loads_dumps by blast
  moreover have "map_res policy_of_entry (map (canon \<circ> policy_entry) ps) = Inr ps"
    using policy_of_canon_entry by (induction ps) auto
  ultimately show ?thesis by (simp add: policies_of_text_def loads_def lift_def comp_def)
qed

end
