(* ===== verification/Store.thy ===== *)
theory Store
  imports Complex_Main Policy
begin

text \<open>
  \<^verbatim>\<open>cashier/store.py\<close>: the cashier's memory, the set of spent nonces and the times of the
  accepted orders by principal and capability. Times are real numbers (Python's are floats); a
  reading of the clock is an argument of the operation that reads it.
\<close>

definition RATE_WINDOW_SECONDS :: real where
  "RATE_WINDOW_SECONDS = 3600"

record store =
  seen_nonces :: "string set"
  accept_history :: "string \<times> string \<Rightarrow> real list option"

definition empty_store :: store where
  "empty_store = \<lparr>seen_nonces = {}, accept_history = Map.empty\<rparr>"

definition nonce_is_spent :: "store \<Rightarrow> string \<Rightarrow> bool" where
  "nonce_is_spent st nonce \<longleftrightarrow> nonce \<in> seen_nonces st"

definition nonce_seen :: "string \<Rightarrow> store \<Rightarrow> bool \<times> store" where
  "nonce_seen nonce st =
     (if nonce \<in> seen_nonces st then (True, st)
      else (False, st\<lparr>seen_nonces := insert nonce (seen_nonces st)\<rparr>))"

definition rate_count :: "real \<Rightarrow> store \<Rightarrow> string \<Rightarrow> string \<Rightarrow> nat" where
  "rate_count now st who capability_id =
     (case accept_history st (who, capability_id) of
        None \<Rightarrow> 0
      | Some h \<Rightarrow> length (filter (\<lambda>ts. now - ts < RATE_WINDOW_SECONDS) h))"

definition record_accept :: "real \<Rightarrow> string \<Rightarrow> string \<Rightarrow> store \<Rightarrow> store" where
  "record_accept now who capability_id st =
     (let h = (case accept_history st (who, capability_id) of None \<Rightarrow> [] | Some h \<Rightarrow> h) in
      st\<lparr>accept_history := (accept_history st)((who, capability_id) \<mapsto> h @ [now])\<rparr>)"

text \<open>The recorded times of a principal and a capability.\<close>

definition times :: "store \<Rightarrow> string \<Rightarrow> string \<Rightarrow> real list" where
  "times st who capability_id =
     (case accept_history st (who, capability_id) of None \<Rightarrow> [] | Some h \<Rightarrow> h)"

lemma rate_count_times:
  "rate_count now st p c = length (filter (\<lambda>ts. now - ts < RATE_WINDOW_SECONDS) (times st p c))"
  by (simp add: rate_count_def times_def split: option.split)

lemma times_record [simp]:
  "times (record_accept now p c st) p' c' = (if p' = p \<and> c' = c then times st p c @ [now] else times st p' c')"
  by (auto simp: times_def record_accept_def Let_def)

lemma times_nonce [simp]: "times (snd (nonce_seen n st)) p c = times st p c"
  by (simp add: times_def nonce_seen_def)

lemma seen_record [simp]: "seen_nonces (record_accept now p c st) = seen_nonces st"
  by (simp add: record_accept_def Let_def)

lemma seen_nonce [simp]: "seen_nonces (snd (nonce_seen n st)) = insert n (seen_nonces st)"
  by (auto simp: nonce_seen_def)

lemma times_empty [simp]: "times empty_store p c = []"
  by (simp add: times_def empty_store_def)

end
