(* ===== verification/Engine.thy ===== *)
theory Engine
  imports Store
begin

text \<open>
  \<^verbatim>\<open>cashier/engine.py\<close>: the pure verdict \<open>evaluate_order\<close> and the handler \<open>process_order\<close> with its
  side effects in their order: the nonce, then the rejection receipt, or the signed ticket, the
  rate record and the call of \<^verbatim>\<open>spawn\<close>. The state is what the handler mutates: the store and the
  ledger's table; the record can be extended, so that \<^verbatim>\<open>spawn\<close> (which the loop provides) acts on
  the larger state. What one call reads from outside, the clock and \<^verbatim>\<open>uuid4\<close>, is a \<open>moment\<close>.
\<close>

section \<open>The verdict\<close>

record decision =
  d_accepted :: bool
  d_reason_code :: "string option"
  d_scoped_args :: "json dict option"

definition reject :: "string \<Rightarrow> decision" where
  "reject reason = \<lparr>d_accepted = False, d_reason_code = Some reason, d_scoped_args = None\<rparr>"

definition is_control :: "char \<Rightarrow> bool" where
  "is_control c \<longleftrightarrow> (of_char c :: nat) < 32 \<or> (of_char c :: nat) = 127"

definition local_unsafe :: "string \<Rightarrow> bool" where
  "local_unsafe loc \<longleftrightarrow> loc = '''' \<or> CHR ''/'' \<in> set loc \<or> CHR 0x5C \<in> set loc \<or> loc = ''.'' \<or> loc = ''..''"

definition evaluate_order ::
  "(string \<times> capability) list \<Rightarrow> policy_set \<Rightarrow> real \<Rightarrow> store \<Rightarrow> order \<Rightarrow> decision" where
  "evaluate_order menu policies now st ord =
     (if nonce_is_spent st (o_nonce ord) then reject ''REPLAY''
      else case map_of menu (o_capability_id ord) of
        None \<Rightarrow> reject ''OFF_MENU''
      | Some capability \<Rightarrow>
          (case for_role policies (o_role ord) of
             None \<Rightarrow> reject ''ROLE_NOT_PERMITTED''
           | Some pol \<Rightarrow>
               if o_capability_id ord \<notin> set (p_allowed_capabilities pol) then reject ''ROLE_NOT_PERMITTED''
               else if o_capability_id ord \<in> set (p_paused_capabilities pol) then reject ''CAPABILITY_PAUSED''
               else (case map_of (o_args ord) (c_scoped_input capability) of
                   Some (JStr resource) \<Rightarrow>
                     if CHR ''/'' \<notin> set resource then reject ''OUT_OF_SCOPE''
                     else if list_ex is_control resource then reject ''OUT_OF_SCOPE''
                     else let (owner, loc) = split_first (CHR ''/'') resource in
                       if owner = '''' \<or> owner \<noteq> o_principal ord \<or> local_unsafe loc then reject ''OUT_OF_SCOPE''
                       else if int (rate_count now st (o_principal ord) (o_capability_id ord)) \<ge>
                               p_rate_limit_per_hour pol then reject ''RATE_LIMITED''
                       else \<lparr>d_accepted = True, d_reason_code = None,
                              d_scoped_args = Some [(c_scoped_input capability, JStr resource)]\<rparr>
                 | _ \<Rightarrow> reject ''OUT_OF_SCOPE'')))"

section \<open>The handler\<close>

definition ticket_signable_dict :: "ticket \<Rightarrow> json dict" where
  "ticket_signable_dict t =
     [(''ticket_id'', JStr (t_ticket_id t)), (''order_id'', JStr (t_order_id t)),
      (''capability_id'', JStr (t_capability_id t)), (''behavior'', JStr (t_behavior t)),
      (''behavior_config'', JObj (t_behavior_config t)), (''scoped_args'', JObj (t_scoped_args t)),
      (''issued_ts'', JStr (t_issued_ts t))]"

text \<open>
  The readings of one call: the rate clock, the ticket clock as \<^verbatim>\<open>isoformat\<close> prints it, the clock
  again when the acceptance is recorded, and the two identifiers (32 hexadecimal digits).
\<close>

record moment =
  m_rate_now :: real
  m_issued_ts :: string
  m_accept_now :: real
  m_uuid :: string

definition rejection_entry :: "string \<Rightarrow> order \<Rightarrow> string \<Rightarrow> entry" where
  "rejection_entry uuid ord reason =
     \<lparr>e_receipt_id = ''rcpt-'' @ uuid, e_order_id = o_order_id ord, e_ticket_id = None,
      e_status = ''REJECTED'', e_reason_code = Some reason, e_result_digest = None,
      e_attestation = None, e_order_meta = Some (order_meta_from_order ord), e_containment = None\<rparr>"

definition append_rejection ::
  "crypto \<Rightarrow> string \<Rightarrow> string \<Rightarrow> order \<Rightarrow> string \<Rightarrow> table \<Rightarrow> exn + table \<times> receipt" where
  "append_rejection C sk uuid ord reason t = ledger_append C sk (rejection_entry uuid ord reason) t"

definition mint_ticket ::
  "crypto \<Rightarrow> string \<Rightarrow> moment \<Rightarrow> capability \<Rightarrow> order \<Rightarrow> json dict \<Rightarrow> ticket" where
  "mint_ticket C sk m cap ord scoped =
     (let t = \<lparr>t_ticket_id = ''tkt-'' @ m_uuid m, t_order_id = o_order_id ord,
               t_capability_id = o_capability_id ord, t_behavior = resolved_behavior cap,
               t_behavior_config = c_behavior_config cap, t_scoped_args = scoped,
               t_issued_ts = m_issued_ts m, t_cashier_sig = []\<rparr>
      in t\<lparr>t_cashier_sig := ed_sign C sk (canonical_bytes (JObj (ticket_signable_dict t)))\<rparr>)"

datatype outcome = TicketOutcome ticket | RejectionOutcome string receipt

record cashier =
  cs_store :: store
  cs_ledger :: table

text \<open>
  A call returns the outcome or the exception, and in either case the state it leaves. \<open>spawn\<close>
  returns the exception it raises, if any, and the state.
\<close>

definition process_order ::
  "crypto \<Rightarrow> string \<Rightarrow> (string \<times> capability) list \<Rightarrow> policy_set \<Rightarrow>
   (ticket \<Rightarrow> 'a cashier_scheme \<Rightarrow> exn option \<times> 'a cashier_scheme) option \<Rightarrow> moment \<Rightarrow> order \<Rightarrow>
   'a cashier_scheme \<Rightarrow> (exn + outcome) \<times> 'a cashier_scheme" where
  "process_order C sk menu policies spawn m ord s =
     (let dec = evaluate_order menu policies (m_rate_now m) (cs_store s) ord;
          s1 = s\<lparr>cs_store := snd (nonce_seen (o_nonce ord) (cs_store s))\<rparr>
      in case (d_accepted dec, d_reason_code dec, d_scoped_args dec, map_of menu (o_capability_id ord)) of
           (True, _, Some scoped, Some cap) \<Rightarrow>
             (let t = mint_ticket C sk m cap ord scoped;
                  s2 = s1\<lparr>cs_store := record_accept (m_accept_now m) (o_principal ord) (o_capability_id ord)
                                        (cs_store s1)\<rparr>
              in case spawn of
                   None \<Rightarrow> (Inr (TicketOutcome t), s2)
                 | Some run \<Rightarrow>
                     (case run t s2 of
                        (Some e, s3) \<Rightarrow> (Inl e, s3)
                      | (None, s3) \<Rightarrow> (Inr (TicketOutcome t), s3)))
         | (False, Some reason, _, _) \<Rightarrow>
             (case append_rejection C sk (m_uuid m) ord reason (cs_ledger s1) of
                Inl e \<Rightarrow> (Inl e, s1)
              | Inr (ledger, receipt) \<Rightarrow>
                  (Inr (RejectionOutcome reason receipt), s1\<lparr>cs_ledger := ledger\<rparr>))
         | _ \<Rightarrow> (Inl KeyError, s1))"

section \<open>The pipeline as a list of conditions\<close>

text \<open>
  What each step demands of an order, said independently of the other steps. The scope
  condition: the argument the capability names is \<open>principal/loc\<close>, with \<open>loc\<close> one safe path
  component and no control character anywhere.
\<close>

definition role_granted :: "policy_set \<Rightarrow> order \<Rightarrow> bool" where
  "role_granted policies ord \<longleftrightarrow> (\<exists>p. for_role policies (o_role ord) = Some p \<and>
     o_capability_id ord \<in> set (p_allowed_capabilities p))"

definition not_paused :: "policy_set \<Rightarrow> order \<Rightarrow> bool" where
  "not_paused policies ord \<longleftrightarrow> (\<forall>p. for_role policies (o_role ord) = Some p \<longrightarrow>
     o_capability_id ord \<notin> set (p_paused_capabilities p))"

definition own_resource :: "string \<Rightarrow> string \<Rightarrow> bool" where
  "own_resource who resource \<longleftrightarrow>
     (\<exists>loc. resource = who @ CHR ''/'' # loc \<and> who \<noteq> [] \<and> CHR ''/'' \<notin> set who \<and>
        loc \<noteq> [] \<and> set loc \<inter> {CHR ''/'', CHR 0x5C} = {} \<and> loc \<noteq> ''.'' \<and> loc \<noteq> ''..'' \<and>
        (\<forall>c \<in> set resource. \<not> is_control c))"

definition in_scope :: "(string \<times> capability) list \<Rightarrow> order \<Rightarrow> bool" where
  "in_scope menu ord \<longleftrightarrow> (\<exists>cap resource. map_of menu (o_capability_id ord) = Some cap \<and>
     map_of (o_args ord) (c_scoped_input cap) = Some (JStr resource) \<and>
     own_resource (o_principal ord) resource)"

definition within_rate :: "policy_set \<Rightarrow> real \<Rightarrow> store \<Rightarrow> order \<Rightarrow> bool" where
  "within_rate policies now st ord \<longleftrightarrow> (\<forall>p. for_role policies (o_role ord) = Some p \<longrightarrow>
     int (rate_count now st (o_principal ord) (o_capability_id ord)) < p_rate_limit_per_hour p)"

definition pipeline ::
  "(string \<times> capability) list \<Rightarrow> policy_set \<Rightarrow> real \<Rightarrow> store \<Rightarrow> order \<Rightarrow> (string \<times> bool) list" where
  "pipeline menu policies now st ord =
     [(''REPLAY'', o_nonce ord \<notin> seen_nonces st),
      (''OFF_MENU'', o_capability_id ord \<in> set (keys menu)),
      (''ROLE_NOT_PERMITTED'', role_granted policies ord),
      (''CAPABILITY_PAUSED'', not_paused policies ord),
      (''OUT_OF_SCOPE'', in_scope menu ord),
      (''RATE_LIMITED'', within_rate policies now st ord)]"

definition narrowed :: "(string \<times> capability) list \<Rightarrow> order \<Rightarrow> json dict" where
  "narrowed menu ord =
     (let key = c_scoped_input (the (map_of menu (o_capability_id ord)))
      in [(key, the (map_of (o_args ord) key))])"

lemma own_resource_split:
  "own_resource who r \<longleftrightarrow> CHR ''/'' \<in> set r \<and> \<not> list_ex is_control r \<and>
     (case split_first (CHR ''/'') r of (owner, loc) \<Rightarrow> owner \<noteq> [] \<and> owner = who \<and> \<not> local_unsafe loc)"
proof
  assume "own_resource who r"
  then obtain loc where "r = who @ CHR ''/'' # loc" "CHR ''/'' \<notin> set who" "who \<noteq> []"
    "loc \<noteq> []" "set loc \<inter> {CHR ''/'', CHR 0x5C} = {}" "loc \<noteq> ''.''" "loc \<noteq> ''..''"
    "\<forall>c \<in> set r. \<not> is_control c"
    by (auto simp: own_resource_def)
  then show "CHR ''/'' \<in> set r \<and> \<not> list_ex is_control r \<and>
     (case split_first (CHR ''/'') r of (owner, loc) \<Rightarrow> owner \<noteq> [] \<and> owner = who \<and> \<not> local_unsafe loc)"
    by (auto simp: split_first_append local_unsafe_def list_ex_iff)
next
  assume a: "CHR ''/'' \<in> set r \<and> \<not> list_ex is_control r \<and>
     (case split_first (CHR ''/'') r of (owner, loc) \<Rightarrow> owner \<noteq> [] \<and> owner = who \<and> \<not> local_unsafe loc)"
  obtain owner loc where sp: "split_first (CHR ''/'') r = (owner, loc)" by fastforce
  with a have "r = owner @ CHR ''/'' # loc \<and> CHR ''/'' \<notin> set owner"
    by (intro split_first_join) auto
  then show "own_resource who r"
    using a sp by (auto simp: own_resource_def local_unsafe_def list_ex_iff intro!: exI [of _ loc])
qed

lemma evaluate_order_pipeline:
  "evaluate_order menu policies now st ord =
     (case find (\<lambda>(reason, ok). \<not> ok) (pipeline menu policies now st ord) of
        Some (reason, _) \<Rightarrow> reject reason
      | None \<Rightarrow> \<lparr>d_accepted = True, d_reason_code = None, d_scoped_args = Some (narrowed menu ord)\<rparr>)"
proof (cases "nonce_is_spent st (o_nonce ord)")
  case True
  then show ?thesis by (simp add: evaluate_order_def pipeline_def nonce_is_spent_def)
next
  case fresh: False
  show ?thesis
  proof (cases "map_of menu (o_capability_id ord)")
    case None
    then have "o_capability_id ord \<notin> set (keys menu)" by (simp add: keys_def map_of_eq_None_iff)
    then show ?thesis
      using fresh None by (simp add: evaluate_order_def pipeline_def nonce_is_spent_def)
  next
    case (Some cap)
    then have on: "o_capability_id ord \<in> set (keys menu)" by (force simp: keys_def dest: map_of_SomeD)
    show ?thesis
      using fresh Some on
      by (auto simp: evaluate_order_def pipeline_def nonce_is_spent_def role_granted_def not_paused_def
          in_scope_def within_rate_def narrowed_def own_resource_split Let_def
          split: option.splits json.splits prod.splits)
  qed
qed

text \<open>
  C9. The verdict is the first failing condition of the pipeline, in the documented order
  (replay, menu, role, pause, scope, rate), and acceptance is the conjunction of the six, with
  the one scoped argument and nothing else handed on.
\<close>

theorem evaluate_order_is_the_pipeline:
  "evaluate_order menu policies now st ord =
     (case find (\<lambda>(reason, ok). \<not> ok) (pipeline menu policies now st ord) of
        Some (reason, _) \<Rightarrow> reject reason
      | None \<Rightarrow> \<lparr>d_accepted = True, d_reason_code = None, d_scoped_args = Some (narrowed menu ord)\<rparr>)"
  by (rule evaluate_order_pipeline)

lemma accepted_iff:
  "d_accepted (evaluate_order menu policies now st ord) \<longleftrightarrow>
     o_nonce ord \<notin> seen_nonces st \<and> o_capability_id ord \<in> set (keys menu) \<and>
     role_granted policies ord \<and> not_paused policies ord \<and> in_scope menu ord \<and>
     within_rate policies now st ord"
  unfolding evaluate_order_pipeline
  by (simp add: pipeline_def reject_def)

lemma accepted_fields:
  "d_accepted (evaluate_order menu policies now st ord) \<Longrightarrow>
    evaluate_order menu policies now st ord =
      \<lparr>d_accepted = True, d_reason_code = None, d_scoped_args = Some (narrowed menu ord)\<rparr>"
  unfolding evaluate_order_pipeline by (auto simp: pipeline_def reject_def split: if_splits)

lemma rejected_fields:
  "\<not> d_accepted (evaluate_order menu policies now st ord) \<Longrightarrow>
    \<exists>reason. evaluate_order menu policies now st ord = reject reason"
  unfolding evaluate_order_pipeline by (auto simp: pipeline_def reject_def split: if_splits)

lemma on_menu: "d_accepted (evaluate_order menu policies now st ord) \<Longrightarrow>
    \<exists>cap. map_of menu (o_capability_id ord) = Some cap"
  by (auto simp: accepted_iff in_scope_def)

section \<open>What the handler does\<close>

text \<open>The state and the ticket of an accepted order, before \<^verbatim>\<open>spawn\<close>.\<close>

definition after_nonce :: "order \<Rightarrow> 'a cashier_scheme \<Rightarrow> 'a cashier_scheme" where
  "after_nonce ord s = s\<lparr>cs_store := snd (nonce_seen (o_nonce ord) (cs_store s))\<rparr>"

definition after_accept :: "moment \<Rightarrow> order \<Rightarrow> 'a cashier_scheme \<Rightarrow> 'a cashier_scheme" where
  "after_accept m ord s = (after_nonce ord s)\<lparr>cs_store :=
     record_accept (m_accept_now m) (o_principal ord) (o_capability_id ord) (cs_store (after_nonce ord s))\<rparr>"

definition ticket_for ::
  "crypto \<Rightarrow> string \<Rightarrow> (string \<times> capability) list \<Rightarrow> moment \<Rightarrow> order \<Rightarrow> ticket" where
  "ticket_for C sk menu m ord =
     mint_ticket C sk m (the (map_of menu (o_capability_id ord))) ord (narrowed menu ord)"

lemma ledger_after [simp]:
  "cs_ledger (after_nonce ord s) = cs_ledger s" "cs_ledger (after_accept m ord s) = cs_ledger s"
  by (simp_all add: after_nonce_def after_accept_def)

lemma process_accepted:
  assumes "d_accepted (evaluate_order menu policies (m_rate_now m) (cs_store s) ord)"
  shows "process_order C sk menu policies spawn m ord s =
    (case spawn of
       None \<Rightarrow> (Inr (TicketOutcome (ticket_for C sk menu m ord)), after_accept m ord s)
     | Some run \<Rightarrow>
         (case run (ticket_for C sk menu m ord) (after_accept m ord s) of
            (Some e, s') \<Rightarrow> (Inl e, s')
          | (None, s') \<Rightarrow> (Inr (TicketOutcome (ticket_for C sk menu m ord)), s')))"
proof -
  obtain cap where "map_of menu (o_capability_id ord) = Some cap" using on_menu [OF assms] by blast
  moreover from this have "mint_ticket C sk m cap ord (narrowed menu ord) = ticket_for C sk menu m ord"
    by (simp add: ticket_for_def)
  ultimately show ?thesis
    by (simp add: process_order_def accepted_fields [OF assms] Let_def
        flip: after_nonce_def after_accept_def)
qed

lemma process_rejected:
  assumes "evaluate_order menu policies (m_rate_now m) (cs_store s) ord = reject reason"
  shows "process_order C sk menu policies spawn m ord s =
    (case append_rejection C sk (m_uuid m) ord reason (cs_ledger s) of
       Inl e \<Rightarrow> (Inl e, after_nonce ord s)
     | Inr (ledger, receipt) \<Rightarrow>
         (Inr (RejectionOutcome reason receipt), (after_nonce ord s)\<lparr>cs_ledger := ledger\<rparr>))"
  unfolding process_order_def assms Let_def after_nonce_def [symmetric]
  by (simp add: reject_def)

lemma seen_after [simp]:
  "seen_nonces (cs_store (after_nonce ord s)) = insert (o_nonce ord) (seen_nonces (cs_store s))"
  "seen_nonces (cs_store (after_accept m ord s)) = insert (o_nonce ord) (seen_nonces (cs_store s))"
  by (simp_all add: after_nonce_def after_accept_def)

lemma times_after [simp]:
  "times (cs_store (after_nonce ord s)) p c = times (cs_store s) p c"
  "times (cs_store (after_accept m ord s)) p c =
     times (cs_store s) p c @
       (if o_principal ord = p \<and> o_capability_id ord = c then [m_accept_now m] else [])"
  by (auto simp: after_nonce_def after_accept_def)

lemma wf_rejection_entry: "wf_entry (rejection_entry uuid ord reason)"
  using wf_order_meta [of ord] by (simp add: wf_entry_def rejection_entry_def jopt_def)

text \<open>An order, a menu and a policy for the witnesses.\<close>

definition example_capability :: capability where
  "example_capability = \<lparr>c_id = ''gmail.draft_reply'', c_name = ''Draft'', c_inputs = [], c_outputs = [],
     c_side_effects = ''none'', c_scope = ''own'', c_risk_class = ''low'', c_description = [],
     c_recommended_max_rate = None, c_requires_second_admin = False,
     c_requires_user_confirmation = False, c_scoped_input = ''thread_id'', c_behavior = Some ''draft_reply'',
     c_enabled = True, c_behavior_config = []\<rparr>"

definition example_menu :: "(string \<times> capability) list" where
  "example_menu = [(''gmail.draft_reply'', example_capability)]"

definition example_policies :: policy_set where
  "example_policies = [\<lparr>p_role = ''assistant'', p_allowed_capabilities = [''gmail.draft_reply''],
     p_rate_limit_per_hour = 2, p_paused_capabilities = []\<rparr>]"

definition example_order :: order where
  "example_order = \<lparr>o_order_id = ''o1'', o_principal = ''alice'', o_role = ''assistant'',
     o_capability_id = ''gmail.draft_reply'', o_args = [(''thread_id'', JStr ''alice/t1'')],
     o_nonce = ''n1'', o_ts = ''2026-01-01T00:00:00Z''\<rparr>"

definition example_moment :: moment where
  "example_moment = \<lparr>m_rate_now = 0, m_issued_ts = ''1970-01-01T00:00:00+00:00'', m_accept_now = 0,
     m_uuid = ''0123456789abcdef0123456789abcdef''\<rparr>"

definition example_cashier :: cashier where
  "example_cashier = \<lparr>cs_store = empty_store, cs_ledger = []\<rparr>"

lemmas example_defs = example_capability_def example_menu_def example_policies_def example_order_def
  example_moment_def example_cashier_def

lemma example_accepted:
  "evaluate_order example_menu example_policies 0 empty_store example_order =
    \<lparr>d_accepted = True, d_reason_code = None, d_scoped_args = Some [(''thread_id'', JStr ''alice/t1'')]\<rparr>"
  by (simp add: evaluate_order_def example_defs nonce_is_spent_def empty_store_def rate_count_def
      is_control_def split_first_def local_unsafe_def)

lemma example_rejected:
  "evaluate_order [] example_policies 0 empty_store example_order = reject ''OFF_MENU''"
  by (simp add: evaluate_order_def nonce_is_spent_def empty_store_def)

lemma evaluate_other_id:
  "evaluate_order menu policies now st (ord\<lparr>o_order_id := i\<rparr>) = evaluate_order menu policies now st ord"
  by (simp add: evaluate_order_pipeline pipeline_def role_granted_def not_paused_def in_scope_def
      within_rate_def narrowed_def)

text \<open>
  A rejected order leaves exactly one receipt: on a ledger that verifies, \<^verbatim>\<open>process_order\<close>
  returns the rejection with the verdict's reason, adds one signed row \<^verbatim>\<open>REJECTED\<close> that names the
  order, the reason and who asked, with no ticket, digest or attestation, keeps the ledger
  verified, spends the nonce and records no acceptance.
\<close>

theorem rejection_is_receipted:
  assumes "sig_correct C" and "verify_ledger_rows C (ed_pub C sk) (cs_ledger s) = Verified n"
    and "evaluate_order menu policies (m_rate_now m) (cs_store s) ord = reject reason"
  shows "\<exists>raw receipt s'. process_order C sk menu policies spawn m ord s =
      (Inr (RejectionOutcome reason receipt), s') \<and>
    cs_ledger s' = insert_row raw (cs_ledger s) \<and>
    verify_ledger_rows C (ed_pub C sk) (cs_ledger s') = Verified (Suc n) \<and>
    r_status receipt = JStr ''REJECTED'' \<and> r_reason_code receipt = JStr reason \<and>
    r_order_id receipt = JStr (o_order_id ord) \<and> r_order_meta receipt = order_meta_from_order ord \<and>
    r_ticket_id receipt = JNull \<and> r_result_digest receipt = JNull \<and> r_attestation receipt = JNull \<and>
    cs_store s' = snd (nonce_seen (o_nonce ord) (cs_store s))"
proof -
  let ?e = "rejection_entry (m_uuid m) ord reason"
  obtain raw r where a: "ledger_append C sk ?e (cs_ledger s) = Inr (insert_row raw (cs_ledger s), r)"
    and v: "verify_ledger_rows C (ed_pub C sk) (insert_row raw (cs_ledger s)) = Verified (Suc n)"
    using ledger_append_verified [OF assms(1) wf_rejection_entry assms(2)] by blast
  have "r_status r = JStr ''REJECTED'' \<and> r_reason_code r = JStr reason \<and>
      r_order_id r = JStr (o_order_id ord) \<and> r_order_meta r = order_meta_from_order ord \<and>
      r_ticket_id r = JNull \<and> r_result_digest r = JNull \<and> r_attestation r = JNull"
    using ledger_append_receipt [OF a]
    by (simp add: rejection_entry_def jopt_def jstr_opt_def)
  then show ?thesis
    using a v by (auto simp: process_rejected [OF assms(3)] append_rejection_def after_nonce_def)
qed

theorem rejection_is_receipted_witness:
  "\<exists>raw receipt s'. process_order example_crypto ''sk'' [] example_policies None example_moment
      example_order example_cashier = (Inr (RejectionOutcome ''OFF_MENU'' receipt), s') \<and>
    cs_ledger s' = insert_row raw [] \<and>
    verify_ledger_rows example_crypto (ed_pub example_crypto ''sk'') (cs_ledger s') = Verified (Suc 0) \<and>
    r_status receipt = JStr ''REJECTED'' \<and> r_reason_code receipt = JStr ''OFF_MENU''"
  using rejection_is_receipted [of example_crypto "''sk''" example_cashier 0 "[]" example_policies
      example_moment example_order "''OFF_MENU''" None]
  by (auto simp: example_moment_def example_cashier_def example_rejected verify_ledger_rows_def)

text \<open>
  An accepted order gets a ticket that the cashier signed over its seven fields: the order's
  identifiers, the behavior and configuration of the menu's capability, and the one scoped
  argument. No receipt is written, the nonce is spent, the acceptance is recorded, and \<^verbatim>\<open>spawn\<close>,
  where there is one, is called once, last, with that ticket.
\<close>

theorem acceptance_mints_signed_ticket:
  assumes "sig_correct C"
    and "d_accepted (evaluate_order menu policies (m_rate_now m) (cs_store s) ord)"
  shows "\<exists>t cap s'. process_order C sk menu policies None m ord s = (Inr (TicketOutcome t), s') \<and>
    (\<forall>run. process_order C sk menu policies (Some run) m ord s =
       (case run t s' of (Some e, s2) \<Rightarrow> (Inl e, s2) | (None, s2) \<Rightarrow> (Inr (TicketOutcome t), s2))) \<and>
    map_of menu (o_capability_id ord) = Some cap \<and>
    ed_verify C (ed_pub C sk) (t_cashier_sig t) (canonical_bytes (JObj (ticket_signable_dict t))) \<and>
    t_order_id t = o_order_id ord \<and> t_capability_id t = o_capability_id ord \<and>
    t_behavior t = resolved_behavior cap \<and> t_behavior_config t = c_behavior_config cap \<and>
    t_scoped_args t = narrowed menu ord \<and> cs_ledger s' = cs_ledger s \<and>
    o_nonce ord \<in> seen_nonces (cs_store s') \<and>
    times (cs_store s') (o_principal ord) (o_capability_id ord) =
      times (cs_store s) (o_principal ord) (o_capability_id ord) @ [m_accept_now m]"
proof -
  obtain cap where cap: "map_of menu (o_capability_id ord) = Some cap" using on_menu [OF assms(2)] by blast
  let ?t = "ticket_for C sk menu m ord"
  have "ed_verify C (ed_pub C sk) (t_cashier_sig ?t) (canonical_bytes (JObj (ticket_signable_dict ?t)))"
    using assms(1) by (simp add: ticket_for_def mint_ticket_def Let_def ticket_signable_dict_def sig_correctD)
  moreover have "t_order_id ?t = o_order_id ord \<and> t_capability_id ?t = o_capability_id ord \<and>
      t_behavior ?t = resolved_behavior cap \<and> t_behavior_config ?t = c_behavior_config cap \<and>
      t_scoped_args ?t = narrowed menu ord"
    using cap by (simp add: ticket_for_def mint_ticket_def Let_def)
  ultimately show ?thesis
    using cap process_accepted [OF assms(2)] by (intro exI [of _ ?t] exI [of _ cap]) auto
qed

theorem acceptance_mints_signed_ticket_witness:
  "\<exists>t s'. process_order example_crypto ''sk'' example_menu example_policies None example_moment
      example_order example_cashier = (Inr (TicketOutcome t), s') \<and>
    ed_verify example_crypto (ed_pub example_crypto ''sk'') (t_cashier_sig t)
      (canonical_bytes (JObj (ticket_signable_dict t))) \<and> t_behavior t = ''draft_reply''"
proof -
  have "d_accepted (evaluate_order example_menu example_policies (m_rate_now example_moment)
      (cs_store example_cashier) example_order)"
    by (simp add: example_moment_def example_cashier_def example_accepted)
  from acceptance_mints_signed_ticket [OF sig_correct_example this, of "''sk''"]
  show ?thesis by (auto simp: example_defs resolved_behavior_def)
qed

section \<open>Runs of the cashier\<close>

text \<open>
  Orders handled one after another, each at its own moment. \<open>accepted_run\<close> lists those the
  pipeline accepts, with their moments; \<^verbatim>\<open>spawn\<close> is arbitrary, but leaves the cashier's store
  alone, as \<^verbatim>\<open>run_chef\<close> does.
\<close>

type_synonym 'a spawn = "(ticket \<Rightarrow> 'a cashier_scheme \<Rightarrow> exn option \<times> 'a cashier_scheme) option"

definition keeps_store :: "'a spawn \<Rightarrow> bool" where
  "keeps_store spawn \<longleftrightarrow> (\<forall>run t s. spawn = Some run \<longrightarrow> cs_store (snd (run t s)) = cs_store s)"

lemma keeps_store_None [simp]: "keeps_store None"
  by (simp add: keeps_store_def)

fun final_state ::
  "crypto \<Rightarrow> string \<Rightarrow> (string \<times> capability) list \<Rightarrow> policy_set \<Rightarrow> 'a spawn \<Rightarrow>
   (moment \<times> order) list \<Rightarrow> 'a cashier_scheme \<Rightarrow> 'a cashier_scheme" where
  "final_state C sk menu policies spawn [] s = s"
| "final_state C sk menu policies spawn ((m, ord) # os) s =
     final_state C sk menu policies spawn os (snd (process_order C sk menu policies spawn m ord s))"

fun accepted_run ::
  "crypto \<Rightarrow> string \<Rightarrow> (string \<times> capability) list \<Rightarrow> policy_set \<Rightarrow> 'a spawn \<Rightarrow>
   (moment \<times> order) list \<Rightarrow> 'a cashier_scheme \<Rightarrow> (moment \<times> order) list" where
  "accepted_run C sk menu policies spawn [] s = []"
| "accepted_run C sk menu policies spawn ((m, ord) # os) s =
     (if d_accepted (evaluate_order menu policies (m_rate_now m) (cs_store s) ord) then [(m, ord)] else []) @
     accepted_run C sk menu policies spawn os (snd (process_order C sk menu policies spawn m ord s))"

lemma store_after_process:
  assumes "keeps_store spawn"
  shows "cs_store (snd (process_order C sk menu policies spawn m ord s)) =
    (if d_accepted (evaluate_order menu policies (m_rate_now m) (cs_store s) ord)
     then cs_store (after_accept m ord s) else cs_store (after_nonce ord s))"
proof (cases "d_accepted (evaluate_order menu policies (m_rate_now m) (cs_store s) ord)")
  case True
  show ?thesis
  proof (cases spawn)
    case (Some run)
    let ?r = "run (ticket_for C sk menu m ord) (after_accept m ord s)"
    have "cs_store (snd ?r) = cs_store (after_accept m ord s)"
      using assms Some by (simp add: keeps_store_def)
    then show ?thesis
      using True Some by (cases ?r; cases "fst ?r") (simp_all add: process_accepted)
  qed (simp add: True process_accepted)
next
  case False
  then obtain reason where r: "evaluate_order menu policies (m_rate_now m) (cs_store s) ord = reject reason"
    using rejected_fields by blast
  show ?thesis
    using False by (simp add: process_rejected [OF r] split: sum.split)
qed

lemma seen_after_process:
  "keeps_store spawn \<Longrightarrow> seen_nonces (cs_store (snd (process_order C sk menu policies spawn m ord s))) =
    insert (o_nonce ord) (seen_nonces (cs_store s))"
  by (simp add: store_after_process)

lemma accepted_run_unseen:
  "keeps_store spawn \<Longrightarrow> (m, ord) \<in> set (accepted_run C sk menu policies spawn os s) \<Longrightarrow>
    o_nonce ord \<notin> seen_nonces (cs_store s)"
proof (induction os arbitrary: s)
  case (Cons mo os)
  then show ?case
    by (cases mo) (fastforce simp: seen_after_process accepted_iff split: if_splits)
qed simp

lemma accepted_run_distinct:
  "keeps_store spawn \<Longrightarrow> distinct (map (o_nonce \<circ> snd) (accepted_run C sk menu policies spawn os s))"
proof (induction os arbitrary: s)
  case (Cons mo os)
  obtain m ord where mo: "mo = (m, ord)" by (cases mo)
  let ?s = "snd (process_order C sk menu policies spawn m ord s)"
  have "o_nonce ord \<in> seen_nonces (cs_store ?s)"
    using Cons.prems by (simp add: store_after_process)
  then have "o_nonce ord \<notin> (o_nonce \<circ> snd) ` set (accepted_run C sk menu policies spawn os ?s)"
    using accepted_run_unseen [OF Cons.prems] by fastforce
  then show ?case using Cons mo by simp
qed simp

text \<open>
  C24. No replay: in any run of orders, from any state of the cashier, the accepted orders have
  pairwise different nonces, and none of them was spent before the run.
\<close>

theorem nonces_are_single_use:
  assumes "keeps_store spawn"
  shows "distinct (map (o_nonce \<circ> snd) (accepted_run C sk menu policies spawn os s)) \<and>
    (\<forall>(m, ord) \<in> set (accepted_run C sk menu policies spawn os s). o_nonce ord \<notin> seen_nonces (cs_store s))"
  using accepted_run_distinct [OF assms] accepted_run_unseen [OF assms] by blast

theorem nonces_are_single_use_witness:
  "distinct (map (o_nonce \<circ> snd) (accepted_run example_crypto ''sk'' example_menu example_policies None
     [(example_moment, example_order), (example_moment, example_order)] example_cashier))"
  using nonces_are_single_use [OF keeps_store_None] by blast

text \<open>The recorded times grow by those of the accepted orders.\<close>

definition served :: "string \<Rightarrow> string \<Rightarrow> (moment \<times> order) list \<Rightarrow> real list" where
  "served p c mos = map (m_accept_now \<circ> fst)
     (filter (\<lambda>(m, ord). o_principal ord = p \<and> o_capability_id ord = c) mos)"

definition in_window :: "real \<Rightarrow> real list \<Rightarrow> nat" where
  "in_window T ts = length (filter (\<lambda>t. T - RATE_WINDOW_SECONDS < t \<and> t \<le> T) ts)"

definition bounded :: "nat \<Rightarrow> store \<Rightarrow> bool" where
  "bounded L st \<longleftrightarrow> (\<forall>T p c. in_window T (times st p c) \<le> L)"

lemma times_final:
  "keeps_store spawn \<Longrightarrow> times (cs_store (final_state C sk menu policies spawn os s)) p c =
    times (cs_store s) p c @ served p c (accepted_run C sk menu policies spawn os s)"
proof (induction os arbitrary: s)
  case (Cons mo os)
  then show ?case by (cases mo) (simp add: store_after_process served_def)
qed (simp add: served_def)

lemma bounded_accept:
  assumes b: "bounded L (cs_store s)" and L: "\<forall>p \<in> set policies. p_rate_limit_per_hour p \<le> int L"
    and clock: "m_rate_now m \<le> m_accept_now m"
    and acc: "d_accepted (evaluate_order menu policies (m_rate_now m) (cs_store s) ord)"
  shows "bounded L (cs_store (after_accept m ord s))"
  unfolding bounded_def
proof (intro allI)
  fix T p c
  let ?ts = "times (cs_store s) p c" and ?a = "m_accept_now m"
  show "in_window T (times (cs_store (after_accept m ord s)) p c) \<le> L"
  proof (cases "o_principal ord = p \<and> o_capability_id ord = c \<and> T - RATE_WINDOW_SECONDS < ?a \<and> ?a \<le> T")
    case True
    obtain pol where pol: "for_role policies (o_role ord) = Some pol" "pol \<in> set policies"
      using acc by (auto simp: accepted_iff role_granted_def dest: for_role_in_set)
    have "rate_count (m_rate_now m) (cs_store s) p c < L"
      using acc True pol L by (fastforce simp: accepted_iff within_rate_def)
    moreover have "in_window T ?ts \<le> rate_count (m_rate_now m) (cs_store s) p c"
      using True clock unfolding in_window_def rate_count_times
      by (intro filter_length_mono) auto
    ultimately show ?thesis using True by (simp add: in_window_def)
  next
    case False
    then show ?thesis using b by (auto simp: bounded_def in_window_def)
  qed
qed

lemma bounded_final:
  assumes "keeps_store spawn" and "\<forall>p \<in> set policies. p_rate_limit_per_hour p \<le> int L"
    and "\<forall>(m, ord) \<in> set os. m_rate_now m \<le> m_accept_now m" and "bounded L (cs_store s)"
  shows "bounded L (cs_store (final_state C sk menu policies spawn os s))"
  using assms(3,4)
proof (induction os arbitrary: s)
  case (Cons mo os)
  obtain m ord where mo: "mo = (m, ord)" by (cases mo)
  have "bounded L (cs_store (snd (process_order C sk menu policies spawn m ord s)))"
    using Cons.prems mo bounded_accept [OF Cons.prems(2) assms(2)]
    by (auto simp: store_after_process [OF assms(1)]) (simp add: bounded_def)
  then show ?case using Cons mo by simp
qed simp

text \<open>
  C23. The rate limit: starting from an empty store, whatever the orders and whatever role each of
  them claims, in every window of one hour a principal gets at most \<open>L\<close> orders of a capability
  accepted, when no policy allows more than \<open>L\<close>. The clock need not be monotone across orders;
  within one order the acceptance is recorded no earlier than the rate was read.
\<close>

theorem accepted_orders_respect_rate:
  assumes "keeps_store spawn" and "\<forall>p \<in> set policies. p_rate_limit_per_hour p \<le> int L"
    and "\<forall>(m, ord) \<in> set os. m_rate_now m \<le> m_accept_now m" and "cs_store s = empty_store"
  shows "in_window T (served p c (accepted_run C sk menu policies spawn os s)) \<le> L"
proof -
  have "bounded L (cs_store s)" by (simp add: assms(4) bounded_def in_window_def)
  from bounded_final [OF assms(1-3) this] show ?thesis
    using times_final [OF assms(1), of C sk menu policies os s p c] assms(4)
    by (simp add: bounded_def) metis
qed

theorem accepted_orders_respect_rate_witness:
  "in_window 0 (served ''alice'' ''gmail.draft_reply'' (accepted_run example_crypto ''sk'' example_menu
     example_policies None [(example_moment, example_order)] example_cashier)) \<le> 2"
  by (rule accepted_orders_respect_rate)
    (simp_all add: example_policies_def example_moment_def example_cashier_def)

end
