(* ===== verification/Paths.thy ===== *)
theory Paths
  imports Prelude
begin

text \<open>
  The functions of \<^verbatim>\<open>os.path\<close> (POSIX) that only look at the text of a path. \<^verbatim>\<open>realpath\<close> looks at
  the symbolic links of a file system and is an argument of the definitions that use it;
  \<open>normpath\<close>, to which it amounts where there are no links, is the instance in examples.
\<close>

definition path_join :: "string \<Rightarrow> string \<Rightarrow> string" where
  "path_join a b =
     (if startswith b ''/'' then b
      else if a = [] \<or> endswith a ''/'' then a @ b
      else a @ ''/'' @ b)"

text \<open>The components that count: not empty and not \<^verbatim>\<open>.\<close>.\<close>

definition comps :: "string \<Rightarrow> string list" where
  "comps p = filter (\<lambda>c. c \<noteq> [] \<and> c \<noteq> ''.'') (split_on (CHR ''/'') p)"

fun common_prefix :: "'a list \<Rightarrow> 'a list \<Rightarrow> 'a list" where
  "common_prefix (x # xs) (y # ys) = (if x = y then x # common_prefix xs ys else [])"
| "common_prefix _ _ = []"

text \<open>\<^verbatim>\<open>os.path.commonpath([a, b])\<close>; \<open>None\<close> is the \<^verbatim>\<open>ValueError\<close> for mixing absolute and relative.\<close>

definition commonpath :: "string \<Rightarrow> string \<Rightarrow> string option" where
  "commonpath a b =
     (if startswith a ''/'' \<noteq> startswith b ''/'' then None
      else Some ((if startswith a ''/'' then ''/'' else []) @
                 join ''/'' (common_prefix (comps a) (comps b))))"

text \<open>\<^verbatim>\<open>os.path.normpath\<close> of an absolute path.\<close>

fun resolve_dots :: "string list \<Rightarrow> string list \<Rightarrow> string list" where
  "resolve_dots acc [] = rev acc"
| "resolve_dots acc (c # cs) =
     (if c = ''..'' then resolve_dots (tl acc) cs else resolve_dots (c # acc) cs)"

definition normpath :: "string \<Rightarrow> string" where
  "normpath p = ''/'' @ join ''/'' (resolve_dots [] (comps p))"

text \<open>A path in normal form is its components after a slash.\<close>

definition normal_path :: "string \<Rightarrow> bool" where
  "normal_path p \<longleftrightarrow> p = ''/'' @ join ''/'' (comps p)"

text \<open>\<open>inside dir p\<close>: \<open>p\<close> lies strictly below \<open>dir\<close>.\<close>

definition inside :: "string \<Rightarrow> string \<Rightarrow> bool" where
  "inside dir p \<longleftrightarrow> (\<exists>rest. rest \<noteq> [] \<and> comps p = comps dir @ rest)"

section \<open>Splitting and joining\<close>

lemma split_on_nonempty: "split_on c s \<noteq> []"
  by (cases s) (auto split: list.split)

lemma split_on_piece: "c \<notin> set a \<Longrightarrow> split_on c a = [a]"
  by (induction a) auto

lemma split_on_append: "c \<notin> set a \<Longrightarrow> split_on c (a @ c # b) = a # split_on c b"
  by (induction a) auto

lemma split_on_no_sep: "\<forall>p \<in> set (split_on c s). c \<notin> set p"
  using split_on_nonempty by (induction s) (auto split: list.splits)

lemma split_on_join:
  "xs \<noteq> [] \<Longrightarrow> \<forall>x \<in> set xs. c \<notin> set x \<Longrightarrow> split_on c (join [c] xs) = xs"
  by (induction "[c]" xs rule: join.induct) (auto simp: split_on_piece split_on_append)

definition good_comps :: "string list \<Rightarrow> bool" where
  "good_comps cs \<longleftrightarrow> (\<forall>c \<in> set cs. c \<noteq> [] \<and> c \<noteq> ''.'' \<and> CHR ''/'' \<notin> set c)"

lemma good_comps_comps [simp]: "good_comps (comps p)"
  using split_on_no_sep by (auto simp: good_comps_def comps_def)

lemma comps_join: "good_comps cs \<Longrightarrow> comps (''/'' @ join ''/'' cs) = cs"
proof (cases "cs = []")
  case False
  assume g: "good_comps cs"
  have "split_on (CHR ''/'') (''/'' @ join ''/'' cs) = [] # split_on (CHR ''/'') (join ''/'' cs)"
    by simp
  also have "split_on (CHR ''/'') (join ''/'' cs) = cs"
    using False g by (intro split_on_join) (auto simp: good_comps_def)
  finally show ?thesis using g by (simp add: comps_def good_comps_def)
qed (simp add: comps_def)

lemma common_prefix_take:
  "\<exists>as bs. xs = common_prefix xs ys @ as \<and> ys = common_prefix xs ys @ bs"
  by (induction xs ys rule: common_prefix.induct) auto

lemma common_prefix_append: "common_prefix xs (xs @ ys) = xs"
  by (induction xs) auto

lemma good_comps_append [simp]: "good_comps (xs @ ys) \<longleftrightarrow> good_comps xs \<and> good_comps ys"
  by (auto simp: good_comps_def)

lemma good_resolve: "good_comps acc \<Longrightarrow> good_comps cs \<Longrightarrow> good_comps (resolve_dots acc cs)"
proof (induction acc cs rule: resolve_dots.induct)
  case (2 acc c cs)
  moreover have "good_comps (tl acc)" using 2(3) by (cases acc) (auto simp: good_comps_def)
  ultimately show ?case by (auto simp: good_comps_def)
qed (simp add: good_comps_def)

lemma comps_normpath: "comps (normpath p) = resolve_dots [] (comps p)"
  by (simp only: normpath_def) (intro comps_join good_resolve; simp add: good_comps_def [of "[]"])

lemma normal_normpath [simp]: "normal_path (normpath p)"
  by (simp add: normal_path_def comps_normpath) (simp add: normpath_def)

section \<open>The containment test\<close>

lemma normal_absolute: "normal_path p \<Longrightarrow> startswith p ''/''"
proof -
  assume "normal_path p"
  then have "p = ''/'' @ join ''/'' (comps p)" by (simp add: normal_path_def)
  moreover have "startswith (''/'' @ t) ''/''" for t by (simp add: startswith_def)
  ultimately show ?thesis by metis
qed

lemma commonpath_inside:
  assumes "commonpath dir p = Some dir" and "p \<noteq> dir" and "normal_path dir" and "normal_path p"
  shows "inside dir p"
proof -
  have "startswith dir ''/''" using assms(3) by (rule normal_absolute)
  then have c: "''/'' @ join ''/'' (common_prefix (comps dir) (comps p)) = dir"
    using assms(1) by (auto simp: commonpath_def split: if_splits)
  obtain as bs where ab: "comps dir = common_prefix (comps dir) (comps p) @ as"
    "comps p = common_prefix (comps dir) (comps p) @ bs"
    using common_prefix_take by blast
  have "good_comps (common_prefix (comps dir) (comps p))"
    using ab good_comps_comps [of dir] by (metis good_comps_append)
  then have "comps dir = common_prefix (comps dir) (comps p)"
    using c comps_join by metis
  then have "comps p = comps dir @ bs" using ab(2) by simp
  moreover have "bs \<noteq> []"
    using calculation assms(2-4) by (auto simp: normal_path_def)
  ultimately show ?thesis by (auto simp: inside_def)
qed

lemma inside_commonpath:
  assumes "inside dir p" and "normal_path dir" and "normal_path p"
  shows "commonpath dir p = Some dir" and "p \<noteq> dir"
proof -
  obtain rest where r: "rest \<noteq> []" "comps p = comps dir @ rest" using assms(1) by (auto simp: inside_def)
  have "startswith dir ''/''" "startswith p ''/''"
    using assms(2,3) by (simp_all add: normal_absolute)
  then show "commonpath dir p = Some dir"
    using r assms(2) by (simp add: commonpath_def common_prefix_append normal_path_def)
  show "p \<noteq> dir" using r by auto
qed

section \<open>Joining below a directory\<close>

lemma split_on_append2: "split_on c (a @ c # b) = split_on c a @ split_on c b"
  using split_on_nonempty by (induction a) (auto split: list.split)

lemma no_slash_relative: "CHR ''/'' \<notin> set b \<Longrightarrow> \<not> startswith b ''/''"
  by (cases b) (auto simp: startswith_def)

lemma comps_append_sep: "comps (a @ CHR ''/'' # b) = comps a @ comps b"
  by (simp add: comps_def split_on_append2)

lemma comps_piece: "CHR ''/'' \<notin> set c \<Longrightarrow> c \<noteq> [] \<Longrightarrow> c \<noteq> ''.'' \<Longrightarrow> comps c = [c]"
  by (simp add: comps_def split_on_piece)

lemma endswith_slash: "endswith a ''/'' \<Longrightarrow> \<exists>a'. a = a' @ ''/''"
  unfolding endswith_def by (metis append_take_drop_id)

lemma comps_path_join:
  assumes "\<not> startswith b ''/''"
  shows "comps (path_join a b) = comps a @ comps b"
proof (cases "a = []")
  case True
  then show ?thesis using assms by (simp add: path_join_def comps_def)
next
  case False
  show ?thesis
  proof (cases "endswith a ''/''")
    case True
    then obtain a' where a: "a = a' @ ''/''" using endswith_slash by blast
    have "comps a = comps a' @ comps []" using a comps_append_sep [of a' "[]"] by simp
    moreover have "comps (a @ b) = comps a' @ comps b" using a comps_append_sep [of a' b] by simp
    ultimately show ?thesis using assms True by (simp add: path_join_def comps_def [of "[]"])
  next
    case no: False
    then show ?thesis using assms False comps_append_sep [of a b] by (simp add: path_join_def)
  qed
qed

lemma resolve_no_dots: "''..'' \<notin> set cs \<Longrightarrow> resolve_dots acc cs = rev acc @ cs"
  by (induction acc cs rule: resolve_dots.induct) auto

lemma resolve_append: "''..'' \<notin> set ds \<Longrightarrow> resolve_dots acc (cs @ ds) = resolve_dots acc cs @ ds"
  by (induction acc cs rule: resolve_dots.induct) (auto simp: resolve_no_dots)

lemma resolved_no_dots: "''..'' \<notin> set acc \<Longrightarrow> ''..'' \<notin> set (resolve_dots acc cs)"
proof (induction acc cs rule: resolve_dots.induct)
  case (2 acc c cs)
  then show ?case by (cases acc) auto
qed simp

lemma comps_normpath_join:
  assumes "\<not> startswith b ''/''" and "''..'' \<notin> set (comps b)"
  shows "comps (normpath (path_join (normpath a) b)) = comps (normpath a) @ comps b"
proof -
  have "''..'' \<notin> set (comps (normpath a))" by (simp add: comps_normpath resolved_no_dots)
  then show ?thesis
    using assms by (simp add: comps_normpath [of "path_join (normpath a) b"] comps_path_join resolve_no_dots)
qed

end
