(* ===== verification/Chef.thy ===== *)
theory Chef
  imports Engine Paths
begin

text \<open>
  \<^verbatim>\<open>chef/chef_main.py\<close>, the standalone program that executes a ticket. Its world is a file system
  (\<open>fsys\<close>: contents of files, directories, and a trace of every access in order) and the operating
  system's answers that the repository cannot fix (\<open>os\<close>): where \<^verbatim>\<open>realpath\<close> leads, the working
  directory, and what key a
  PEM file holds. The program ends with an exit code and a line on stderr, or with an exception
  that nothing catches, for which the interpreter exits with 1. The errors of the operating
  system in the middle of a call (no permission, disk full) are not modelled.
\<close>

section \<open>The world\<close>

datatype access = Stat string | Read string | Resolve string | MakeDir string | Write string

record fsys =
  files :: "string \<Rightarrow> string option"
  dirs :: "string set"
  trace :: "access list"

record os =
  realpath :: "string \<Rightarrow> string"
  load_pem :: "string \<Rightarrow> pem_file"
  cwd :: string

datatype exit = Exit int string | Uncaught exn

fun exit_code :: "exit \<Rightarrow> int" where
  "exit_code (Exit n _) = n"
| "exit_code (Uncaught _) = 1"

definition touch :: "access \<Rightarrow> fsys \<Rightarrow> fsys" where
  "touch a fs = fs\<lparr>trace := trace fs @ [a]\<rparr>"

text \<open>\<^verbatim>\<open>open(path, "wb").write(data)\<close>\<close>

definition write_file :: "string \<Rightarrow> string \<Rightarrow> fsys \<Rightarrow> fsys" where
  "write_file path data fs = touch (Write path) (fs\<lparr>files := (files fs)(path \<mapsto> data)\<rparr>)"

lemma write_file_simps [simp]:
  "files (write_file path data fs) = (files fs)(path \<mapsto> data)" "dirs (write_file path data fs) = dirs fs"
  by (simp_all add: write_file_def touch_def)

text \<open>\<^verbatim>\<open>open(path, "r", encoding="utf-8").read()\<close>: decoding, then universal newlines.\<close>

text \<open>\<open>newlines cr s\<close>: a line feed right after a carriage return (\<open>cr\<close>) is part of the same line end.\<close>

fun newlines :: "bool \<Rightarrow> string \<Rightarrow> string" where
  "newlines cr [] = []"
| "newlines cr (c # s) =
     (if c = CHR 0x0D then CHR 0x0A # newlines True s
      else if c = CHR 0x0A \<and> cr then newlines False s
      else c # newlines False s)"

definition read_text :: "string \<Rightarrow> exn + string" where
  "read_text bytes =
     (if list_all (\<lambda>n. \<not> is_surrogate n) (code_points bytes) then Inr (newlines False bytes)
      else Inl ValueError)"

lemma newlines_no_cr: "CHR 0x0D \<notin> set s \<Longrightarrow> newlines False s = s"
  by (induction s) auto

lemma ascii_not_surrogate: "(of_char c :: nat) < 128 \<Longrightarrow> \<not> is_surrogate (of_char c)"
  by (simp add: is_surrogate_def)

lemma read_text_ascii: "ascii b \<Longrightarrow> CHR 0x0D \<notin> set b \<Longrightarrow> read_text b = Inr b"
  by (simp add: read_text_def code_points_ascii newlines_no_cr list_all_iff)
    (simp add: ascii_def ascii_not_surrogate)

text \<open>\<^verbatim>\<open>json.load\<close> of a file opened with the encoding \<^verbatim>\<open>utf-8-sig\<close>, and with \<^verbatim>\<open>utf-8\<close>.\<close>

definition json_load_sig :: "string \<Rightarrow> exn + json" where
  "json_load_sig bytes =
     (case decode_utf8_sig bytes of None \<Rightarrow> Inl ValueError | Some text \<Rightarrow> loads (newlines False text))"

text \<open>What \<^verbatim>\<open>json.dump(d, fh, indent=2, sort_keys=True)\<close> and a line feed leave in a file.\<close>

definition file_text :: "json dict \<Rightarrow> string" where
  "file_text d = dumps indent2_style 0 (canon (JObj d)) @ [CHR 0x0A]"

lemma file_text_plain: "ascii (file_text d)" "CHR 0x0D \<notin> set (file_text d)"
  using dumps_ascii [of indent2_style] dumps_no_cr by (simp_all add: file_text_def)

lemma json_load_file_text:
  assumes "wf_json (JObj d)"
  shows "json_load_sig (file_text d) = Inr (canon (JObj d))"
    and "json_load_sig (BOM @ file_text d) = Inr (canon (JObj d))"
proof -
  have "json_loads (file_text d) = Some (canon (JObj d))"
    unfolding file_text_def
    by (rule loads_dumps) (use wf_canon [OF assms] in \<open>simp_all add: all_ws_def is_ws_def del: canon.simps\<close>)
  then show "json_load_sig (file_text d) = Inr (canon (JObj d))"
    "json_load_sig (BOM @ file_text d) = Inr (canon (JObj d))"
    using decode_utf8_sig_ascii [OF file_text_plain(1)] newlines_no_cr [OF file_text_plain(2)]
    by (simp_all add: json_load_sig_def loads_def del: canon.simps)
qed

section \<open>Standard input\<close>

definition REQUIRED_KEYS :: "string list" where
  "REQUIRED_KEYS = [''ticket_id'', ''order_id'', ''capability_id'', ''behavior'', ''behavior_config'',
     ''scoped_args'', ''issued_ts'', ''cashier_sig'']"

definition STRING_KEYS :: "string list" where
  "STRING_KEYS = [''ticket_id'', ''order_id'', ''capability_id'', ''behavior'', ''issued_ts'', ''cashier_sig'']"

fun is_str :: "json \<Rightarrow> bool" where
  "is_str (JStr s) = True" | "is_str _ = False"

fun str_of :: "json \<Rightarrow> string" where
  "str_of (JStr s) = s" | "str_of _ = []"

definition parse_ticket :: "string \<Rightarrow> exit + json dict \<times> string" where
  "parse_ticket raw_stdin =
     (if raw_stdin = [] then Inl (Exit 2 ''empty stdin'')
      else case json_loads raw_stdin of
        None \<Rightarrow> Inl (Exit 2 ''unparseable stdin json'')
      | Some (JObj t) \<Rightarrow>
          (case find (\<lambda>k. k \<notin> set (keys t)) REQUIRED_KEYS of
             Some key \<Rightarrow> Inl (Exit 2 (''missing required key: '' @ key))
           | None \<Rightarrow>
          (case find (\<lambda>k. \<not> is_str (jget t k)) STRING_KEYS of
             Some key \<Rightarrow> Inl (Exit 2 (''required key not a string: '' @ key))
           | None \<Rightarrow>
          (case jget t ''behavior_config'' of
             JObj _ \<Rightarrow>
               (case jget t ''scoped_args'' of
                  JObj scoped_args \<Rightarrow>
                    (let scoped_values = filter is_str (map snd scoped_args) in
                     if length scoped_args \<noteq> 1 \<or> length scoped_values \<noteq> 1
                     then Inl (Exit 2 ''scoped_args must hold exactly one string resource'')
                     else Inr (t, str_of (hd scoped_values)))
                | _ \<Rightarrow> Inl (Exit 2 ''scoped_args is not an object''))
           | _ \<Rightarrow> Inl (Exit 2 ''behavior_config is not an object''))))
      | Some _ \<Rightarrow> Inl (Exit 2 ''stdin json is not an object''))"

section \<open>The signature gate\<close>

definition signable :: "json dict \<Rightarrow> json dict" where
  "signable t =
     map (\<lambda>k. (k, jget t k)) [''ticket_id'', ''order_id'', ''capability_id'', ''behavior'',
       ''behavior_config'', ''scoped_args'', ''issued_ts'']"

definition verify_ticket :: "crypto \<Rightarrow> pem_file \<Rightarrow> json dict \<Rightarrow> exit + unit" where
  "verify_ticket C pem t =
     (case pem of
        Pem_unreadable \<Rightarrow> Inl (Exit 2 ''pubkey file is not a valid PEM public key'')
      | Pem_other_key \<Rightarrow> Inl (Exit 2 ''pubkey is not an Ed25519 public key'')
      | Pem_ed25519 pk \<Rightarrow>
          (case b64decode_validate (str_of (jget t ''cashier_sig'')) of
             None \<Rightarrow> Inl (Exit 3 ''signature verification failed'')
           | Some sig \<Rightarrow>
               if ed_verify C pk sig (canonical_bytes (JObj (signable t))) then Inr ()
               else Inl (Exit 3 ''signature verification failed'')))"

section \<open>The traversal guard\<close>

abbreviation "rejected_path \<equiv> Exit 4 ''path traversal rejected''"

definition guard_resource :: "string \<Rightarrow> exit + string \<times> string" where
  "guard_resource resource =
     (if CHR ''/'' \<notin> set resource then Inl rejected_path
      else let (owner, loc) = split_first (CHR ''/'') resource in
        if owner = [] \<or> loc = [] then Inl rejected_path
        else if CHR ''/'' \<in> set loc \<or> CHR 0x5C \<in> set loc \<or> loc = ''.'' \<or> loc = ''..'' then Inl rejected_path
        else if list_ex is_control resource then Inl rejected_path
        else Inr (owner, loc))"

definition owner_dir :: "os \<Rightarrow> string \<Rightarrow> string \<Rightarrow> string" where
  "owner_dir W base owner = realpath W (path_join (realpath W base) owner)"

definition candidate_path :: "os \<Rightarrow> string \<Rightarrow> string \<Rightarrow> string \<Rightarrow> string" where
  "candidate_path W base owner loc = realpath W (path_join (owner_dir W base owner) (loc @ ''.txt''))"

definition resolve_resource ::
  "os \<Rightarrow> string \<Rightarrow> string \<Rightarrow> string \<Rightarrow> fsys \<Rightarrow> (exit + string) \<times> fsys" where
  "resolve_resource W base owner loc fs =
     (let dir = owner_dir W base owner; candidate = candidate_path W base owner loc;
          fs = touch (Resolve (path_join dir (loc @ ''.txt'')))
                 (touch (Resolve (path_join (realpath W base) owner)) (touch (Resolve base) fs))
      in if commonpath dir candidate \<noteq> Some dir \<or> candidate = dir then (Inl rejected_path, fs)
         else (Inr candidate, fs))"

section \<open>The handlers\<close>

text \<open>The text after \<^verbatim>\<open>Subject:\<close> on the first line that has it.\<close>

definition find_subject :: "string \<Rightarrow> string list \<Rightarrow> string" where
  "find_subject other ls =
     (case find (\<lambda>l. startswith l ''Subject:'') ls of
        None \<Rightarrow> other | Some l \<Rightarrow> strip (drop (length ''Subject:'') l))"

definition first_line :: "string \<Rightarrow> string list \<Rightarrow> string" where
  "first_line other ls =
     (case find (\<lambda>l. strip l \<noteq> []) ls of None \<Rightarrow> other | Some l \<Rightarrow> strip l)"

definition safe_fields :: "string \<Rightarrow> string \<Rightarrow> string dict" where
  "safe_fields resource source_text =
     (let ls = splitlines source_text in
      [(''resource'', resource), (''subject'', find_subject [] ls), (''first_line'', first_line [] ls),
       (''line_count'', string_of_nat (length ls)),
       (''word_count'', string_of_nat (length (split_ws source_text))), (''body'', source_text)])"

definition nl :: string where
  "nl = [CHR 0x0A]"

text \<open>The em dash of the texts, U+2014.\<close>

definition em_dash :: string where
  "em_dash = enc 0x2014"

definition handle_draft_reply :: "string \<Rightarrow> string \<Rightarrow> string" where
  "handle_draft_reply resource source_text =
     ''Re: '' @ find_subject ''(no subject)'' (splitlines source_text) @ nl @ nl @
     ''Thank you for your message. A draft reply has been prepared for your review.'' @ nl @ nl @
     ''-- Sentinel Loop draft (no send performed)'' @ nl"

definition handle_docs_summarize :: "string \<Rightarrow> string \<Rightarrow> string" where
  "handle_docs_summarize resource source_text =
     (let ls = splitlines source_text in
      ''Summary of '' @ resource @ nl @ nl @
      ''Opening: '' @ first_line ''(empty document)'' ls @ nl @
      ''Length: '' @ string_of_nat (length ls) @ '' lines, '' @
      string_of_nat (length (split_ws source_text)) @ '' words.'' @ nl @ nl @
      ''-- Sentinel Loop summary (extractive, no model)'' @ nl)"

definition handle_payment_initiate :: "string \<Rightarrow> string \<Rightarrow> string" where
  "handle_payment_initiate resource source_text =
     ''PAYMENT REQUEST '' @ em_dash @ '' NO FUNDS MOVED'' @ nl @ nl @
     ''Regarding: '' @ resource @ nl @
     ''This is a request artifact for human authorization. The Sentinel Loop '' @
     ''slice does not execute payments.'' @ nl @ nl @
     ''-- Sentinel Loop (no side effect performed)'' @ nl"

text \<open>\<^verbatim>\<open>string.Template(t).safe_substitute(m)\<close>.\<close>

definition id_start :: "char \<Rightarrow> bool" where
  "id_start c \<longleftrightarrow> (let n = (of_char c :: nat) in n = 95 \<or> 65 \<le> n \<and> n \<le> 90 \<or> 97 \<le> n \<and> n \<le> 122)"

definition id_char :: "char \<Rightarrow> bool" where
  "id_char c \<longleftrightarrow> id_start c \<or> is_digit c"

definition lookup_or :: "string dict \<Rightarrow> string \<Rightarrow> string \<Rightarrow> string" where
  "lookup_or m name other = (case map_of m name of None \<Rightarrow> other | Some v \<Rightarrow> v)"

text \<open>What follows a dollar sign: its replacement and the rest.\<close>

definition placeholder :: "string dict \<Rightarrow> string \<Rightarrow> string \<times> string" where
  "placeholder m s =
     (case s of
        [] \<Rightarrow> (''$'', s)
      | c # r \<Rightarrow>
          if c = CHR ''$'' then (''$'', r)
          else if id_start c then
            (let name = takeWhile id_char s in
             (lookup_or m name (CHR ''$'' # name), dropWhile id_char s))
          else if c = CHR ''{'' then
            (let name = takeWhile id_char r; r' = dropWhile id_char r in
             if name \<noteq> [] \<and> id_start (hd name) \<and> r' \<noteq> [] \<and> hd r' = CHR ''}''
             then (lookup_or m name (''${'' @ name @ ''}''), tl r')
             else (''$'', s))
          else (''$'', s))"

lemma placeholder_length: "placeholder m s = (t, r) \<Longrightarrow> length r \<le> length s"
proof -
  have d: "length (dropWhile id_char x) \<le> length x" for x by (rule length_dropWhile_le)
  assume "placeholder m s = (t, r)"
  moreover have "length (tl (dropWhile id_char x)) \<le> Suc (length x)" for x
    using d [of x] by simp
  moreover have "length (dropWhile id_char x) \<le> Suc (length x)" for x using d [of x] by simp
  ultimately show ?thesis
    using d by (auto simp: placeholder_def Let_def split: list.splits if_splits)
qed

function safe_substitute :: "string dict \<Rightarrow> string \<Rightarrow> string" where
  "safe_substitute m [] = []"
| "safe_substitute m (c # s) =
     (if c = CHR ''$'' then (let (t, r) = placeholder m s in t @ safe_substitute m r)
      else c # safe_substitute m s)"
  by pat_completeness auto
termination
  by (relation "measure (length \<circ> snd)") (auto dest!: placeholder_length [OF sym] simp: less_Suc_eq_le)

definition handle_template :: "string \<Rightarrow> string \<Rightarrow> json dict \<Rightarrow> exn + string" where
  "handle_template resource source_text config =
     (case jget config ''template'' of
        JStr template_str \<Rightarrow>
          if template_str = [] then Inl ValueError
          else Inr (safe_substitute (safe_fields resource source_text) template_str)
      | _ \<Rightarrow> Inl ValueError)"

definition HANDLERS :: "(string \<times> (string \<Rightarrow> string \<Rightarrow> json dict \<Rightarrow> exn + string)) list" where
  "HANDLERS =
     [(''draft_reply'', \<lambda>r s c. Inr (handle_draft_reply r s)),
      (''docs_summarize'', \<lambda>r s c. Inr (handle_docs_summarize r s)),
      (''payment_request'', \<lambda>r s c. Inr (handle_payment_initiate r s)),
      (''template'', handle_template)]"

section \<open>The program\<close>

definition obj_of :: "json \<Rightarrow> json dict" where
  "obj_of j = (case j of JObj d \<Rightarrow> d | _ \<Rightarrow> [])"

definition write_output :: "string \<Rightarrow> string \<Rightarrow> fsys \<Rightarrow> fsys" where
  "write_output out_dir output_text fs =
     (let fs1 = touch (Stat out_dir) fs;
          fs2 = (if out_dir \<in> dirs fs1 then fs1
                 else touch (MakeDir out_dir) (fs1\<lparr>dirs := insert out_dir (dirs fs1)\<rparr>));
          output_file = path_join out_dir ''output.txt''
      in touch (Write output_file) (fs2\<lparr>files := (files fs2)(output_file \<mapsto> output_text)\<rparr>))"

text \<open>From the resolved file on: the read, the handler and the one write.\<close>

definition cook :: "json dict \<Rightarrow> string \<Rightarrow> string \<Rightarrow> string \<Rightarrow> fsys \<Rightarrow> exit \<times> fsys" where
  "cook t resource candidate out_dir fs =
     (let fs1 = touch (Stat candidate) fs in
      case files fs1 candidate of
        None \<Rightarrow> (Exit 4 ''fixture not found'', fs1)
      | Some bytes \<Rightarrow>
          (let fs2 = touch (Read candidate) fs1 in
           case read_text bytes of
             Inl e \<Rightarrow> (Uncaught e, fs2)
           | Inr source_text \<Rightarrow>
               (case map_of HANDLERS (str_of (jget t ''behavior'')) of
                  None \<Rightarrow> (Exit 5 (''no handler for behavior '' @ str_of (jget t ''behavior'')), fs2)
                | Some handler \<Rightarrow>
                    (case handler resource source_text (obj_of (jget t ''behavior_config'')) of
                       Inl e \<Rightarrow> (Uncaught e, fs2)
                     | Inr output_text \<Rightarrow> (Exit 0 [], write_output out_dir output_text fs2)))))"

definition chef_main :: "crypto \<Rightarrow> os \<Rightarrow> string list \<Rightarrow> string \<Rightarrow> fsys \<Rightarrow> exit \<times> fsys" where
  "chef_main C W argv raw_stdin fs =
     (if length argv \<noteq> 4
      then (Exit 2 ''usage: chef_main.py <pubkey_pem> <fixtures_root> <out_dir>'', fs)
      else let pubkey_path = argv ! 1; fixtures_root = argv ! 2; out_dir = argv ! 3 in
        case parse_ticket raw_stdin of
          Inl x \<Rightarrow> (x, fs)
        | Inr (t, resource) \<Rightarrow>
            (let fs1 = touch (Stat pubkey_path) fs in
             case files fs1 pubkey_path of
               None \<Rightarrow> (Exit 2 ''pubkey file not found'', fs1)
             | Some pem_bytes \<Rightarrow>
                 (let fs2 = touch (Read pubkey_path) fs1 in
                  case verify_ticket C (load_pem W pem_bytes) t of
                    Inl x \<Rightarrow> (x, fs2)
                  | Inr _ \<Rightarrow>
                      (case guard_resource resource of
                         Inl x \<Rightarrow> (x, fs2)
                       | Inr (owner, loc) \<Rightarrow>
                           (case resolve_resource W fixtures_root owner loc fs2 of
                              (Inl x, fs3) \<Rightarrow> (x, fs3)
                            | (Inr candidate, fs3) \<Rightarrow> cook t resource candidate out_dir fs3)))))"

section \<open>What the signature gate lets through\<close>

text \<open>
  The standard input is an authentic ticket for the key in the PEM file: it parses, and the
  signature it carries verifies over its seven fields.
\<close>

definition authentic :: "crypto \<Rightarrow> os \<Rightarrow> string option \<Rightarrow> string \<Rightarrow> bool" where
  "authentic C W pem raw_stdin \<longleftrightarrow>
     (\<exists>bytes t resource pk sig. pem = Some bytes \<and> load_pem W bytes = Pem_ed25519 pk \<and>
        parse_ticket raw_stdin = Inr (t, resource) \<and>
        b64decode_validate (str_of (jget t ''cashier_sig'')) = Some sig \<and>
        ed_verify C pk sig (canonical_bytes (JObj (signable t))))"

lemma verify_ticket_Inr:
  "verify_ticket C pem t = Inr u \<longleftrightarrow> (\<exists>pk sig. pem = Pem_ed25519 pk \<and>
     b64decode_validate (str_of (jget t ''cashier_sig'')) = Some sig \<and>
     ed_verify C pk sig (canonical_bytes (JObj (signable t))))"
  by (auto simp: verify_ticket_def split: pem_file.splits option.splits if_splits)

lemma verify_ticket_Inl: "verify_ticket C pem t = Inl x \<Longrightarrow> exit_code x \<in> {2, 3}"
  by (auto simp: verify_ticket_def split: pem_file.splits option.splits if_splits)

lemma parse_ticket_Inl: "parse_ticket s = Inl x \<Longrightarrow> exit_code x = 2"
  by (auto simp: parse_ticket_def Let_def split: option.splits json.splits if_splits)

text \<open>The accesses before and at the gate.\<close>

lemma chef_not_authentic:
  assumes "\<not> authentic C W (files fs (argv ! 1)) raw_stdin" and "chef_main C W argv raw_stdin fs = (x, fs')"
  shows "exit_code x \<in> {2, 3} \<and> files fs' = files fs \<and> dirs fs' = dirs fs \<and>
    trace fs' \<in> {trace fs, trace fs @ [Stat (argv ! 1)], trace fs @ [Stat (argv ! 1), Read (argv ! 1)]}"
proof (cases "length argv = 4")
  case four: True
  show ?thesis
  proof (cases "parse_ticket raw_stdin")
    case (Inl y)
    then show ?thesis using assms(2) four by (auto simp: chef_main_def Let_def dest: parse_ticket_Inl)
  next
    case (Inr tr)
    obtain t r where tr: "tr = (t, r)" by (cases tr)
    show ?thesis
    proof (cases "files fs (argv ! 1)")
      case None
      then show ?thesis using assms(2) four Inr tr by (auto simp: chef_main_def Let_def touch_def)
    next
      case (Some bytes)
      then obtain y where "verify_ticket C (load_pem W bytes) t = Inl y"
        using assms(1) Inr tr by (cases "verify_ticket C (load_pem W bytes) t")
          (auto simp: authentic_def verify_ticket_Inr)
      then show ?thesis
        using assms(2) four Inr tr Some verify_ticket_Inl
        by (auto simp: chef_main_def Let_def touch_def)
    qed
  qed
qed (use assms(2) in \<open>auto simp: chef_main_def\<close>)

section \<open>The accesses after the gate\<close>

text \<open>The paths an access names.\<close>

fun accessed :: "access \<Rightarrow> string" where
  "accessed (Stat p) = p" | "accessed (Read p) = p" | "accessed (Resolve p) = p"
| "accessed (MakeDir p) = p" | "accessed (Write p) = p"

lemma touch_simps [simp]:
  "files (touch a fs) = files fs" "dirs (touch a fs) = dirs fs" "trace (touch a fs) = trace fs @ [a]"
  by (simp_all add: touch_def)

lemma resolve_resource_facts:
  "resolve_resource W base owner loc fs = (r, fs') \<Longrightarrow>
    files fs' = files fs \<and> dirs fs' = dirs fs \<and>
    (\<exists>a b c. trace fs' = trace fs @ [Resolve a, Resolve b, Resolve c]) \<and>
    (case r of Inl x \<Rightarrow> x = rejected_path
     | Inr c \<Rightarrow> c = candidate_path W base owner loc \<and>
         commonpath (owner_dir W base owner) c = Some (owner_dir W base owner) \<and> c \<noteq> owner_dir W base owner)"
  by (auto simp: resolve_resource_def Let_def split: if_splits)

lemma write_output_facts:
  "files (write_output out_dir output fs) = (files fs)(path_join out_dir ''output.txt'' \<mapsto> output)"
  "dirs (write_output out_dir output fs) = insert out_dir (dirs fs)"
  "\<exists>as. trace (write_output out_dir output fs) = trace fs @ as \<and>
     (\<forall>a \<in> set as. \<forall>p. a \<noteq> Read p) \<and>
     (\<forall>a \<in> set as. \<forall>p. a = Write p \<longrightarrow> p = path_join out_dir ''output.txt'')"
  by (auto simp: write_output_def Let_def insert_absorb)

text \<open>The two ways \<open>cook\<close> ends: with the output written, or with nothing changed.\<close>

lemma cook_facts:
  assumes "cook t resource candidate out_dir fs = (x, fs')"
  shows "(\<exists>bytes text handler output. files fs candidate = Some bytes \<and> read_text bytes = Inr text \<and>
        map_of HANDLERS (str_of (jget t ''behavior'')) = Some handler \<and>
        handler resource text (obj_of (jget t ''behavior_config'')) = Inr output \<and>
        x = Exit 0 [] \<and>
        fs' = write_output out_dir output (touch (Read candidate) (touch (Stat candidate) fs))) \<or>
      (exit_code x \<noteq> 0 \<and> files fs' = files fs \<and> dirs fs' = dirs fs \<and>
        trace fs' \<in> {trace fs @ [Stat candidate], trace fs @ [Stat candidate, Read candidate]})"
  using assms by (auto simp: cook_def Let_def split: option.splits sum.splits)

lemma cook_reads:
  assumes "cook t resource candidate out_dir fs = (x, fs')" and "Read p \<in> set (trace fs')"
  shows "Read p \<in> set (trace fs) \<or> p = candidate"
proof -
  have "Read p \<in> set (trace fs) \<or> p = candidate"
    if "Read p \<in> set (trace (write_output out_dir out (touch (Read candidate) (touch (Stat candidate) fs))))" for out
    using write_output_facts(3) [of out_dir out "touch (Read candidate) (touch (Stat candidate) fs)"] that
    by auto
  then show ?thesis using cook_facts [OF assms(1)] assms(2) by auto
qed

text \<open>A run that passes the gate, in its stages.\<close>

lemma chef_authentic_cases:
  assumes "authentic C W (files fs (argv ! 1)) raw_stdin" and "length argv = 4"
    and "chef_main C W argv raw_stdin fs = (x, fs')"
  obtains (guarded) t resource where "parse_ticket raw_stdin = Inr (t, resource)"
      "guard_resource resource = Inl x" "fs' = touch (Read (argv ! 1)) (touch (Stat (argv ! 1)) fs)"
  | (outside) t resource owner loc where "parse_ticket raw_stdin = Inr (t, resource)"
      "guard_resource resource = Inr (owner, loc)" "x = rejected_path"
      "files fs' = files fs" "dirs fs' = dirs fs"
      "\<exists>a b c. trace fs' = trace fs @ [Stat (argv ! 1), Read (argv ! 1), Resolve a, Resolve b, Resolve c]"
  | (cooked) t resource owner loc candidate fs3 where "parse_ticket raw_stdin = Inr (t, resource)"
      "guard_resource resource = Inr (owner, loc)"
      "candidate = candidate_path W (argv ! 2) owner loc"
      "commonpath (owner_dir W (argv ! 2) owner) candidate = Some (owner_dir W (argv ! 2) owner)"
      "candidate \<noteq> owner_dir W (argv ! 2) owner"
      "files fs3 = files fs" "dirs fs3 = dirs fs"
      "\<exists>a b c. trace fs3 = trace fs @ [Stat (argv ! 1), Read (argv ! 1), Resolve a, Resolve b, Resolve c]"
      "cook t resource candidate (argv ! 3) fs3 = (x, fs')"
proof -
  obtain bytes t resource where p: "files fs (argv ! 1) = Some bytes" "parse_ticket raw_stdin = Inr (t, resource)"
    "verify_ticket C (load_pem W bytes) t = Inr ()"
    using assms(1) by (auto simp: authentic_def verify_ticket_Inr)
  let ?fs2 = "touch (Read (argv ! 1)) (touch (Stat (argv ! 1)) fs)"
  show thesis
  proof (cases "guard_resource resource")
    case (Inl y)
    then show thesis using assms(2,3) p guarded by (simp add: chef_main_def Let_def)
  next
    case (Inr ol)
    obtain owner loc where ol: "ol = (owner, loc)" by (cases ol)
    obtain r fs3 where r: "resolve_resource W (argv ! 2) owner loc ?fs2 = (r, fs3)" by fastforce
    note f = resolve_resource_facts [OF r]
    show thesis
    proof (cases r)
      case (Inl y)
      then show thesis
        using assms(2,3) p Inr ol r f by (intro outside [of t resource owner loc]) (auto simp: chef_main_def Let_def)
    next
      case (Inr c)
      then show thesis
        using assms(2,3) p \<open>guard_resource resource = Inr ol\<close> ol r f
        by (intro cooked [of t resource owner loc c fs3]) (auto simp: chef_main_def Let_def)
    qed
  qed
qed

lemma guard_Inl: "guard_resource r = Inl x \<Longrightarrow> x = rejected_path"
  by (auto simp: guard_resource_def Let_def split: prod.splits if_splits)

lemma usage_exit:
  "length argv \<noteq> 4 \<Longrightarrow> chef_main C W argv raw_stdin fs = (x, fs') \<Longrightarrow> exit_code x = 2 \<and> fs' = fs"
  by (auto simp: chef_main_def)

lemma chef_writes:
  assumes "chef_main C W argv raw_stdin fs = (x, fs')"
  shows "if exit_code x = 0
    then \<exists>t resource owner loc bytes text handler output.
      authentic C W (files fs (argv ! 1)) raw_stdin \<and>
      parse_ticket raw_stdin = Inr (t, resource) \<and> guard_resource resource = Inr (owner, loc) \<and>
      files fs (candidate_path W (argv ! 2) owner loc) = Some bytes \<and> read_text bytes = Inr text \<and>
      map_of HANDLERS (str_of (jget t ''behavior'')) = Some handler \<and>
      handler resource text (obj_of (jget t ''behavior_config'')) = Inr output \<and>
      files fs' = (files fs)(path_join (argv ! 3) ''output.txt'' \<mapsto> output)
    else files fs' = files fs \<and> dirs fs' = dirs fs"
proof (cases "authentic C W (files fs (argv ! 1)) raw_stdin \<and> length argv = 4")
  case False
  then show ?thesis using chef_not_authentic [OF _ assms] usage_exit [OF _ assms] by fastforce
next
  case True
  then have "authentic C W (files fs (argv ! 1)) raw_stdin" "length argv = 4" by simp_all
  then show ?thesis using assms
  proof (cases rule: chef_authentic_cases)
    case (guarded t resource)
    then show ?thesis using guard_Inl by fastforce
  next
    case (outside t resource owner loc)
    then show ?thesis by simp
  next
    case (cooked t resource owner loc candidate fs3)
    show ?thesis
      using cook_facts [OF cooked(9)]
    proof
      assume "\<exists>bytes text handler output. files fs3 candidate = Some bytes \<and> read_text bytes = Inr text \<and>
        map_of HANDLERS (str_of (jget t ''behavior'')) = Some handler \<and>
        handler resource text (obj_of (jget t ''behavior_config'')) = Inr output \<and>
        x = Exit 0 [] \<and>
        fs' = write_output (argv ! 3) output (touch (Read candidate) (touch (Stat candidate) fs3))"
      then obtain bytes src handler out where o: "files fs candidate = Some bytes" "read_text bytes = Inr src"
        "map_of HANDLERS (str_of (jget t ''behavior'')) = Some handler"
        "handler resource src (obj_of (jget t ''behavior_config'')) = Inr out" "x = Exit 0 []"
        "files fs' = (files fs)(path_join (argv ! 3) ''output.txt'' \<mapsto> out)"
        using cooked(6) by (auto simp: write_output_facts)
      have "exit_code x = 0" using o(5) by simp
      then show ?thesis using o cooked(1,2,3) True by metis
    qed (use cooked in auto)
  qed
qed

lemma chef_output_facts:
  "chef_main C W argv raw_stdin fs = (x, fs') \<Longrightarrow>
    (exit_code x \<noteq> 0 \<longrightarrow> files fs' = files fs) \<and>
    (\<forall>p. p \<noteq> path_join (argv ! 3) ''output.txt'' \<longrightarrow> files fs' p = files fs p)"
  using chef_writes [of C W argv raw_stdin fs x fs'] by (auto split: if_splits)

section \<open>Properties\<close>

text \<open>
  C2. The signature gate: unless standard input is a ticket whose signature verifies under the
  key in the PEM file, the chef exits with 2 or 3, changes no file and no directory, and has
  accessed nothing but the PEM file.
\<close>

theorem nothing_touched_before_signature:
  assumes "\<not> authentic C W (files fs (argv ! 1)) raw_stdin" and "chef_main C W argv raw_stdin fs = (x, fs')"
  shows "exit_code x \<in> {2, 3} \<and> files fs' = files fs \<and> dirs fs' = dirs fs \<and>
    trace fs' \<in> {trace fs, trace fs @ [Stat (argv ! 1)], trace fs @ [Stat (argv ! 1), Read (argv ! 1)]}"
  using assms by (rule chef_not_authentic)

definition example_os :: os where
  "example_os = \<lparr>realpath = normpath, load_pem = (\<lambda>b. Pem_ed25519 b), cwd = ''/''\<rparr>"

definition example_fs :: fsys where
  "example_fs = \<lparr>files = [''/pub.pem'' \<mapsto> ''sk'', ''/mail/alice/t1.txt'' \<mapsto> ''Subject: hi''],
     dirs = {''/ws''}, trace = []\<rparr>"

theorem nothing_touched_before_signature_witness:
  "\<exists>x fs'. chef_main example_crypto example_os [''chef_main.py'', ''/pub.pem'', ''/mail'', ''/out''] ''{}'' example_fs = (x, fs') \<and>
     exit_code x \<in> {2, 3} \<and> files fs' = files example_fs"
proof -
  have "parse_ticket ''{}'' = Inl (Exit 2 ''missing required key: ticket_id'')"
    by (simp add: parse_ticket_def json_loads_def skip_ws_def is_ws_def startswith_def REQUIRED_KEYS_def keys_def
        numeral_eq_Suc)
  then have "\<not> authentic example_crypto example_os (files example_fs ([''chef_main.py'', ''/pub.pem'', ''/mail'', ''/out''] ! 1)) ''{}''"
    by (simp add: authentic_def)
  then have na: "\<not> authentic example_crypto example_os
      (files example_fs ([''chef_main.py'', ''/pub.pem'', ''/mail'', ''/out''] ! 1)) ''{}''" .
  obtain x fs' where r: "chef_main example_crypto example_os [''chef_main.py'', ''/pub.pem'', ''/mail'', ''/out'']
      ''{}'' example_fs = (x, fs')"
    by (meson surj_pair)
  show ?thesis using nothing_touched_before_signature [OF na r] r by blast
qed

text \<open>
  C16. Confinement: whatever standard input holds and wherever symbolic links lead, every file the
  chef reads, the PEM file apart, is the one candidate of an authentic ticket, and lies strictly
  below the resolved directory of the owner its resource names.
\<close>

theorem chef_reads_only_inside_owner_dir:
  assumes "\<forall>p. normal_path (realpath W p)" and "chef_main C W argv raw_stdin fs = (x, fs')"
    and "trace fs = []" and "Read p \<in> set (trace fs')" and "p \<noteq> argv ! 1"
  shows "authentic C W (files fs (argv ! 1)) raw_stdin \<and>
    (\<exists>t resource owner loc. parse_ticket raw_stdin = Inr (t, resource) \<and>
       guard_resource resource = Inr (owner, loc) \<and>
       p = candidate_path W (argv ! 2) owner loc \<and> inside (owner_dir W (argv ! 2) owner) p)"
proof -
  have auth: "authentic C W (files fs (argv ! 1)) raw_stdin"
    using chef_not_authentic [OF _ assms(2)] assms(3-5) by fastforce
  have four: "length argv = 4" using usage_exit [OF _ assms(2)] assms(3,4) by fastforce
  show ?thesis
    using auth four assms(2)
  proof (cases rule: chef_authentic_cases)
    case (guarded t resource)
    then show ?thesis using assms(3-5) by simp
  next
    case (outside t resource owner loc)
    then show ?thesis using assms(3-5) by auto
  next
    case (cooked t resource owner loc candidate fs3)
    have "p = candidate"
      using cook_reads [OF cooked(9) assms(4)] cooked(8) assms(3,5) by auto
    moreover have "inside (owner_dir W (argv ! 2) owner) candidate"
      using cooked assms(1) by (intro commonpath_inside) (auto simp: owner_dir_def candidate_path_def)
    ultimately show ?thesis using auth cooked by blast
  qed
qed

text \<open>
  Success and failure: with exit code 0 the chef has written exactly one file, \<^verbatim>\<open>output.txt\<close> in
  its output directory, holding what the handler of the signed behavior made of the resource's
  text; with any other exit it has changed no file and no directory.
\<close>

theorem chef_writes_output_or_nothing:
  "case chef_main C W argv raw_stdin fs of (x, fs') \<Rightarrow>
    (if exit_code x = 0
     then \<exists>t resource owner loc bytes text handler output.
      authentic C W (files fs (argv ! 1)) raw_stdin \<and>
      parse_ticket raw_stdin = Inr (t, resource) \<and> guard_resource resource = Inr (owner, loc) \<and>
      files fs (candidate_path W (argv ! 2) owner loc) = Some bytes \<and> read_text bytes = Inr text \<and>
      map_of HANDLERS (str_of (jget t ''behavior'')) = Some handler \<and>
      handler resource text (obj_of (jget t ''behavior_config'')) = Inr output \<and>
      files fs' = (files fs)(path_join (argv ! 3) ''output.txt'' \<mapsto> output)
     else files fs' = files fs \<and> dirs fs' = dirs fs)"
proof (cases "chef_main C W argv raw_stdin fs")
  case (Pair x fs')
  then show ?thesis using chef_writes [OF Pair] by simp
qed

end
