(* ===== verification/Signed_Auth.thy ===== *)
theory Signed_Auth
  imports Chef
begin

text \<open>
  \<^verbatim>\<open>console/auth.py\<close> and \<^verbatim>\<open>console/signed_auth.py\<close>: who an operator is. Every request is signed over
  its method, path, sender, time and body; the server holds public keys only. Request headers are a
  function from names to values; the clock is an argument.
\<close>

section \<open>auth.py\<close>

definition ROLE_AUTHOR :: string where "ROLE_AUTHOR = ''author''"
definition ROLE_REVIEWER :: string where "ROLE_REVIEWER = ''reviewer''"
definition ROLES :: "string list" where "ROLES = [ROLE_AUTHOR, ROLE_REVIEWER]"

record admin =
  ad_id :: string
  ad_role :: string

section \<open>The signed bytes\<close>

definition SCHEME :: string where
  "SCHEME = ''sentinel-console-auth-1''"

definition DEFAULT_MAX_SKEW_SECONDS :: int where
  "DEFAULT_MAX_SKEW_SECONDS = 300"

definition H_ID :: string where "H_ID = ''X-Admin-Id''"
definition H_TS :: string where "H_TS = ''X-Admin-Timestamp''"
definition H_SIG :: string where "H_SIG = ''X-Admin-Signature''"

definition nl_sep :: string where
  "nl_sep = [CHR 0x0A]"

definition signing_bytes :: "crypto \<Rightarrow> string \<Rightarrow> string \<Rightarrow> string \<Rightarrow> int \<Rightarrow> string \<Rightarrow> string" where
  "signing_bytes C verb path admin_id ts body =
     join nl_sep [SCHEME, map upper_char verb, path, admin_id, string_of_int ts, sha256_hex C body]"

section \<open>The registry\<close>

record key_entry =
  ke_public_key :: string
  ke_role :: string

type_synonym registry = "(string \<times> key_entry) list"

text \<open>One entry of the file: the role is checked, then the key is read.\<close>

definition entry_of_json :: "os \<Rightarrow> json \<Rightarrow> exn + key_entry" where
  "entry_of_json W who =
     bind_res (subscript who ''role'') (\<lambda>role.
     if role \<notin> set (map JStr ROLES) then Inl ValueError
     else bind_res (subscript who ''pubkey_pem'') (\<lambda>pem.
       case pem of
         JStr text \<Rightarrow>
           (case load_pem W text of
              Pem_ed25519 pk \<Rightarrow> Inr \<lparr>ke_public_key = pk, ke_role = str_of role\<rparr>
            | _ \<Rightarrow> Inl ValueError)
       | _ \<Rightarrow> Inl AttributeError))"

definition registry_from_file :: "os \<Rightarrow> string \<Rightarrow> exn + registry" where
  "registry_from_file W bytes =
     bind_res (read_text bytes) (\<lambda>text.
     bind_res (loads text) (\<lambda>obj.
     bind_res (subscript obj ''admins'') (\<lambda>admins.
     bind_res (items admins) (\<lambda>kvs.
       map_res (\<lambda>(admin_id, who). bind_res (entry_of_json W who) (\<lambda>e. Inr (admin_id, e))) kvs))))"

section \<open>Signing and verifying\<close>

definition sign_headers ::
  "crypto \<Rightarrow> string \<Rightarrow> string \<Rightarrow> string \<Rightarrow> string \<Rightarrow> string \<Rightarrow> int \<Rightarrow> string dict" where
  "sign_headers C private_key admin_id verb path body now =
     [(H_ID, admin_id), (H_TS, string_of_int now),
      (H_SIG, b64encode (ed_sign C private_key (signing_bytes C verb path admin_id now body)))]"

text \<open>
  \<^verbatim>\<open>int(s)\<close> on a header's text (which is Latin-1, so its decimal digits are the ASCII ones): white
  space around, a sign, digits with single underscores between them.
\<close>

fun digits_ok :: "string \<Rightarrow> bool" where
  "digits_ok [] = False"
| "digits_ok [c] = is_digit c"
| "digits_ok (c # d # s) = (is_digit c \<and> (if d = CHR ''_'' then digits_ok s else digits_ok (d # s)))"

definition unsigned :: "string \<Rightarrow> int option" where
  "unsigned s = (if digits_ok s then Some (int (nat_of_digits (filter is_digit s))) else None)"

definition py_int :: "string \<Rightarrow> int option" where
  "py_int s =
     (case strip s of
        [] \<Rightarrow> None
      | c # cs \<Rightarrow>
          if c = CHR ''-'' then map_option uminus (unsigned cs)
          else if c = CHR ''+'' then unsigned cs
          else unsigned (c # cs))"

definition verify_request ::
  "crypto \<Rightarrow> registry \<Rightarrow> string \<Rightarrow> string \<Rightarrow> string \<Rightarrow> (string \<Rightarrow> string option) \<Rightarrow> int \<Rightarrow> int \<Rightarrow> admin option" where
  "verify_request C registry verb path body header now max_skew_seconds =
     (case (header H_ID, header H_TS, header H_SIG) of
        (Some admin_id, Some ts_raw, Some sig_b64) \<Rightarrow>
          if admin_id = [] \<or> ts_raw = [] \<or> sig_b64 = [] then None
          else (case map_of registry admin_id of
            None \<Rightarrow> None
          | Some e \<Rightarrow>
              (case py_int ts_raw of
                 None \<Rightarrow> None
               | Some ts \<Rightarrow>
                   if \<bar>now - ts\<bar> > max_skew_seconds then None
                   else (case b64decode_validate sig_b64 of
                     None \<Rightarrow> None
                   | Some sig \<Rightarrow>
                       if ed_verify C (ke_public_key e) sig (signing_bytes C verb path admin_id ts body)
                       then Some \<lparr>ad_id = admin_id, ad_role = ke_role e\<rparr> else None)))
      | _ \<Rightarrow> None)"

section \<open>A signed request is recognised\<close>

lemma digits_ok_digits: "s \<noteq> [] \<Longrightarrow> \<forall>c \<in> set s. is_digit c \<Longrightarrow> digits_ok s"
proof (induction s rule: digits_ok.induct)
  case (3 c d s)
  then have "d \<noteq> CHR ''_''" by (auto simp: is_digit_def)
  with 3 show ?case by simp
qed simp_all

lemma strip_no_space:
  assumes "ascii s" and "\<forall>c \<in> set s. \<not> is_space (of_char c)"
  shows "strip s = s"
proof -
  have c: "code_points s = map of_char s" using assms(1) by (rule code_points_ascii)
  have d: "dropWhile is_space (map of_char t) = map of_char t" if "\<forall>c \<in> set t. \<not> is_space (of_char c)" for t :: string
    using that by (cases t) auto
  have "strip s = encode (code_points s)"
    using d [OF assms(2)] d [of "rev s"] assms(2) by (simp add: strip_def c rev_map)
  then show ?thesis by simp
qed

lemma string_of_int_plain: "c \<in> set (string_of_int i) \<Longrightarrow> is_digit c \<or> c = CHR ''-''"
  using string_of_nat_digits [of "nat i"] string_of_nat_digits [of "nat (- i)"]
  by (auto simp: string_of_int_def split: if_splits)

lemma strip_string_of_int: "strip (string_of_int i) = string_of_int i"
proof (rule strip_no_space)
  have "(of_char c :: nat) < 128 \<and> \<not> is_space (of_char c)" if "c \<in> set (string_of_int i)" for c
    using string_of_int_plain [OF that] by (auto simp: is_digit_def is_space_def)
  then show "ascii (string_of_int i)" "\<forall>c \<in> set (string_of_int i). \<not> is_space (of_char c)"
    by (auto simp: ascii_def)
qed

lemma unsigned_string_of_nat: "unsigned (string_of_nat n) = Some (int n)"
proof -
  have "string_of_nat n \<noteq> []" using string_of_nat_head [of n] by auto
  then have "digits_ok (string_of_nat n)" using string_of_nat_digits by (intro digits_ok_digits) auto
  moreover have "filter is_digit (string_of_nat n) = string_of_nat n"
    using string_of_nat_digits by (intro filter_True) auto
  ultimately show ?thesis by (simp add: unsigned_def)
qed

lemma py_int_string_of_int: "py_int (string_of_int i) = Some i"
proof -
  obtain c cs where h: "string_of_nat (nat i) = c # cs" "is_digit c" using string_of_nat_head [of "nat i"] by blast
  then have "c \<noteq> CHR ''-''" "c \<noteq> CHR ''+''" by (auto simp: is_digit_def)
  then show ?thesis
    using h unsigned_string_of_nat [of "nat i"] unsigned_string_of_nat [of "nat (- i)"]
    by (cases "i < 0") (simp_all add: py_int_def strip_string_of_int, simp_all add: string_of_int_def)
qed

lemma string_of_int_nonempty: "string_of_int i \<noteq> []"
  using string_of_nat_head [of "nat i"] by (auto simp: string_of_int_def)

section \<open>What is signed determines the request\<close>

lemma join_inj:
  assumes "c \<notin> set a" and "c \<notin> set a'" and "a @ c # s = a' @ c # s'"
  shows "a = a' \<and> s = s'"
  using assms
proof (induction a arbitrary: a')
  case Nil
  then show ?case by (cases a') auto
next
  case (Cons x a)
  then show ?case by (cases a') auto
qed

lemma string_of_int_no_nl: "CHR 0x0A \<notin> set (string_of_int i)"
  using string_of_int_plain [of "CHR 0x0A" i] by (auto simp: is_digit_def)

lemma string_of_int_inj: "string_of_int i = string_of_int j \<Longrightarrow> i = j"
  by (metis py_int_string_of_int option.inject)

text \<open>A name that can stand between line feeds.\<close>

abbreviation one_line :: "string \<Rightarrow> bool" where
  "one_line s \<equiv> CHR 0x0A \<notin> set s"

lemma upper_one_line: "one_line verb \<Longrightarrow> one_line (map upper_char verb)"
proof -
  have "upper_char c \<noteq> CHR 0x0A" if "c \<noteq> CHR 0x0A" for c
  proof (cases "97 \<le> (of_char c :: nat) \<and> (of_char c :: nat) \<le> 122")
    case True
    then have "(of_char c - 32 :: nat) < 256" by linarith
    then have "(of_char (upper_char c) :: nat) = of_char c - 32" using True by (simp add: upper_char_def)
    then have "(of_char (upper_char c) :: nat) \<noteq> of_char CHR 0x0A"
      using conjunct1 [OF True] by simp
    then show ?thesis by (metis of_char_eq_iff)
  next
    case False
    then have "upper_char c = c" unfolding upper_char_def by (rule if_not_P)
    then show ?thesis using that by simp
  qed
  then show "one_line verb \<Longrightarrow> one_line (map upper_char verb)"
    by (induction verb) (simp, metis list.set_intros(1,2) list.simps(9) set_ConsD)
qed

lemma signing_bytes_inj:
  assumes "signing_bytes C verb path i ts body = signing_bytes C verb' path' i' ts' body'"
    and "one_line verb" "one_line path" "one_line i" "one_line verb'" "one_line path'" "one_line i'"
  shows "map upper_char verb = map upper_char verb' \<and> path = path' \<and> i = i' \<and> ts = ts' \<and>
    (body = body' \<or> collision C body body')"
proof -
  let ?n = "CHR 0x0A"
  have e: "map upper_char verb @ ?n # path @ ?n # i @ ?n # string_of_int ts @ ?n # sha256_hex C body =
      map upper_char verb' @ ?n # path' @ ?n # i' @ ?n # string_of_int ts' @ ?n # sha256_hex C body'"
    using assms(1) by (simp add: signing_bytes_def nl_sep_def)
  note j1 = join_inj [OF upper_one_line upper_one_line e, OF assms(2,5)]
  note j2 = join_inj [OF assms(3,6) conjunct2 [OF j1]]
  note j3 = join_inj [OF assms(4,7) conjunct2 [OF j2]]
  note j4 = join_inj [OF string_of_int_no_nl string_of_int_no_nl conjunct2 [OF j3]]
  show ?thesis using j1 j2 j3 j4 string_of_int_inj by (auto simp: collision_def)
qed

section \<open>Properties\<close>

text \<open>
  Who the server takes an operator for: a request is attributed to an operator only when that
  operator is registered, with the role registered, and the request carries a signature by the
  registered key over its method, path, sender, time and the hash of its body, with a time within the
  allowed skew. Two requests that the same signed bytes could serve are the same request, up to the
  case of the method's letters and a collision of SHA-256.
\<close>

theorem attributed_requests_are_signed:
  assumes "verify_request C registry verb path body header now skew = Some who"
  shows "\<exists>e ts sig. map_of registry (ad_id who) = Some e \<and> ad_role who = ke_role e \<and>
      header H_ID = Some (ad_id who) \<and> \<bar>now - ts\<bar> \<le> skew \<and>
      ed_verify C (ke_public_key e) sig (signing_bytes C verb path (ad_id who) ts body) \<and>
      (one_line verb \<and> one_line path \<and> one_line (ad_id who) \<longrightarrow>
        (\<forall>verb' path' i' ts' body'. one_line verb' \<and> one_line path' \<and> one_line i' \<and>
          signing_bytes C verb' path' i' ts' body' = signing_bytes C verb path (ad_id who) ts body \<longrightarrow>
          map upper_char verb' = map upper_char verb \<and> path' = path \<and> i' = ad_id who \<and> ts' = ts \<and>
          (body' = body \<or> collision C body' body)))"
proof -
  obtain admin_id ts_raw sig_b64 e ts sig where
    v: "header H_ID = Some admin_id" "map_of registry admin_id = Some e" "\<bar>now - ts\<bar> \<le> skew"
      "ed_verify C (ke_public_key e) sig (signing_bytes C verb path admin_id ts body)"
      "who = \<lparr>ad_id = admin_id, ad_role = ke_role e\<rparr>"
    using assms
    by (simp add: verify_request_def split: option.splits if_splits) (rule that, auto)
  have "one_line verb \<and> one_line path \<and> one_line (ad_id who) \<longrightarrow>
        (\<forall>verb' path' i' ts' body'. one_line verb' \<and> one_line path' \<and> one_line i' \<and>
          signing_bytes C verb' path' i' ts' body' = signing_bytes C verb path (ad_id who) ts body \<longrightarrow>
          map upper_char verb' = map upper_char verb \<and> path' = path \<and> i' = ad_id who \<and> ts' = ts \<and>
          (body' = body \<or> collision C body' body))"
    using signing_bytes_inj by blast
  then show ?thesis using v by auto
qed

text \<open>
  A request that a registered operator signed is attributed to that operator, for as long as the
  server's clock is within the skew of the time that was signed.
\<close>

theorem signed_requests_are_attributed:
  assumes "sig_correct C" and "admin_id \<noteq> []" and "b64encode (ed_sign C sk (signing_bytes C verb path admin_id now body)) \<noteq> []"
    and "map_of registry admin_id = Some \<lparr>ke_public_key = ed_pub C sk, ke_role = role\<rparr>" and "\<bar>later - now\<bar> \<le> skew"
  shows "verify_request C registry verb path body (map_of (sign_headers C sk admin_id verb path body now)) later skew =
    Some \<lparr>ad_id = admin_id, ad_role = role\<rparr>"
  using assms
  by (simp add: verify_request_def sign_headers_def H_ID_def H_TS_def H_SIG_def py_int_string_of_int
      string_of_int_nonempty sig_correctD)

theorem signed_requests_are_attributed_witness:
  "verify_request example_crypto [(''tanaka'', \<lparr>ke_public_key = ''k'', ke_role = ROLE_AUTHOR\<rparr>)] ''GET'' ''/api/policies'' []
     (map_of (sign_headers example_crypto ''k'' ''tanaka'' ''GET'' ''/api/policies'' [] 1000)) 1200 DEFAULT_MAX_SKEW_SECONDS =
   Some \<lparr>ad_id = ''tanaka'', ad_role = ROLE_AUTHOR\<rparr>"
proof -
  have "b64encode (ed_sign example_crypto ''k'' m) \<noteq> []" for m
    by (cases m; cases "tl m") (auto simp: example_crypto_def)
  then show ?thesis
    by (intro signed_requests_are_attributed)
      (simp_all add: DEFAULT_MAX_SKEW_SECONDS_def, simp add: example_crypto_def)
qed

theorem attributed_requests_are_signed_witness:
  "\<exists>e ts sig. map_of [(''tanaka'', \<lparr>ke_public_key = ''k'', ke_role = ROLE_AUTHOR\<rparr>)] ''tanaka'' = Some e \<and>
     ed_verify example_crypto (ke_public_key e) sig
       (signing_bytes example_crypto ''GET'' ''/api/policies'' ''tanaka'' ts [])"
proof -
  let ?reg = "[(''tanaka'', \<lparr>ke_public_key = ''k'', ke_role = ROLE_AUTHOR\<rparr>)]"
  have "b64encode (ed_sign example_crypto ''k'' m) \<noteq> []" for m
    by (cases m; cases "tl m") (auto simp: example_crypto_def)
  then have "verify_request example_crypto ?reg ''GET'' ''/api/policies'' []
      (map_of (sign_headers example_crypto ''k'' ''tanaka'' ''GET'' ''/api/policies'' [] 1000)) 1200 300 =
      Some \<lparr>ad_id = ''tanaka'', ad_role = ROLE_AUTHOR\<rparr>"
    by (simp add: verify_request_def sign_headers_def H_ID_def H_TS_def H_SIG_def py_int_string_of_int
        string_of_int_nonempty) (simp add: example_crypto_def)
  from attributed_requests_are_signed [OF this] show ?thesis by auto
qed

end
