(* ===== verification/Policy_History.thy ===== *)
theory Policy_History
  imports Chef
begin

text \<open>
  \<^verbatim>\<open>authoring/policy_store.py\<close>, the append-only history of signed policy versions, and
  \<^verbatim>\<open>verify_policy_history.py\<close>, its standalone verifier. The history is a table like the receipt
  ledger's; the chain's theorems come from the same two locales, with this file's keys and genesis.
\<close>

section \<open>The store\<close>

definition HISTORY_CONTENT_KEYS :: "string list" where
  "HISTORY_CONTENT_KEYS = [''version_id'', ''policies'', ''author'', ''reason'', ''status'',
     ''approved_by'', ''prev_hash'']"

definition POLICY_GENESIS_PREV_HASH :: "crypto \<Rightarrow> string" where
  "POLICY_GENESIS_PREV_HASH C = sha256_hex C ''POLICY-GENESIS''"

definition policy_content_hash :: "crypto \<Rightarrow> json dict \<Rightarrow> string" where
  "policy_content_hash C content = sha256_hex C (canonical_bytes (JObj content))"

definition history_head_hash :: "crypto \<Rightarrow> table \<Rightarrow> exn + json" where
  "history_head_hash C t = head_hash (POLICY_GENESIS_PREV_HASH C) t"

text \<open>The keyword arguments of \<^verbatim>\<open>append_version\<close>, with the 32 digits of its \<^verbatim>\<open>uuid4\<close>.\<close>

record version =
  v_uuid :: string
  v_policies :: "json list"
  v_author :: string
  v_reason :: string
  v_status :: string
  v_approved_by :: "string option"

definition version_content :: "version \<Rightarrow> json \<Rightarrow> json dict" where
  "version_content v prev_hash =
     [(''version_id'', JStr (''pv-'' @ v_uuid v)), (''policies'', JArr (v_policies v)),
      (''author'', JStr (v_author v)), (''reason'', JStr (v_reason v)), (''status'', JStr (v_status v)),
      (''approved_by'', jstr_opt (v_approved_by v)), (''prev_hash'', prev_hash)]"

definition append_version :: "crypto \<Rightarrow> string \<Rightarrow> version \<Rightarrow> table \<Rightarrow> exn + table \<times> json dict" where
  "append_version C private_key v t =
     (if v_status v \<notin> {''active'', ''pending''} then Inl ValueError
      else bind_res (history_head_hash C t) (\<lambda>prev_hash.
        let content = version_content v prev_hash;
            this_hash = policy_content_hash C content;
            raw_sig = ed_sign C private_key this_hash;
            row = content @ [(''this_hash'', JStr this_hash), (''sig'', JStr (b64encode raw_sig))]
        in Inr (insert_row (canonical_bytes (JObj row)) t, row @ [(''seq'', JInt (next_seq t))])))"

text \<open>\<^verbatim>\<open>x[k] = v\<close>\<close>

fun set_item :: "string \<Rightarrow> json \<Rightarrow> json \<Rightarrow> exn + json dict" where
  "set_item k v (JObj d) = Inr (AList.update k v d)"
| "set_item k v _ = Inl TypeError"

definition history_read_all :: "table \<Rightarrow> exn + json dict list" where
  "history_read_all t =
     map_res (\<lambda>(seq, raw). bind_res (loads raw) (\<lambda>row. set_item ''seq'' (JInt seq) row)) t"

text \<open>The first row, from the newest, whose status is active.\<close>

fun first_active :: "json dict list \<Rightarrow> exn + json dict option" where
  "first_active [] = Inr None"
| "first_active (row # rows) =
     bind_res (subscript (JObj row) ''status'') (\<lambda>st.
       if st = JStr ''active'' then Inr (Some row) else first_active rows)"

definition active_version :: "table \<Rightarrow> exn + json dict option" where
  "active_version t = bind_res (history_read_all t) (\<lambda>rows. first_active (rev rows))"

definition materialize_active :: "string \<Rightarrow> table \<Rightarrow> fsys \<Rightarrow> (exn + json dict option) \<times> fsys" where
  "materialize_active policy_file_path t fs =
     (case active_version t of
        Inl e \<Rightarrow> (Inl e, fs)
      | Inr None \<Rightarrow> (Inr None, fs)
      | Inr (Some active) \<Rightarrow>
          (case subscript (JObj active) ''policies'' of
             Inl e \<Rightarrow> (Inl e, fs)
           | Inr ps \<Rightarrow>
               (Inr (Some active),
                write_file policy_file_path
                  (dumps indent2_style 0 (JObj [(''policies'', ps)]) @ [CHR 0x0A]) fs)))"

section \<open>The verifier\<close>

definition history_recompute_hash :: "crypto \<Rightarrow> json \<Rightarrow> exn + string" where
  "history_recompute_hash C parsed = recompute_hash C HISTORY_CONTENT_KEYS parsed"

definition history_check_row :: "crypto \<Rightarrow> string \<Rightarrow> string \<Rightarrow> string \<Rightarrow> row_check" where
  "history_check_row C pk = check_row C pk HISTORY_CONTENT_KEYS"

definition verify_history_rows :: "crypto \<Rightarrow> string \<Rightarrow> table \<Rightarrow> verdict" where
  "verify_history_rows C pk rows = walk (history_check_row C pk) (POLICY_GENESIS_PREV_HASH C) 0 rows"

definition verify_history_main ::
  "crypto \<Rightarrow> (string \<Rightarrow> pem_file) \<Rightarrow> (string \<Rightarrow> db_file) \<Rightarrow> string list \<Rightarrow> exn + nat \<times> string" where
  "verify_history_main C pems dbs argv =
     (if length argv \<noteq> 3 then Inr (2, ''usage: verify_policy_history.py <policy.db> <pubkey.pem>'')
      else let db_path = argv ! 1; pem_path = argv ! 2 in
        (case pems pem_path of
           Pem_unreadable \<Rightarrow> Inr (2, ''usage: cannot read an Ed25519 public key from '' @ pem_path)
         | Pem_other_key \<Rightarrow> Inr (2, ''usage: public key is not an Ed25519 public key'')
         | Pem_ed25519 pk \<Rightarrow>
             (case dbs db_path of
                Db_no_open exc \<Rightarrow> Inr (2, ''usage: cannot open policy db '' @ db_path @ '': '' @ exc)
              | Db_no_table exc \<Rightarrow>
                  Inr (2, ''usage: cannot read policy_versions from '' @ db_path @ '': '' @ exc)
              | Db_rows rows \<Rightarrow> print_verdict (verify_history_rows C pk rows))))"

section \<open>The history is a chain store\<close>

definition wf_version :: "version \<Rightarrow> bool" where
  "wf_version v \<longleftrightarrow> v_status v \<in> {''active'', ''pending''} \<and> (\<forall>j \<in> set (v_policies v). wf_json j)"

lemma version_content_facts:
  "set EXCLUDED_KEYS \<inter> set (keys (version_content v p)) = {}"
  "set HISTORY_CONTENT_KEYS \<subseteq> set (keys (version_content v p))"
  "map_of (version_content v p) ''prev_hash'' = Some p"
  "wf_version v \<Longrightarrow> wf_json p \<Longrightarrow> wf_json (JObj (version_content v p))"
  by (simp_all add: EXCLUDED_KEYS_def HISTORY_CONTENT_KEYS_def version_content_def keys_def wf_dict_def wf_version_def)

lemma append_version_Inr:
  "history_head_hash C t = Inr p \<Longrightarrow> wf_version v \<Longrightarrow> append_version C sk v t =
     Inr (insert_row (canonical_bytes (JObj (seal C sk (version_content v p)))) t,
          seal C sk (version_content v p) @ [(''seq'', JInt (next_seq t))])"
  by (simp add: append_version_def seal_def policy_content_hash_def wf_version_def Let_def)

interpretation history_chain: hash_chain
  "history_check_row C pk" "sha256_hex C" row_preimage "''POLICY-GENESIS''" for C pk
  unfolding history_check_row_def by (rule check_row_chain) simp

interpretation history: chain_store
  "history_check_row C (ed_pub C sk)" "sha256_hex C" row_preimage "''POLICY-GENESIS''"
  "history_head_hash C" "append_version C sk" "\<lambda>v. sig_correct C \<and> wf_version v"
  for C sk
proof
  fix p raw h t s
  assume "history_check_row C (ed_pub C sk) p raw = Advance h"
  then show "history_head_hash C (t @ [(s, raw)]) = Inr (JStr h)"
    unfolding history_head_hash_def history_check_row_def by (rule head_hash_Advance)
next
  fix v t p
  assume v: "sig_correct C \<and> wf_version v" and p: "history_head_hash C t = Inr (JStr p)"
  from v have "history_check_row C (ed_pub C sk) p
      (canonical_bytes (JObj (seal C sk (version_content v (JStr p))))) =
      Advance (sha256_hex C (canonical_bytes (JObj (version_content v (JStr p)))))"
    unfolding history_check_row_def
    using version_content_facts [of v "JStr p"] by (intro check_sealed) (simp_all del: wf_json.simps(2))
  then show "\<exists>raw r h. append_version C sk v t = Inr (insert_row raw t, r) \<and>
      history_check_row C (ed_pub C sk) p raw = Advance h"
    using append_version_Inr [OF p, of v sk] v by blast
qed (simp add: history_head_hash_def head_hash_def POLICY_GENESIS_PREV_HASH_def)

section \<open>The history as a list of versions\<close>

text \<open>
  The abstract history is the list of the versions that were appended. A stored row, read back,
  shows a version when it has its status, its author, its approver and its policies (in key order).
\<close>

definition shows_version :: "json dict \<Rightarrow> version \<Rightarrow> bool" where
  "shows_version row v \<longleftrightarrow> map_of row ''status'' = Some (JStr (v_status v)) \<and>
     map_of row ''policies'' = Some (canon (JArr (v_policies v))) \<and>
     map_of row ''author'' = Some (JStr (v_author v)) \<and>
     map_of row ''approved_by'' = Some (jstr_opt (v_approved_by v))"

definition holds_versions :: "table \<Rightarrow> version list \<Rightarrow> bool" where
  "holds_versions t vs \<longleftrightarrow> (\<exists>rows. history_read_all t = Inr rows \<and> list_all2 shows_version rows vs)"

text \<open>What the store promises of its active version.\<close>

definition latest_active :: "version list \<Rightarrow> version option" where
  "latest_active vs = find (\<lambda>v. v_status v = ''active'') (rev vs)"

fun append_all :: "crypto \<Rightarrow> string \<Rightarrow> version list \<Rightarrow> table \<Rightarrow> exn + table" where
  "append_all C sk [] t = Inr t"
| "append_all C sk (v # vs) t = bind_res (append_version C sk v t) (\<lambda>(t', _). append_all C sk vs t')"

lemma first_active_find:
  "list_all2 shows_version rows vs \<Longrightarrow> \<exists>r. first_active rows = Inr r \<and>
     rel_option shows_version r (find (\<lambda>v. v_status v = ''active'') vs)"
  by (induction rows vs rule: list_all2_induct) (auto simp: shows_version_def)

lemma active_version_latest:
  assumes "holds_versions t vs"
  shows "\<exists>r. active_version t = Inr r \<and> rel_option shows_version r (latest_active vs)"
proof -
  obtain rows where r: "history_read_all t = Inr rows" "list_all2 shows_version rows vs"
    using assms by (auto simp: holds_versions_def)
  then have "list_all2 shows_version (rev rows) (rev vs)" by (simp add: list_all2_rev)
  from first_active_find [OF this] show ?thesis by (simp add: active_version_def latest_active_def r(1))
qed

lemma holds_append:
  assumes "wf_version v" and "append_version C sk v t = Inr (t', row)" and "holds_versions t vs"
  shows "holds_versions t' (vs @ [v])"
proof -
  obtain p where p: "history_head_hash C t = Inr p"
    using assms(1,2) by (cases "history_head_hash C t") (auto simp: append_version_def wf_version_def)
  have wp: "wf_json p" using p unfolding history_head_hash_def by (rule wf_head_hash)
  let ?c = "version_content v p"
  let ?raw = "canonical_bytes (JObj (seal C sk ?c))"
  have t': "t' = insert_row ?raw t" using append_version_Inr [OF p assms(1), of sk] assms(2) by auto
  obtain d where d: "json_loads ?raw = Some (JObj d)"
    "\<And>k. map_of d k = map_option canon (map_of (seal C sk ?c) k)"
    using loads_seal [OF version_content_facts(4) [OF assms(1) wp] version_content_facts(1), of C sk] by blast
  have c: "map_of (seal C sk ?c) ''status'' = Some (JStr (v_status v))"
    "map_of (seal C sk ?c) ''policies'' = Some (JArr (v_policies v))"
    "map_of (seal C sk ?c) ''author'' = Some (JStr (v_author v))"
    "map_of (seal C sk ?c) ''approved_by'' = Some (jstr_opt (v_approved_by v))"
    by (rule map_of_seal_content, simp add: version_content_def)+
  have "shows_version (AList.update ''seq'' (JInt (next_seq t)) d) v"
    by (simp add: shows_version_def dict_simps d(2) c)
  then show ?thesis
    using assms(3) d(1)
    by (auto simp: holds_versions_def t' insert_row_def history_read_all_def map_res_append loads_def
        intro: list_all2_appendI)
qed

lemma holds_append_all:
  "\<forall>v \<in> set us. wf_version v \<Longrightarrow> append_all C sk us t = Inr t' \<Longrightarrow> holds_versions t vs \<Longrightarrow>
    holds_versions t' (vs @ us)"
proof (induction us arbitrary: t vs)
  case (Cons u us)
  then obtain t1 row where a: "append_version C sk u t = Inr (t1, row)" "append_all C sk us t1 = Inr t'"
    by (auto simp: bind_res_Inr)
  have "holds_versions t1 (vs @ [u])" using Cons.prems(1,3) a(1) by (intro holds_append) auto
  from Cons.IH [OF _ a(2) this] show ?case using Cons.prems(1) by simp
qed simp

lemma holds_empty: "holds_versions [] []"
  by (simp add: holds_versions_def history_read_all_def)

lemma append_all_succeeds:
  assumes "sig_correct C"
  shows "\<forall>v \<in> set vs. wf_version v \<Longrightarrow> walk (history_check_row C (ed_pub C sk)) (sha256_hex C ''POLICY-GENESIS'') 0 t =
      Verified n \<Longrightarrow> \<exists>t'. append_all C sk vs t = Inr t' \<and>
      walk (history_check_row C (ed_pub C sk)) (sha256_hex C ''POLICY-GENESIS'') 0 t' = Verified (n + length vs)"
proof (induction vs arbitrary: t n)
  case (Cons v vs)
  have "sig_correct C \<and> wf_version v" using assms Cons.prems(1) by simp
  from history.append_verified [OF this Cons.prems(2)] obtain raw r where
    a: "append_version C sk v t = Inr (insert_row raw t, r)"
    "walk (history_check_row C (ed_pub C sk)) (sha256_hex C ''POLICY-GENESIS'') 0 (insert_row raw t) = Verified (Suc n)"
    by blast
  show ?case using Cons.IH [OF _ a(2)] Cons.prems(1) a(1) by auto
qed simp

lemma materialize_latest:
  assumes "holds_versions t vs"
  shows "case latest_active vs of
      None \<Rightarrow> materialize_active path t fs = (Inr None, fs)
    | Some v \<Rightarrow> \<exists>active. materialize_active path t fs = (Inr (Some active),
        write_file path (dumps indent2_style 0 (JObj [(''policies'', canon (JArr (v_policies v)))]) @ [CHR 0x0A]) fs)"
proof -
  obtain r where "active_version t = Inr r" "rel_option shows_version r (latest_active vs)"
    using active_version_latest [OF assms] by blast
  then show ?thesis
    by (cases "latest_active vs"; cases r) (auto simp: materialize_active_def shows_version_def)
qed

section \<open>Properties\<close>

text \<open>
  C28. The policy history refines a list of versions: after any appends, in whatever mixture of
  active and pending, the store is verified by the standalone verifier with one row per version
  and its active version is the last of the list that is active, with the same policies.
\<close>

theorem history_refines_version_list:
  assumes "sig_correct C" and "\<forall>v \<in> set vs. wf_version v"
  shows "\<exists>t r. append_all C sk vs [] = Inr t \<and>
    verify_history_rows C (ed_pub C sk) t = Verified (length vs) \<and>
    active_version t = Inr r \<and> rel_option shows_version r (latest_active vs)"
proof -
  obtain t where t: "append_all C sk vs [] = Inr t"
    "walk (history_check_row C (ed_pub C sk)) (sha256_hex C ''POLICY-GENESIS'') 0 t = Verified (length vs)"
    using append_all_succeeds [OF assms, of sk "[]" 0] by auto
  from holds_append_all [OF assms(2) t(1) holds_empty] have "holds_versions t vs" by simp
  from active_version_latest [OF this] show ?thesis
    using t by (auto simp: verify_history_rows_def POLICY_GENESIS_PREV_HASH_def)
qed

definition example_version :: version where
  "example_version = \<lparr>v_uuid = ''00'', v_policies = map policy_entry example_policies, v_author = ''admin'',
     v_reason = ''initial'', v_status = ''active'', v_approved_by = None\<rparr>"

lemma wf_example_version: "wf_version example_version" "wf_version (example_version\<lparr>v_status := ''pending''\<rparr>)"
  by (simp_all add: wf_version_def example_version_def example_policies_def policy_entry_def wf_dict_def)

theorem history_refines_version_list_witness:
  "\<exists>t r. append_all example_crypto ''sk'' [example_version, example_version\<lparr>v_status := ''pending''\<rparr>] [] = Inr t \<and>
    verify_history_rows example_crypto (ed_pub example_crypto ''sk'') t = Verified 2 \<and>
    active_version t = Inr (Some r) \<and> shows_version r example_version"
proof -
  let ?vs = "[example_version, example_version\<lparr>v_status := ''pending''\<rparr>]"
  have "latest_active ?vs = Some example_version" by (simp add: latest_active_def example_version_def)
  moreover have "\<forall>v \<in> set ?vs. wf_version v" using wf_example_version by simp
  ultimately show ?thesis
    using history_refines_version_list [OF sig_correct_example, of ?vs "''sk''"]
    by (auto simp: option_rel_Some2)
qed

text \<open>
  C29. What the history materializes is what the cashier loads: after any appends, the file written
  for the active version reads back, through the cashier's own loader, as the very policies of the
  last active version; with no active version, nothing is written.
\<close>

theorem materialized_policies_load:
  assumes "sig_correct C" and "\<forall>v \<in> set vs. wf_version v" and "append_all C sk vs [] = Inr t"
    and "latest_active vs = Some v" and "v_policies v = map policy_entry ps"
  shows "\<exists>active text. materialize_active path t fs = (Inr (Some active), write_file path text fs) \<and>
    load_policy_set [(''policy.json'', text)] = Inr ps"
proof -
  have "holds_versions t vs" using holds_append_all [OF assms(2,3) holds_empty] by simp
  from materialize_latest [OF this, of path fs] obtain active where
    "materialize_active path t fs = (Inr (Some active),
       write_file path (dumps indent2_style 0 (JObj [(''policies'', canon (JArr (map policy_entry ps)))]) @ [CHR 0x0A]) fs)"
    using assms(4,5) by (auto simp del: canon.simps)
  moreover have "policies_of_text
      (dumps indent2_style 0 (JObj [(''policies'', canon (JArr (map policy_entry ps)))]) @ [CHR 0x0A]) = Inr ps"
    by (rule policies_of_canon_emitted) (simp_all add: all_ws_def is_ws_def)
  ultimately show ?thesis
    by (auto simp: load_policy_set_def endswith_def simp del: canon.simps)
qed

theorem materialized_policies_load_witness:
  "\<exists>t active text. append_all example_crypto ''sk'' [example_version] [] = Inr t \<and>
    materialize_active ''/policy.json'' t \<lparr>files = Map.empty, dirs = {}, trace = []\<rparr> =
      (Inr (Some active), write_file ''/policy.json'' text \<lparr>files = Map.empty, dirs = {}, trace = []\<rparr>) \<and>
    load_policy_set [(''policy.json'', text)] = Inr example_policies"
proof -
  have w: "\<forall>v \<in> set [example_version]. wf_version v" using wf_example_version by simp
  obtain t where t: "append_all example_crypto ''sk'' [example_version] [] = Inr t"
    using append_all_succeeds [OF sig_correct_example w, of "''sk''" "[]" 0] by auto
  show ?thesis
    using materialized_policies_load [OF sig_correct_example w t, of example_version example_policies] t
    by (simp add: latest_active_def example_version_def)
qed

text \<open>
  Tamper evidence of the history: two histories that the verifier accepts, under whatever
  keys, and that end in the same hash have the same hashed content in every row, or a collision
  of SHA-256 is exhibited.
\<close>

theorem histories_with_same_head_agree:
  assumes "verify_history_rows C pk t = Verified n" and "verify_history_rows C pk u = Verified m"
    and "history_head_hash C t = history_head_hash C u"
  shows "(n = m \<and> map (row_preimage \<circ> snd) t = map (row_preimage \<circ> snd) u) \<or> (\<exists>a b. collision C a b)"
  using assms unfolding verify_history_rows_def history_check_row_def history_head_hash_def
    POLICY_GENESIS_PREV_HASH_def
  by (intro same_head_same_rows) simp_all

theorem histories_with_same_head_agree_witness:
  "\<exists>t. append_all example_crypto ''sk'' [example_version] [] = Inr t \<and>
    ((1::nat) = 1 \<and> map (row_preimage \<circ> snd) t = map (row_preimage \<circ> snd) t \<or>
     (\<exists>a b. collision example_crypto a b))"
proof -
  have "\<forall>v \<in> set [example_version]. wf_version v" using wf_example_version by simp
  from append_all_succeeds [OF sig_correct_example this, of "''sk''" "[]" 0] obtain t
    where t: "append_all example_crypto ''sk'' [example_version] [] = Inr t"
      "verify_history_rows example_crypto (ed_pub example_crypto ''sk'') t = Verified 1"
    by (auto simp: verify_history_rows_def POLICY_GENESIS_PREV_HASH_def)
  from histories_with_same_head_agree [OF t(2) t(2) refl] t(1) show ?thesis by blast
qed

end
