(* ===== verification/Menu.thy ===== *)
theory Menu
  imports Policy_History
begin

text \<open>
  The menu: \<^verbatim>\<open>menu/templates.py\<close> (the building blocks), \<^verbatim>\<open>menu/builder.py\<close> (a form becomes a
  capability descriptor) and \<^verbatim>\<open>menu/catalog.py\<close> (descriptors on disk, built in and composed by the
  operator). A directory is the dictionary of its files' names and contents; one that does not exist
  is an empty one. As in theory \<^verbatim>\<open>Policy\<close>, a file whose values have other types than
  \<^verbatim>\<open>Capability\<close> is annotated with is \<open>Ill_typed\<close>, outside the model.
\<close>

section \<open>templates.py\<close>

definition TEMPLATES :: "(string \<times> json dict) list" where
  "TEMPLATES =
     [(''draft_reply'',
       [(''label'', JStr ''Draft a reply''),
        (''summary'', JStr (''Read a message in a folder and write a draft reply for '' @ ''review. Never sends.'')),
        (''scoped_input'', JStr ''thread_id''),
        (''inputs'', JObj [(''thread_id'', JStr ''string'')]), (''outputs'', JObj [(''draft'', JStr ''text'')]),
        (''side_effects'', JStr ''none''), (''default_risk'', JStr ''low''),
        (''default_requires_user_confirmation'', JBool False), (''default_requires_second_admin'', JBool False),
        (''default_recommended_max_rate'', JInt 20)]),
      (''docs_summarize'',
       [(''label'', JStr ''Summarize a document''),
        (''summary'', JStr (''Read a document in a folder and return a short extractive '' @
          ''summary (no AI model). Content never leaves the kitchen.'')),
        (''scoped_input'', JStr ''doc_id''),
        (''inputs'', JObj [(''doc_id'', JStr ''string'')]), (''outputs'', JObj [(''summary'', JStr ''text'')]),
        (''side_effects'', JStr ''none''), (''default_risk'', JStr ''low''),
        (''default_requires_user_confirmation'', JBool False), (''default_requires_second_admin'', JBool False),
        (''default_recommended_max_rate'', JInt 30)]),
      (''payment_request'',
       [(''label'', JStr ''Request a payment''),
        (''summary'', JStr (''Prepare a payment-authorization request for a human to '' @
          ''approve. HIGH RISK. Never moves money in this slice.'')),
        (''scoped_input'', JStr ''thread_id''),
        (''inputs'', JObj [(''thread_id'', JStr ''string'')]), (''outputs'', JObj [(''payment_request'', JStr ''text'')]),
        (''side_effects'', JStr ''money_movement''), (''default_risk'', JStr ''high''),
        (''default_requires_user_confirmation'', JBool True), (''default_requires_second_admin'', JBool True),
        (''default_recommended_max_rate'', JInt 2)]),
      (''template'',
       [(''label'', JStr ''Custom text response''),
        (''summary'', JStr (''Read something and produce a text message you write, with '' @
          ''fill-in fields like $subject, $first_line, $word_count, '' @ ''$body. No code.'')),
        (''scoped_input'', JStr ''doc_id''),
        (''inputs'', JObj [(''doc_id'', JStr ''string'')]), (''outputs'', JObj [(''text'', JStr ''text'')]),
        (''side_effects'', JStr ''none''), (''default_risk'', JStr ''low''),
        (''default_requires_user_confirmation'', JBool False), (''default_requires_second_admin'', JBool False),
        (''default_recommended_max_rate'', JInt 20), (''needs_template'', JBool True)])]"

definition TEMPLATE_FIELDS :: "string list" where
  "TEMPLATE_FIELDS = [''resource'', ''subject'', ''first_line'', ''line_count'', ''word_count'', ''body'']"

definition behaviors :: "string list" where
  "behaviors = sort (keys TEMPLATES)"

text \<open>\<^verbatim>\<open>TEMPLATES.get(behavior)\<close>: a list or an object is not hashable.\<close>

fun template_of :: "json \<Rightarrow> exn + json dict option" where
  "template_of (JStr b) = Inr (map_of TEMPLATES b)"
| "template_of (JArr _) = Inl TypeError"
| "template_of (JObj _) = Inl TypeError"
| "template_of _ = Inr None"

section \<open>builder.py\<close>

definition slug_start :: "char \<Rightarrow> bool" where
  "slug_start c \<longleftrightarrow> 97 \<le> (of_char c :: nat) \<and> (of_char c :: nat) \<le> 122 \<or> is_digit c"

definition slug_rest :: "char \<Rightarrow> bool" where
  "slug_rest c \<longleftrightarrow> slug_start c \<or> c = CHR ''.'' \<or> c = CHR ''_'' \<or> c = CHR ''-''"

text \<open>
  \<^verbatim>\<open>re.match("^[a-z0-9][a-z0-9._-]{2,80}$", s)\<close>: the dollar matches at the end and before a line
  feed at the end.
\<close>

definition slug_core :: "string \<Rightarrow> bool" where
  "slug_core s \<longleftrightarrow> (case s of [] \<Rightarrow> False
     | c # cs \<Rightarrow> slug_start c \<and> list_all slug_rest cs \<and> 2 \<le> length cs \<and> length cs \<le> 80)"

definition id_matches :: "string \<Rightarrow> bool" where
  "id_matches s \<longleftrightarrow> slug_core s \<or> (s \<noteq> [] \<and> last s = CHR 0x0A \<and> slug_core (butlast s))"

text \<open>The form, field by field as \<^verbatim>\<open>form.get\<close> gives it: \<open>JNull\<close> where it has none.\<close>

record form =
  f_behavior :: json
  f_capability_id :: json
  f_name :: json
  f_description :: json
  f_risk_class :: json
  f_recommended_max_rate :: json
  f_requires_user_confirmation :: json
  f_requires_second_admin :: json
  f_enabled :: json
  f_template :: json

text \<open>The refusals, named by what was wrong, and the exceptions that are no \<^verbatim>\<open>CapabilityBuildError\<close>.\<close>

datatype build_error =
    Unknown_behavior | Bad_id | No_name | Bad_risk | Bad_rate | No_template | Build_raises exn

definition or_default :: "json \<Rightarrow> json \<Rightarrow> json" where
  "or_default value d = (if value = JNull then d else value)"

definition flag :: "json \<Rightarrow> json \<Rightarrow> json" where
  "flag value d = (if value = JNull then d else JBool (\<not> falsy value))"

definition nonempty_text :: "json \<Rightarrow> bool" where
  "nonempty_text j = (case j of JStr s \<Rightarrow> strip s \<noteq> [] | _ \<Rightarrow> False)"

definition descriptor :: "form \<Rightarrow> json dict \<Rightarrow> string \<Rightarrow> string \<Rightarrow> string \<Rightarrow> json \<Rightarrow> json \<Rightarrow> json dict" where
  "descriptor f tmpl cid name desc risk rate =
     [(''id'', JStr cid), (''name'', JStr (strip name)), (''behavior'', f_behavior f),
      (''inputs'', jget tmpl ''inputs''), (''outputs'', jget tmpl ''outputs''),
      (''side_effects'', jget tmpl ''side_effects''), (''scope'', JStr ''own_queue''),
      (''scoped_input'', jget tmpl ''scoped_input''), (''risk_class'', risk),
      (''description'', JStr (strip desc)), (''recommended_max_rate'', rate),
      (''requires_user_confirmation'',
         flag (f_requires_user_confirmation f) (jget tmpl ''default_requires_user_confirmation'')),
      (''requires_second_admin'', flag (f_requires_second_admin f) (jget tmpl ''default_requires_second_admin'')),
      (''enabled'', JBool (\<not> falsy (f_enabled f))),
      (''behavior_config'',
         if falsy (jget tmpl ''needs_template'') then JObj [] else JObj [(''template'', f_template f)])]"

definition build_descriptor :: "form \<Rightarrow> build_error + json dict" where
  "build_descriptor f =
     (case template_of (f_behavior f) of
        Inl e \<Rightarrow> Inl (Build_raises e)
      | Inr None \<Rightarrow> Inl Unknown_behavior
      | Inr (Some tmpl) \<Rightarrow>
          (case f_capability_id f of
             JStr cid \<Rightarrow>
               if \<not> id_matches cid then Inl Bad_id
               else (case f_name f of
                 JStr name \<Rightarrow>
                   if strip name = [] then Inl No_name
                   else
                     let risk = or_default (f_risk_class f) (jget tmpl ''default_risk'');
                         rate = or_default (f_recommended_max_rate f) (jget tmpl ''default_recommended_max_rate'')
                     in if risk \<notin> {JStr ''low'', JStr ''medium'', JStr ''high''} then Inl Bad_risk
                        else (case rate of
                          JInt r \<Rightarrow>
                            if r < 0 then Inl Bad_rate
                            else if \<not> falsy (jget tmpl ''needs_template'') \<and> \<not> nonempty_text (f_template f)
                              then Inl No_template
                            else (case f_description f of
                                JStr desc \<Rightarrow> Inr (descriptor f tmpl cid name desc risk rate)
                              | _ \<Rightarrow> Inl (Build_raises AttributeError))
                        | _ \<Rightarrow> Inl Bad_rate)
               | _ \<Rightarrow> Inl No_name)
           | _ \<Rightarrow> Inl Bad_id))"

section \<open>catalog.py\<close>

definition CAPABILITY_KEYS :: "string list" where
  "CAPABILITY_KEYS = [''id'', ''name'', ''inputs'', ''outputs'', ''side_effects'', ''scope'', ''risk_class'',
     ''description'', ''recommended_max_rate'', ''requires_second_admin'', ''requires_user_confirmation'',
     ''scoped_input'', ''behavior'', ''enabled'', ''behavior_config'']"

definition CAPABILITY_REQUIRED :: "string list" where
  "CAPABILITY_REQUIRED = [''id'', ''name'', ''inputs'', ''outputs'', ''side_effects'', ''scope'', ''risk_class'']"

fun as_bool :: "json \<Rightarrow> load_error + bool" where
  "as_bool (JBool b) = Inr b"
| "as_bool _ = Inl Ill_typed"

fun as_dict :: "json \<Rightarrow> load_error + json dict" where
  "as_dict (JObj d) = Inr d"
| "as_dict _ = Inl Ill_typed"

fun as_str_dict :: "json \<Rightarrow> load_error + string dict" where
  "as_str_dict (JObj d) = map_res (\<lambda>(k, v). bind_res (as_str v) (\<lambda>s. Inr (k, s))) d"
| "as_str_dict _ = Inl Ill_typed"

fun as_opt :: "(json \<Rightarrow> load_error + 'a) \<Rightarrow> json \<Rightarrow> load_error + 'a option" where
  "as_opt f JNull = Inr None"
| "as_opt f j = bind_res (f j) (\<lambda>x. Inr (Some x))"

text \<open>\<^verbatim>\<open>Capability(**obj)\<close>\<close>

definition capability_of_json :: "json \<Rightarrow> load_error + capability" where
  "capability_of_json j =
     (case j of
        JObj d \<Rightarrow>
          if \<not> set (keys d) \<subseteq> set CAPABILITY_KEYS \<or> \<not> set CAPABILITY_REQUIRED \<subseteq> set (keys d)
          then Inl (Raises TypeError)
          else
            bind_res (as_str (jget d ''id'')) (\<lambda>i.
            bind_res (as_str (jget d ''name'')) (\<lambda>name.
            bind_res (as_str_dict (jget d ''inputs'')) (\<lambda>inputs.
            bind_res (as_str_dict (jget d ''outputs'')) (\<lambda>outputs.
            bind_res (as_str (jget d ''side_effects'')) (\<lambda>se.
            bind_res (as_str (jget d ''scope'')) (\<lambda>scope.
            bind_res (as_str (jget d ''risk_class'')) (\<lambda>risk.
            bind_res (as_str (field_or d ''description'' (JStr []))) (\<lambda>desc.
            bind_res (as_opt as_int (field_or d ''recommended_max_rate'' JNull)) (\<lambda>rate.
            bind_res (as_bool (field_or d ''requires_second_admin'' (JBool False))) (\<lambda>second.
            bind_res (as_bool (field_or d ''requires_user_confirmation'' (JBool False))) (\<lambda>confirm.
            bind_res (as_str (field_or d ''scoped_input'' (JStr ''thread_id''))) (\<lambda>scoped.
            bind_res (as_opt as_str (field_or d ''behavior'' JNull)) (\<lambda>beh.
            bind_res (as_bool (field_or d ''enabled'' (JBool True))) (\<lambda>enabled.
            bind_res (as_dict (field_or d ''behavior_config'' (JObj []))) (\<lambda>config. Inr
              \<lparr>c_id = i, c_name = name, c_inputs = inputs, c_outputs = outputs, c_side_effects = se,
               c_scope = scope, c_risk_class = risk, c_description = desc, c_recommended_max_rate = rate,
               c_requires_second_admin = second, c_requires_user_confirmation = confirm,
               c_scoped_input = scoped, c_behavior = beh, c_enabled = enabled,
               c_behavior_config = config\<rparr>)))))))))))))))
      | _ \<Rightarrow> Inl (Raises TypeError))"

definition capability_of_file :: "string \<Rightarrow> load_error + capability" where
  "capability_of_file bytes = bind_res (lift (json_load_sig bytes)) capability_of_json"

type_synonym catalog = "(string \<times> capability) list"

text \<open>The files of a directory that are read, in the order of their names.\<close>

definition json_files :: "string dict \<Rightarrow> string dict" where
  "json_files directory = filter (\<lambda>(name, bytes). endswith name ''.json'') (sort_key fst directory)"

definition load_dir :: "string dict \<Rightarrow> load_error + catalog" where
  "load_dir directory =
     bind_res (map_res (\<lambda>(name, bytes). capability_of_file bytes) (json_files directory))
       (\<lambda>caps. Inr (dict_of (map (\<lambda>cap. (c_id cap, cap)) caps)))"

definition load_catalog :: "string dict \<Rightarrow> string dict option \<Rightarrow> bool \<Rightarrow> load_error + catalog" where
  "load_catalog builtin_dir custom_dir include_disabled =
     bind_res (case custom_dir of None \<Rightarrow> Inr [] | Some d \<Rightarrow> load_dir d) (\<lambda>custom.
     bind_res (load_dir builtin_dir) (\<lambda>builtin.
       let catalog = fold (\<lambda>(k, v) d. AList.update k v d) builtin custom
       in Inr (if include_disabled then catalog else filter (\<lambda>(cid, cap). c_enabled cap) catalog)))"

text \<open>Writers of the custom directory: the exception, or the directory they leave.\<close>

definition save_custom_capability :: "string dict \<Rightarrow> json dict \<Rightarrow> string dict \<Rightarrow> load_error + string dict" where
  "save_custom_capability builtin_dir d custom =
     (case map_of d ''id'' of
        Some (JStr cap_id) \<Rightarrow>
          bind_res (load_dir builtin_dir) (\<lambda>builtin.
            if cap_id \<in> set (keys builtin) then Inl (Raises ValueError)
            else if cap_id @ ''.json'' \<in> set (keys custom) then Inl (Raises ValueError)
            else Inr (AList.update (cap_id @ ''.json'') (file_text d) custom))
      | Some _ \<Rightarrow> Inl Ill_typed
      | None \<Rightarrow> Inl (Raises KeyError))"

definition set_custom_capability_enabled :: "string \<Rightarrow> bool \<Rightarrow> string dict \<Rightarrow> exn + string dict" where
  "set_custom_capability_enabled capability_id enabled custom =
     (case map_of custom (capability_id @ ''.json'') of
        None \<Rightarrow> Inl ValueError
      | Some bytes \<Rightarrow>
          bind_res (json_load_sig bytes) (\<lambda>obj.
          bind_res (set_item ''enabled'' (JBool enabled) obj) (\<lambda>d.
            Inr (AList.update (capability_id @ ''.json'') (file_text d) custom))))"

definition delete_custom_capability :: "string \<Rightarrow> string dict \<Rightarrow> exn + string dict" where
  "delete_custom_capability capability_id custom =
     (if capability_id @ ''.json'' \<notin> set (keys custom) then Inl ValueError
      else Inr (AList.delete (capability_id @ ''.json'') custom))"

definition catalog_get :: "string \<Rightarrow> catalog \<Rightarrow> capability option" where
  "catalog_get capability_id catalog = map_of catalog capability_id"

section \<open>Loading a directory\<close>

lemma map_res_succeeds: "(\<exists>ys. map_res f xs = Inr ys) \<longleftrightarrow> (\<forall>x \<in> set xs. \<exists>y. f x = Inr y)"
proof (induction xs)
  case (Cons x xs)
  then show ?case by (cases "f x"; cases "map_res f xs") auto
qed simp

lemma map_res_list_all2: "map_res f xs = Inr ys \<Longrightarrow> list_all2 (\<lambda>x y. f x = Inr y) xs ys"
  by (induction xs arbitrary: ys) (auto simp: bind_res_Inr)

text \<open>Every file is named after the capability it holds, as the builder names them.\<close>

definition well_named :: "string dict \<Rightarrow> bool" where
  "well_named dir \<longleftrightarrow> wf_dict dir \<and>
     (\<forall>(name, bytes) \<in> set dir. \<forall>cap. endswith name ''.json'' \<longrightarrow> capability_of_file bytes = Inr cap \<longrightarrow>
        name = c_id cap @ ''.json'')"

definition file_capability :: "string dict \<Rightarrow> string \<Rightarrow> capability option" where
  "file_capability dir i = Option.bind (map_of dir (i @ ''.json''))
     (\<lambda>bytes. case capability_of_file bytes of Inl _ \<Rightarrow> None | Inr cap \<Rightarrow> Some cap)"

lemma file_capability_Some:
  "file_capability dir i = Some cap \<longleftrightarrow>
     (\<exists>bytes. map_of dir (i @ ''.json'') = Some bytes \<and> capability_of_file bytes = Inr cap)"
proof (cases "map_of dir (i @ ''.json'')")
  case (Some bytes)
  then show ?thesis by (cases "capability_of_file bytes") (auto simp: file_capability_def)
qed (simp add: file_capability_def)

lemma endswith_append: "endswith (s @ t) t"
  by (simp add: endswith_def)

lemma json_files_set: "set (json_files dir) = {(name, bytes) \<in> set dir. endswith name ''.json''}"
  by (auto simp: json_files_def)

lemma load_dir_succeeds:
  "(\<exists>cat. load_dir dir = Inr cat) \<longleftrightarrow>
     (\<forall>(name, bytes) \<in> set dir. endswith name ''.json'' \<longrightarrow> (\<exists>cap. capability_of_file bytes = Inr cap))"
proof -
  have "(\<exists>cat. load_dir dir = Inr cat) \<longleftrightarrow>
      (\<exists>caps. map_res (\<lambda>(name, bytes). capability_of_file bytes) (json_files dir) = Inr caps)"
    by (auto simp: load_dir_def bind_res_Inr)
  then show ?thesis unfolding map_res_succeeds json_files_set by auto
qed

lemma load_dir_map:
  assumes "well_named dir" and "load_dir dir = Inr cat"
  shows "map_of cat i = file_capability dir i" and "wf_dict cat"
proof -
  have wf: "wf_dict dir" using assms(1) by (simp add: well_named_def)
  obtain caps where c: "map_res (\<lambda>(name, bytes). capability_of_file bytes) (json_files dir) = Inr caps"
    "cat = dict_of (map (\<lambda>cap. (c_id cap, cap)) caps)"
    using assms(2) by (auto simp: load_dir_def bind_res_Inr)
  let ?P = "\<lambda>f cap. (\<lambda>(name, bytes). capability_of_file bytes) f = Inr cap"
  have la: "list_all2 ?P (json_files dir) caps" using map_res_list_all2 [OF c(1)] .
  have "fst f = c_id cap @ ''.json''" if "f \<in> set (json_files dir)" "?P f cap" for f cap
    using assms(1) that by (fastforce simp: well_named_def json_files_set)
  then have names: "map fst (json_files dir) = map (\<lambda>cap. c_id cap @ ''.json'') caps"
    using la by (auto simp: list_all2_conv_all_nth list_eq_iff_nth_eq)
  have len: "length (json_files dir) = length caps" using la by (rule list_all2_lengthD)
  have name_nth: "fst (json_files dir ! n) = c_id (caps ! n) @ ''.json''" if "n < length caps" for n
    using names that len by (metis nth_map)
  have file_nth: "?P (json_files dir ! n) (caps ! n)" if "n < length caps" for n
    using la that len by (simp add: list_all2_conv_all_nth)
  have "wf_dict (json_files dir)" using wf by (simp add: json_files_def)
  then have "distinct (map (\<lambda>i. i @ ''.json'') (map c_id caps))"
    using names by (simp add: wf_dict_def comp_def)
  then have "wf_dict (map (\<lambda>cap. (c_id cap, cap)) caps)"
    by (simp add: wf_dict_def comp_def distinct_map) (auto simp: inj_on_def)
  then have cat: "cat = map (\<lambda>cap. (c_id cap, cap)) caps" "wf_dict cat"
    using c(2) dict_of_distinct by auto
  then show "wf_dict cat" by simp
  have iff: "map_of cat i = Some cap \<longleftrightarrow> file_capability dir i = Some cap" for cap
  proof
    assume "map_of cat i = Some cap"
    then have "cap \<in> set caps" "c_id cap = i" using cat by (auto dest: map_of_SomeD)
    then obtain n where n: "n < length caps" "caps ! n = cap" by (auto simp: in_set_conv_nth)
    then have "fst (json_files dir ! n) = i @ ''.json''" "?P (json_files dir ! n) cap" "json_files dir ! n \<in> set (json_files dir)"
      using name_nth [OF n(1)] file_nth [OF n(1)] n len \<open>c_id cap = i\<close> by auto
    then obtain bytes where "(i @ ''.json'', bytes) \<in> set dir" "capability_of_file bytes = Inr cap"
      by (cases "json_files dir ! n") (auto simp: json_files_set)
    then show "file_capability dir i = Some cap" using wf by (auto simp: file_capability_Some wf_dict_def)
  next
    assume "file_capability dir i = Some cap"
    then obtain bytes where b: "(i @ ''.json'', bytes) \<in> set dir" "capability_of_file bytes = Inr cap"
      by (auto simp: file_capability_Some dest: map_of_SomeD)
    then have "(i @ ''.json'', bytes) \<in> set (json_files dir)" by (simp add: json_files_set endswith_append)
    then obtain n where n: "n < length (json_files dir)" "json_files dir ! n = (i @ ''.json'', bytes)"
      by (auto simp: in_set_conv_nth)
    then have "caps ! n = cap" "n < length caps" using file_nth [of n] len b(2) by auto
    then have "(c_id cap, cap) \<in> set cat" using cat(1) by auto
    have "i @ ''.json'' = c_id cap @ ''.json''"
      using assms(1) b endswith_append [of i "''.json''"] unfolding well_named_def by blast
    then have "c_id cap = i" by simp
    then show "map_of cat i = Some cap"
      using \<open>(c_id cap, cap) \<in> set cat\<close> cat(2) unfolding wf_dict_def by (intro map_of_is_SomeI) simp_all
  qed
  show "map_of cat i = file_capability dir i"
    using iff by (metis not_Some_eq)
qed

lemma map_of_fold_update:
  "map_of (fold (\<lambda>(k, v) d. AList.update k v d) ps d) k =
    (case map_of (rev ps) k of None \<Rightarrow> map_of d k | Some v \<Rightarrow> Some v)"
proof (induction ps arbitrary: d)
  case (Cons p ps)
  obtain k' v' where "p = (k', v')" by (cases p)
  then show ?case using Cons [of "AList.update k' v' d"]
    by (auto simp: dict_simps map_add_def split: option.split)
qed simp

lemma map_of_rev: "wf_dict ps \<Longrightarrow> map_of (rev ps) k = map_of ps k"
  using map_of_inject_set [of "rev ps" ps] by (simp add: wf_dict_def rev_map [symmetric])

text \<open>The menu, capability by capability.\<close>

lemma load_catalog_map:
  assumes "load_catalog builtin_dir (Some custom) True = Inr cat" and "well_named builtin_dir" and "well_named custom"
  shows "map_of cat i = (case file_capability builtin_dir i of
      Some cap \<Rightarrow> Some cap | None \<Rightarrow> file_capability custom i)"
proof -
  obtain c b where l: "load_dir custom = Inr c" "load_dir builtin_dir = Inr b"
    "cat = fold (\<lambda>(k, v) d. AList.update k v d) b c"
    using assms(1) by (auto simp: load_catalog_def bind_res_Inr)
  show ?thesis
    unfolding l(3) map_of_fold_update map_of_rev [OF load_dir_map(2) [OF assms(2) l(2)]]
      load_dir_map(1) [OF assms(2) l(2)] load_dir_map(1) [OF assms(3) l(1)] ..
qed

lemma load_catalog_enabled:
  "load_catalog builtin_dir custom b = Inr cat \<Longrightarrow> \<exists>all. load_catalog builtin_dir custom True = Inr all \<and>
    cat = (if b then all else filter (\<lambda>(cid, cap). c_enabled cap) all)"
  by (auto simp: load_catalog_def bind_res_Inr Let_def)

section \<open>From the form to the menu\<close>

lemma map_of_TEMPLATES:
  "map_of TEMPLATES b = Some tmpl \<Longrightarrow> \<exists>k v se. jget tmpl ''inputs'' = JObj [(k, JStr ''string'')] \<and>
    jget tmpl ''outputs'' = JObj [(v, JStr ''text'')] \<and> jget tmpl ''side_effects'' = JStr se \<and>
    jget tmpl ''scoped_input'' = JStr k \<and> (\<exists>f. jget tmpl ''default_requires_user_confirmation'' = JBool f) \<and>
    (\<exists>f. jget tmpl ''default_requires_second_admin'' = JBool f) \<and> map_of HANDLERS b \<noteq> None"
  by (auto simp: TEMPLATES_def HANDLERS_def jget_def jopt_def split: if_splits)

text \<open>The capability a descriptor stands for.\<close>

definition composed :: "form \<Rightarrow> json dict \<Rightarrow> capability" where
  "composed f tmpl =
     \<lparr>c_id = str_of (f_capability_id f), c_name = strip (str_of (f_name f)),
      c_inputs = [(str_of (jget tmpl ''scoped_input''), ''string'')],
      c_outputs = map (\<lambda>(k, v). (k, str_of v)) (obj_of (jget tmpl ''outputs'')),
      c_side_effects = str_of (jget tmpl ''side_effects''), c_scope = ''own_queue'',
      c_risk_class = str_of (or_default (f_risk_class f) (jget tmpl ''default_risk'')),
      c_description = strip (str_of (f_description f)),
      c_recommended_max_rate = (case or_default (f_recommended_max_rate f)
          (jget tmpl ''default_recommended_max_rate'') of JInt r \<Rightarrow> Some r | _ \<Rightarrow> None),
      c_requires_second_admin =
        (flag (f_requires_second_admin f) (jget tmpl ''default_requires_second_admin'') = JBool True),
      c_requires_user_confirmation =
        (flag (f_requires_user_confirmation f) (jget tmpl ''default_requires_user_confirmation'') = JBool True),
      c_scoped_input = str_of (jget tmpl ''scoped_input''), c_behavior = Some (str_of (f_behavior f)),
      c_enabled = (\<not> falsy (f_enabled f)),
      c_behavior_config = (if falsy (jget tmpl ''needs_template'') then [] else [(''template'', f_template f)])\<rparr>"

lemma build_descriptor_Inr:
  assumes "build_descriptor f = Inr d"
  obtains b tmpl cid name desc risk r where "f_behavior f = JStr b" "map_of TEMPLATES b = Some tmpl"
    "f_capability_id f = JStr cid" "id_matches cid" "f_name f = JStr name" "strip name \<noteq> []"
    "f_description f = JStr desc" "or_default (f_risk_class f) (jget tmpl ''default_risk'') = JStr risk"
    "risk \<in> {''low'', ''medium'', ''high''}"
    "or_default (f_recommended_max_rate f) (jget tmpl ''default_recommended_max_rate'') = JInt r" "0 \<le> r"
    "\<not> falsy (jget tmpl ''needs_template'') \<Longrightarrow> \<exists>t. f_template f = JStr t \<and> strip t \<noteq> []"
    "d = descriptor f tmpl cid name desc (JStr risk) (JInt r)"
proof -
  obtain tmpl where t: "template_of (f_behavior f) = Inr (Some tmpl)"
    using assms by (auto simp: build_descriptor_def split: sum.splits option.splits)
  then obtain b where b: "f_behavior f = JStr b" "map_of TEMPLATES b = Some tmpl"
    by (cases "f_behavior f") auto
  show thesis
    using assms t
    by (auto simp: build_descriptor_def Let_def nonempty_text_def split: json.splits if_splits
        intro!: that [OF b])
qed

lemma descriptor_wf:
  assumes "map_of TEMPLATES b = Some tmpl" and "f_behavior f = JStr b"
    and "\<not> falsy (jget tmpl ''needs_template'') \<Longrightarrow> \<exists>t. f_template f = JStr t \<and> strip t \<noteq> []"
  shows "wf_json (JObj (descriptor f tmpl cid name desc (JStr risk) (JInt r)))"
  using map_of_TEMPLATES [OF assms(1)] assms(2,3)
  by (auto simp: descriptor_def wf_dict_def flag_def or_default_def)

lemma keys_descriptor: "keys (descriptor f tmpl cid name desc risk rate) =
    [''id'', ''name'', ''behavior'', ''inputs'', ''outputs'', ''side_effects'', ''scope'', ''scoped_input'',
     ''risk_class'', ''description'', ''recommended_max_rate'', ''requires_user_confirmation'',
     ''requires_second_admin'', ''enabled'', ''behavior_config'']"
  by (simp add: descriptor_def keys_def)

lemma capability_of_descriptor:
  assumes "build_descriptor f = Inr d"
  shows "\<exists>b tmpl. f_behavior f = JStr b \<and> map_of TEMPLATES b = Some tmpl \<and>
    jget d ''id'' = f_capability_id f \<and> f_capability_id f = JStr (c_id (composed f tmpl)) \<and>
    capability_of_file (file_text d) = Inr (composed f tmpl)"
proof -
  obtain b tmpl cid name desc risk r where h: "f_behavior f = JStr b" "map_of TEMPLATES b = Some tmpl"
    "f_capability_id f = JStr cid" "f_name f = JStr name" "f_description f = JStr desc"
    "or_default (f_risk_class f) (jget tmpl ''default_risk'') = JStr risk"
    "or_default (f_recommended_max_rate f) (jget tmpl ''default_recommended_max_rate'') = JInt r"
    and t: "\<not> falsy (jget tmpl ''needs_template'') \<Longrightarrow> \<exists>t. f_template f = JStr t \<and> strip t \<noteq> []"
    and d: "d = descriptor f tmpl cid name desc (JStr risk) (JInt r)"
    using assms by (rule build_descriptor_Inr) metis
  obtain k v se b1 b2 where tm: "jget tmpl ''inputs'' = JObj [(k, JStr ''string'')]"
    "jget tmpl ''outputs'' = JObj [(v, JStr ''text'')]" "jget tmpl ''side_effects'' = JStr se"
    "jget tmpl ''scoped_input'' = JStr k" "jget tmpl ''default_requires_user_confirmation'' = JBool b1"
    "jget tmpl ''default_requires_second_admin'' = JBool b2"
    using map_of_TEMPLATES [OF h(2)] by blast
  have wf: "wf_json (JObj d)" unfolding d using h(2,1) t by (rule descriptor_wf)
  let ?sd = "sort_key fst (map canon_item d)"
  have m: "map_of ?sd x = map_option canon (map_of d x)" for x
    using wf by (intro map_of_canon_obj) simp
  have k: "set (keys ?sd) = set (keys d)" by (auto simp: keys_def image_image)
  have j: "jget ?sd x = canon (jget d x)" for x by (simp add: jget_def jopt_def m split: option.split)
  have fo: "field_or ?sd x dflt = canon (jget d x)" if x: "x \<in> set (keys d)" for x dflt
  proof -
    obtain y where "map_of d x = Some y" using x unfolding keys_iff by blast
    then show ?thesis by (simp add: field_or_def jget_def jopt_def m)
  qed
  have dk: "set (keys d) = set CAPABILITY_KEYS" unfolding d keys_descriptor CAPABILITY_KEYS_def by auto
  have req: "set CAPABILITY_REQUIRED \<subseteq> set CAPABILITY_KEYS" by (simp add: CAPABILITY_KEYS_def CAPABILITY_REQUIRED_def)
  have fl: "\<exists>x. flag j (JBool y) = JBool x" for j y by (simp add: flag_def)
  obtain x1 x2 where x: "flag (f_requires_user_confirmation f) (JBool b1) = JBool x1"
    "flag (f_requires_second_admin f) (JBool b2) = JBool x2" using fl by metis
  have vals: "jget d ''id'' = JStr cid" "jget d ''name'' = JStr (strip name)" "jget d ''inputs'' = JObj [(k, JStr ''string'')]"
    "jget d ''outputs'' = JObj [(v, JStr ''text'')]" "jget d ''side_effects'' = JStr se" "jget d ''scope'' = JStr ''own_queue''"
    "jget d ''scoped_input'' = JStr k" "jget d ''risk_class'' = JStr risk" "jget d ''description'' = JStr (strip desc)"
    "jget d ''recommended_max_rate'' = JInt r" "jget d ''requires_user_confirmation'' = JBool x1"
    "jget d ''requires_second_admin'' = JBool x2" "jget d ''enabled'' = JBool (\<not> falsy (f_enabled f))"
    "jget d ''behavior'' = JStr b"
    "jget d ''behavior_config'' = JObj (if falsy (jget tmpl ''needs_template'') then [] else [(''template'', f_template f)])"
    unfolding d by (simp_all add: descriptor_def jget_def [of "(''id'', _) # _"] jopt_def tm x h(1))
  have "capability_of_json (JObj ?sd) = Inr (composed f tmpl)"
    unfolding capability_of_json_def
    using t by (auto simp: k dk req j fo vals composed_def h tm x CAPABILITY_KEYS_def
        CAPABILITY_REQUIRED_def obj_of_def)
  then show ?thesis
    using h json_load_file_text [OF wf] vals(1)
    by (simp add: capability_of_file_def lift_def composed_def)
qed

lemma save_Inr:
  assumes "save_custom_capability builtin_dir d custom = Inr custom'"
  obtains cid builtin where "map_of d ''id'' = Some (JStr cid)" "load_dir builtin_dir = Inr builtin"
    "cid \<notin> set (keys builtin)" "cid @ ''.json'' \<notin> set (keys custom)"
    "custom' = AList.update (cid @ ''.json'') (file_text d) custom"
  using assms
  by (auto simp: save_custom_capability_def bind_res_Inr split: option.splits json.splits if_splits intro: that)

lemma well_named_update:
  assumes "well_named dir" and "capability_of_file bytes = Inr cap"
  shows "well_named (AList.update (c_id cap @ ''.json'') bytes dir)"
  using assms set_update_subset [of "c_id cap @ ''.json''" bytes dir]
  by (fastforce simp: well_named_def)

lemma file_capability_update:
  "file_capability (AList.update (k @ ''.json'') bytes dir) i =
     (if i = k then (case capability_of_file bytes of Inl _ \<Rightarrow> None | Inr cap \<Rightarrow> Some cap) else file_capability dir i)"
  by (simp add: file_capability_def dict_simps)

lemma load_dir_update:
  assumes "wf_dict dir" and "load_dir dir = Inr cat" and "capability_of_file bytes = Inr cap"
  shows "\<exists>cat'. load_dir (AList.update n bytes dir) = Inr cat'"
proof -
  have "\<forall>(name, b) \<in> set dir. endswith name ''.json'' \<longrightarrow> (\<exists>cap. capability_of_file b = Inr cap)"
    using assms(2) load_dir_succeeds by blast
  then show ?thesis
    unfolding load_dir_succeeds using assms(3) set_update_subset [of n bytes dir] by fastforce
qed

lemma menu_after_save:
  assumes "build_descriptor f = Inr d" and "save_custom_capability builtin_dir d custom = Inr custom'"
    and "well_named builtin_dir" and "well_named custom"
    and "load_catalog builtin_dir (Some custom) True = Inr cat"
  shows "\<exists>cat' b tmpl. load_catalog builtin_dir (Some custom') True = Inr cat' \<and> well_named custom' \<and>
    f_behavior f = JStr b \<and> map_of TEMPLATES b = Some tmpl \<and> map_of HANDLERS b \<noteq> None \<and>
    f_capability_id f = JStr (c_id (composed f tmpl)) \<and>
    map_of cat' i = (if i = c_id (composed f tmpl) then Some (composed f tmpl) else map_of cat i)"
proof -
  obtain b tmpl where t: "f_behavior f = JStr b" "map_of TEMPLATES b = Some tmpl"
    "jget d ''id'' = f_capability_id f" "f_capability_id f = JStr (c_id (composed f tmpl))"
    "capability_of_file (file_text d) = Inr (composed f tmpl)"
    using capability_of_descriptor [OF assms(1)] by blast
  obtain cid builtin where s: "map_of d ''id'' = Some (JStr cid)" "load_dir builtin_dir = Inr builtin"
    "cid \<notin> set (keys builtin)" "custom' = AList.update (cid @ ''.json'') (file_text d) custom"
    using assms(2) by (rule save_Inr)
  have cid: "cid = c_id (composed f tmpl)" using s(1) t(3,4) by (simp add: jget_def jopt_def)
  have w: "well_named custom'" using well_named_update [OF assms(4) t(5)] by (simp add: s(4) cid)
  obtain c where c: "load_dir custom = Inr c" using assms(5) by (auto simp: load_catalog_def bind_res_Inr)
  obtain c' where c': "load_dir custom' = Inr c'"
    using load_dir_update [OF _ c t(5), of "cid @ ''.json''"] assms(4) unfolding s(4) well_named_def by blast
  obtain cat' where cat': "load_catalog builtin_dir (Some custom') True = Inr cat'"
    using c' s(2) by (simp add: load_catalog_def Let_def)
  have "file_capability builtin_dir cid = None"
    using s(3) load_dir_map(1) [OF assms(3) s(2), of cid] by (simp add: keys_iff)
  then have "map_of cat' i = (if i = cid then Some (composed f tmpl) else map_of cat i)"
    using load_catalog_map [OF cat' assms(3) w, of i] load_catalog_map [OF assms(5,3,4), of i]
    by (simp add: s(4) file_capability_update t(5) split: option.split)
  then show ?thesis using cat' w t map_of_TEMPLATES [OF t(2)] unfolding cid by blast
qed

section \<open>Properties\<close>

text \<open>
  The one contract between the menu and the code: the building blocks an operator composes from
  are exactly the behaviors the chef has a handler for, each once.
\<close>

theorem templates_are_the_handlers:
  "set (keys TEMPLATES) = set (keys HANDLERS) \<and> wf_dict TEMPLATES \<and> wf_dict HANDLERS"
  by (auto simp: TEMPLATES_def HANDLERS_def keys_def wf_dict_def)

text \<open>
  C30. From the form to the menu: a form that the builder accepts and the catalog saves is on the
  menu afterwards, as exactly the capability the form and its building block describe, with a
  behavior that the chef has a handler for; every other item of the menu, the built-in ones above
  all, stays as it was; and the directory keeps its naming discipline.
\<close>

theorem composed_capability_is_on_the_menu:
  assumes "build_descriptor f = Inr d" and "save_custom_capability builtin_dir d custom = Inr custom'"
    and "well_named builtin_dir" and "well_named custom"
    and "load_catalog builtin_dir (Some custom) True = Inr cat"
  shows "\<exists>cat' b tmpl. load_catalog builtin_dir (Some custom') True = Inr cat' \<and> well_named custom' \<and>
    f_behavior f = JStr b \<and> map_of TEMPLATES b = Some tmpl \<and> map_of HANDLERS b \<noteq> None \<and>
    f_capability_id f = JStr (c_id (composed f tmpl)) \<and>
    map_of cat' i = (if i = c_id (composed f tmpl) then Some (composed f tmpl) else map_of cat i)"
  using assms by (rule menu_after_save)

text \<open>A payment item composed without its two safeguards.\<close>

definition payment_form :: form where
  "payment_form = \<lparr>f_behavior = JStr ''payment_request'', f_capability_id = JStr ''cap.pay'',
     f_name = JStr ''Pay'', f_description = JStr [], f_risk_class = JStr ''low'',
     f_recommended_max_rate = JNull, f_requires_user_confirmation = JBool False,
     f_requires_second_admin = JBool False, f_enabled = JBool True, f_template = JNull\<rparr>"

lemma strip_ascii_word: "ascii s \<Longrightarrow> list_all (\<lambda>c. \<not> is_space (of_char c)) s \<Longrightarrow> strip s = s"
proof -
  assume a: "ascii s" and n: "list_all (\<lambda>c. \<not> is_space (of_char c)) s"
  have c: "code_points s = map of_char s" using a by (rule code_points_ascii)
  have "dropWhile is_space (map of_char s) = map of_char s" if "list_all (\<lambda>c. \<not> is_space (of_char c)) s" for s :: string
    using that by (cases s) auto
  from this [OF n] this [of "rev s"] n have "strip s = encode (code_points s)"
    by (simp add: strip_def c rev_map list_all_iff)
  then show ?thesis by simp
qed

lemma payment_descriptor:
  "\<exists>d. build_descriptor payment_form = Inr d \<and> jget d ''requires_second_admin'' = JBool False \<and>
    jget d ''side_effects'' = JStr ''money_movement'' \<and> jget d ''id'' = JStr ''cap.pay''"
proof -
  have "strip ''Pay'' = ''Pay''" by (rule strip_ascii_word) (simp_all add: is_space_def)
  then show ?thesis
    by (simp add: build_descriptor_def payment_form_def TEMPLATES_def id_matches_def slug_core_def slug_start_def
        slug_rest_def is_digit_def Let_def or_default_def jget_def jopt_def falsy_def flag_def descriptor_def)
qed

theorem composed_capability_is_on_the_menu_witness:
  "\<exists>d custom' cat'. build_descriptor payment_form = Inr d \<and> save_custom_capability [] d [] = Inr custom' \<and>
    load_catalog [] (Some custom') True = Inr cat' \<and> map_of cat' ''cap.pay'' \<noteq> None"
proof -
  obtain d where d: "build_descriptor payment_form = Inr d" "jget d ''id'' = JStr ''cap.pay''"
    using payment_descriptor by blast
  have e: "load_dir [] = Inr []" by (simp add: load_dir_def json_files_def dict_of_def)
  have "map_of d ''id'' = Some (JStr ''cap.pay'')" using d(2) by (simp add: jget_def jopt_def split: option.splits)
  then obtain custom' where c: "save_custom_capability [] d [] = Inr custom'"
    by (simp add: save_custom_capability_def e keys_def)
  have w: "well_named []" by (simp add: well_named_def)
  have l: "load_catalog [] (Some []) True = Inr []" by (simp add: load_catalog_def e)
  from composed_capability_is_on_the_menu [OF d(1) c w w l, of "''cap.pay''"] show ?thesis
    using d c by (auto simp: payment_form_def)
qed

end
