(* ===== verification/Runner.thy ===== *)
theory Runner
  imports Chef
begin

text \<open>
  \<^verbatim>\<open>chef/runner.py\<close> with what it calls: the serving window (\<^verbatim>\<open>window/serving.py\<close>), the mock attestor
  (\<^verbatim>\<open>attestor/mock.py\<close>) and the sandbox seam (\<^verbatim>\<open>chef/sandbox.py\<close>). A sandbox is a function on the file
  system; the contract that \<open>run_chef\<close> relies on is the locale \<open>sandbox\<close>, and the default backend,
  a process that runs \<open>chef_main\<close>, is its interpretation.
\<close>

section \<open>The serving window\<close>

definition OUTPUT_FILENAME :: string where
  "OUTPUT_FILENAME = ''output.txt''"

text \<open>\<^verbatim>\<open>os.path.abspath\<close>, and \<^verbatim>\<open>os.makedirs(path, exist_ok=True)\<close>, which refuses a NUL byte.\<close>

definition abspath :: "os \<Rightarrow> string \<Rightarrow> string" where
  "abspath W p = normpath (path_join (cwd W) p)"

definition makedirs :: "string \<Rightarrow> fsys \<Rightarrow> (exn + unit) \<times> fsys" where
  "makedirs path fs =
     (if CHR 0x00 \<in> set path then (Inl ValueError, fs)
      else (Inr (), touch (MakeDir path) (fs\<lparr>dirs := insert path (dirs fs)\<rparr>)))"

definition window_path :: "os \<Rightarrow> string \<Rightarrow> string \<Rightarrow> string" where
  "window_path W order_id base = abspath W (path_join base order_id)"

definition window_dir :: "os \<Rightarrow> string \<Rightarrow> string \<Rightarrow> fsys \<Rightarrow> (exn + string) \<times> fsys" where
  "window_dir W order_id base fs =
     (let path = window_path W order_id base in
      case makedirs path fs of
        (Inl e, fs1) \<Rightarrow> (Inl e, fs1)
      | (Inr _, fs1) \<Rightarrow> (Inr path, fs1))"

definition draft_path :: "os \<Rightarrow> string \<Rightarrow> string \<Rightarrow> fsys \<Rightarrow> (exn + string) \<times> fsys" where
  "draft_path W order_id base fs =
     (case window_dir W order_id base fs of
        (Inl e, fs1) \<Rightarrow> (Inl e, fs1)
      | (Inr d, fs1) \<Rightarrow> (Inr (path_join d OUTPUT_FILENAME), fs1))"

text \<open>\<open>None\<close> is the \<^verbatim>\<open>FileNotFoundError\<close>.\<close>

definition read_draft :: "os \<Rightarrow> string \<Rightarrow> string \<Rightarrow> fsys \<Rightarrow> (exn + string option) \<times> fsys" where
  "read_draft W order_id base fs =
     (case draft_path W order_id base fs of
        (Inl e, fs1) \<Rightarrow> (Inl e, fs1)
      | (Inr p, fs1) \<Rightarrow> (Inr (files fs1 p), fs1))"

section \<open>The mock attestor\<close>

definition quote_note :: string where
  "quote_note = ''MOCK ATTESTATION '' @ em_dash @ '' signs a code hash, NOT a TEE quote. '' @
     ''Proves the receipt attestation slot only.''"

definition quote :: "crypto \<Rightarrow> string \<Rightarrow> string \<Rightarrow> json" where
  "quote C attestor_key measurement_hex =
     JObj [(''mock'', JBool True), (''attestor'', JStr ''MockAttestor''),
       (''measurement'', JStr measurement_hex),
       (''sig'', JStr (b64encode (ed_sign C attestor_key measurement_hex))),
       (''note'', JStr quote_note)]"

lemma wf_quote [simp]: "wf_json (quote C k m)"
  by (simp add: quote_def wf_dict_def)

section \<open>Sandboxes\<close>

record sandbox_spec =
  sp_chef_main :: string
  sp_pubkey_path :: string
  sp_fixtures_root :: string
  sp_out_dir :: string
  sp_workspace :: string
  sp_stdin :: string

text \<open>The exit code, or the exception that starting the backend raises; the streams are not read.\<close>

type_synonym sandbox_run = "sandbox_spec \<Rightarrow> fsys \<Rightarrow> (exn + int) \<times> fsys"

text \<open>A backend, with its \<^verbatim>\<open>containment_class\<close> where it has one.\<close>

record backend =
  b_run :: sandbox_run
  b_containment_class :: "string option"

definition subprocess_run :: "crypto \<Rightarrow> os \<Rightarrow> sandbox_run" where
  "subprocess_run C W spec fs =
     (case chef_main C W [sp_chef_main spec, sp_pubkey_path spec, sp_fixtures_root spec, sp_out_dir spec]
         (sp_stdin spec) fs of
        (x, fs') \<Rightarrow> (Inr (exit_code x), fs'))"

definition subprocess_sandbox :: "crypto \<Rightarrow> os \<Rightarrow> backend" where
  "subprocess_sandbox C W = \<lparr>b_run = subprocess_run C W, b_containment_class = Some ''subprocess-contract''\<rparr>"

section \<open>Running the chef\<close>

text \<open>What surrounds the call: the paths, the attestor's key and the text of \<^verbatim>\<open>chef_main.py\<close>.\<close>

record kitchen =
  kn_chef_main :: string
  kn_chef_source :: string
  kn_public_key_pem_path :: string
  kn_fixtures_root :: string
  kn_attestor_key :: string
  kn_window_root :: string
  kn_backend :: backend

record chef_result =
  cr_workspace_path :: string
  cr_out_dir :: string
  cr_draft_path :: string
  cr_draft_bytes :: "string option"
  cr_result_digest :: "string option"
  cr_receipt :: receipt
  cr_returncode :: int

definition below :: "string \<Rightarrow> string \<Rightarrow> bool" where
  "below d p \<longleftrightarrow> take (length (comps d)) (comps p) = comps d"

text \<open>\<^verbatim>\<open>tempfile.mkdtemp\<close>, with the name it picks, and \<^verbatim>\<open>shutil.rmtree(path, ignore_errors=True)\<close>.\<close>

definition mkdtemp :: "string \<Rightarrow> fsys \<Rightarrow> fsys" where
  "mkdtemp ws fs = touch (MakeDir ws) (fs\<lparr>dirs := insert ws (dirs fs)\<rparr>)"

definition rmtree :: "string \<Rightarrow> fsys \<Rightarrow> fsys" where
  "rmtree ws fs = fs\<lparr>files := (\<lambda>p. if below ws p then None else files fs p),
                     dirs := Set.filter (\<lambda>d. \<not> below ws d) (dirs fs)\<rparr>"

definition wire :: "ticket \<Rightarrow> json dict" where
  "wire t =
     [(''ticket_id'', JStr (t_ticket_id t)), (''order_id'', JStr (t_order_id t)),
      (''capability_id'', JStr (t_capability_id t)), (''behavior'', JStr (t_behavior t)),
      (''behavior_config'', JObj (t_behavior_config t)), (''scoped_args'', JObj (t_scoped_args t)),
      (''issued_ts'', JStr (t_issued_ts t)), (''cashier_sig'', JStr (b64encode (t_cashier_sig t)))]"

definition payload :: "ticket \<Rightarrow> string" where
  "payload t = dumps default_style 0 (JObj (wire t))"

definition containment :: "kitchen \<Rightarrow> string" where
  "containment K = (case b_containment_class (kn_backend K) of None \<Rightarrow> ''unknown'' | Some c \<Rightarrow> c)"

definition fulfilled_entry :: "crypto \<Rightarrow> kitchen \<Rightarrow> string \<Rightarrow> ticket \<Rightarrow> json option \<Rightarrow> string \<Rightarrow> entry" where
  "fulfilled_entry C K uuid t meta result_digest =
     \<lparr>e_receipt_id = ''rcpt-'' @ uuid, e_order_id = t_order_id t, e_ticket_id = Some (t_ticket_id t),
      e_status = ''FULFILLED'', e_reason_code = None, e_result_digest = Some result_digest,
      e_attestation = Some (quote C (kn_attestor_key K) (sha256_hex C (kn_chef_source K))),
      e_order_meta = meta, e_containment = Some (containment K)\<rparr>"

definition failed_entry :: "kitchen \<Rightarrow> string \<Rightarrow> ticket \<Rightarrow> json option \<Rightarrow> entry" where
  "failed_entry K uuid t meta =
     \<lparr>e_receipt_id = ''rcpt-'' @ uuid, e_order_id = t_order_id t, e_ticket_id = Some (t_ticket_id t),
      e_status = ''REJECTED'', e_reason_code = Some ''EXECUTION_FAILED'', e_result_digest = None,
      e_attestation = None, e_order_meta = meta, e_containment = Some (containment K)\<rparr>"

text \<open>The part after the backend has returned: the draft, the receipt, the result.\<close>

definition settle ::
  "crypto \<Rightarrow> string \<Rightarrow> kitchen \<Rightarrow> string \<Rightarrow> string \<Rightarrow> ticket \<Rightarrow> json option \<Rightarrow> string \<Rightarrow> string \<Rightarrow> int \<Rightarrow>
   fsys \<Rightarrow> table \<Rightarrow> (exn + chef_result) \<times> table" where
  "settle C sk K uuid ws t meta out_dir dpath returncode fs ledger =
     (let draft_bytes = (if returncode = 0 then files fs dpath else None);
          digest = map_option (sha256_hex C) draft_bytes;
          e = (case digest of Some dg \<Rightarrow> fulfilled_entry C K uuid t meta dg
               | None \<Rightarrow> failed_entry K uuid t meta)
      in case ledger_append C sk e ledger of
           Inl x \<Rightarrow> (Inl x, ledger)
         | Inr (ledger', receipt) \<Rightarrow>
             (Inr \<lparr>cr_workspace_path = ws, cr_out_dir = out_dir, cr_draft_path = dpath,
                   cr_draft_bytes = draft_bytes, cr_result_digest = digest, cr_receipt = receipt,
                   cr_returncode = returncode\<rparr>, ledger'))"

definition run_chef ::
  "crypto \<Rightarrow> string \<Rightarrow> os \<Rightarrow> kitchen \<Rightarrow> string \<Rightarrow> string \<Rightarrow> ticket \<Rightarrow> json option \<Rightarrow> fsys \<Rightarrow> table \<Rightarrow>
   (exn + chef_result) \<times> fsys \<times> table" where
  "run_chef C sk W K uuid ws t meta fs ledger =
     (let fs0 = mkdtemp ws fs in
      case window_dir W (t_order_id t) (kn_window_root K) fs0 of
        (Inl e, fs1) \<Rightarrow> (Inl e, rmtree ws fs1, ledger)
      | (Inr out_dir, fs1) \<Rightarrow>
          (case draft_path W (t_order_id t) (kn_window_root K) fs1 of
             (Inl e, fs2) \<Rightarrow> (Inl e, rmtree ws fs2, ledger)
           | (Inr dpath, fs2) \<Rightarrow>
               (case b_run (kn_backend K)
                    \<lparr>sp_chef_main = kn_chef_main K, sp_pubkey_path = kn_public_key_pem_path K,
                     sp_fixtures_root = kn_fixtures_root K, sp_out_dir = out_dir, sp_workspace = ws,
                     sp_stdin = payload t\<rparr> fs2 of
                  (Inl e, fs3) \<Rightarrow> (Inl e, rmtree ws fs3, ledger)
                | (Inr returncode, fs3) \<Rightarrow>
                    (case settle C sk K uuid ws t meta out_dir dpath returncode fs3 ledger of
                       (r, ledger') \<Rightarrow> (r, rmtree ws fs3, ledger')))))"

section \<open>The ticket on the wire\<close>

lemma signable_wire: "signable (wire t) = ticket_signable_dict t"
  by (simp add: signable_def wire_def ticket_signable_dict_def jget_def jopt_def)

lemma wf_wire:
  "wf_json (JObj (t_behavior_config t)) \<Longrightarrow> wf_json (JObj (t_scoped_args t)) \<Longrightarrow> wf_json (JObj (wire t))"
  by (simp add: wire_def wf_dict_def)

lemma parse_payload:
  assumes "wf_json (JObj (t_behavior_config t))" and "t_scoped_args t = [(k, JStr resource)]"
  shows "parse_ticket (payload t) = Inr (wire t, resource)"
proof -
  have "json_loads (payload t @ []) = Some (JObj (wire t))"
    unfolding payload_def using assms by (intro loads_dumps wf_wire) (auto simp: wf_dict_def)
  moreover have "payload t \<noteq> []" using dumps_nonempty [of default_style 0 "JObj (wire t)"] by (auto simp: payload_def)
  moreover have "find (\<lambda>k. k \<notin> set (keys (wire t))) REQUIRED_KEYS = None"
    "find (\<lambda>k. \<not> is_str (jget (wire t) k)) STRING_KEYS = None"
    by (simp_all add: find_None_iff REQUIRED_KEYS_def STRING_KEYS_def wire_def keys_def jget_def jopt_def)
  moreover have "jget (wire t) ''behavior_config'' = JObj (t_behavior_config t)"
    "jget (wire t) ''scoped_args'' = JObj (t_scoped_args t)"
    by (simp_all add: wire_def jget_def jopt_def)
  ultimately show ?thesis using assms(2) by (simp add: parse_ticket_def)
qed

lemma authentic_payload:
  assumes "wf_json (JObj (t_behavior_config t))" and "t_scoped_args t = [(k, JStr resource)]"
    and "load_pem W bytes = Pem_ed25519 pk"
    and "ed_verify C pk (t_cashier_sig t) (canonical_bytes (JObj (ticket_signable_dict t)))"
  shows "authentic C W (Some bytes) (payload t)"
proof -
  have "b64decode_validate (str_of (jget (wire t) ''cashier_sig'')) = Some (t_cashier_sig t)"
    by (simp add: wire_def jget_def jopt_def)
  then show ?thesis
    using parse_payload [OF assms(1,2)] assms(3,4) unfolding authentic_def signable_wire [symmetric] by blast
qed

text \<open>What the cashier lets through as a principal's own resource, the chef's guard lets through too.\<close>

lemma guard_own_resource:
  "own_resource who r \<Longrightarrow> \<exists>loc. r = who @ CHR ''/'' # loc \<and> guard_resource r = Inr (who, loc) \<and>
    \<not> startswith loc ''/'' \<and> loc \<noteq> [] \<and> CHR ''/'' \<notin> set loc"
  by (auto simp: own_resource_def guard_resource_def split_first_append list_ex_iff no_slash_relative)

section \<open>The contract of a sandbox\<close>

text \<open>
  \<open>contained\<close>: nothing but the output file and the workspace, which the runner removes, is written.
  \<open>sandbox\<close>: and not even that by a run that fails.
\<close>

locale contained =
  fixes run :: sandbox_run
  assumes writes_output_only: "run spec fs = (r, fs') \<Longrightarrow> p \<noteq> path_join (sp_out_dir spec) OUTPUT_FILENAME \<Longrightarrow>
      \<not> below (sp_workspace spec) p \<Longrightarrow> files fs' p = files fs p"
begin

text \<open>In any such sandbox, running the chef changes at most the order's output file and the workspace.\<close>

lemma run_chef_files:
  assumes "b_run (kn_backend K) = run" and "run_chef C sk W K uuid ws t meta fs ledger = (r, fs', ledger')"
    and "\<not> below ws p"
    and "p \<noteq> path_join (window_path W (t_order_id t) (kn_window_root K)) OUTPUT_FILENAME"
  shows "files fs' p = files fs p"
proof (cases "CHR 0x00 \<in> set (window_path W (t_order_id t) (kn_window_root K))")
  case True
  then show ?thesis using assms(2,3)
    by (auto simp: run_chef_def Let_def window_dir_def makedirs_def rmtree_def mkdtemp_def)
next
  case False
  let ?o = "window_path W (t_order_id t) (kn_window_root K)"
  let ?fs2 = "touch (MakeDir ?o) ((touch (MakeDir ?o) ((mkdtemp ws fs)\<lparr>dirs := insert ?o (dirs (mkdtemp ws fs))\<rparr>))
     \<lparr>dirs := insert ?o (dirs (touch (MakeDir ?o) ((mkdtemp ws fs)\<lparr>dirs := insert ?o (dirs (mkdtemp ws fs))\<rparr>)))\<rparr>)"
  obtain rc fs3 where r: "run \<lparr>sp_chef_main = kn_chef_main K, sp_pubkey_path = kn_public_key_pem_path K,
      sp_fixtures_root = kn_fixtures_root K, sp_out_dir = ?o, sp_workspace = ws, sp_stdin = payload t\<rparr> ?fs2 = (rc, fs3)"
    by (meson surj_pair)
  have "files fs' p = files fs3 p"
    using assms(1-3) False r
    by (auto simp: run_chef_def Let_def window_dir_def draft_path_def makedirs_def rmtree_def
        split: sum.splits prod.splits)
  also have "files fs3 p = files ?fs2 p" using writes_output_only [OF r] assms(3,4) by simp
  also have "\<dots> = files fs p" by (simp add: mkdtemp_def)
  finally show ?thesis .
qed

end

locale sandbox = contained +
  assumes failure_writes_nothing: "run spec fs = (r, fs') \<Longrightarrow> r \<noteq> Inr 0 \<Longrightarrow> \<not> below (sp_workspace spec) p \<Longrightarrow>
      files fs' p = files fs p"

locale reliable_sandbox = sandbox +
  assumes always_starts: "CHR 0x00 \<notin> set (sp_out_dir spec) \<Longrightarrow> \<exists>n fs'. run spec fs = (Inr n, fs')"

text \<open>The default backend is one.\<close>

interpretation subprocess: reliable_sandbox "subprocess_run C W" for C W
proof unfold_locales
  fix spec fs r fs' p
  assume run: "subprocess_run C W spec fs = (r, fs')"
  then obtain x where x: "chef_main C W [sp_chef_main spec, sp_pubkey_path spec, sp_fixtures_root spec, sp_out_dir spec]
      (sp_stdin spec) fs = (x, fs')" "r = Inr (exit_code x)"
    by (auto simp: subprocess_run_def split: prod.splits)
  note facts = chef_output_facts [OF x(1)]
  show "files fs' p = files fs p" if "p \<noteq> path_join (sp_out_dir spec) OUTPUT_FILENAME"
    using facts that by (auto simp: OUTPUT_FILENAME_def)
  show "files fs' p = files fs p" if "r \<noteq> Inr 0" using facts that x(2) by auto
next
  fix spec fs
  show "\<exists>n fs'. subprocess_run C W spec fs = (Inr n, fs')"
    by (auto simp: subprocess_run_def split: prod.split)
qed

section \<open>One receipt for each run\<close>

lemma wf_chef_entries:
  "wf_json (jopt meta) \<Longrightarrow> wf_entry (fulfilled_entry C K uuid t meta dg)"
  "wf_json (jopt meta) \<Longrightarrow> wf_entry (failed_entry K uuid t meta)"
  using wf_quote by (simp_all add: wf_entry_def fulfilled_entry_def failed_entry_def jopt_def)

text \<open>The outcome that the exit code and the draft make.\<close>

definition receipt_matches :: "crypto \<Rightarrow> kitchen \<Rightarrow> ticket \<Rightarrow> json option \<Rightarrow> chef_result \<Rightarrow> bool" where
  "receipt_matches C K t meta cr \<longleftrightarrow>
     r_order_id (cr_receipt cr) = JStr (t_order_id t) \<and> r_ticket_id (cr_receipt cr) = JStr (t_ticket_id t) \<and>
     r_order_meta (cr_receipt cr) = jopt meta \<and> r_containment (cr_receipt cr) = JStr (containment K) \<and>
     cr_result_digest cr = map_option (sha256_hex C) (cr_draft_bytes cr) \<and>
     (case cr_draft_bytes cr of
        Some b \<Rightarrow> cr_returncode cr = 0 \<and> r_status (cr_receipt cr) = JStr ''FULFILLED'' \<and>
          r_reason_code (cr_receipt cr) = JNull \<and> r_result_digest (cr_receipt cr) = JStr (sha256_hex C b) \<and>
          r_attestation (cr_receipt cr) = quote C (kn_attestor_key K) (sha256_hex C (kn_chef_source K))
      | None \<Rightarrow> r_status (cr_receipt cr) = JStr ''REJECTED'' \<and>
          r_reason_code (cr_receipt cr) = JStr ''EXECUTION_FAILED'' \<and>
          r_result_digest (cr_receipt cr) = JNull \<and> r_attestation (cr_receipt cr) = JNull)"

lemma settle_verified:
  assumes "sig_correct C" and "wf_json (jopt meta)" and "verify_ledger_rows C (ed_pub C sk) ledger = Verified n"
  shows "\<exists>cr raw. settle C sk K uuid ws t meta out_dir dpath returncode fs ledger =
      (Inr cr, insert_row raw ledger) \<and>
    verify_ledger_rows C (ed_pub C sk) (insert_row raw ledger) = Verified (Suc n) \<and>
    receipt_matches C K t meta cr \<and> cr_out_dir cr = out_dir \<and> cr_returncode cr = returncode \<and>
    cr_draft_bytes cr = (if returncode = 0 then files fs dpath else None)"
proof -
  let ?d = "if returncode = 0 then files fs dpath else None"
  let ?e = "case map_option (sha256_hex C) ?d of Some dg \<Rightarrow> fulfilled_entry C K uuid t meta dg
    | None \<Rightarrow> failed_entry K uuid t meta"
  have "wf_entry ?e" using wf_chef_entries [OF assms(2)] by (simp split: option.split)
  from ledger_append_verified [OF assms(1) this assms(3)]
  obtain raw r where a: "ledger_append C sk ?e ledger = Inr (insert_row raw ledger, r)"
    and v: "verify_ledger_rows C (ed_pub C sk) (insert_row raw ledger) = Verified (Suc n)" by blast
  let ?cr = "\<lparr>cr_workspace_path = ws, cr_out_dir = out_dir, cr_draft_path = dpath, cr_draft_bytes = ?d,
    cr_result_digest = map_option (sha256_hex C) ?d, cr_receipt = r, cr_returncode = returncode\<rparr>"
  have "receipt_matches C K t meta ?cr"
    using ledger_append_receipt [OF a]
    by (cases "files fs dpath")
      (auto simp: receipt_matches_def fulfilled_entry_def failed_entry_def jstr_opt_def jopt_def)
  moreover have "settle C sk K uuid ws t meta out_dir dpath returncode fs ledger = (Inr ?cr, insert_row raw ledger)"
    by (simp only: settle_def Let_def a) simp
  ultimately show ?thesis using v by auto
qed

text \<open>The file system the backend is started on.\<close>

definition started_fs :: "os \<Rightarrow> kitchen \<Rightarrow> string \<Rightarrow> ticket \<Rightarrow> fsys \<Rightarrow> fsys" where
  "started_fs W K ws t fs =
     (let o' = window_path W (t_order_id t) (kn_window_root K)
      in snd (makedirs o' (snd (makedirs o' (mkdtemp ws fs)))))"

definition started_spec :: "os \<Rightarrow> kitchen \<Rightarrow> string \<Rightarrow> ticket \<Rightarrow> sandbox_spec" where
  "started_spec W K ws t =
     \<lparr>sp_chef_main = kn_chef_main K, sp_pubkey_path = kn_public_key_pem_path K,
      sp_fixtures_root = kn_fixtures_root K, sp_out_dir = window_path W (t_order_id t) (kn_window_root K),
      sp_workspace = ws, sp_stdin = payload t\<rparr>"

definition output_path :: "os \<Rightarrow> kitchen \<Rightarrow> ticket \<Rightarrow> string" where
  "output_path W K t = path_join (window_path W (t_order_id t) (kn_window_root K)) OUTPUT_FILENAME"

lemma run_chef_stages:
  assumes "CHR 0x00 \<notin> set (window_path W (t_order_id t) (kn_window_root K))"
    and "b_run (kn_backend K) (started_spec W K ws t) (started_fs W K ws t fs) = (Inr rc, fs3)"
  shows "run_chef C sk W K uuid ws t meta fs ledger =
    (case settle C sk K uuid ws t meta (window_path W (t_order_id t) (kn_window_root K)) (output_path W K t) rc fs3 ledger of
       (r, ledger') \<Rightarrow> (r, rmtree ws fs3, ledger'))"
  using assms
  by (simp add: run_chef_def window_dir_def draft_path_def makedirs_def started_fs_def started_spec_def
      output_path_def Let_def)

lemma started_fs_files [simp]: "files (started_fs W K ws t fs) = files fs"
  by (simp add: started_fs_def makedirs_def mkdtemp_def Let_def)

lemma run_chef_verified:
  assumes "sig_correct C" and "wf_json (jopt meta)" and "verify_ledger_rows C (ed_pub C sk) ledger = Verified n"
    and "CHR 0x00 \<notin> set (window_path W (t_order_id t) (kn_window_root K))"
    and "b_run (kn_backend K) (started_spec W K ws t) (started_fs W K ws t fs) = (Inr rc, fs3)"
  shows "\<exists>cr raw fs'. run_chef C sk W K uuid ws t meta fs ledger = (Inr cr, fs', insert_row raw ledger) \<and>
    verify_ledger_rows C (ed_pub C sk) (insert_row raw ledger) = Verified (Suc n) \<and>
    receipt_matches C K t meta cr \<and> cr_returncode cr = rc \<and>
    cr_draft_bytes cr = (if rc = 0 then files fs3 (output_path W K t) else None)"
  using settle_verified [OF assms(1-3), of K uuid ws t "window_path W (t_order_id t) (kn_window_root K)"
      "output_path W K t" rc fs3] run_chef_stages [OF assms(4,5), of C sk uuid meta ledger]
  by fastforce

section \<open>A served ticket\<close>

lemma chef_serves:
  assumes pub: "files fs pub = Some bytes" "load_pem W bytes = Pem_ed25519 pk"
    and sig: "ed_verify C pk (t_cashier_sig t) (canonical_bytes (JObj (ticket_signable_dict t)))"
    and wf: "wf_json (JObj (t_behavior_config t))" and sc: "t_scoped_args t = [(k, JStr resource)]"
    and guard: "guard_resource resource = Inr (owner, loc)"
    and normal: "\<forall>p. normal_path (realpath W p)"
    and ins: "inside (owner_dir W base owner) (candidate_path W base owner loc)"
    and src: "files fs (candidate_path W base owner loc) = Some content" "read_text content = Inr source"
    and handler: "map_of HANDLERS (t_behavior t) = Some h" "h resource source (t_behavior_config t) = Inr out"
  shows "\<exists>fs'. chef_main C W [prog, pub, base, out_dir] (payload t) fs = (Exit 0 [], fs') \<and>
    files fs' = (files fs)(path_join out_dir ''output.txt'' \<mapsto> out) \<and>
    Read (candidate_path W base owner loc) \<in> set (trace fs')"
proof -
  have "b64decode_validate (str_of (jget (wire t) ''cashier_sig'')) = Some (t_cashier_sig t)"
    by (simp add: wire_def jget_def jopt_def)
  then have v: "verify_ticket C (load_pem W bytes) (wire t) = Inr ()"
    using pub(2) sig by (simp add: verify_ticket_def signable_wire)
  have n: "normal_path (owner_dir W base owner)" "normal_path (candidate_path W base owner loc)"
    using normal by (simp_all add: owner_dir_def candidate_path_def)
  note c = inside_commonpath [OF ins n]
  have b: "str_of (jget (wire t) ''behavior'') = t_behavior t"
    "obj_of (jget (wire t) ''behavior_config'') = t_behavior_config t"
    by (simp_all add: wire_def jget_def jopt_def obj_of_def)
  show ?thesis
    using parse_payload [OF wf sc] pub v guard c src handler
    by (auto simp: chef_main_def resolve_resource_def Let_def cook_def b write_output_def)
qed

lemma candidate_no_links:
  assumes "realpath W = normpath" and "CHR ''/'' \<notin> set owner" and "owner \<noteq> []" and "owner \<noteq> ''.''" and "owner \<noteq> ''..''"
    and "CHR ''/'' \<notin> set loc"
  shows "comps (owner_dir W base owner) = comps (normpath base) @ [owner]"
    and "comps (candidate_path W base owner loc) = comps (normpath base) @ [owner, loc @ ''.txt'']"
proof -
  have o: "comps owner = [owner]" using assms by (intro comps_piece)
  show od: "comps (owner_dir W base owner) = comps (normpath base) @ [owner]"
    using assms o by (simp add: owner_dir_def comps_normpath_join no_slash_relative)
  have l: "comps (loc @ ''.txt'') = [loc @ ''.txt'']"
    using assms(6) by (intro comps_piece) (auto simp: append_eq_Cons_conv)
  have "loc @ ''.txt'' \<noteq> ''..''" by (auto simp: append_eq_Cons_conv)
  then have d: "''..'' \<notin> set (comps (loc @ ''.txt''))" using l by auto
  have r: "\<not> startswith (loc @ ''.txt'') ''/''" using assms(6) by (intro no_slash_relative) simp
  have "comps (candidate_path W base owner loc) = comps (owner_dir W base owner) @ comps (loc @ ''.txt'')"
    using comps_normpath_join [OF r d, of "path_join (normpath base) owner"]
    by (simp only: candidate_path_def owner_dir_def assms(1))
  then show "comps (candidate_path W base owner loc) = comps (normpath base) @ [owner, loc @ ''.txt'']"
    using od l by simp
qed

section \<open>The example's paths\<close>

lemma example_paths:
  "owner_dir example_os ''/mail'' ''alice'' = ''/mail/alice''"
  "candidate_path example_os ''/mail'' ''alice'' ''t1'' = ''/mail/alice/t1.txt''"
  "inside ''/mail/alice'' ''/mail/alice/t1.txt''"
proof -
  show o: "owner_dir example_os ''/mail'' ''alice'' = ''/mail/alice''"
    by (simp add: owner_dir_def example_os_def normpath_def path_join_def startswith_def endswith_def comps_def)
  show "candidate_path example_os ''/mail'' ''alice'' ''t1'' = ''/mail/alice/t1.txt''"
    unfolding candidate_path_def o
    by (simp add: example_os_def normpath_def path_join_def startswith_def endswith_def comps_def)
  show "inside ''/mail/alice'' ''/mail/alice/t1.txt''"
    by (simp add: inside_def comps_def)
qed

lemma example_guard: "guard_resource ''alice/t1'' = Inr (''alice'', ''t1'')"
  by (simp add: guard_resource_def split_first_def is_control_def)

lemma example_text: "read_text ''Subject: hi'' = Inr ''Subject: hi''"
  by (rule read_text_ascii) (simp_all add: ascii_def)

lemma example_normal: "\<forall>p. normal_path (realpath example_os p)"
  by (simp add: example_os_def)

section \<open>Properties\<close>

text \<open>
  Every run of the chef leaves exactly one receipt, whatever the chef did: it is
  \<^verbatim>\<open>FULFILLED\<close>, with the digest of the draft and the attestation, exactly when the exit code is
  zero and the draft is there, and else \<^verbatim>\<open>REJECTED\<close> with \<^verbatim>\<open>EXECUTION_FAILED\<close> and no digest; it
  names the ticket, who asked, and the containment class that ran. The ledger stays verified.
  (The serving directory's name must hold no NUL byte.)
\<close>

theorem every_chef_run_is_receipted:
  assumes "sig_correct C" and "wf_json (jopt meta)" and "verify_ledger_rows C (ed_pub C sk) ledger = Verified n"
    and "CHR 0x00 \<notin> set (window_path W (t_order_id t) (kn_window_root K))"
    and "b_run (kn_backend K) (started_spec W K ws t) (started_fs W K ws t fs) = (Inr rc, fs3)"
  shows "\<exists>cr raw fs'. run_chef C sk W K uuid ws t meta fs ledger = (Inr cr, fs', insert_row raw ledger) \<and>
    verify_ledger_rows C (ed_pub C sk) (insert_row raw ledger) = Verified (Suc n) \<and>
    receipt_matches C K t meta cr \<and> cr_returncode cr = rc \<and>
    cr_draft_bytes cr = (if rc = 0 then files fs3 (output_path W K t) else None)"
  using assms by (rule run_chef_verified)

text \<open>A kitchen and a ticket for the witnesses, and a backend that leaves a given draft.\<close>

definition draft_backend :: "string \<Rightarrow> backend" where
  "draft_backend d = \<lparr>b_run = (\<lambda>spec fs. (Inr 0, fs\<lparr>files := (files fs)
     (path_join (sp_out_dir spec) OUTPUT_FILENAME \<mapsto> d)\<rparr>)), b_containment_class = None\<rparr>"

definition example_kitchen :: "backend \<Rightarrow> kitchen" where
  "example_kitchen B = \<lparr>kn_chef_main = ''/chef_main.py'', kn_chef_source = ''import sys'',
     kn_public_key_pem_path = ''/pub.pem'', kn_fixtures_root = ''/mail'', kn_attestor_key = ''ak'',
     kn_window_root = ''/out'', kn_backend = B\<rparr>"

definition example_ticket :: ticket where
  "example_ticket = ticket_for example_crypto ''sk'' example_menu example_moment example_order"

lemma example_ticket_fields:
  "t_behavior example_ticket = ''draft_reply''" "t_behavior_config example_ticket = []"
  "t_scoped_args example_ticket = [(''thread_id'', JStr ''alice/t1'')]"
  "ed_verify example_crypto ''sk'' (t_cashier_sig example_ticket)
     (canonical_bytes (JObj (ticket_signable_dict example_ticket)))"
  by (simp_all add: example_ticket_def ticket_for_def mint_ticket_def Let_def narrowed_def example_menu_def
      example_capability_def example_order_def resolved_behavior_def ticket_signable_dict_def example_crypto_def)

lemma example_served:
  obtains fs' where "chef_main example_crypto example_os [''/chef_main.py'', ''/pub.pem'', ''/mail'', ''/out/o1'']
      (payload example_ticket) example_fs = (Exit 0 [], fs')" "Read ''/mail/alice/t1.txt'' \<in> set (trace fs')"
proof -
  have "\<exists>fs'. chef_main example_crypto example_os [''/chef_main.py'', ''/pub.pem'', ''/mail'', ''/out/o1'']
      (payload example_ticket) example_fs = (Exit 0 [], fs') \<and>
      files fs' = (files example_fs)(path_join ''/out/o1'' ''output.txt'' \<mapsto> handle_draft_reply ''alice/t1'' ''Subject: hi'') \<and>
      Read (candidate_path example_os ''/mail'' ''alice'' ''t1'') \<in> set (trace fs')"
    by (rule chef_serves [where bytes = "''sk''" and pk = "''sk''" and resource = "''alice/t1''"
        and content = "''Subject: hi''" and source = "''Subject: hi''" and k = "''thread_id''"
        and h = "\<lambda>r s c. Inr (handle_draft_reply r s)"])
      (simp_all add: example_paths example_guard example_text example_normal example_ticket_fields example_fs_def
        HANDLERS_def wf_dict_def, simp add: example_os_def)
  then show thesis using that example_paths(2) by auto
qed

theorem chef_reads_only_inside_owner_dir_witness:
  "\<exists>t resource owner loc. parse_ticket (payload example_ticket) = Inr (t, resource) \<and>
     guard_resource resource = Inr (owner, loc) \<and> inside (owner_dir example_os ''/mail'' owner) ''/mail/alice/t1.txt''"
proof -
  obtain fs' where r: "chef_main example_crypto example_os [''/chef_main.py'', ''/pub.pem'', ''/mail'', ''/out/o1'']
      (payload example_ticket) example_fs = (Exit 0 [], fs')" "Read ''/mail/alice/t1.txt'' \<in> set (trace fs')"
    by (rule example_served)
  have "trace example_fs = []" by (simp add: example_fs_def)
  from chef_reads_only_inside_owner_dir [OF example_normal r(1) this r(2)] show ?thesis by auto
qed

lemma example_window: "CHR 0x00 \<notin> set (window_path example_os (t_order_id example_ticket) (kn_window_root (example_kitchen B)))"
  by (simp add: window_path_def example_kitchen_def example_ticket_def ticket_for_def mint_ticket_def Let_def
      example_order_def abspath_def example_os_def normpath_def path_join_def startswith_def endswith_def
      comps_def split_on_append)

theorem every_chef_run_is_receipted_witness:
  "\<exists>cr raw fs'. run_chef example_crypto ''sk'' example_os (example_kitchen (subprocess_sandbox example_crypto example_os))
      ''00'' ''/ws/1'' example_ticket None example_fs [] = (Inr cr, fs', insert_row raw []) \<and>
    verify_ledger_rows example_crypto (ed_pub example_crypto ''sk'') (insert_row raw []) = Verified (Suc 0)"
proof -
  let ?K = "example_kitchen (subprocess_sandbox example_crypto example_os)"
  obtain rc fs3 where r: "b_run (kn_backend ?K) (started_spec example_os ?K ''/ws/1'' example_ticket)
      (started_fs example_os ?K ''/ws/1'' example_ticket example_fs) = (Inr rc, fs3)"
    using subprocess.always_starts example_window
    by (fastforce simp: example_kitchen_def subprocess_sandbox_def started_spec_def)
  have "wf_json (jopt None)" "verify_ledger_rows example_crypto (ed_pub example_crypto ''sk'') [] = Verified 0"
    by (simp_all add: jopt_def verify_ledger_rows_def)
  from every_chef_run_is_receipted [OF sig_correct_example this example_window r]
  show ?thesis by blast
qed

text \<open>
  Privacy of the ledger: what a run of the chef writes to the ledger depends on the draft only
  through its digest. Two runs of the same ticket, on whatever file systems and in whatever
  backends with the same containment class, whose drafts have the same digest (or are both
  missing), leave the same ledger.
\<close>

theorem ledger_sees_only_the_digest:
  assumes "CHR 0x00 \<notin> set (window_path W (t_order_id t) (kn_window_root K))"
    and "b_run (kn_backend K) (started_spec W K ws t) (started_fs W K ws t fs) = (Inr rc, fs3)"
    and "b_run B (started_spec W K ws t) (started_fs W K ws t fs') = (Inr rc', fs3')"
    and "b_containment_class B = b_containment_class (kn_backend K)"
    and "(if rc = 0 then map_option (sha256_hex C) (files fs3 (output_path W K t)) else None) =
      (if rc' = 0 then map_option (sha256_hex C) (files fs3' (output_path W K t)) else None)"
  shows "snd (snd (run_chef C sk W (K\<lparr>kn_backend := B\<rparr>) uuid ws t meta fs' ledger)) =
    snd (snd (run_chef C sk W K uuid ws t meta fs ledger))"
proof -
  let ?K = "K\<lparr>kn_backend := B\<rparr>"
  have same: "containment ?K = containment K" "output_path W ?K t = output_path W K t"
    "started_spec W ?K ws t = started_spec W K ws t" "started_fs W ?K ws t fs' = started_fs W K ws t fs'"
    "fulfilled_entry C ?K = fulfilled_entry C K" "failed_entry ?K = failed_entry K"
    using assms(4)
    by (simp_all add: containment_def output_path_def started_spec_def started_fs_def fulfilled_entry_def
        failed_entry_def fun_eq_iff)
  have r: "run_chef C sk W ?K uuid ws t meta fs' ledger =
    (case settle C sk ?K uuid ws t meta (window_path W (t_order_id t) (kn_window_root K)) (output_path W K t) rc' fs3' ledger of
       (r, ledger') \<Rightarrow> (r, rmtree ws fs3', ledger'))"
    using run_chef_stages [of W t ?K ws fs' rc' fs3' C sk uuid meta ledger] assms(1,3) same by simp
  have d: "map_option (sha256_hex C) (if rc = 0 then files fs3 (output_path W K t) else None) =
      map_option (sha256_hex C) (if rc' = 0 then files fs3' (output_path W K t) else None)"
    using assms(5) by (simp split: if_splits)
  have "snd (settle C sk ?K uuid ws t meta od (output_path W K t) rc' fs3' ledger) =
      snd (settle C sk K uuid ws t meta od (output_path W K t) rc fs3 ledger)" for od
    by (simp only: settle_def Let_def same d) (simp split: sum.split prod.split)
  then show ?thesis
    unfolding r run_chef_stages [OF assms(1,2)] by (simp add: split_beta)
qed

theorem ledger_sees_only_the_digest_witness:
  "snd (snd (run_chef example_crypto ''sk'' example_os ((example_kitchen (draft_backend ''ab''))
       \<lparr>kn_backend := draft_backend ''ba''\<rparr>) ''00'' ''/ws/1'' example_ticket None example_fs [])) =
   snd (snd (run_chef example_crypto ''sk'' example_os (example_kitchen (draft_backend ''ab''))
       ''00'' ''/ws/1'' example_ticket None example_fs []))"
proof -
  let ?K = "example_kitchen (draft_backend ''ab'')"
  have k: "kn_backend ?K = draft_backend ''ab''" by (simp add: example_kitchen_def)
  have r: "b_run (draft_backend d) (started_spec example_os ?K ''/ws/1'' example_ticket)
      (started_fs example_os ?K ''/ws/1'' example_ticket example_fs) =
    (Inr 0, (started_fs example_os ?K ''/ws/1'' example_ticket example_fs)
       \<lparr>files := (files example_fs)(output_path example_os ?K example_ticket \<mapsto> d)\<rparr>)" for d
    by (simp add: draft_backend_def started_spec_def output_path_def)
  have r1: "b_run (kn_backend ?K) (started_spec example_os ?K ''/ws/1'' example_ticket)
      (started_fs example_os ?K ''/ws/1'' example_ticket example_fs) =
    (Inr 0, (started_fs example_os ?K ''/ws/1'' example_ticket example_fs)
       \<lparr>files := (files example_fs)(output_path example_os ?K example_ticket \<mapsto> ''ab'')\<rparr>)"
    unfolding k by (rule r)
  have c: "b_containment_class (draft_backend ''ba'') = b_containment_class (kn_backend ?K)"
    unfolding k by (simp add: draft_backend_def)
  have sha: "sha256_hex example_crypto ''ab'' = sha256_hex example_crypto ''ba''"
    by (simp add: example_crypto_def)
  show ?thesis
    using ledger_sees_only_the_digest [OF example_window r1 r [of "''ba''"] c, of example_crypto "''sk''" "''00''" None "[]"]
      sha by simp
qed

end
