(* ===== verification/Loop.thy ===== *)
theory Loop
  imports Runner
begin

text \<open>
  \<^verbatim>\<open>loop.py\<close>: the object that holds the credential and wires the cashier's \<^verbatim>\<open>spawn\<close> to the runner.
  \<open>place\<close> is one order from the counter to the receipt.
\<close>

record service =
  sv_private_key :: string
  sv_menu :: "(string \<times> capability) list"
  sv_policy_set :: policy_set
  sv_kitchen :: kitchen

text \<open>
  What the object and its services mutate: the cashier's store and the ledger, the file system,
  and the two fields that \<open>place\<close> sets.
\<close>

record loop_state = cashier +
  ls_fs :: fsys
  ls_last_chef :: "chef_result option"
  ls_current_order_meta :: "json option"

text \<open>The readings of one call: the cashier's, the second identifier and the workspace's name.\<close>

record loop_moment =
  lm_moment :: moment
  lm_receipt_uuid :: string
  lm_workspace :: string

text \<open>The constructor makes the three paths absolute.\<close>

definition new_service ::
  "os \<Rightarrow> string \<Rightarrow> (string \<times> capability) list \<Rightarrow> policy_set \<Rightarrow> kitchen \<Rightarrow> service" where
  "new_service W private_key menu policies K =
     \<lparr>sv_private_key = private_key, sv_menu = menu, sv_policy_set = policies,
      sv_kitchen = K\<lparr>kn_public_key_pem_path := abspath W (kn_public_key_pem_path K),
        kn_fixtures_root := abspath W (kn_fixtures_root K), kn_window_root := abspath W (kn_window_root K)\<rparr>\<rparr>"

definition spawn_chef ::
  "crypto \<Rightarrow> os \<Rightarrow> service \<Rightarrow> loop_moment \<Rightarrow> ticket \<Rightarrow> loop_state \<Rightarrow> exn option \<times> loop_state" where
  "spawn_chef C W S m t s =
     (case run_chef C (sv_private_key S) W (sv_kitchen S) (lm_receipt_uuid m) (lm_workspace m) t
         (ls_current_order_meta s) (ls_fs s) (cs_ledger s) of
        (Inl e, fs, ledger) \<Rightarrow> (Some e, s\<lparr>ls_fs := fs, cs_ledger := ledger\<rparr>)
      | (Inr cr, fs, ledger) \<Rightarrow> (None, s\<lparr>ls_fs := fs, cs_ledger := ledger, ls_last_chef := Some cr\<rparr>))"

definition begin_place :: "order \<Rightarrow> loop_state \<Rightarrow> loop_state" where
  "begin_place ord s = s\<lparr>ls_last_chef := None, ls_current_order_meta := Some (order_meta_from_order ord)\<rparr>"

definition place ::
  "crypto \<Rightarrow> os \<Rightarrow> service \<Rightarrow> loop_moment \<Rightarrow> order \<Rightarrow> loop_state \<Rightarrow> (exn + outcome) \<times> loop_state" where
  "place C W S m ord s =
     process_order C (sv_private_key S) (sv_menu S) (sv_policy_set S) (Some (spawn_chef C W S m))
       (lm_moment m) ord (begin_place ord s)"

definition read_window_draft :: "os \<Rightarrow> service \<Rightarrow> string \<Rightarrow> fsys \<Rightarrow> (exn + string option) \<times> fsys" where
  "read_window_draft W S order_id fs = read_draft W order_id (kn_window_root (sv_kitchen S)) fs"

definition read_receipts :: "loop_state \<Rightarrow> exn + receipt list" where
  "read_receipts s = read_all (cs_ledger s)"

section \<open>One order\<close>

abbreviation accepts :: "service \<Rightarrow> loop_moment \<Rightarrow> 'z loop_state_scheme \<Rightarrow> order \<Rightarrow> bool" where
  "accepts S m s ord \<equiv>
     d_accepted (evaluate_order (sv_menu S) (sv_policy_set S) (m_rate_now (lm_moment m)) (cs_store s) ord)"

definition minted :: "crypto \<Rightarrow> service \<Rightarrow> loop_moment \<Rightarrow> order \<Rightarrow> ticket" where
  "minted C S m ord = ticket_for C (sv_private_key S) (sv_menu S) (lm_moment m) ord"

lemma begin_place_simps [simp]:
  "cs_store (begin_place ord s) = cs_store s" "cs_ledger (begin_place ord s) = cs_ledger s"
  "ls_fs (begin_place ord s) = ls_fs s" "ls_last_chef (begin_place ord s) = None"
  "ls_current_order_meta (begin_place ord s) = Some (order_meta_from_order ord)"
  by (simp_all add: begin_place_def)

lemma after_more [simp]:
  "ls_fs (after_nonce ord s) = ls_fs s" "ls_fs (after_accept m ord s) = ls_fs s"
  "ls_last_chef (after_nonce ord s) = ls_last_chef s" "ls_last_chef (after_accept m ord s) = ls_last_chef s"
  "ls_current_order_meta (after_nonce ord s) = ls_current_order_meta s"
  "ls_current_order_meta (after_accept m ord s) = ls_current_order_meta s"
  by (simp_all add: after_nonce_def after_accept_def)

lemma spawn_keeps_store: "keeps_store (Some (spawn_chef C W S m))"
  by (auto simp: keeps_store_def spawn_chef_def split: sum.split prod.split)

lemma minted_fields:
  "t_order_id (minted C S m ord) = o_order_id ord" "t_capability_id (minted C S m ord) = o_capability_id ord"
  "t_scoped_args (minted C S m ord) = narrowed (sv_menu S) ord"
  "t_ticket_id (minted C S m ord) = ''tkt-'' @ m_uuid (lm_moment m)"
  by (simp_all add: minted_def ticket_for_def mint_ticket_def Let_def)

text \<open>The serving directory of an order has no NUL byte in its name.\<close>

definition window_ok :: "os \<Rightarrow> service \<Rightarrow> order \<Rightarrow> bool" where
  "window_ok W S ord \<longleftrightarrow> CHR 0x00 \<notin> set (window_path W (o_order_id ord) (kn_window_root (sv_kitchen S)))"

definition started :: "os \<Rightarrow> service \<Rightarrow> loop_moment \<Rightarrow> ticket \<Rightarrow> fsys \<Rightarrow> (exn + int) \<times> fsys" where
  "started W S m t fs = b_run (kn_backend (sv_kitchen S)) (started_spec W (sv_kitchen S) (lm_workspace m) t)
     (started_fs W (sv_kitchen S) (lm_workspace m) t fs)"

text \<open>The backend starts on every order whose serving directory can be named: it returns an exit code.\<close>

definition starts :: "service \<Rightarrow> bool" where
  "starts S \<longleftrightarrow> (\<forall>spec fs. CHR 0x00 \<notin> set (sp_out_dir spec) \<longrightarrow>
     (\<exists>n fs'. b_run (kn_backend (sv_kitchen S)) spec fs = (Inr n, fs')))"

lemma starts_on_order:
  assumes "starts S" and "window_ok W S ord" and "t_order_id t = o_order_id ord"
  obtains rc fs' where "started W S m t fs = (Inr rc, fs')"
proof -
  have "CHR 0x00 \<notin> set (sp_out_dir (started_spec W (sv_kitchen S) (lm_workspace m) t))"
    using assms(2,3) by (simp add: window_ok_def started_spec_def)
  then show thesis using assms(1) that unfolding starts_def started_def by blast
qed

lemma starts_subprocess: "kn_backend (sv_kitchen S) = subprocess_sandbox C W \<Longrightarrow> starts S"
  using subprocess.always_starts by (simp add: starts_def subprocess_sandbox_def)

lemma place_accepted:
  assumes "sig_correct C" and "verify_ledger_rows C (ed_pub C (sv_private_key S)) (cs_ledger s) = Verified n"
    and "accepts S m s ord" and "window_ok W S ord"
    and "started W S m (minted C S m ord) (ls_fs s) = (Inr rc, fs3)"
  shows "\<exists>cr raw s'. place C W S m ord s = (Inr (TicketOutcome (minted C S m ord)), s') \<and>
    cs_ledger s' = insert_row raw (cs_ledger s) \<and>
    verify_ledger_rows C (ed_pub C (sv_private_key S)) (cs_ledger s') = Verified (Suc n) \<and>
    ls_last_chef s' = Some cr \<and> cr_returncode cr = rc \<and>
    receipt_matches C (sv_kitchen S) (minted C S m ord) (Some (order_meta_from_order ord)) cr \<and>
    cr_draft_bytes cr = (if rc = 0 then files fs3 (output_path W (sv_kitchen S) (minted C S m ord)) else None)"
proof -
  let ?t = "minted C S m ord" and ?K = "sv_kitchen S" and ?sk = "sv_private_key S"
  let ?meta = "Some (order_meta_from_order ord)"
  have nul: "CHR 0x00 \<notin> set (window_path W (t_order_id ?t) (kn_window_root ?K))"
    using assms(4) by (simp add: window_ok_def minted_fields)
  have meta: "wf_json (jopt ?meta)" using wf_order_meta by (simp add: jopt_def)
  obtain cr raw fs' where r: "run_chef C ?sk W ?K (lm_receipt_uuid m) (lm_workspace m) ?t ?meta (ls_fs s) (cs_ledger s) =
      (Inr cr, fs', insert_row raw (cs_ledger s))"
    "verify_ledger_rows C (ed_pub C ?sk) (insert_row raw (cs_ledger s)) = Verified (Suc n)"
    "receipt_matches C ?K ?t ?meta cr" "cr_returncode cr = rc"
    "cr_draft_bytes cr = (if rc = 0 then files fs3 (output_path W ?K ?t) else None)"
    using run_chef_verified [OF assms(1) meta assms(2) nul assms(5) [unfolded started_def]] by blast
  have "d_accepted (evaluate_order (sv_menu S) (sv_policy_set S) (m_rate_now (lm_moment m))
      (cs_store (begin_place ord s)) ord)" using assms(3) by simp
  from process_accepted [OF this, of C ?sk "Some (spawn_chef C W S m)"]
  show ?thesis using r by (auto simp: place_def spawn_chef_def minted_def)
qed

lemma place_rejected:
  assumes "sig_correct C" and "verify_ledger_rows C (ed_pub C (sv_private_key S)) (cs_ledger s) = Verified n"
    and "\<not> accepts S m s ord"
  shows "\<exists>reason receipt raw s'. place C W S m ord s = (Inr (RejectionOutcome reason receipt), s') \<and>
    cs_ledger s' = insert_row raw (cs_ledger s) \<and>
    verify_ledger_rows C (ed_pub C (sv_private_key S)) (cs_ledger s') = Verified (Suc n) \<and>
    ls_last_chef s' = None \<and> ls_fs s' = ls_fs s \<and> r_reason_code receipt = JStr reason"
proof -
  obtain reason where r: "evaluate_order (sv_menu S) (sv_policy_set S) (m_rate_now (lm_moment m))
      (cs_store (begin_place ord s)) ord = reject reason"
    using assms(3) rejected_fields by fastforce
  let ?e = "rejection_entry (m_uuid (lm_moment m)) ord reason"
  obtain raw rc where a: "ledger_append C (sv_private_key S) ?e (cs_ledger s) = Inr (insert_row raw (cs_ledger s), rc)"
    "verify_ledger_rows C (ed_pub C (sv_private_key S)) (insert_row raw (cs_ledger s)) = Verified (Suc n)"
    using ledger_append_verified [OF assms(1) wf_rejection_entry assms(2)] by blast
  have "r_reason_code rc = JStr reason"
    using ledger_append_receipt [OF a(1)] by (simp add: rejection_entry_def jstr_opt_def)
  then show ?thesis
    using a by (auto simp: place_def process_rejected [OF r] append_rejection_def)
qed

text \<open>Every order leaves one row.\<close>

lemma place_one_row:
  assumes "sig_correct C" and "verify_ledger_rows C (ed_pub C (sv_private_key S)) (cs_ledger s) = Verified n"
    and "window_ok W S ord" and "starts S"
  shows "\<exists>out raw s'. place C W S m ord s = (Inr out, s') \<and> cs_ledger s' = insert_row raw (cs_ledger s) \<and>
    verify_ledger_rows C (ed_pub C (sv_private_key S)) (cs_ledger s') = Verified (Suc n)"
proof (cases "accepts S m s ord")
  case True
  obtain rc fs3 where "started W S m (minted C S m ord) (ls_fs s) = (Inr rc, fs3)"
    by (rule starts_on_order [OF assms(4,3) minted_fields(1)])
  from place_accepted [OF assms(1,2) True assms(3) this] show ?thesis by blast
next
  case False
  from place_rejected [OF assms(1,2) False] show ?thesis by blast
qed

section \<open>Runs of the loop\<close>

fun place_all ::
  "crypto \<Rightarrow> os \<Rightarrow> service \<Rightarrow> (loop_moment \<times> order) list \<Rightarrow> loop_state \<Rightarrow> (exn + outcome) list \<times> loop_state" where
  "place_all C W S [] s = ([], s)"
| "place_all C W S ((m, ord) # os) s =
     (let (r, s1) = place C W S m ord s; (rs, s2) = place_all C W S os s1 in (r # rs, s2))"

definition new_loop_state :: "fsys \<Rightarrow> loop_state" where
  "new_loop_state fs = \<lparr>cs_store = empty_store, cs_ledger = [], ls_fs = fs, ls_last_chef = None,
     ls_current_order_meta = None\<rparr>"

lemma place_all_verified:
  assumes "sig_correct C" and "starts S"
  shows "\<forall>(m, ord) \<in> set os. window_ok W S ord \<Longrightarrow>
    verify_ledger_rows C (ed_pub C (sv_private_key S)) (cs_ledger s) = Verified n \<Longrightarrow>
    place_all C W S os s = (rs, s') \<Longrightarrow>
    verify_ledger_rows C (ed_pub C (sv_private_key S)) (cs_ledger s') = Verified (n + length os) \<and>
      (\<forall>r \<in> set rs. \<exists>out. r = Inr out)"
proof (induction os arbitrary: s n rs s')
  case (Cons mo os)
  obtain m ord where mo: "mo = (m, ord)" by (cases mo)
  have ok: "window_ok W S ord" using Cons.prems(1) mo by simp
  obtain out s1 where p: "place C W S m ord s = (Inr out, s1)"
    "verify_ledger_rows C (ed_pub C (sv_private_key S)) (cs_ledger s1) = Verified (Suc n)"
    using place_one_row [OF assms(1) Cons.prems(2) ok assms(2), of m] by blast
  obtain rs1 s2 where q: "place_all C W S os s1 = (rs1, s2)" by fastforce
  then have "rs = Inr out # rs1" "s' = s2" using Cons.prems(3) mo p by auto
  moreover have "\<forall>(m, ord) \<in> set os. window_ok W S ord" using Cons.prems(1) by simp
  ultimately show ?case using Cons.IH [OF _ p(2) q] by simp
qed simp

section \<open>Properties\<close>


definition example_service :: service where
  "example_service = \<lparr>sv_private_key = ''sk'', sv_menu = example_menu, sv_policy_set = example_policies,
     sv_kitchen = example_kitchen (subprocess_sandbox example_crypto example_os)\<rparr>"

definition example_loop_moment :: loop_moment where
  "example_loop_moment = \<lparr>lm_moment = example_moment, lm_receipt_uuid = ''00'', lm_workspace = ''/ws/1''\<rparr>"

lemma example_starts: "starts example_service"
  by (rule starts_subprocess) (simp add: example_service_def example_kitchen_def)

lemma example_window_ok: "window_ok example_os example_service example_order"
  using example_window [of "subprocess_sandbox example_crypto example_os"]
  by (simp add: window_ok_def example_service_def example_ticket_def ticket_for_def mint_ticket_def Let_def)


text \<open>
  A defect: an order whose identifier holds a NUL byte passes the whole pipeline, and creating
  its serving directory then raises \<^verbatim>\<open>ValueError\<close>. The cashier has spent the nonce and counted the
  acceptance, but the order has no receipt, and the exception leaves \<open>place\<close>.
\<close>

theorem nul_in_order_id_loses_the_receipt:
  assumes "accepts S m s ord" and "\<not> window_ok W S ord"
  shows "\<exists>s'. place C W S m ord s = (Inl ValueError, s') \<and> cs_ledger s' = cs_ledger s \<and>
    o_nonce ord \<in> seen_nonces (cs_store s') \<and>
    times (cs_store s') (o_principal ord) (o_capability_id ord) =
      times (cs_store s) (o_principal ord) (o_capability_id ord) @ [m_accept_now (lm_moment m)]"
proof -
  have "d_accepted (evaluate_order (sv_menu S) (sv_policy_set S) (m_rate_now (lm_moment m))
      (cs_store (begin_place ord s)) ord)" using assms(1) by simp
  moreover have "CHR 0x00 \<in> set (window_path W (t_order_id (minted C S m ord)) (kn_window_root (sv_kitchen S)))"
    using assms(2) by (simp add: window_ok_def minted_fields)
  ultimately show ?thesis
    by (auto simp: place_def process_accepted spawn_chef_def run_chef_def Let_def window_dir_def
        makedirs_def minted_def)
qed

theorem nul_in_order_id_loses_the_receipt_witness:
  "\<exists>s'. place example_crypto example_os example_service example_loop_moment
      (example_order\<lparr>o_order_id := [CHR 0x00]\<rparr>) (new_loop_state example_fs) = (Inl ValueError, s') \<and> cs_ledger s' = []"
proof -
  let ?ord = "example_order\<lparr>o_order_id := [CHR 0x00]\<rparr>"
  have "accepts example_service example_loop_moment (new_loop_state example_fs) ?ord"
    using example_accepted
    by (simp add: evaluate_other_id example_service_def example_loop_moment_def example_moment_def
        new_loop_state_def)
  moreover have "\<not> window_ok example_os example_service ?ord"
    by (simp add: window_ok_def window_path_def example_service_def example_kitchen_def abspath_def example_os_def
        normpath_def path_join_def startswith_def endswith_def comps_def split_on_append)
  ultimately show ?thesis
    using nul_in_order_id_loses_the_receipt [of example_service example_loop_moment "new_loop_state example_fs" ?ord
        example_os example_crypto] by (auto simp: new_loop_state_def)
qed

text \<open>
  A defect: the serving directory is not confined to the window's root. An order identifier
  that is an absolute path names the directory itself, whatever the root, and \<^verbatim>\<open>..\<close> leaves it; the
  chef's output is then written there.
\<close>

theorem order_id_escapes_the_window:
  "window_path W (''/'' @ p) base = normpath (''/'' @ p) \<and>
   window_path example_os ''../../home/user'' ''/srv/orders'' = ''/home/user''"
proof -
  have "path_join b (''/'' @ p) = ''/'' @ p" for b by (simp add: path_join_def startswith_def)
  then have "window_path W (''/'' @ p) base = normpath (''/'' @ p)"
    by (simp only: window_path_def abspath_def)
  moreover have "window_path example_os ''../../home/user'' ''/srv/orders'' = ''/home/user''"
    by (simp add: window_path_def abspath_def example_os_def path_join_def startswith_def endswith_def
        normpath_def comps_def)
  ultimately show ?thesis by simp
qed

text \<open>The output file of an order, as the chef joins it.\<close>

lemma output_path_join:
  "output_path W K t = path_join (window_path W (t_order_id t) (kn_window_root K)) ''output.txt''"
  by (simp add: output_path_def OUTPUT_FILENAME_def)

text \<open>What the kitchen needs to serve an order: its key, its fixture and a handler that succeeds.\<close>

definition servable :: "crypto \<Rightarrow> os \<Rightarrow> service \<Rightarrow> order \<Rightarrow> fsys \<Rightarrow> string \<Rightarrow> bool" where
  "servable C W S ord fs out \<longleftrightarrow>
     (\<exists>pem cap resource loc content source h. files fs (kn_public_key_pem_path (sv_kitchen S)) = Some pem \<and>
        load_pem W pem = Pem_ed25519 (ed_pub C (sv_private_key S)) \<and>
        map_of (sv_menu S) (o_capability_id ord) = Some cap \<and> wf_json (JObj (c_behavior_config cap)) \<and>
        map_of (o_args ord) (c_scoped_input cap) = Some (JStr resource) \<and>
        guard_resource resource = Inr (o_principal ord, loc) \<and>
        inside (owner_dir W (kn_fixtures_root (sv_kitchen S)) (o_principal ord))
          (candidate_path W (kn_fixtures_root (sv_kitchen S)) (o_principal ord) loc) \<and>
        files fs (candidate_path W (kn_fixtures_root (sv_kitchen S)) (o_principal ord) loc) = Some content \<and>
        read_text content = Inr source \<and>
        map_of HANDLERS (resolved_behavior cap) = Some h \<and>
        h resource source (c_behavior_config cap) = Inr out)"

lemma servableI:
  assumes "files fs (kn_public_key_pem_path (sv_kitchen S)) = Some pem"
    and "load_pem W pem = Pem_ed25519 (ed_pub C (sv_private_key S))"
    and "map_of (sv_menu S) (o_capability_id ord) = Some cap" and "wf_json (JObj (c_behavior_config cap))"
    and "map_of (o_args ord) (c_scoped_input cap) = Some (JStr resource)"
    and "guard_resource resource = Inr (o_principal ord, loc)"
    and "inside (owner_dir W (kn_fixtures_root (sv_kitchen S)) (o_principal ord))
      (candidate_path W (kn_fixtures_root (sv_kitchen S)) (o_principal ord) loc)"
    and "files fs (candidate_path W (kn_fixtures_root (sv_kitchen S)) (o_principal ord) loc) = Some content"
    and "read_text content = Inr source" and "map_of HANDLERS (resolved_behavior cap) = Some h"
    and "h resource source (c_behavior_config cap) = Inr out"
  shows "servable C W S ord fs out"
  unfolding servable_def using assms by blast

lemma minted_signature:
  "sig_correct C \<Longrightarrow> ed_verify C (ed_pub C (sv_private_key S)) (t_cashier_sig (minted C S m ord))
    (canonical_bytes (JObj (ticket_signable_dict (minted C S m ord))))"
  by (simp add: minted_def ticket_for_def mint_ticket_def Let_def ticket_signable_dict_def sig_correctD)

lemma started_servable:
  assumes "sig_correct C" and "\<forall>p. normal_path (realpath W p)"
    and "kn_backend (sv_kitchen S) = subprocess_sandbox C W" and "servable C W S ord fs out"
  shows "\<exists>fs3. started W S m (minted C S m ord) fs = (Inr 0, fs3) \<and>
    files fs3 = (files fs)(output_path W (sv_kitchen S) (minted C S m ord) \<mapsto> out)"
proof -
  let ?K = "sv_kitchen S" and ?t = "minted C S m ord"
  let ?base = "kn_fixtures_root ?K" and ?o = "window_path W (t_order_id ?t) (kn_window_root ?K)"
  obtain pem cap resource loc content source h where s:
    "files fs (kn_public_key_pem_path ?K) = Some pem" "load_pem W pem = Pem_ed25519 (ed_pub C (sv_private_key S))"
    "map_of (sv_menu S) (o_capability_id ord) = Some cap" "wf_json (JObj (c_behavior_config cap))"
    "map_of (o_args ord) (c_scoped_input cap) = Some (JStr resource)"
    "guard_resource resource = Inr (o_principal ord, loc)"
    "inside (owner_dir W ?base (o_principal ord)) (candidate_path W ?base (o_principal ord) loc)"
    "files fs (candidate_path W ?base (o_principal ord) loc) = Some content" "read_text content = Inr source"
    "map_of HANDLERS (resolved_behavior cap) = Some h" "h resource source (c_behavior_config cap) = Inr out"
    using assms(4) unfolding servable_def by blast
  have t: "t_behavior ?t = resolved_behavior cap" "t_behavior_config ?t = c_behavior_config cap"
    "t_scoped_args ?t = [(c_scoped_input cap, JStr resource)]"
    using s(3,5) by (simp_all add: minted_def ticket_for_def mint_ticket_def Let_def narrowed_def)
  let ?fs2 = "started_fs W ?K (lm_workspace m) ?t fs"
  obtain fs3 where r: "chef_main C W [kn_chef_main ?K, kn_public_key_pem_path ?K, ?base, ?o] (payload ?t) ?fs2 =
      (Exit 0 [], fs3)" "files fs3 = (files ?fs2)(path_join ?o ''output.txt'' \<mapsto> out)"
    using chef_serves [of ?fs2 "kn_public_key_pem_path ?K" pem W "ed_pub C (sv_private_key S)" C ?t
        "c_scoped_input cap" resource "o_principal ord" loc ?base content source h out "kn_chef_main ?K" ?o]
      s t assms(2) minted_signature [OF assms(1)] by auto
  then show ?thesis
    by (simp add: started_def assms(3) subprocess_sandbox_def subprocess_run_def started_spec_def output_path_join)
qed

lemma accepted_order_served:
  assumes "sig_correct C" and "\<forall>p. normal_path (realpath W p)"
    and "kn_backend (sv_kitchen S) = subprocess_sandbox C W"
    and "verify_ledger_rows C (ed_pub C (sv_private_key S)) (cs_ledger s) = Verified n"
    and "accepts S m s ord" and "window_ok W S ord" and "servable C W S ord (ls_fs s) out"
  shows "\<exists>t cr s'. place C W S m ord s = (Inr (TicketOutcome t), s') \<and> ls_last_chef s' = Some cr \<and>
    cr_returncode cr = 0 \<and> cr_draft_bytes cr = Some out \<and>
    r_status (cr_receipt cr) = JStr ''FULFILLED'' \<and>
    r_result_digest (cr_receipt cr) = JStr (sha256_hex C out) \<and>
    verify_ledger_rows C (ed_pub C (sv_private_key S)) (cs_ledger s') = Verified (Suc n)"
proof -
  obtain fs3 where r: "started W S m (minted C S m ord) (ls_fs s) = (Inr 0, fs3)"
    "files fs3 = (files (ls_fs s))(output_path W (sv_kitchen S) (minted C S m ord) \<mapsto> out)"
    using started_servable [OF assms(1,2,3,7)] by blast
  from place_accepted [OF assms(1,4,5,6) r(1)] r(2) show ?thesis
    by (fastforce simp: receipt_matches_def)
qed


lemma example_servable:
  "servable example_crypto example_os example_service example_order example_fs
     (handle_draft_reply ''alice/t1'' ''Subject: hi'')"
  by (rule servableI [where cap = example_capability and resource = "''alice/t1''" and loc = "''t1''"
        and pem = "''sk''" and content = "''Subject: hi''" and source = "''Subject: hi''"
        and h = "\<lambda>r s c. Inr (handle_draft_reply r s)"])
      (simp_all add: example_paths example_guard example_text example_service_def example_kitchen_def example_fs_def example_crypto_def
        example_menu_def example_capability_def example_order_def resolved_behavior_def HANDLERS_def wf_dict_def,
       simp add: example_os_def)


section \<open>A principal named ..\<close>

definition leak_capability :: capability where
  "leak_capability = example_capability\<lparr>c_behavior := Some ''template'',
     c_behavior_config := [(''template'', JStr ''$body'')]\<rparr>"

definition leak_order :: order where
  "leak_order = example_order\<lparr>o_principal := ''..'', o_args := [(''thread_id'', JStr ''../secret'')]\<rparr>"

definition leak_service :: service where
  "leak_service = \<lparr>sv_private_key = ''sk'', sv_menu = [(''gmail.draft_reply'', leak_capability)],
     sv_policy_set = example_policies,
     sv_kitchen = (example_kitchen (subprocess_sandbox example_crypto example_os))
       \<lparr>kn_fixtures_root := ''/kitchen/mailbox''\<rparr>\<rparr>"

definition leak_fs :: fsys where
  "leak_fs = \<lparr>files = [''/pub.pem'' \<mapsto> ''sk'', ''/kitchen/secret.txt'' \<mapsto> ''top secret''],
     dirs = {}, trace = []\<rparr>"

lemma leak_accepted: "accepts leak_service example_loop_moment (new_loop_state leak_fs) leak_order"
  by (simp add: evaluate_order_def leak_service_def leak_capability_def leak_order_def example_defs
      example_loop_moment_def new_loop_state_def nonce_is_spent_def empty_store_def rate_count_def
      is_control_def split_first_def local_unsafe_def)

lemma leak_window_ok: "window_ok example_os leak_service leak_order"
  using example_window_ok
  by (simp add: window_ok_def leak_service_def leak_order_def example_service_def)

lemma leak_servable: "servable example_crypto example_os leak_service leak_order leak_fs ''top secret''"
proof -
  have o: "owner_dir example_os ''/kitchen/mailbox'' ''..'' = ''/kitchen''"
    by (simp add: owner_dir_def example_os_def normpath_def path_join_def startswith_def endswith_def comps_def)
  have c: "candidate_path example_os ''/kitchen/mailbox'' ''..'' ''secret'' = ''/kitchen/secret.txt''"
    unfolding candidate_path_def o
    by (simp add: example_os_def normpath_def path_join_def startswith_def endswith_def comps_def)
  have g: "guard_resource ''../secret'' = Inr (''..'', ''secret'')"
    by (simp add: guard_resource_def split_first_def is_control_def)
  have r: "read_text ''top secret'' = Inr ''top secret''"
    by (rule read_text_ascii) (simp_all add: ascii_def)
  have i: "inside ''/kitchen'' ''/kitchen/secret.txt''"
    by (simp add: inside_def comps_def)
  have h: "handle_template ''../secret'' ''top secret'' [(''template'', JStr ''$body'')] = Inr ''top secret''"
    by (simp add: handle_template_def jget_def jopt_def placeholder_def id_start_def id_char_def lookup_or_def
        safe_fields_def Let_def)
  show ?thesis
    by (rule servableI [where cap = leak_capability and resource = "''../secret''" and loc = "''secret''"
        and pem = "''sk''" and content = "''top secret''" and source = "''top secret''" and h = handle_template])
      (simp_all add: o c g r i h leak_service_def example_kitchen_def leak_fs_def example_crypto_def
        leak_capability_def leak_order_def example_order_def resolved_behavior_def HANDLERS_def
        example_capability_def wf_dict_def, simp add: example_os_def)
qed

text \<open>
  A defect: the confinement to the owner's own mailbox rests on the owner's name being a path
  component, and nothing checks that. An order that claims the principal \<^verbatim>\<open>..\<close> for the resource
  \<^verbatim>\<open>../secret\<close> passes the cashier and the chef: the file \<^verbatim>\<open>secret.txt\<close> beside the mailboxes, outside
  the fixtures root, is read and handed out.
\<close>

theorem dotdot_principal_reads_outside_the_mailboxes:
  "\<exists>t cr s'. place example_crypto example_os leak_service example_loop_moment leak_order
      (new_loop_state leak_fs) = (Inr (TicketOutcome t), s') \<and> ls_last_chef s' = Some cr \<and>
    cr_draft_bytes cr = files leak_fs ''/kitchen/secret.txt'' \<and>
    \<not> inside (kn_fixtures_root (sv_kitchen leak_service)) ''/kitchen/secret.txt''"
proof -
  note n = example_normal
  have b: "kn_backend (sv_kitchen leak_service) = subprocess_sandbox example_crypto example_os"
    by (simp add: leak_service_def example_kitchen_def)
  have v: "verify_ledger_rows example_crypto (ed_pub example_crypto (sv_private_key leak_service))
      (cs_ledger (new_loop_state leak_fs)) = Verified 0"
    by (simp add: new_loop_state_def verify_ledger_rows_def)
  have s: "servable example_crypto example_os leak_service leak_order (ls_fs (new_loop_state leak_fs)) ''top secret''"
    using leak_servable by (simp add: new_loop_state_def)
  have "\<not> inside ''/kitchen/mailbox'' ''/kitchen/secret.txt''" by (simp add: inside_def comps_def)
  then show ?thesis
    using accepted_order_served [OF sig_correct_example n b v leak_accepted leak_window_ok s]
    by (auto simp: leak_fs_def leak_service_def)
qed

end
