(* ===== verification/Inspector.thy ===== *)
theory Inspector
  imports Policy "HOL-Library.Product_Lexorder"
begin

text \<open>
  \<^verbatim>\<open>inspector.py\<close>: the operator's view of the receipt ledger. \<open>check_chain\<close> walks the parsed rows,
  \<open>build_report\<close> tallies them and applies a fixed table of rules, \<open>render_text\<close> prints the report.
  A reason code or a principal that is not a string was not written by the cashier; a report over
  such rows is outside the model (\<open>Ill_typed\<close>). \<^verbatim>\<open>repr\<close> of a string depends on the Unicode tables
  and is a parameter.
\<close>

section \<open>Reading and checking\<close>

definition read_rows :: "table \<Rightarrow> exn + (int \<times> json) list" where
  "read_rows t = map_res (\<lambda>(seq, raw). bind_res (loads raw) (\<lambda>row. Inr (seq, row))) t"

text \<open>\<^verbatim>\<open>public_key.verify(base64.b64decode(row["sig"]), recomputed)\<close>: another kind of key raises, and is caught.\<close>

definition inspect_signature :: "crypto \<Rightarrow> pem_file \<Rightarrow> json dict \<Rightarrow> string \<Rightarrow> bool" where
  "inspect_signature C key d recomputed =
     (case key of Pem_ed25519 pk \<Rightarrow> check_signature C pk (jget d ''sig'') recomputed | _ \<Rightarrow> False)"

definition inspect_row :: "crypto \<Rightarrow> pem_file option \<Rightarrow> string \<Rightarrow> json \<Rightarrow> row_check" where
  "inspect_row C public_key expected_prev row =
     (case row of
        JObj d \<Rightarrow>
          let recomputed = sha256_hex C (canonical_bytes (JObj (drop_excluded d)))
          in if jget d ''this_hash'' \<noteq> JStr recomputed then Refuse ''hash_mismatch''
             else if jget d ''prev_hash'' \<noteq> JStr expected_prev then Refuse ''prev_hash_mismatch''
             else (case public_key of
                None \<Rightarrow> Advance recomputed
              | Some key \<Rightarrow>
                  if inspect_signature C key d recomputed then Advance recomputed else Refuse ''bad_signature'')
      | _ \<Rightarrow> Raise AttributeError)"

definition check_chain :: "crypto \<Rightarrow> pem_file option \<Rightarrow> (int \<times> json) list \<Rightarrow> verdict" where
  "check_chain C public_key rows = walk (inspect_row C public_key) (GENESIS_PREV_HASH C) 0 rows"

section \<open>The report\<close>

record rule =
  rl_severity :: string
  rl_code :: string
  rl_explanation :: string

definition REASON_RULES :: "(string \<times> rule) list" where
  "REASON_RULES =
     [(''OFF_MENU'', \<lparr>rl_severity = ''high'', rl_code = ''OFF_MENU_ATTEMPTS'', rl_explanation =
         ''order(s) for capabilities not on the menu - the signature of a '' @
         ''prompt-injected or misbehaving agent. The cashier refused before '' @ ''any execution.''\<rparr>),
      (''REPLAY'', \<lparr>rl_severity = ''high'', rl_code = ''REPLAY_ATTEMPTS'', rl_explanation =
         ''order(s) reusing an already-spent nonce - possible replay attack '' @ ''or a badly looping agent.''\<rparr>),
      (''OUT_OF_SCOPE'', \<lparr>rl_severity = ''medium'', rl_code = ''SCOPE_VIOLATIONS'', rl_explanation =
         ''order(s) reaching for data outside the principal's own scope - '' @ ''possible cross-tenant probing.''\<rparr>),
      (''ROLE_NOT_PERMITTED'', \<lparr>rl_severity = ''medium'', rl_code = ''ROLE_VIOLATIONS'', rl_explanation =
         ''order(s) from roles the policy does not permit - possible '' @
         ''privilege escalation attempt or a policy gap.''\<rparr>),
      (''RATE_LIMITED'', \<lparr>rl_severity = ''low'', rl_code = ''RATE_PRESSURE'', rl_explanation =
         ''order(s) rejected by the rate limit - an agent running hot, or a '' @
         ''limit set too tight for legitimate traffic.''\<rparr>),
      (''EXECUTION_FAILED'', \<lparr>rl_severity = ''medium'', rl_code = ''EXECUTION_FAILURES'', rl_explanation =
         ''authorized order(s) whose chef failed to produce a result - '' @
         ''investigate the kitchen, not the diner.''\<rparr>),
      (''CAPABILITY_PAUSED'', \<lparr>rl_severity = ''low'', rl_code = ''PAUSED_CAPABILITY_HITS'', rl_explanation =
         ''order(s) for a capability the operator has PAUSED (kill switch) - '' @
         ''expected traffic against a deliberate pause, not an attack in '' @
         ''itself; confirm the pause is still intended.''\<rparr>),
      (''USER_DENIED'', \<lparr>rl_severity = ''medium'', rl_code = ''USER_DENIALS'', rl_explanation =
         ''policy-authorized action(s) the user DENIED at the confirmation '' @
         ''prompt - the agent wanted a high-stakes action you declined. Worth a '' @
         ''look if it recurs (an agent repeatedly pushing the same action).''\<rparr>),
      (''USER_BLOCKED'', \<lparr>rl_severity = ''medium'', rl_code = ''BLOCKED_CAPABILITY_HITS'', rl_explanation =
         ''action(s) for a capability the user set to BLOCK in their '' @
         ''permissions - the agent tried something explicitly forbidden. '' @
         ''Recurring hits suggest a confused or hijacked agent.''\<rparr>),
      (''MALFORMED_ORDER'', \<lparr>rl_severity = ''medium'', rl_code = ''MALFORMED_INTAKE'', rl_explanation =
         ''intake(s) the gateway could not admit as a valid order - recorded '' @
         ''under a gateway identity so no probe escapes the chain. Malformed '' @
         ''traffic at the boundary can be fuzzing or a broken client; recurring '' @
         ''hits warrant a look at the source.''\<rparr>)]"

record principal_entry =
  pe_orders :: nat
  pe_fulfilled :: nat
  pe_rejected :: nat
  pe_capabilities :: "json list"

record tally =
  ta_fulfilled :: nat
  ta_rejected :: nat
  ta_by_reason :: "int list dict"
  ta_by_principal :: "principal_entry dict"
  ta_mock :: nat
  ta_legacy :: nat

definition no_tally :: tally where
  "no_tally = \<lparr>ta_fulfilled = 0, ta_rejected = 0, ta_by_reason = [], ta_by_principal = [], ta_mock = 0, ta_legacy = 0\<rparr>"

definition reason_of :: "json dict \<Rightarrow> load_error + string" where
  "reason_of d = (if falsy (jget d ''reason_code'') then Inr ''UNSPECIFIED'' else as_str (jget d ''reason_code''))"

abbreviation is_fulfilled :: "json dict \<Rightarrow> bool" where
  "is_fulfilled d \<equiv> jget d ''status'' = JStr ''FULFILLED''"

definition tally_status :: "int \<Rightarrow> json dict \<Rightarrow> tally \<Rightarrow> load_error + tally" where
  "tally_status seq d ta =
     (if is_fulfilled d then Inr (ta\<lparr>ta_fulfilled := Suc (ta_fulfilled ta)\<rparr>)
      else bind_res (reason_of d) (\<lambda>reason.
        let seqs = (case map_of (ta_by_reason ta) reason of None \<Rightarrow> [] | Some ss \<Rightarrow> ss)
        in Inr (ta\<lparr>ta_rejected := Suc (ta_rejected ta),
                  ta_by_reason := AList.update reason (seqs @ [seq]) (ta_by_reason ta)\<rparr>)))"

definition is_mock :: "json dict \<Rightarrow> bool" where
  "is_mock d = (case jget d ''attestation'' of JObj a \<Rightarrow> jget a ''mock'' = JBool True | _ \<Rightarrow> False)"

definition tally_entry :: "bool \<Rightarrow> json \<Rightarrow> principal_entry \<Rightarrow> principal_entry" where
  "tally_entry fulfilled cap e =
     \<lparr>pe_orders = Suc (pe_orders e),
      pe_fulfilled = (if fulfilled then Suc (pe_fulfilled e) else pe_fulfilled e),
      pe_rejected = (if fulfilled then pe_rejected e else Suc (pe_rejected e)),
      pe_capabilities = (if falsy cap \<or> cap \<in> set (pe_capabilities e) then pe_capabilities e
                         else pe_capabilities e @ [cap])\<rparr>"

definition no_entry :: principal_entry where
  "no_entry = \<lparr>pe_orders = 0, pe_fulfilled = 0, pe_rejected = 0, pe_capabilities = []\<rparr>"

definition tally_principal :: "json dict \<Rightarrow> tally \<Rightarrow> load_error + tally" where
  "tally_principal d ta =
     (case jget d ''order_meta'' of
        JObj meta \<Rightarrow>
          bind_res (as_str (field_or meta ''principal'' (JStr ''(unknown)''))) (\<lambda>principal.
            let e = (case map_of (ta_by_principal ta) principal of None \<Rightarrow> no_entry | Some e \<Rightarrow> e)
            in Inr (ta\<lparr>ta_by_principal := AList.update principal
                  (tally_entry (is_fulfilled d) (jget meta ''capability_id'') e) (ta_by_principal ta)\<rparr>))
      | _ \<Rightarrow> Inr (ta\<lparr>ta_legacy := Suc (ta_legacy ta)\<rparr>))"

definition tally_row :: "int \<times> json \<Rightarrow> tally \<Rightarrow> load_error + tally" where
  "tally_row sr ta =
     (case sr of (seq, row) \<Rightarrow>
        bind_res (lift (items row)) (\<lambda>d.
        bind_res (tally_status seq d ta) (\<lambda>ta.
          tally_principal d (if is_mock d then ta\<lparr>ta_mock := Suc (ta_mock ta)\<rparr> else ta))))"

fun tally_rows :: "(int \<times> json) list \<Rightarrow> tally \<Rightarrow> load_error + tally" where
  "tally_rows [] ta = Inr ta"
| "tally_rows (r # rows) ta = bind_res (tally_row r ta) (tally_rows rows)"

record finding =
  fd_severity :: string
  fd_code :: string
  fd_message :: string
  fd_receipts :: "int list"

definition chain_finding :: "verdict \<Rightarrow> finding list" where
  "chain_finding v =
     (case v of
        Broken seq reason \<Rightarrow>
          [\<lparr>fd_severity = ''critical'', fd_code = ''CHAIN_BROKEN'',
            fd_message = ''the receipt chain FAILS verification at seq '' @ string_of_int seq @ '' ('' @ reason @
              '') - every row from there on is untrustworthy. '' @
              ''Preserve the db and investigate before anything else.'',
            fd_receipts = [seq]\<rparr>]
      | _ \<Rightarrow> [])"

definition rule_finding :: "int list dict \<Rightarrow> string \<times> rule \<Rightarrow> finding list" where
  "rule_finding by_reason rr =
     (case map_of by_reason (fst rr) of
        Some (seq # seqs) \<Rightarrow>
          [\<lparr>fd_severity = rl_severity (snd rr), fd_code = rl_code (snd rr),
            fd_message = string_of_nat (length (seq # seqs)) @ '' '' @ rl_explanation (snd rr),
            fd_receipts = seq # seqs\<rparr>]
      | _ \<Rightarrow> [])"

definition unknown_reasons :: "int list dict \<Rightarrow> string list" where
  "unknown_reasons by_reason =
     sort (filter (\<lambda>r. r \<notin> set (keys REASON_RULES) \<and> r \<noteq> ''UNSPECIFIED'') (keys by_reason))"

definition unknown_finding :: "(string \<Rightarrow> string) \<Rightarrow> int list dict \<Rightarrow> string \<Rightarrow> finding" where
  "unknown_finding repr by_reason reason =
     (let seqs = the (map_of by_reason reason) in
      \<lparr>fd_severity = ''medium'', fd_code = ''UNRECOGNIZED_REASON'',
       fd_message = string_of_nat (length seqs) @ '' rejection(s) with reason code '' @ repr reason @
         '' this inspector has no rule for - review manually.'',
       fd_receipts = seqs\<rparr>)"

definition mock_finding :: "nat \<Rightarrow> finding list" where
  "mock_finding n =
     (if n = 0 then [] else
        [\<lparr>fd_severity = ''info'', fd_code = ''ATTESTATION_IS_MOCK'',
          fd_message = string_of_nat n @ '' receipt(s) carry MOCK attestations - they '' @
            ''prove the attestation slot, NOT a TEE. Do not present them '' @ ''to an auditor as hardware evidence.'',
          fd_receipts = []\<rparr>])"

definition severity_rank :: "string \<Rightarrow> nat" where
  "severity_rank s =
     the (map_of [(''critical'', 0), (''high'', 1), (''medium'', 2), (''low'', 3), (''info'', 4)] s)"

definition all_findings :: "(string \<Rightarrow> string) \<Rightarrow> verdict \<Rightarrow> tally \<Rightarrow> finding list" where
  "all_findings repr v ta =
     sort_key (\<lambda>f. (severity_rank (fd_severity f), fd_code f))
       (chain_finding v @ concat (map (rule_finding (ta_by_reason ta)) REASON_RULES) @
        map (unknown_finding repr (ta_by_reason ta)) (unknown_reasons (ta_by_reason ta)) @
        mock_finding (ta_mock ta))"

record report =
  rp_receipts_total :: nat
  rp_chain_valid :: bool
  rp_first_broken_seq :: "int option"
  rp_signatures_checked :: bool
  rp_fulfilled :: nat
  rp_rejected :: nat
  rp_by_reason :: "nat dict"
  rp_by_principal :: "principal_entry dict"
  rp_legacy_rows :: nat
  rp_findings :: "finding list"

definition build_report ::
  "crypto \<Rightarrow> (string \<Rightarrow> string) \<Rightarrow> pem_file option \<Rightarrow> (int \<times> json) list \<Rightarrow> load_error + report" where
  "build_report C repr public_key rows =
     (case check_chain C public_key rows of
        Crashed e \<Rightarrow> Inl (Raises e)
      | v \<Rightarrow>
          bind_res (tally_rows rows no_tally) (\<lambda>ta. Inr
            \<lparr>rp_receipts_total = length rows,
             rp_chain_valid = (case v of Verified _ \<Rightarrow> True | _ \<Rightarrow> False),
             rp_first_broken_seq = (case v of Broken seq _ \<Rightarrow> Some seq | _ \<Rightarrow> None),
             rp_signatures_checked = (public_key \<noteq> None),
             rp_fulfilled = ta_fulfilled ta, rp_rejected = ta_rejected ta,
             rp_by_reason = map (\<lambda>(k, v). (k, length v)) (sort_key fst (ta_by_reason ta)),
             rp_by_principal = sort_key fst (ta_by_principal ta),
             rp_legacy_rows = ta_legacy ta,
             rp_findings = all_findings repr v ta\<rparr>))"

section \<open>Output\<close>

definition entry_json :: "principal_entry \<Rightarrow> json" where
  "entry_json e = JObj [(''orders'', JInt (int (pe_orders e))), (''fulfilled'', JInt (int (pe_fulfilled e))),
     (''rejected'', JInt (int (pe_rejected e))), (''capabilities'', JArr (pe_capabilities e))]"

definition finding_json :: "finding \<Rightarrow> json" where
  "finding_json f = JObj [(''severity'', JStr (fd_severity f)), (''code'', JStr (fd_code f)),
     (''message'', JStr (fd_message f)), (''receipts'', JArr (map JInt (fd_receipts f)))]"

definition report_json :: "report \<Rightarrow> json dict" where
  "report_json r =
     [(''receipts_total'', JInt (int (rp_receipts_total r))), (''chain_valid'', JBool (rp_chain_valid r)),
      (''first_broken_seq'', case rp_first_broken_seq r of None \<Rightarrow> JNull | Some s \<Rightarrow> JInt s),
      (''signatures_checked'', JBool (rp_signatures_checked r)),
      (''fulfilled'', JInt (int (rp_fulfilled r))), (''rejected'', JInt (int (rp_rejected r))),
      (''by_reason'', JObj (map (\<lambda>(k, n). (k, JInt (int n))) (rp_by_reason r))),
      (''by_principal'', JObj (map (\<lambda>(k, e). (k, entry_json e)) (rp_by_principal r))),
      (''legacy_rows'', JInt (int (rp_legacy_rows r))),
      (''findings'', JArr (map finding_json (rp_findings r)))]"

text \<open>\<^verbatim>\<open>", ".join(xs)\<close> raises on a value that is no string.\<close>

fun str_item :: "json \<Rightarrow> exn + string" where
  "str_item (JStr s) = Inr s"
| "str_item _ = Inl TypeError"

definition principal_line :: "string \<times> principal_entry \<Rightarrow> exn + string" where
  "principal_line pe =
     (case pe of (who, e) \<Rightarrow>
        bind_res (map_res str_item (pe_capabilities e)) (\<lambda>caps.
          let listed = join '', '' caps
          in Inr (''principal '' @ who @ '': '' @ string_of_nat (pe_orders e) @ '' order(s), '' @
            string_of_nat (pe_fulfilled e) @ '' fulfilled, '' @ string_of_nat (pe_rejected e) @ '' rejected, '' @
            ''capabilities: '' @ (if listed = [] then ''(none)'' else listed))))"

definition ljust :: "nat \<Rightarrow> string \<Rightarrow> string" where
  "ljust n s = s @ replicate (n - length s) CHR '' ''"

definition finding_line :: "finding \<Rightarrow> string" where
  "finding_line f =
     ''  '' @ ljust 8 (map upper_char (fd_severity f)) @ '' '' @ fd_code f @ '': '' @ fd_message f @
     (if fd_receipts f = [] then [] else '' [receipt seq: '' @ join '', '' (map string_of_int (fd_receipts f)) @ '']'')"

definition render_text :: "report \<Rightarrow> exn + string" where
  "render_text r =
     bind_res (map_res principal_line (rp_by_principal r)) (\<lambda>principals. Inr (join [CHR 0x0A] (
       [''INSPECTOR REPORT'',
        ''chain: '' @ (if rp_chain_valid r then ''VALID'' else ''BROKEN'') @ '' ('' @
          string_of_nat (rp_receipts_total r) @ '' receipt(s)'' @
          (if rp_signatures_checked r then '', signatures checked'' else '', signatures NOT checked - pass --pubkey'') @
          '')'',
        ''orders: '' @ string_of_nat (rp_fulfilled r) @ '' fulfilled, '' @ string_of_nat (rp_rejected r) @ '' rejected''] @
       (if rp_by_reason r = [] then []
        else [''rejections: '' @ join '', '' (map (\<lambda>(reason, n). string_of_nat n @ '' '' @ reason) (rp_by_reason r))]) @
       principals @
       (if rp_legacy_rows r = 0 then []
        else [string_of_nat (rp_legacy_rows r) @ '' pre-v0.2 receipt(s) carry no order metadata '' @
          ''(counted in totals, absent from per-principal lines)'']) @
       (if rp_findings r = [] then [''no findings''] else [[], ''FINDINGS''] @ map finding_line (rp_findings r)))))"

text \<open>
  The program on its parsed arguments: the ledger's path, the key file's and \<^verbatim>\<open>--json\<close>. The result is
  the exit code and the printed text; \<open>err\<close> stands for the decoder's message on a row that is no JSON.
\<close>

definition inspector_main ::
  "crypto \<Rightarrow> (string \<Rightarrow> string) \<Rightarrow> string \<Rightarrow> (string \<Rightarrow> pem_file) \<Rightarrow> (string \<Rightarrow> db_file) \<Rightarrow>
   string \<times> string option \<times> bool \<Rightarrow> load_error + nat \<times> string" where
  "inspector_main C repr err pems dbs args =
     (case args of (ledger, pubkey, json) \<Rightarrow>
       let key = map_option pems pubkey in
       if key = Some Pem_unreadable
       then Inr (2, ''usage: cannot read a public key from '' @ the pubkey)
       else
         let cannot = (\<lambda>exc. Inr (2, ''usage: cannot read receipts from '' @ ledger @ '': '' @ exc)) in
         (case dbs ledger of
            Db_no_open exc \<Rightarrow> cannot exc
          | Db_no_table exc \<Rightarrow> cannot exc
          | Db_rows t \<Rightarrow>
              (case read_rows t of
                 Inl e \<Rightarrow> if e = ValueError then cannot err else Inl (Raises e)
               | Inr rows \<Rightarrow>
                   bind_res (build_report C repr key rows) (\<lambda>r.
                     let code = (if rp_chain_valid r then 0 else 1) in
                     if json then Inr (code, dumps indent2_style 0 (canon (JObj (report_json r))))
                     else bind_res (lift (render_text r)) (\<lambda>text. Inr (code, text))))))"

section \<open>The walk and the standalone verifier\<close>

definition has_content_keys :: "json \<Rightarrow> bool" where
  "has_content_keys row = (case row of JObj d \<Rightarrow> set CONTENT_KEYS \<subseteq> set (keys d) | _ \<Rightarrow> False)"

lemma inspect_row_Advance:
  "inspect_row C key p row = Advance h \<longleftrightarrow>
     (\<exists>d. row = JObj d \<and> h = sha256_hex C (canonical_bytes (JObj (drop_excluded d))) \<and>
        jget d ''this_hash'' = JStr h \<and> jget d ''prev_hash'' = JStr p \<and>
        (\<forall>k. key = Some k \<longrightarrow> inspect_signature C k d h))"
  by (cases row; cases key) (auto simp: inspect_row_def Let_def)

lemma jget_keys: "jget d k \<noteq> JNull \<Longrightarrow> k \<in> set (keys d)"
  by (auto simp: keys_iff jget_def jopt_def split: option.splits)

lemma check_row_inspect:
  "check_row C pk CONTENT_KEYS p raw = Advance h \<longleftrightarrow>
     (\<exists>row. loads raw = Inr row \<and> has_content_keys row \<and>
        inspect_row C (Some (Pem_ed25519 pk)) p row = Advance h)"
proof -
  have "''sig'' \<in> set (keys d)" if "check_signature C pk (jget d ''sig'') h" for d
    using that by (intro jget_keys) (auto simp: check_signature_def decode_sig_def)
  then show ?thesis
    unfolding check_row_Advance inspect_row_Advance
    by (auto simp: loads_def has_content_keys_def inspect_signature_def EXCLUDED_KEYS_def jget_keys
        split: option.splits)
qed

lemma end_hash_inspect:
  "end_hash (check_row C pk CONTENT_KEYS) p t = Some h \<longleftrightarrow>
     (\<exists>rows. read_rows t = Inr rows \<and> list_all (has_content_keys \<circ> snd) rows \<and>
        end_hash (inspect_row C (Some (Pem_ed25519 pk))) p rows = Some h)"
proof (induction t arbitrary: p)
  case Nil
  show ?case by (simp add: read_rows_def)
next
  case (Cons r t)
  obtain s raw where r: "r = (s, raw)" by (cases r)
  have "end_hash (check_row C pk CONTENT_KEYS) p (r # t) = Some h \<longleftrightarrow>
      (\<exists>q. check_row C pk CONTENT_KEYS p raw = Advance q \<and> end_hash (check_row C pk CONTENT_KEYS) q t = Some h)"
    by (simp add: r end_hash_Cons del: end_hash.simps)
  also have "\<dots> \<longleftrightarrow> (\<exists>row rows. loads raw = Inr row \<and> read_rows t = Inr rows \<and> has_content_keys row \<and>
      list_all (has_content_keys \<circ> snd) rows \<and>
      end_hash (inspect_row C (Some (Pem_ed25519 pk))) p ((s, row) # rows) = Some h)"
    unfolding Cons.IH check_row_inspect end_hash_Cons by blast
  also have "\<dots> \<longleftrightarrow> (\<exists>rows. read_rows (r # t) = Inr rows \<and> list_all (has_content_keys \<circ> snd) rows \<and>
      end_hash (inspect_row C (Some (Pem_ed25519 pk))) p rows = Some h)"
    by (auto simp: r read_rows_def bind_res_Inr)
  finally show ?case .
qed

lemma read_rows_length: "read_rows t = Inr rows \<Longrightarrow> length rows = length t"
  by (induction t arbitrary: rows) (auto simp: read_rows_def bind_res_Inr)

section \<open>The tally\<close>

lemma tally_rows_append:
  "tally_rows (rows @ rows') ta = bind_res (tally_rows rows ta) (tally_rows rows')"
proof (induction rows arbitrary: ta)
  case (Cons r rows)
  then show ?case by (cases "tally_row r ta") auto
qed simp

text \<open>What the tally keeps: every row is in exactly one of the counts of each kind.\<close>

definition sum_vals :: "('v \<Rightarrow> nat) \<Rightarrow> 'v dict \<Rightarrow> nat" where
  "sum_vals f d = sum_list (map (f \<circ> snd) d)"

lemma sum_vals_update:
  "wf_dict d \<Longrightarrow> sum_vals f (AList.update k v d) + (case map_of d k of None \<Rightarrow> 0 | Some w \<Rightarrow> f w) =
    sum_vals f d + f v"
  by (induction d) (auto simp: sum_vals_def wf_dict_def split: option.splits dest: weak_map_of_SomeI map_of_SomeD)

definition rejected_for :: "(int \<times> json) list \<Rightarrow> string \<Rightarrow> int \<Rightarrow> bool" where
  "rejected_for rows reason seq \<longleftrightarrow>
     (\<exists>d. (seq, JObj d) \<in> set rows \<and> \<not> is_fulfilled d \<and> reason_of d = Inr reason)"

definition filed :: "tally \<Rightarrow> string \<Rightarrow> int \<Rightarrow> bool" where
  "filed ta reason seq \<longleftrightarrow> (\<exists>seqs. map_of (ta_by_reason ta) reason = Some seqs \<and> seq \<in> set seqs)"

lemma rejected_for_snoc:
  "rejected_for (rows @ [(s, JObj d)]) x y \<longleftrightarrow>
     rejected_for rows x y \<or> (y = s \<and> \<not> is_fulfilled d \<and> reason_of d = Inr x)"
  by (auto simp: rejected_for_def)

definition accounts_status :: "(int \<times> json) list \<Rightarrow> tally \<Rightarrow> bool" where
  "accounts_status rows ta \<longleftrightarrow>
     wf_dict (ta_by_reason ta) \<and> ta_fulfilled ta + ta_rejected ta = length rows \<and>
     sum_vals length (ta_by_reason ta) = ta_rejected ta \<and> [] \<notin> snd ` set (ta_by_reason ta) \<and>
     (\<forall>reason seq. filed ta reason seq \<longleftrightarrow> rejected_for rows reason seq)"

definition accounts_principals :: "nat \<Rightarrow> tally \<Rightarrow> bool" where
  "accounts_principals n ta \<longleftrightarrow>
     wf_dict (ta_by_principal ta) \<and> sum_vals pe_orders (ta_by_principal ta) + ta_legacy ta = n \<and>
     (\<forall>e \<in> snd ` set (ta_by_principal ta). pe_orders e = pe_fulfilled e + pe_rejected e)"

lemma accounts_status_step:
  assumes "accounts_status rows ta" and "tally_status seq d ta = Inr ta'"
  shows "accounts_status (rows @ [(seq, JObj d)]) ta'"
proof (cases "is_fulfilled d")
  case True
  then have ta': "ta' = ta\<lparr>ta_fulfilled := Suc (ta_fulfilled ta)\<rparr>" using assms(2) by (simp add: tally_status_def)
  then have "filed ta' x y = filed ta x y" for x y by (simp add: filed_def)
  then show ?thesis using assms(1) True by (simp add: accounts_status_def rejected_for_snoc ta')
next
  case False
  then obtain reason where r: "reason_of d = Inr reason" using assms(2) by (auto simp: tally_status_def bind_res_Inr)
  define seqs where "seqs = (case map_of (ta_by_reason ta) reason of None \<Rightarrow> [] | Some ss \<Rightarrow> ss)"
  have ta': "ta' = ta\<lparr>ta_rejected := Suc (ta_rejected ta),
      ta_by_reason := AList.update reason (seqs @ [seq]) (ta_by_reason ta)\<rparr>"
    using assms(2) False r by (simp add: tally_status_def seqs_def Let_def)
  have wf: "wf_dict (ta_by_reason ta)" using assms(1) by (simp add: accounts_status_def)
  have "sum_vals length (AList.update reason (seqs @ [seq]) (ta_by_reason ta)) = Suc (sum_vals length (ta_by_reason ta))"
    using sum_vals_update [OF wf, of length reason "seqs @ [seq]"] by (simp add: seqs_def split: option.splits)
  moreover have "[] \<notin> snd ` set (AList.update reason (seqs @ [seq]) (ta_by_reason ta))"
    using assms(1) set_update_subset [of reason "seqs @ [seq]" "ta_by_reason ta"]
    by (auto simp: accounts_status_def)
  moreover have "filed ta' x y \<longleftrightarrow> filed ta x y \<or> (y = seq \<and> x = reason)" for x y
    by (cases "map_of (ta_by_reason ta) reason") (auto simp: filed_def ta' dict_simps seqs_def)
  then have "filed ta' x y \<longleftrightarrow> rejected_for (rows @ [(seq, JObj d)]) x y" for x y
    using assms(1) False r by (auto simp: accounts_status_def rejected_for_snoc)
  ultimately show ?thesis
    using assms(1) wf by (simp add: accounts_status_def ta')
qed

lemma accounts_principals_step:
  assumes "accounts_principals n ta" and "tally_principal d ta = Inr ta'"
  shows "accounts_principals (Suc n) ta'"
proof (cases "jget d ''order_meta''")
  case (JObj meta)
  then obtain who where w: "as_str (field_or meta ''principal'' (JStr ''(unknown)'')) = Inr who"
    using assms(2) by (auto simp: tally_principal_def bind_res_Inr)
  define e where "e = (case map_of (ta_by_principal ta) who of None \<Rightarrow> no_entry | Some e \<Rightarrow> e)"
  define e' where "e' = tally_entry (is_fulfilled d) (jget meta ''capability_id'') e"
  have ta': "ta' = ta\<lparr>ta_by_principal := AList.update who e' (ta_by_principal ta)\<rparr>"
    using assms(2) JObj w by (simp add: tally_principal_def e_def e'_def Let_def)
  have wf: "wf_dict (ta_by_principal ta)"
    and old: "\<forall>e \<in> snd ` set (ta_by_principal ta). pe_orders e = pe_fulfilled e + pe_rejected e"
    using assms(1) by (simp_all add: accounts_principals_def)
  have "pe_orders e = pe_fulfilled e + pe_rejected e"
    using old by (auto simp: e_def no_entry_def split: option.split dest!: map_of_SomeD)
  then have "pe_orders e' = pe_fulfilled e' + pe_rejected e'" by (simp add: e'_def tally_entry_def)
  then have "\<forall>e \<in> snd ` set (AList.update who e' (ta_by_principal ta)). pe_orders e = pe_fulfilled e + pe_rejected e"
    using old set_update_subset [of who e' "ta_by_principal ta"] by fastforce
  moreover have "sum_vals pe_orders (AList.update who e' (ta_by_principal ta)) = Suc (sum_vals pe_orders (ta_by_principal ta))"
  proof -
    have "pe_orders e' = Suc (pe_orders e)" by (simp add: e'_def tally_entry_def)
    then show ?thesis
      using sum_vals_update [OF wf, of pe_orders who e'] by (simp add: e_def no_entry_def split: option.splits)
  qed
  ultimately show ?thesis using assms(1) wf by (simp add: accounts_principals_def ta')
qed (use assms in \<open>auto simp: accounts_principals_def tally_principal_def\<close>)

lemma tally_principal_status:
  "tally_principal d ta = Inr ta' \<Longrightarrow> ta_by_reason ta' = ta_by_reason ta \<and> ta_fulfilled ta' = ta_fulfilled ta \<and>
    ta_rejected ta' = ta_rejected ta"
  by (auto simp: tally_principal_def bind_res_Inr Let_def split: json.splits)

lemma tally_status_principal:
  "tally_status seq d ta = Inr ta' \<Longrightarrow> ta_by_principal ta' = ta_by_principal ta \<and> ta_legacy ta' = ta_legacy ta"
  by (auto simp: tally_status_def bind_res_Inr Let_def split: if_splits)

definition accounts :: "(int \<times> json) list \<Rightarrow> tally \<Rightarrow> bool" where
  "accounts rows ta \<longleftrightarrow> accounts_status rows ta \<and> accounts_principals (length rows) ta"

lemma accounts_step:
  assumes "accounts rows ta" and "tally_row r ta = Inr ta'"
  shows "accounts (rows @ [r]) ta'"
proof -
  obtain seq row where r: "r = (seq, row)" by (cases r)
  obtain d ta1 where d: "row = JObj d" "tally_status seq d ta = Inr ta1"
    "tally_principal d (if is_mock d then ta1\<lparr>ta_mock := Suc (ta_mock ta1)\<rparr> else ta1) = Inr ta'" (is "tally_principal d ?ta2 = _")
    using assms(2) by (cases row) (auto simp: r tally_row_def lift_def bind_res_Inr)
  have "accounts_status (rows @ [r]) ta1" unfolding r d(1) using accounts_status_step [OF _ d(2)] assms(1) by (simp add: accounts_def)
  then have "accounts_status (rows @ [r]) ta'"
    using tally_principal_status [OF d(3)] by (simp add: accounts_status_def filed_def)
  moreover have "accounts_principals (length rows) ?ta2"
    using assms(1) tally_status_principal [OF d(2)] by (simp add: accounts_def accounts_principals_def)
  then have "accounts_principals (Suc (length rows)) ta'" using d(3) by (rule accounts_principals_step)
  ultimately show ?thesis by (simp add: accounts_def)
qed

lemma accounts_rows:
  "accounts done_rows ta \<Longrightarrow> tally_rows rows ta = Inr ta' \<Longrightarrow> accounts (done_rows @ rows) ta'"
proof (induction rows arbitrary: done_rows ta)
  case (Cons r rows)
  then obtain ta1 where "tally_row r ta = Inr ta1" "tally_rows rows ta1 = Inr ta'" by (auto simp: bind_res_Inr)
  then show ?case using Cons.IH [OF accounts_step [OF Cons.prems(1)]] by fastforce
qed simp

lemma tally_accounts: "tally_rows rows no_tally = Inr ta \<Longrightarrow> accounts rows ta"
  using accounts_rows [of "[]" no_tally rows ta]
  by (simp add: accounts_def accounts_status_def accounts_principals_def no_tally_def sum_vals_def filed_def rejected_for_def)

section \<open>The findings\<close>

text \<open>The finding a reason code is reported under.\<close>

definition code_for :: "string \<Rightarrow> string" where
  "code_for reason = (case map_of REASON_RULES reason of Some rl \<Rightarrow> rl_code rl | None \<Rightarrow> ''UNRECOGNIZED_REASON'')"

lemma wf_REASON_RULES: "wf_dict REASON_RULES"
  by (simp add: REASON_RULES_def wf_dict_def)

lemma REASON_RULES_ranks: "(reason, rl) \<in> set REASON_RULES \<Longrightarrow> 0 < severity_rank (rl_severity rl)"
  by (auto simp: REASON_RULES_def severity_rank_def)

text \<open>The findings other than the one about the chain.\<close>

definition reason_findings :: "(string \<Rightarrow> string) \<Rightarrow> tally \<Rightarrow> finding list" where
  "reason_findings repr ta =
     concat (map (rule_finding (ta_by_reason ta)) REASON_RULES) @
     map (unknown_finding repr (ta_by_reason ta)) (unknown_reasons (ta_by_reason ta)) @ mock_finding (ta_mock ta)"

lemma all_findings_set: "set (all_findings repr v ta) = set (chain_finding v) \<union> set (reason_findings repr ta)"
  by (simp add: all_findings_def reason_findings_def)

lemma reason_findings_rank: "f \<in> set (reason_findings repr ta) \<Longrightarrow> 0 < severity_rank (fd_severity f)"
  by (auto simp: reason_findings_def rule_finding_def unknown_finding_def mock_finding_def Let_def
      REASON_RULES_ranks severity_rank_def split: option.splits list.splits if_splits dest: REASON_RULES_ranks)

lemma reason_findings_receipts:
  assumes "f \<in> set (reason_findings repr ta)" and "seq \<in> set (fd_receipts f)"
  shows "\<exists>reason. filed ta reason seq"
proof -
  consider reason rl where "f \<in> set (rule_finding (ta_by_reason ta) (reason, rl))"
    | reason where "reason \<in> set (unknown_reasons (ta_by_reason ta))" "f = unknown_finding repr (ta_by_reason ta) reason"
    | "f \<in> set (mock_finding (ta_mock ta))"
    using assms(1) by (auto simp: reason_findings_def)
  then show ?thesis
  proof cases
    case 1
    then have "filed ta reason seq"
      using assms(2) by (cases "map_of (ta_by_reason ta) reason") (auto simp: rule_finding_def filed_def split: list.splits)
    then show ?thesis by blast
  next
    case 2
    then have "reason \<in> set (keys (ta_by_reason ta))" by (simp add: unknown_reasons_def)
    then have "filed ta reason seq" using assms(2) 2(2) by (auto simp: keys_iff filed_def unknown_finding_def Let_def)
    then show ?thesis by blast
  qed (use assms(2) in \<open>auto simp: mock_finding_def split: if_splits\<close>)
qed

lemma filed_is_found:
  assumes "filed ta reason seq" and "reason \<noteq> ''UNSPECIFIED''"
  shows "\<exists>f \<in> set (reason_findings repr ta). fd_code f = code_for reason \<and> seq \<in> set (fd_receipts f)"
proof -
  obtain seqs where s: "map_of (ta_by_reason ta) reason = Some seqs" "seq \<in> set seqs"
    using assms(1) by (auto simp: filed_def)
  show ?thesis
  proof (cases "map_of REASON_RULES reason")
    case None
    then have "reason \<in> set (unknown_reasons (ta_by_reason ta))"
      using s(1) assms(2) by (auto simp: unknown_reasons_def keys_iff)
    then have "unknown_finding repr (ta_by_reason ta) reason \<in> set (reason_findings repr ta)"
      by (simp add: reason_findings_def)
    then show ?thesis using s None by (force simp: unknown_finding_def code_for_def Let_def)
  next
    case (Some rl)
    obtain x xs where "seqs = x # xs" using s(2) by (cases seqs) auto
    then obtain f where f: "rule_finding (ta_by_reason ta) (reason, rl) = [f]" "fd_code f = rl_code rl" "fd_receipts f = seqs"
      using s(1) by (simp add: rule_finding_def)
    have "(reason, rl) \<in> set REASON_RULES" using Some by (rule map_of_SomeD)
    then have "f \<in> set (reason_findings repr ta)" using f(1) by (force simp: reason_findings_def)
    then show ?thesis using f s(2) Some by (auto simp: code_for_def)
  qed
qed

lemma critical_first:
  assumes "chain_finding v \<noteq> []"
  shows "all_findings repr v ta \<noteq> [] \<and> hd (all_findings repr v ta) \<in> set (chain_finding v)"
proof -
  let ?key = "\<lambda>f. (severity_rank (fd_severity f), fd_code f)"
  let ?fs = "all_findings repr v ta"
  obtain f where f: "f \<in> set (chain_finding v)" using assms by (cases "chain_finding v") auto
  then have fs: "f \<in> set ?fs" by (simp add: all_findings_set)
  then obtain g gs where g: "?fs = g # gs" by (cases ?fs) auto
  have "sorted (map ?key ?fs)" by (simp add: all_findings_def)
  then have "?key g \<le> ?key f" using fs by (auto simp: g)
  moreover have "severity_rank (fd_severity f) = 0"
    using f by (auto simp: chain_finding_def severity_rank_def split: verdict.splits)
  ultimately have "severity_rank (fd_severity g) = 0" by (auto simp: less_eq_prod_def)
  then have "g \<notin> set (reason_findings repr ta)" using reason_findings_rank by fastforce
  moreover have "g \<in> set (chain_finding v) \<union> set (reason_findings repr ta)"
    unfolding all_findings_set [symmetric] by (simp add: g)
  ultimately show ?thesis by (simp add: g)
qed

lemma build_report_Inr:
  assumes "build_report C repr key rows = Inr r"
  obtains ta where "tally_rows rows no_tally = Inr ta" "rp_receipts_total r = length rows"
    "rp_chain_valid r \<longleftrightarrow> check_chain C key rows = Verified (length rows)"
    "rp_chain_valid r \<longleftrightarrow> chain_finding (check_chain C key rows) = []"
    "rp_fulfilled r = ta_fulfilled ta" "rp_rejected r = ta_rejected ta"
    "rp_by_reason r = map (\<lambda>(k, v). (k, length v)) (sort_key fst (ta_by_reason ta))"
    "rp_by_principal r = sort_key fst (ta_by_principal ta)" "rp_legacy_rows r = ta_legacy ta"
    "rp_findings r = all_findings repr (check_chain C key rows) ta"
proof -
  have "n = length rows" if "check_chain C key rows = Verified n" for n
    using that by (simp add: check_chain_def walk_Verified)
  then show thesis
    using assms that
    by (cases "check_chain C key rows") (auto simp: build_report_def bind_res_Inr chain_finding_def)
qed

section \<open>Properties\<close>

text \<open>
  C25. The inspector and the auditor agree: the standalone verifier accepts a ledger exactly when the
  inspector, given the same key, reads it, finds its chain valid, and every row has the keys a receipt
  has (which the inspector does not ask for).
\<close>

theorem inspector_agrees_with_verifier:
  "verify_ledger_rows C pk t = Verified n \<longleftrightarrow>
     (\<exists>rows. read_rows t = Inr rows \<and> list_all (has_content_keys \<circ> snd) rows \<and>
        check_chain C (Some (Pem_ed25519 pk)) rows = Verified n)"
  using end_hash_inspect [of C pk "GENESIS_PREV_HASH C" t] read_rows_length [of t]
  by (auto simp: verify_ledger_rows_def check_chain_def walk_Verified)

text \<open>
  C26. The report accounts for every receipt: each is counted once as fulfilled or rejected, once under
  a principal or as a row without metadata; the rejections add up over the reasons; a rejection with a
  reason code is cited by the finding for that code, and every receipt that a finding cites, besides
  the broken one, was rejected; a chain that is not valid is the first finding.
\<close>

theorem report_accounts_for_every_receipt:
  assumes "build_report C repr key rows = Inr r"
  shows "rp_receipts_total r = length rows \<and> rp_fulfilled r + rp_rejected r = rp_receipts_total r \<and>
    sum_vals id (rp_by_reason r) = rp_rejected r \<and>
    sum_vals pe_orders (rp_by_principal r) + rp_legacy_rows r = rp_receipts_total r \<and>
    (\<forall>e \<in> snd ` set (rp_by_principal r). pe_orders e = pe_fulfilled e + pe_rejected e) \<and>
    (\<forall>reason seq. rejected_for rows reason seq \<and> reason \<noteq> ''UNSPECIFIED'' \<longrightarrow>
       (\<exists>f \<in> set (rp_findings r). fd_code f = code_for reason \<and> seq \<in> set (fd_receipts f))) \<and>
    (\<forall>f \<in> set (rp_findings r). \<forall>seq \<in> set (fd_receipts f).
       fd_code f = ''CHAIN_BROKEN'' \<or> (\<exists>reason. rejected_for rows reason seq)) \<and>
    (rp_chain_valid r \<longleftrightarrow> check_chain C key rows = Verified (length rows)) \<and>
    (\<not> rp_chain_valid r \<longrightarrow> rp_findings r \<noteq> [] \<and> fd_code (hd (rp_findings r)) = ''CHAIN_BROKEN'')"
proof -
  let ?v = "check_chain C key rows"
  obtain ta where ta: "tally_rows rows no_tally = Inr ta" "rp_receipts_total r = length rows"
    "rp_chain_valid r \<longleftrightarrow> ?v = Verified (length rows)" "rp_chain_valid r \<longleftrightarrow> chain_finding ?v = []"
    "rp_fulfilled r = ta_fulfilled ta" "rp_rejected r = ta_rejected ta"
    "rp_by_reason r = map (\<lambda>(k, v). (k, length v)) (sort_key fst (ta_by_reason ta))"
    "rp_by_principal r = sort_key fst (ta_by_principal ta)" "rp_legacy_rows r = ta_legacy ta"
    "rp_findings r = all_findings repr ?v ta"
    using assms by (rule build_report_Inr)
  have acc: "accounts rows ta" using ta(1) by (rule tally_accounts)
  have perm: "sum_vals f (sort_key fst d) = sum_vals f d" for f :: "'v \<Rightarrow> nat" and d :: "'v dict"
    by (simp add: sum_vals_def flip: sum_mset_sum_list)
  have "sum_vals id (rp_by_reason r) = sum_vals length (sort_key fst (ta_by_reason ta))"
    by (simp add: ta(7) sum_vals_def comp_def case_prod_beta)
  then have sums: "sum_vals id (rp_by_reason r) = sum_vals length (ta_by_reason ta)"
    "sum_vals pe_orders (rp_by_principal r) = sum_vals pe_orders (ta_by_principal ta)"
    using perm by (simp_all add: ta(8))
  have code: "fd_code f = ''CHAIN_BROKEN''" if "f \<in> set (chain_finding ?v)" for f
    using that by (auto simp: chain_finding_def split: verdict.splits)
  have filed: "filed ta x y \<longleftrightarrow> rejected_for rows x y" for x y
    using acc by (simp add: accounts_def accounts_status_def)
  have cited: "\<exists>f \<in> set (rp_findings r). fd_code f = code_for x \<and> y \<in> set (fd_receipts f)"
    if "rejected_for rows x y \<and> x \<noteq> ''UNSPECIFIED''" for x y
    using filed_is_found [of ta x y repr] that filed by (auto simp: ta(10) all_findings_set)
  have known: "fd_code f = ''CHAIN_BROKEN'' \<or> (\<exists>reason. rejected_for rows reason y)"
    if "f \<in> set (rp_findings r)" "y \<in> set (fd_receipts f)" for f y
    using that reason_findings_receipts [of f repr ta y] code filed by (auto simp: ta(10) all_findings_set)
  have first: "rp_findings r \<noteq> [] \<and> fd_code (hd (rp_findings r)) = ''CHAIN_BROKEN''" if "\<not> rp_chain_valid r"
    using critical_first [of ?v repr ta] that code ta(4) by (auto simp: ta(10))
  show ?thesis
    using acc sums cited known first ta(2,3,5,6,8,9)
    by (simp add: accounts_def accounts_status_def accounts_principals_def)
qed

definition example_rows :: "(int \<times> json) list" where
  "example_rows = [(1, JObj [(''status'', JStr ''REJECTED''), (''reason_code'', JStr ''OFF_MENU'')])]"

theorem report_accounts_for_every_receipt_witness:
  "\<exists>r. build_report example_crypto id None example_rows = Inr r \<and> rp_fulfilled r + rp_rejected r = 1 \<and>
    fd_code (hd (rp_findings r)) = ''CHAIN_BROKEN'' \<and>
    (\<exists>f \<in> set (rp_findings r). fd_code f = ''OFF_MENU_ATTEMPTS'' \<and> 1 \<in> set (fd_receipts f))"
proof -
  obtain r where r: "build_report example_crypto id None example_rows = Inr r" "\<not> rp_chain_valid r"
    by (simp add: build_report_def check_chain_def example_rows_def inspect_row_def jget_def jopt_def Let_def
        tally_row_def lift_def tally_status_def tally_principal_def reason_of_def falsy_def)
  have "rejected_for example_rows ''OFF_MENU'' 1"
    by (simp add: rejected_for_def example_rows_def reason_of_def jget_def jopt_def falsy_def)
  moreover have "code_for ''OFF_MENU'' = ''OFF_MENU_ATTEMPTS''" by (simp add: code_for_def REASON_RULES_def)
  moreover note all = report_accounts_for_every_receipt [OF r(1)]
  ultimately have "\<exists>f \<in> set (rp_findings r). fd_code f = ''OFF_MENU_ATTEMPTS'' \<and> 1 \<in> set (fd_receipts f)" by force
  then show ?thesis using all r by (simp add: example_rows_def)
qed

end
