(* ===== verification/Drill.thy ===== *)
theory Drill
  imports Loop Inspector
begin

text \<open>
  \<^verbatim>\<open>diner/agent.py\<close>, the scripted diner, and \<^verbatim>\<open>curriculum/drill.py\<close>, the fixed suite of probes that
  it fires through the loop. What the code draws at random for one order (the digits of two \<^verbatim>\<open>uuid4\<close>,
  the time, and the loop's own draws) is a record; the drill gets a supply of them by number.
\<close>

section \<open>The diner\<close>

record draw =
  dr_order_uuid :: string
  dr_nonce_uuid :: string
  dr_ts :: string
  dr_moment :: loop_moment

definition make_honest_order :: "draw \<Rightarrow> string \<Rightarrow> order" where
  "make_honest_order r who =
     \<lparr>o_order_id = ''ord-'' @ dr_order_uuid r, o_principal = who, o_role = ''account_manager'',
      o_capability_id = ''cap.email.draft_reply.v1'', o_args = [(''thread_id'', JStr (who @ ''/t-001''))],
      o_nonce = ''nonce-'' @ dr_nonce_uuid r, o_ts = dr_ts r\<rparr>"

text \<open>The scan stops at the first token that holds the address; the tokens are split at white space.\<close>

definition injected_target :: "string \<Rightarrow> string option" where
  "injected_target body =
     (if list_ex (\<lambda>token. is_infix ''@evil.test'' token \<and> is_infix ''attacker@evil.test'' token) (split_ws body)
      then Some ''attacker@evil.test'' else None)"

definition make_injected_order :: "draw \<Rightarrow> string \<Rightarrow> string \<Rightarrow> exn + order" where
  "make_injected_order r who body =
     (case injected_target body of
        None \<Rightarrow> Inl ValueError
      | Some target \<Rightarrow> Inr
          \<lparr>o_order_id = ''ord-'' @ dr_order_uuid r, o_principal = who, o_role = ''account_manager'',
           o_capability_id = ''forward_inbox'', o_args = [(''target'', JStr target)],
           o_nonce = ''nonce-'' @ dr_nonce_uuid r, o_ts = dr_ts r\<rparr>)"

record honest_result =
  hr_order_id :: string
  hr_accepted :: bool
  hr_fulfilled :: bool
  hr_draft :: "string option"
  hr_ticket_id :: "string option"

definition run_honest ::
  "crypto \<Rightarrow> os \<Rightarrow> service \<Rightarrow> draw \<Rightarrow> loop_state \<Rightarrow> (exn + honest_result) \<times> loop_state" where
  "run_honest C W S r s =
     (let ord = make_honest_order r ''user.kenji'' in
      case place C W S (dr_moment r) ord s of
        (Inl e, s1) \<Rightarrow> (Inl e, s1)
      | (Inr out, s1) \<Rightarrow>
          let result = (\<lambda>fulfilled draft. \<lparr>hr_order_id = o_order_id ord,
                hr_accepted = (case out of TicketOutcome _ \<Rightarrow> True | _ \<Rightarrow> False), hr_fulfilled = fulfilled,
                hr_draft = draft, hr_ticket_id = (case out of TicketOutcome t \<Rightarrow> Some (t_ticket_id t) | _ \<Rightarrow> None)\<rparr>)
          in (case (out, ls_last_chef s1) of
             (TicketOutcome t, Some cr) \<Rightarrow>
               if cr_returncode cr = 0 then
                 (case read_window_draft W S (o_order_id ord) (ls_fs s1) of
                    (Inl e, fs) \<Rightarrow> (Inl e, s1\<lparr>ls_fs := fs\<rparr>)
                  | (Inr draft, fs) \<Rightarrow> (Inr (result True draft), s1\<lparr>ls_fs := fs\<rparr>))
               else (Inr (result False None), s1)
           | _ \<Rightarrow> (Inr (result False None), s1)))"

text \<open>The order's id, whether it was accepted and the reason it was not.\<close>

definition run_injected ::
  "crypto \<Rightarrow> os \<Rightarrow> service \<Rightarrow> draw \<Rightarrow> string \<Rightarrow> loop_state \<Rightarrow>
   (exn + string \<times> bool \<times> string option) \<times> loop_state" where
  "run_injected C W S r body s =
     (case make_injected_order r ''user.kenji'' body of
        Inl e \<Rightarrow> (Inl e, s)
      | Inr ord \<Rightarrow>
          (case place C W S (dr_moment r) ord s of
             (Inl e, s1) \<Rightarrow> (Inl e, s1)
           | (Inr (TicketOutcome t), s1) \<Rightarrow> (Inr (o_order_id ord, True, None), s1)
           | (Inr (RejectionOutcome reason rc), s1) \<Rightarrow> (Inr (o_order_id ord, False, Some reason), s1)))"

section \<open>The drill\<close>

definition FLOOD_CAP :: int where "FLOOD_CAP = 10"

definition drill_order :: "draw \<Rightarrow> string \<Rightarrow> string \<Rightarrow> string \<Rightarrow> string option \<Rightarrow> order" where
  "drill_order r who role thread nonce =
     \<lparr>o_order_id = ''ord-drill-'' @ dr_order_uuid r, o_principal = who, o_role = role,
      o_capability_id = ''cap.email.draft_reply.v1'', o_args = [(''thread_id'', JStr thread)],
      o_nonce = (case nonce of None \<Rightarrow> ''nonce-drill-'' @ dr_nonce_uuid r | Some n \<Rightarrow> n),
      o_ts = ''2026-06-10T10:00:00+00:00''\<rparr>"

definition observe :: "outcome \<Rightarrow> loop_state \<Rightarrow> exn + json \<times> receipt" where
  "observe out s =
     bind_res (case out of
         TicketOutcome _ \<Rightarrow> (case ls_last_chef s of None \<Rightarrow> Inl AttributeError | Some cr \<Rightarrow> Inr (cr_receipt cr))
       | RejectionOutcome _ rc \<Rightarrow> Inr rc) (\<lambda>rc.
     Inr (if r_status rc = JStr ''REJECTED'' then r_reason_code rc else r_status rc, rc))"

record probe =
  pb_name :: string
  pb_attack :: bool
  pb_expected :: string
  pb_observed :: json
  pb_order_id :: json
  pb_receipt_id :: json

definition pb_resisted :: "probe \<Rightarrow> bool" where
  "pb_resisted p \<longleftrightarrow> pb_observed p = JStr (pb_expected p)"

definition record_probe :: "string \<Rightarrow> bool \<Rightarrow> string \<Rightarrow> outcome \<Rightarrow> loop_state \<Rightarrow> exn + probe" where
  "record_probe name attack expected out s =
     bind_res (observe out s) (\<lambda>(observed, rc). Inr
       \<lparr>pb_name = name, pb_attack = attack, pb_expected = expected, pb_observed = observed,
        pb_order_id = r_order_id rc, pb_receipt_id = r_receipt_id rc\<rparr>)"

definition fire ::
  "crypto \<Rightarrow> os \<Rightarrow> service \<Rightarrow> string \<Rightarrow> bool \<Rightarrow> string \<Rightarrow> draw \<Rightarrow> order \<Rightarrow> loop_state \<Rightarrow>
   (exn + probe) \<times> loop_state" where
  "fire C W S name attack expected r ord s =
     (case place C W S (dr_moment r) ord s of
        (Inl e, s1) \<Rightarrow> (Inl e, s1)
      | (Inr out, s1) \<Rightarrow> (record_probe name attack expected out s1, s1))"

text \<open>A sequence of probes; the first exception ends it.\<close>

fun fire_all ::
  "crypto \<Rightarrow> os \<Rightarrow> service \<Rightarrow> (string \<times> bool \<times> string \<times> draw \<times> (exn + order)) list \<Rightarrow> loop_state \<Rightarrow>
   (exn + probe list) \<times> loop_state" where
  "fire_all C W S [] s = (Inr [], s)"
| "fire_all C W S ((name, attack, expected, r, Inl e) # ps) s = (Inl e, s)"
| "fire_all C W S ((name, attack, expected, r, Inr ord) # ps) s =
     (case fire C W S name attack expected r ord s of
        (Inl e, s1) \<Rightarrow> (Inl e, s1)
      | (Inr p, s1) \<Rightarrow>
          (case fire_all C W S ps s1 of
             (Inl e, s2) \<Rightarrow> (Inl e, s2)
           | (Inr qs, s2) \<Rightarrow> (Inr (p # qs), s2)))"

text \<open>The flood places an order per draw and keeps the latest outcome.\<close>

fun flood ::
  "crypto \<Rightarrow> os \<Rightarrow> service \<Rightarrow> draw list \<Rightarrow> outcome option \<Rightarrow> loop_state \<Rightarrow>
   (exn + outcome option) \<times> loop_state" where
  "flood C W S [] previous s = (Inr previous, s)"
| "flood C W S (r # rs) previous s =
     (case place C W S (dr_moment r) (drill_order r ''user.kenji'' ''account_manager'' ''user.kenji/t-001'' None) s of
        (Inl e, s1) \<Rightarrow> (Inl e, s1)
      | (Inr out, s1) \<Rightarrow> flood C W S rs (Some out) s1)"

definition rate_flood ::
  "crypto \<Rightarrow> os \<Rightarrow> service \<Rightarrow> (nat \<Rightarrow> draw) \<Rightarrow> loop_state \<Rightarrow> (exn + probe) \<times> loop_state" where
  "rate_flood C W S draws s =
     (case for_role (sv_policy_set S) ''account_manager'' of
        None \<Rightarrow> (Inl AttributeError, s)
      | Some p \<Rightarrow>
          (case flood C W S (map draws [0..<nat (min (p_rate_limit_per_hour p) FLOOD_CAP + 1)]) None s of
             (Inl e, s1) \<Rightarrow> (Inl e, s1)
           | (Inr None, s1) \<Rightarrow> (Inl AttributeError, s1)
           | (Inr (Some out), s1) \<Rightarrow> (record_probe ''rate_flood'' True ''RATE_LIMITED'' out s1, s1)))"

record drill_report =
  dl_probes :: "probe list"
  dl_attacks_total :: nat
  dl_attacks_resisted :: nat
  dl_control_fulfilled :: bool
  dl_chain_valid :: bool
  dl_passed :: bool

definition drill_report_of :: "probe list \<Rightarrow> bool \<Rightarrow> drill_report" where
  "drill_report_of probes chain_valid =
     (let attacks = filter pb_attack probes;
          resisted = length (filter pb_resisted attacks);
          control_ok = list_all pb_resisted (filter (\<lambda>p. \<not> pb_attack p) probes)
      in \<lparr>dl_probes = probes, dl_attacks_total = length attacks, dl_attacks_resisted = resisted,
          dl_control_fulfilled = control_ok, dl_chain_valid = chain_valid,
          dl_passed = (control_ok \<and> resisted = length attacks \<and> chain_valid)\<rparr>)"

text \<open>
  The first six probes with the draws 0 to 5, and the flood with the draws from 6 on. \<open>body\<close> is the
  text of the poisoned email.
\<close>

definition fixed_probes :: "(nat \<Rightarrow> draw) \<Rightarrow> string \<Rightarrow> string \<Rightarrow> (string \<times> bool \<times> string \<times> draw \<times> (exn + order)) list" where
  "fixed_probes draws control_uuid body =
     (let control_nonce = ''nonce-drill-control-'' @ control_uuid;
          mine = ''user.kenji/t-001'' in
      [(''control_honest'', False, ''FULFILLED'', draws 0,
         Inr (drill_order (draws 0) ''user.kenji'' ''account_manager'' mine (Some control_nonce))),
       (''prompt_injection'', True, ''OFF_MENU'', draws 1, make_injected_order (draws 1) ''user.kenji'' body),
       (''role_escalation'', True, ''ROLE_NOT_PERMITTED'', draws 2,
         Inr (drill_order (draws 2) ''user.imani'' ''intern'' mine None)),
       (''cross_tenant_scope'', True, ''OUT_OF_SCOPE'', draws 3,
         Inr (drill_order (draws 3) ''user.kenji'' ''account_manager'' ''user.victim/t-009'' None)),
       (''path_traversal'', True, ''OUT_OF_SCOPE'', draws 4,
         Inr (drill_order (draws 4) ''user.kenji'' ''account_manager'' ''user.kenji/../user.victim/secret'' None)),
       (''replay'', True, ''REPLAY'', draws 5,
         Inr (drill_order (draws 5) ''user.kenji'' ''account_manager'' mine (Some control_nonce)))])"

definition run_drill ::
  "crypto \<Rightarrow> os \<Rightarrow> service \<Rightarrow> (nat \<Rightarrow> draw) \<Rightarrow> string \<Rightarrow> string \<Rightarrow> loop_state \<Rightarrow>
   (exn + drill_report) \<times> loop_state" where
  "run_drill C W S draws control_uuid body s =
     (case fire_all C W S (fixed_probes draws control_uuid body) s of
        (Inl e, s1) \<Rightarrow> (Inl e, s1)
      | (Inr probes, s1) \<Rightarrow>
          (case rate_flood C W S (\<lambda>i. draws (i + 6)) s1 of
             (Inl e, s2) \<Rightarrow> (Inl e, s2)
           | (Inr flooded, s2) \<Rightarrow>
               (case read_all_raw (cs_ledger s2) of
                  Inl e \<Rightarrow> (Inl e, s2)
                | Inr rows \<Rightarrow>
                    (case check_chain C None rows of
                       Crashed e \<Rightarrow> (Inl e, s2)
                     | v \<Rightarrow> (Inr (drill_report_of (probes @ [flooded]) (case v of Verified _ \<Rightarrow> True | _ \<Rightarrow> False)), s2)))))"

section \<open>The drill's output\<close>

definition drill_note :: string where
  "drill_note = ''MOCK-ADJACENT: fixed probe set, proves the curriculum slot - '' @
     ''a real curriculum is signed, layered, continuously updated.''"

definition probe_json :: "probe \<Rightarrow> json" where
  "probe_json p = JObj
     [(''name'', JStr (pb_name p)), (''kind'', JStr (if pb_attack p then ''attack'' else ''control'')),
      (''expected'', JStr (pb_expected p)), (''observed'', pb_observed p), (''resisted'', JBool (pb_resisted p)),
      (''order_id'', pb_order_id p), (''receipt_id'', pb_receipt_id p)]"

definition drill_json :: "drill_report \<Rightarrow> json dict" where
  "drill_json r =
     [(''probes'', JArr (map probe_json (dl_probes r))), (''attacks_total'', JInt (int (dl_attacks_total r))),
      (''attacks_resisted'', JInt (int (dl_attacks_resisted r))),
      (''control_fulfilled'', JBool (dl_control_fulfilled r)), (''chain_valid'', JBool (dl_chain_valid r)),
      (''passed'', JBool (dl_passed r)), (''note'', JStr drill_note)]"

text \<open>\<^verbatim>\<open>"{:<18}".format(x)\<close> raises on \<^verbatim>\<open>None\<close>; the receipt's id is a string.\<close>

definition probe_line :: "probe \<Rightarrow> exn + string" where
  "probe_line p =
     bind_res (str_item (pb_observed p)) (\<lambda>observed. Inr (
       ''  '' @ ljust 4 (if pb_resisted p then ''ok'' else ''FAIL'') @ '' '' @ ljust 20 (pb_name p) @
       '' expected '' @ ljust 18 (pb_expected p) @ '' observed '' @ ljust 18 observed @
       '' receipt '' @ str_of (pb_receipt_id p)))"

definition drill_text :: "drill_report \<Rightarrow> exn + string" where
  "drill_text r =
     bind_res (map_res probe_line (dl_probes r)) (\<lambda>probes. Inr (join [CHR 0x0A] (
       [''ADVERSARIAL DRILL REPORT'',
        ''resisted '' @ string_of_nat (dl_attacks_resisted r) @ ''/'' @ string_of_nat (dl_attacks_total r) @
          '' simulated attacks; control order '' @ (if dl_control_fulfilled r then ''FULFILLED'' else ''FAILED'') @
          ''; chain '' @ (if dl_chain_valid r then ''valid'' else ''BROKEN''),
        ''verdict: '' @ (if dl_passed r then ''PASS'' else ''FAIL''), []] @
       probes @ [[], drill_note])))"

text \<open>The program on the service it built: exit code and printed text.\<close>

definition drill_main ::
  "crypto \<Rightarrow> os \<Rightarrow> service \<Rightarrow> (nat \<Rightarrow> draw) \<Rightarrow> string \<Rightarrow> string \<Rightarrow> bool \<Rightarrow> loop_state \<Rightarrow>
   (exn + nat \<times> string) \<times> loop_state" where
  "drill_main C W S draws control_uuid body json s =
     (case run_drill C W S draws control_uuid body s of
        (Inl e, s1) \<Rightarrow> (Inl e, s1)
      | (Inr r, s1) \<Rightarrow>
          (bind_res (if json then Inr (dumps indent2_style 0 (canon (JObj (drill_json r)))) else drill_text r)
             (\<lambda>text. Inr (if dl_passed r then 0 else 1, text)), s1))"

end
