(* ===== verification/Console.thy ===== *)
theory Console
  imports Signed_Auth Menu Drill
begin

text \<open>
  \<^verbatim>\<open>console/service.py\<close>: the operator console. Every action takes the operator the transport has
  authenticated and enforces the roles itself. The state is what the actions write: the policy
  history, the file of the active policies and the operator's own capabilities; the built-in
  capabilities and the keys are configuration. The texts of error messages are not modelled, only
  which error it is.
\<close>

section \<open>Errors, configuration, state\<close>

datatype console_error =
    BadRequest | AuthError | NotFound | Conflict | Console_raises load_error

fun http_status :: "console_error \<Rightarrow> int option" where
  "http_status BadRequest = Some 400"
| "http_status AuthError = Some 403"
| "http_status NotFound = Some 404"
| "http_status Conflict = Some 409"
| "http_status (Console_raises _) = None"

record console_config =
  cf_private_key :: string
  cf_active_path :: string
  cf_builtin_dir :: "string dict"
  cf_catalog :: catalog

record console =
  cs_history :: table
  cs_fs :: fsys
  cs_custom :: "string dict option"

definition lifted :: "exn + 'a \<Rightarrow> console_error + 'a" where
  "lifted r = (case r of Inl e \<Rightarrow> Inl (Console_raises (Raises e)) | Inr x \<Rightarrow> Inr x)"

definition loaded :: "load_error + 'a \<Rightarrow> console_error + 'a" where
  "loaded r = (case r of Inl e \<Rightarrow> Inl (Console_raises e) | Inr x \<Rightarrow> Inr x)"

definition live_catalog :: "console_config \<Rightarrow> console \<Rightarrow> bool \<Rightarrow> console_error + catalog" where
  "live_catalog F s include_disabled =
     (case cs_custom s of
        None \<Rightarrow> Inr (cf_catalog F)
      | Some d \<Rightarrow> loaded (load_catalog (cf_builtin_dir F) (Some d) include_disabled))"

definition require_role :: "admin option \<Rightarrow> string \<Rightarrow> console_error + admin" where
  "require_role who role =
     (case who of
        None \<Rightarrow> Inl AuthError
      | Some a \<Rightarrow> if ad_role a \<noteq> role then Inl AuthError else Inr a)"

definition require_any_role :: "admin option \<Rightarrow> console_error + admin" where
  "require_any_role who = (case who of None \<Rightarrow> Inl AuthError | Some a \<Rightarrow> Inr a)"

section \<open>Validation\<close>

fun is_list :: "json \<Rightarrow> bool" where
  "is_list (JArr _) = True" | "is_list _ = False"

fun is_int :: "json \<Rightarrow> bool" where
  "is_int (JInt _) = True" | "is_int _ = False"

definition valid_policy :: "json \<Rightarrow> bool" where
  "valid_policy p =
     (case p of
        JObj d \<Rightarrow>
          ''role'' \<in> set (keys d) \<and> ''allowed_capabilities'' \<in> set (keys d) \<and>
          ''rate_limit_per_hour'' \<in> set (keys d) \<and>
          is_str (jget d ''role'') \<and> is_list (jget d ''allowed_capabilities'') \<and>
          is_int (jget d ''rate_limit_per_hour'') \<and>
          is_list (field_or d ''paused_capabilities'' (JArr []))
      | _ \<Rightarrow> False)"

definition validate_policy_list :: "json \<Rightarrow> console_error + json list" where
  "validate_policy_list policies =
     (case policies of
        JArr ps \<Rightarrow> if ps \<noteq> [] \<and> list_all valid_policy ps then Inr ps else Inl BadRequest
      | _ \<Rightarrow> Inl BadRequest)"

text \<open>\<^verbatim>\<open>Policy(...)\<close> of one validated entry, and the set of them.\<close>

definition candidate_policy :: "json \<Rightarrow> load_error + policy" where
  "candidate_policy p =
     bind_res (lift (subscript p ''role'')) (\<lambda>role.
     bind_res (lift (subscript p ''allowed_capabilities'')) (\<lambda>allowed.
     bind_res (lift (subscript p ''rate_limit_per_hour'')) (\<lambda>rate.
     bind_res (lift (items p)) (\<lambda>d.
     bind_res (as_str role) (\<lambda>r.
     bind_res (str_tuple allowed) (\<lambda>a.
     bind_res (as_int rate) (\<lambda>n.
     bind_res (str_tuple (field_or d ''paused_capabilities'' (JArr []))) (\<lambda>paused. Inr
       \<lparr>p_role = r, p_allowed_capabilities = a, p_rate_limit_per_hour = n, p_paused_capabilities = paused\<rparr>))))))))"

definition candidate_policy_set :: "json list \<Rightarrow> load_error + policy_set" where
  "candidate_policy_set policies = map_res candidate_policy policies"

text \<open>\<^verbatim>\<open>cat.get(cap_id)\<close>: a list or an object is not hashable, another value that is no string is no key.\<close>

fun flagged_capability :: "catalog \<Rightarrow> json \<Rightarrow> exn + string list" where
  "flagged_capability cat (JStr i) =
     Inr (case map_of cat i of
        Some cap \<Rightarrow> if c_requires_second_admin cap then [i] else [] | None \<Rightarrow> [])"
| "flagged_capability cat (JArr _) = Inl TypeError"
| "flagged_capability cat (JObj _) = Inl TypeError"
| "flagged_capability cat _ = Inr []"

definition flagged_by_policy :: "catalog \<Rightarrow> json \<Rightarrow> exn + string list" where
  "flagged_by_policy cat p =
     bind_res (items p) (\<lambda>d.
     bind_res (iterate (field_or d ''allowed_capabilities'' (JArr []))) (\<lambda>caps.
     bind_res (map_res (flagged_capability cat) caps) (\<lambda>iss. Inr (concat iss))))"

definition needs_second_admin :: "catalog \<Rightarrow> json list \<Rightarrow> exn + string list" where
  "needs_second_admin cat policies =
     bind_res (map_res (flagged_by_policy cat) policies) (\<lambda>iss. Inr (sort (remdups (concat iss))))"

section \<open>The history's actions\<close>

text \<open>\<^verbatim>\<open>row["seq"] == seq\<close> for the JSON value given: \<^verbatim>\<open>True\<close> is 1 and \<^verbatim>\<open>False\<close> is 0.\<close>

definition seq_is :: "json \<Rightarrow> json \<Rightarrow> bool" where
  "seq_is stored given \<longleftrightarrow> given = stored \<or> (given = JBool True \<and> stored = JInt 1) \<or>
     (given = JBool False \<and> stored = JInt 0)"

definition find_version :: "table \<Rightarrow> json \<Rightarrow> console_error + json dict" where
  "find_version t seq =
     bind_res (lifted (history_read_all t)) (\<lambda>rows.
       case find (\<lambda>row. seq_is (jget row ''seq'') seq) rows of
         None \<Rightarrow> Inl NotFound
       | Some row \<Rightarrow> Inr row)"

definition materialize :: "console_config \<Rightarrow> console \<Rightarrow> console_error option \<times> console" where
  "materialize F s =
     (case materialize_active (cf_active_path F) (cs_history s) (cs_fs s) of
        (Inl e, fs) \<Rightarrow> (Some (Console_raises (Raises e)), s\<lparr>cs_fs := fs\<rparr>)
      | (Inr _, fs) \<Rightarrow> (None, s\<lparr>cs_fs := fs\<rparr>))"

text \<open>Appending a version, and writing the active file if the version is active.\<close>

definition store_version ::
  "crypto \<Rightarrow> console_config \<Rightarrow> version \<Rightarrow> (json dict \<Rightarrow> json dict) \<Rightarrow> console \<Rightarrow> (console_error + json dict) \<times> console" where
  "store_version C F v result s =
     (case append_version C (cf_private_key F) v (cs_history s) of
        Inl e \<Rightarrow> (Inl (Console_raises (Raises e)), s)
      | Inr (t, row) \<Rightarrow>
          let s1 = s\<lparr>cs_history := t\<rparr> in
          if v_status v = ''active'' then
            (case materialize F s1 of
               (Some e, s2) \<Rightarrow> (Inl e, s2)
             | (None, s2) \<Rightarrow> (Inr (result row), s2))
          else (Inr (result row), s1))"

definition publish_content ::
  "crypto \<Rightarrow> console_config \<Rightarrow> string \<Rightarrow> json list \<Rightarrow> string \<Rightarrow> string \<Rightarrow> console \<Rightarrow>
   (console_error + json dict) \<times> console" where
  "publish_content C F uuid policies author reason s =
     (case bind_res (live_catalog F s False) (\<lambda>cat. lifted (needs_second_admin cat policies)) of
        Inl e \<Rightarrow> (Inl e, s)
      | Inr flagged \<Rightarrow>
          let status = (if flagged \<noteq> [] then ''pending'' else ''active'') in
          store_version C F \<lparr>v_uuid = uuid, v_policies = policies, v_author = author, v_reason = reason,
              v_status = status, v_approved_by = None\<rparr>
            (\<lambda>row. [(''seq'', jget row ''seq''), (''version_id'', jget row ''version_id''),
                    (''status'', JStr status), (''requires_second_admin_for'', JArr (map JStr flagged))]) s)"

definition publish ::
  "crypto \<Rightarrow> console_config \<Rightarrow> string \<Rightarrow> admin option \<Rightarrow> json \<Rightarrow> json \<Rightarrow> console \<Rightarrow>
   (console_error + json dict) \<times> console" where
  "publish C F uuid who candidate reason s =
     (case bind_res (require_role who ROLE_AUTHOR) (\<lambda>a.
           bind_res (validate_policy_list candidate) (\<lambda>ps. Inr (a, ps))) of
        Inl e \<Rightarrow> (Inl e, s)
      | Inr (a, ps) \<Rightarrow>
          if \<not> nonempty_text reason then (Inl BadRequest, s)
          else publish_content C F uuid ps (ad_id a) (str_of reason) s)"

text \<open>A stored policy list; a stored value of another type was not written by the console.\<close>

fun as_list :: "json \<Rightarrow> load_error + json list" where
  "as_list (JArr js) = Inr js"
| "as_list _ = Inl Ill_typed"

definition approve ::
  "crypto \<Rightarrow> console_config \<Rightarrow> string \<Rightarrow> admin option \<Rightarrow> int \<Rightarrow> console \<Rightarrow>
   (console_error + json dict) \<times> console" where
  "approve C F uuid who seq s =
     (case bind_res (require_role who ROLE_REVIEWER) (\<lambda>a.
           bind_res (find_version (cs_history s) (JInt seq)) (\<lambda>target.
           bind_res (lifted (subscript (JObj target) ''status'')) (\<lambda>status.
           if status \<noteq> JStr ''pending'' then Inl Conflict
           else bind_res (lifted (subscript (JObj target) ''author'')) (\<lambda>author.
           if author = JStr (ad_id a) then Inl AuthError
           else bind_res (lifted (subscript (JObj target) ''policies'')) (\<lambda>policies.
           bind_res (loaded (as_list policies)) (\<lambda>ps.
           bind_res (loaded (as_str author)) (\<lambda>name. Inr (a, ps, name)))))))) of
        Inl e \<Rightarrow> (Inl e, s)
      | Inr (a, ps, name) \<Rightarrow>
          store_version C F \<lparr>v_uuid = uuid, v_policies = ps, v_author = name,
              v_reason = ''approved proposal seq '' @ string_of_int seq @ '' (reviewer '' @ ad_id a @ '')'',
              v_status = ''active'', v_approved_by = Some (ad_id a)\<rparr>
            (\<lambda>row. [(''seq'', jget row ''seq''), (''version_id'', jget row ''version_id''),
                    (''status'', JStr ''active''), (''approved_by'', JStr (ad_id a)),
                    (''approved_proposal_seq'', JInt seq)]) s)"

text \<open>\<^verbatim>\<open>"{}".format(seq)\<close> of a sequence number that was found.\<close>

definition show_seq :: "json \<Rightarrow> string" where
  "show_seq j = (case j of JInt i \<Rightarrow> string_of_int i | JBool b \<Rightarrow> if b then ''True'' else ''False'' | _ \<Rightarrow> [])"

definition rollback ::
  "crypto \<Rightarrow> console_config \<Rightarrow> string \<Rightarrow> admin option \<Rightarrow> json \<Rightarrow> json \<Rightarrow> console \<Rightarrow>
   (console_error + json dict) \<times> console" where
  "rollback C F uuid who target_seq reason s =
     (case require_role who ROLE_AUTHOR of
        Inl e \<Rightarrow> (Inl e, s)
      | Inr a \<Rightarrow>
          if \<not> nonempty_text reason then (Inl BadRequest, s)
          else (case bind_res (find_version (cs_history s) target_seq) (\<lambda>target.
                bind_res (lifted (subscript (JObj target) ''policies'')) (\<lambda>ps. loaded (as_list ps))) of
             Inl e \<Rightarrow> (Inl e, s)
           | Inr ps \<Rightarrow>
               publish_content C F uuid ps (ad_id a)
                 (''rollback to seq '' @ show_seq target_seq @ '': '' @ str_of reason) s))"

section \<open>Reading\<close>

definition capability_item :: "capability \<Rightarrow> json dict" where
  "capability_item cap =
     [(''id'', JStr (c_id cap)), (''name'', JStr (c_name cap)), (''description'', JStr (c_description cap)),
      (''inputs'', JObj (map (\<lambda>(k, v). (k, JStr v)) (c_inputs cap))),
      (''outputs'', JObj (map (\<lambda>(k, v). (k, JStr v)) (c_outputs cap))),
      (''side_effects'', JStr (c_side_effects cap)), (''scope'', JStr (c_scope cap)),
      (''risk_class'', JStr (c_risk_class cap)),
      (''recommended_max_rate'', case c_recommended_max_rate cap of None \<Rightarrow> JNull | Some r \<Rightarrow> JInt r),
      (''requires_second_admin'', JBool (c_requires_second_admin cap))]"

definition capabilities :: "console_config \<Rightarrow> admin option \<Rightarrow> console \<Rightarrow> console_error + json dict" where
  "capabilities F who s =
     bind_res (require_any_role who) (\<lambda>_.
     bind_res (live_catalog F s False) (\<lambda>cat. Inr
       [(''capabilities'', JArr (map (\<lambda>cap. JObj (capability_item cap)) (sort_key c_id (map snd cat))))]))"

definition history_item :: "json dict \<Rightarrow> exn + json" where
  "history_item row =
     bind_res (subscript (JObj row) ''seq'') (\<lambda>seq.
     bind_res (subscript (JObj row) ''version_id'') (\<lambda>vid.
     bind_res (subscript (JObj row) ''author'') (\<lambda>author.
     bind_res (subscript (JObj row) ''reason'') (\<lambda>reason.
     bind_res (subscript (JObj row) ''status'') (\<lambda>status.
     bind_res (subscript (JObj row) ''approved_by'') (\<lambda>approved. Inr (JObj
       [(''seq'', seq), (''version_id'', vid), (''author'', author), (''reason'', reason),
        (''status'', status), (''approved_by'', approved)])))))))"

definition active_item :: "json dict option \<Rightarrow> exn + json" where
  "active_item active =
     (case active of
        None \<Rightarrow> Inr JNull
      | Some row \<Rightarrow>
          bind_res (subscript (JObj row) ''seq'') (\<lambda>seq.
          bind_res (subscript (JObj row) ''version_id'') (\<lambda>vid.
          bind_res (subscript (JObj row) ''policies'') (\<lambda>ps. Inr (JObj
            [(''seq'', seq), (''version_id'', vid), (''policies'', ps)])))))"

definition list_policies :: "admin option \<Rightarrow> console \<Rightarrow> console_error + json dict" where
  "list_policies who s =
     bind_res (require_any_role who) (\<lambda>_. lifted (
     bind_res (history_read_all (cs_history s)) (\<lambda>rows.
     bind_res (map_res history_item rows) (\<lambda>history.
     bind_res (active_version (cs_history s)) (\<lambda>active.
     bind_res (active_item active) (\<lambda>item. Inr [(''active'', item), (''history'', JArr history)]))))))"

text \<open>
  \<^verbatim>\<open>simulate\<close> evaluates sample orders against a candidate. The identifiers of each order are two
  readings of \<^verbatim>\<open>uuid4\<close>; the rate is counted in an empty store. A sample with a field that is no
  string, or arguments that are no object, is outside the model.
\<close>

definition sample_order :: "string \<times> string \<Rightarrow> json \<Rightarrow> console_error + order" where
  "sample_order uuids s =
     (case s of
        JObj d \<Rightarrow>
          if ''principal'' \<notin> set (keys d) \<or> ''role'' \<notin> set (keys d) \<or> ''capability_id'' \<notin> set (keys d)
          then Inl BadRequest
          else loaded (
            bind_res (as_str (jget d ''principal'')) (\<lambda>who.
            bind_res (as_str (jget d ''role'')) (\<lambda>role.
            bind_res (as_str (jget d ''capability_id'')) (\<lambda>cap.
            bind_res (as_dict (field_or d ''args'' (JObj []))) (\<lambda>args. Inr
              \<lparr>o_order_id = ''sim-'' @ fst uuids, o_principal = who, o_role = role, o_capability_id = cap,
               o_args = args, o_nonce = ''sim-'' @ snd uuids, o_ts = ''simulation''\<rparr>)))))
      | _ \<Rightarrow> Inl BadRequest)"

definition simulate_one ::
  "console_config \<Rightarrow> console \<Rightarrow> policy_set \<Rightarrow> real \<Rightarrow> (string \<times> string) \<times> json \<Rightarrow> console_error + json" where
  "simulate_one F s pset now us =
     bind_res (sample_order (fst us) (snd us)) (\<lambda>ord.
     bind_res (live_catalog F s False) (\<lambda>cat.
       let dec = evaluate_order cat pset now empty_store ord in Inr (JObj
         [(''principal'', JStr (o_principal ord)), (''role'', JStr (o_role ord)),
          (''capability_id'', JStr (o_capability_id ord)), (''allowed'', JBool (d_accepted dec)),
          (''reason_code'', jstr_opt (d_reason_code dec))])))"

definition simulate ::
  "console_config \<Rightarrow> admin option \<Rightarrow> json \<Rightarrow> json \<Rightarrow> real \<Rightarrow> (string \<times> string) list \<Rightarrow> console \<Rightarrow>
   console_error + json dict" where
  "simulate F who candidate samples now uuids s =
     bind_res (require_role who ROLE_AUTHOR) (\<lambda>_.
     bind_res (validate_policy_list candidate) (\<lambda>ps.
     case samples of
       JArr os \<Rightarrow>
         if os = [] then Inl BadRequest
         else bind_res (loaded (candidate_policy_set ps)) (\<lambda>pset.
              bind_res (map_res (simulate_one F s pset now) (zip uuids os)) (\<lambda>rs.
                Inr [(''results'', JArr rs)]))
     | _ \<Rightarrow> Inl BadRequest))"

section \<open>Receipts and the drill\<close>

text \<open>
  \<^verbatim>\<open>_read_ledger_rows\<close>: a ledger that cannot be opened and a row that is no JSON both read as an empty
  ledger. The ledger is written by the loop, so it is an argument of the actions that read it.
\<close>

definition read_ledger_rows :: "db_file \<Rightarrow> exn + (int \<times> json) list" where
  "read_ledger_rows db =
     (case db of
        Db_rows t \<Rightarrow> (case read_rows t of Inl e \<Rightarrow> if e = ValueError then Inr [] else Inl e | Inr rows \<Rightarrow> Inr rows)
      | _ \<Rightarrow> Inr [])"

definition activity ::
  "crypto \<Rightarrow> (string \<Rightarrow> string) \<Rightarrow> pem_file \<Rightarrow> db_file \<Rightarrow> admin option \<Rightarrow> console_error + json dict" where
  "activity C repr key db who =
     bind_res (require_any_role who) (\<lambda>_.
     bind_res (lifted (read_ledger_rows db)) (\<lambda>rows.
     bind_res (loaded (build_report C repr (Some key) rows)) (\<lambda>r. Inr (report_json r))))"

definition show_receipt :: "db_file \<Rightarrow> admin option \<Rightarrow> int \<Rightarrow> console_error + json dict" where
  "show_receipt db who seq =
     bind_res (require_any_role who) (\<lambda>_.
     bind_res (lifted (read_ledger_rows db)) (\<lambda>rows.
       case find (\<lambda>(s, row). s = seq) rows of
         None \<Rightarrow> Inl NotFound
       | Some (s, row) \<Rightarrow> Inr [(''seq'', JInt s), (''receipt'', row)]))"

text \<open>
  What the drill runs with: the kitchen of its scratch directory and its file system, the draws, the
  text of the poisoned email, and the policy files that stand in when no version is active. The
  scratch ledger and directory are gone afterwards, so the console's state does not change.
\<close>

record drill_setup =
  ds_os :: os
  ds_kitchen :: kitchen
  ds_fs :: fsys
  ds_draws :: "nat \<Rightarrow> draw"
  ds_control_uuid :: string
  ds_poisoned :: string
  ds_default_policies :: "string dict"

definition drill_policies :: "drill_setup \<Rightarrow> console \<Rightarrow> console_error + policy_set" where
  "drill_policies D s =
     bind_res (lifted (active_version (cs_history s))) (\<lambda>active.
       case active of
         Some row \<Rightarrow>
           bind_res (lifted (subscript (JObj row) ''policies'')) (\<lambda>ps.
           bind_res (loaded (bind_res (lift (iterate ps)) candidate_policy_set)) Inr)
       | None \<Rightarrow> loaded (load_policy_set (ds_default_policies D)))"

definition console_drill ::
  "crypto \<Rightarrow> console_config \<Rightarrow> drill_setup \<Rightarrow> admin option \<Rightarrow> console \<Rightarrow> console_error + json dict" where
  "console_drill C F D who s =
     bind_res (require_any_role who) (\<lambda>_.
     bind_res (drill_policies D s) (\<lambda>pset.
     bind_res (live_catalog F s False) (\<lambda>cat.
       let S = new_service (ds_os D) (cf_private_key F) cat pset (ds_kitchen D)
       in bind_res (lifted (fst (run_drill C (ds_os D) S (ds_draws D) (ds_control_uuid D) (ds_poisoned D)
            (new_loop_state (ds_fs D))))) (\<lambda>r. Inr (drill_json r)))))"

section \<open>Menu curation\<close>

definition require_menu_curation :: "console \<Rightarrow> console_error + string dict" where
  "require_menu_curation s = (case cs_custom s of None \<Rightarrow> Inl Conflict | Some d \<Rightarrow> Inr d)"

definition builtin_ids :: "console_config \<Rightarrow> console_error + string list" where
  "builtin_ids F = bind_res (loaded (load_catalog (cf_builtin_dir F) None True)) (\<lambda>cat. Inr (keys cat))"

definition template_item :: "string \<times> json dict \<Rightarrow> json" where
  "template_item bt = (case bt of (behavior, t) \<Rightarrow> JObj
     [(''behavior'', JStr behavior), (''label'', jget t ''label''), (''summary'', jget t ''summary''),
      (''default_risk'', jget t ''default_risk''), (''side_effects'', jget t ''side_effects''),
      (''default_requires_user_confirmation'', jget t ''default_requires_user_confirmation''),
      (''default_requires_second_admin'', jget t ''default_requires_second_admin''),
      (''default_recommended_max_rate'', jget t ''default_recommended_max_rate''),
      (''needs_template'', field_or t ''needs_template'' (JBool False))])"

definition list_templates :: "admin option \<Rightarrow> console_error + json dict" where
  "list_templates who = bind_res (require_any_role who) (\<lambda>_.
     Inr [(''templates'', JArr (map template_item (sort_key fst TEMPLATES)))])"

definition menu_item :: "string list \<Rightarrow> capability \<Rightarrow> json" where
  "menu_item builtin cap = JObj
     [(''id'', JStr (c_id cap)), (''name'', JStr (c_name cap)), (''behavior'', JStr (resolved_behavior cap)),
      (''risk_class'', JStr (c_risk_class cap)), (''side_effects'', JStr (c_side_effects cap)),
      (''enabled'', JBool (c_enabled cap)),
      (''requires_user_confirmation'', JBool (c_requires_user_confirmation cap)),
      (''requires_second_admin'', JBool (c_requires_second_admin cap)),
      (''editable'', JBool (c_id cap \<notin> set builtin))]"

definition list_menu :: "console_config \<Rightarrow> admin option \<Rightarrow> console \<Rightarrow> console_error + json dict" where
  "list_menu F who s =
     bind_res (require_any_role who) (\<lambda>_.
     bind_res (live_catalog F s True) (\<lambda>cat.
     bind_res (builtin_ids F) (\<lambda>builtin. Inr
       [(''capabilities'', JArr (map (menu_item builtin) (sort_key c_id (map snd cat))))])))"

definition form_of :: "json dict \<Rightarrow> form" where
  "form_of d =
     \<lparr>f_behavior = field_or d ''behavior'' JNull, f_capability_id = field_or d ''capability_id'' JNull,
      f_name = field_or d ''name'' (JStr []), f_description = field_or d ''description'' (JStr []),
      f_risk_class = field_or d ''risk_class'' JNull,
      f_recommended_max_rate = field_or d ''recommended_max_rate'' JNull,
      f_requires_user_confirmation = field_or d ''requires_user_confirmation'' JNull,
      f_requires_second_admin = field_or d ''requires_second_admin'' JNull,
      f_enabled = field_or d ''enabled'' (JBool True), f_template = field_or d ''template'' JNull\<rparr>"

fun build_failure :: "build_error \<Rightarrow> console_error" where
  "build_failure (Build_raises e) = Console_raises (Raises e)"
| "build_failure _ = BadRequest"

text \<open>\<^verbatim>\<open>except ValueError\<close>: the error it becomes; every other exception passes.\<close>

definition on_value_error :: "console_error \<Rightarrow> load_error + 'a \<Rightarrow> console_error + 'a" where
  "on_value_error e r =
     (case r of Inl x \<Rightarrow> Inl (if x = Raises ValueError then e else Console_raises x) | Inr y \<Rightarrow> Inr y)"

definition create_capability ::
  "console_config \<Rightarrow> admin option \<Rightarrow> json \<Rightarrow> console \<Rightarrow> (console_error + json dict) \<times> console" where
  "create_capability F who form s =
     (case bind_res (require_role who ROLE_AUTHOR) (\<lambda>_.
           bind_res (require_menu_curation s) (\<lambda>custom.
           bind_res (case form of JObj d \<Rightarrow> Inr d | _ \<Rightarrow> Inl BadRequest) (\<lambda>d.
           bind_res (case build_descriptor (form_of d) of Inl e \<Rightarrow> Inl (build_failure e) | Inr x \<Rightarrow> Inr x) (\<lambda>descr.
           bind_res (on_value_error Conflict (save_custom_capability (cf_builtin_dir F) descr custom)) (\<lambda>custom'.
             Inr (descr, custom')))))) of
        Inl e \<Rightarrow> (Inl e, s)
      | Inr (descr, custom') \<Rightarrow>
          (Inr [(''created'', jget descr ''id''), (''behavior'', jget descr ''behavior''),
                (''enabled'', jget descr ''enabled'')], s\<lparr>cs_custom := Some custom'\<rparr>))"

text \<open>What toggling and deleting share: the author's role, the directory, no built-in capability.\<close>

definition editable_custom ::
  "console_config \<Rightarrow> admin option \<Rightarrow> string \<Rightarrow> console \<Rightarrow> console_error + string dict" where
  "editable_custom F who capability_id s =
     bind_res (require_role who ROLE_AUTHOR) (\<lambda>_.
     bind_res (require_menu_curation s) (\<lambda>custom.
     bind_res (builtin_ids F) (\<lambda>builtin.
       if capability_id \<in> set builtin then Inl Conflict else Inr custom)))"

definition set_capability_enabled ::
  "console_config \<Rightarrow> admin option \<Rightarrow> string \<Rightarrow> bool \<Rightarrow> console \<Rightarrow> (console_error + json dict) \<times> console" where
  "set_capability_enabled F who capability_id enabled s =
     (case bind_res (editable_custom F who capability_id s) (\<lambda>custom.
           on_value_error NotFound (lift (set_custom_capability_enabled capability_id enabled custom))) of
        Inl e \<Rightarrow> (Inl e, s)
      | Inr custom' \<Rightarrow>
          (Inr [(''id'', JStr capability_id), (''enabled'', JBool enabled)], s\<lparr>cs_custom := Some custom'\<rparr>))"

definition delete_capability ::
  "console_config \<Rightarrow> admin option \<Rightarrow> string \<Rightarrow> console \<Rightarrow> (console_error + json dict) \<times> console" where
  "delete_capability F who capability_id s =
     (case bind_res (editable_custom F who capability_id s) (\<lambda>custom.
           on_value_error NotFound (lift (delete_custom_capability capability_id custom))) of
        Inl e \<Rightarrow> (Inl e, s)
      | Inr custom' \<Rightarrow> (Inr [(''deleted'', JStr capability_id)], s\<lparr>cs_custom := Some custom'\<rparr>))"

section \<open>Properties\<close>

lemma read_rows_fails:
  assumes "(seq, raw) \<in> set t" and "json_loads raw = None"
  shows "read_rows t = Inl ValueError"
  using assms(1)
proof (induction t)
  case (Cons r t)
  obtain s' raw' where r: "r = (s', raw')" by (cases r)
  show ?case
  proof (cases "json_loads raw'")
    case (Some row)
    then have "read_rows t = Inl ValueError" using Cons r assms(2) by auto
    then show ?thesis using Some by (simp add: r read_rows_def loads_def)
  qed (simp add: r read_rows_def loads_def)
qed simp

text \<open>
  A defect of the Activity screen: one row of the ledger that is no JSON makes the whole ledger
  read as empty, and the screen then shows a valid chain with no receipts and no findings, where the
  standalone verifier refuses the ledger.
\<close>

theorem unreadable_ledger_looks_empty_and_valid:
  assumes "(seq, raw) \<in> set t" and "json_loads raw = None"
  shows "\<exists>r. activity C repr key (Db_rows t) (Some who) = Inr (report_json r) \<and> rp_receipts_total r = 0 \<and>
    rp_chain_valid r \<and> rp_findings r = [] \<and> (\<forall>n. verify_ledger_rows C pk t \<noteq> Verified n)"
proof -
  have "read_rows t = Inl ValueError" using assms by (rule read_rows_fails)
  then have rows: "read_ledger_rows (Db_rows t) = Inr []" by (simp add: read_ledger_rows_def)
  have no_rules: "concat (map (rule_finding []) REASON_RULES) = []" by (simp add: rule_finding_def)
  have f: "all_findings repr (Verified 0) no_tally = []"
    by (simp add: all_findings_def chain_finding_def no_tally_def unknown_reasons_def keys_def mock_finding_def no_rules)
  obtain r where r: "build_report C repr (Some key) [] = Inr r" "rp_receipts_total r = 0" "rp_chain_valid r" "rp_findings r = []"
    by (simp add: build_report_def check_chain_def f)
  have "check_row C pk CONTENT_KEYS p raw = Refuse ''json_parse''" for p
    using assms(2) by (simp add: check_row_def loads_def)
  then have "end_hash (check_row C pk CONTENT_KEYS) p t = None" for p
    using assms(1) by (induction t arbitrary: p) (auto split: row_check.split)
  then have "verify_ledger_rows C pk t \<noteq> Verified n" for n
    by (simp add: verify_ledger_rows_def walk_Verified)
  then show ?thesis
    using r rows by (auto simp: activity_def require_any_role_def lifted_def loaded_def)
qed

theorem unreadable_ledger_looks_empty_and_valid_witness:
  "\<exists>r. activity example_crypto id (Pem_ed25519 ''pk'') (Db_rows [(1, ''tampered'')]) (Some \<lparr>ad_id = ''imani'', ad_role = ROLE_REVIEWER\<rparr>) =
    Inr (report_json r) \<and> rp_chain_valid r \<and> (\<forall>n. verify_ledger_rows example_crypto ''pk'' [(1, ''tampered'')] \<noteq> Verified n)"
proof -
  have "json_loads ''tampered'' = None" by code_simp
  then show ?thesis
    using unreadable_ledger_looks_empty_and_valid [of 1 "''tampered''" "[(1, ''tampered'')]"] by fastforce
qed

end
