(* ===== verification/Server.thy ===== *)
theory Server
  imports Console
begin

text \<open>
  \<^verbatim>\<open>console/server.py\<close>: the HTTP surface of the console. A request is read, its signature checked,
  its path routed to one action of the service, and the action's result or error answered. The
  transport itself is the standard library's, the bytes of an answer and the program are in
  \<^verbatim>\<open>Console_Program\<close>; an exception that is no console error drops the connection. The server is
  single-threaded, so the requests are a sequence.
\<close>

section \<open>Requests and responses\<close>

record http_request =
  rq_method :: string
  rq_path :: string
  rq_header :: "string \<Rightarrow> string option"
  rq_stream :: string

datatype response =
    Ok_json "json dict"
  | Error_json int string
  | Static_file string
  | Not_implemented
  | Dropped load_error

fun error_name :: "console_error \<Rightarrow> string" where
  "error_name BadRequest = ''BadRequestError''"
| "error_name AuthError = ''AuthError''"
| "error_name NotFound = ''NotFoundError''"
| "error_name Conflict = ''ConflictError''"
| "error_name (Console_raises _) = []"

definition http_answer :: "console_error + json dict \<Rightarrow> response" where
  "http_answer r =
     (case r of
        Inr d \<Rightarrow> Ok_json d
      | Inl (Console_raises e) \<Rightarrow> Dropped e
      | Inl e \<Rightarrow> Error_json (the (http_status e)) (error_name e))"

definition STATIC_FILES :: "string dict" where
  "STATIC_FILES = [(''/'', ''index.html''), (''/index.html'', ''index.html''), (''/app.js'', ''app.js'')]"

text \<open>\<^verbatim>\<open>int(headers.get("Content-Length") or 0)\<close> bytes of the stream; a negative length reads all of it.\<close>

definition raw_body :: "http_request \<Rightarrow> exn + string" where
  "raw_body q =
     (case rq_header q ''Content-Length'' of
        None \<Rightarrow> Inr []
      | Some text \<Rightarrow>
          if text = [] then Inr []
          else (case py_int text of
            None \<Rightarrow> Inl ValueError
          | Some n \<Rightarrow> if n < 0 then Inr (rq_stream q) else Inr (take (nat n) (rq_stream q))))"

definition parse_body :: "string \<Rightarrow> console_error + json dict" where
  "parse_body raw =
     (if raw = [] then Inr []
      else if list_ex is_surrogate (code_points raw) then Inl BadRequest
      else (case json_loads raw of Some (JObj d) \<Rightarrow> Inr d | _ \<Rightarrow> Inl BadRequest))"

section \<open>Paths\<close>

definition strip_slashes :: "string \<Rightarrow> string" where
  "strip_slashes s = rev (dropWhile (\<lambda>c. c = CHR ''/'') (rev (dropWhile (\<lambda>c. c = CHR ''/'') s)))"

definition segments :: "string \<Rightarrow> string list" where
  "segments path = split_on CHR ''/'' (strip_slashes path)"

text \<open>\<^verbatim>\<open>xs[-k]\<close>, and \<^verbatim>\<open>IndexError\<close> as a bad request.\<close>

definition str_segment :: "string \<Rightarrow> nat \<Rightarrow> console_error + string" where
  "str_segment path k =
     (let xs = segments path in if k \<le> length xs then Inr (xs ! (length xs - k)) else Inl BadRequest)"

definition int_segment :: "string \<Rightarrow> nat \<Rightarrow> console_error + int" where
  "int_segment path k =
     bind_res (str_segment path k) (\<lambda>s. case py_int s of None \<Rightarrow> Inl BadRequest | Some n \<Rightarrow> Inr n)"

text \<open>\<^verbatim>\<open>self.path.split("?", 1)[0].rstrip("/") or "/"\<close>\<close>

definition route_path :: "string \<Rightarrow> string" where
  "route_path target =
     (let p = rev (dropWhile (\<lambda>c. c = CHR ''/'') (rev (fst (split_first CHR ''?'' target))))
      in if p = [] then ''/'' else p)"

section \<open>Routing\<close>

text \<open>What is fixed at the start, and what a request finds on arrival beside the console's state.\<close>

record server =
  sr_config :: console_config
  sr_registry :: registry
  sr_key :: pem_file
  sr_repr :: "string \<Rightarrow> string"

record arrival =
  ar_time :: int
  ar_uuid :: string
  ar_rate_now :: real
  ar_sample_uuids :: "(string \<times> string) list"
  ar_ledger :: db_file
  ar_drill :: drill_setup

definition route_get ::
  "crypto \<Rightarrow> server \<Rightarrow> arrival \<Rightarrow> string \<Rightarrow> admin option \<Rightarrow> console \<Rightarrow> console_error + json dict" where
  "route_get C R a path who s =
     (let F = sr_config R in
      if path = ''/api/capabilities'' then capabilities F who s
      else if path = ''/api/policies'' then list_policies who s
      else if path = ''/api/activity'' then activity C (sr_repr R) (sr_key R) (ar_ledger a) who
      else if startswith path ''/api/receipt/'' then
        bind_res (int_segment path 1) (show_receipt (ar_ledger a) who)
      else if path = ''/api/menu/templates'' then list_templates who
      else if path = ''/api/menu'' then list_menu F who s
      else Inl NotFound)"

abbreviation body_field :: "json dict \<Rightarrow> string \<Rightarrow> json" where
  "body_field body k \<equiv> jget body k"

text \<open>An action on the capability that a path names.\<close>

definition on_segment ::
  "string \<Rightarrow> (string \<Rightarrow> console \<Rightarrow> (console_error + json dict) \<times> console) \<Rightarrow> console \<Rightarrow>
   (console_error + json dict) \<times> console" where
  "on_segment path f s = (case str_segment path 2 of Inl e \<Rightarrow> (Inl e, s) | Inr x \<Rightarrow> f x s)"

definition route_post ::
  "crypto \<Rightarrow> server \<Rightarrow> arrival \<Rightarrow> string \<Rightarrow> admin option \<Rightarrow> json dict \<Rightarrow> console \<Rightarrow>
   (console_error + json dict) \<times> console" where
  "route_post C R a path who body s =
     (let F = sr_config R in
      if path = ''/api/policies/simulate'' then
        (simulate F who (body_field body ''candidate_policy'') (body_field body ''sample_orders'')
           (ar_rate_now a) (ar_sample_uuids a) s, s)
      else if path = ''/api/policies/publish'' then
        publish C F (ar_uuid a) who (body_field body ''candidate_policy'') (body_field body ''reason'') s
      else if path = ''/api/policies/rollback'' then
        rollback C F (ar_uuid a) who (body_field body ''target_seq'') (body_field body ''reason'') s
      else if startswith path ''/api/policies/'' \<and> endswith path ''/approve'' then
        (case int_segment path 2 of Inl e \<Rightarrow> (Inl e, s) | Inr seq \<Rightarrow> approve C F (ar_uuid a) who seq s)
      else if path = ''/api/drill/run'' then (console_drill C F (ar_drill a) who s, s)
      else if path = ''/api/menu/capabilities'' then create_capability F who (JObj body) s
      else if startswith path ''/api/menu/capabilities/'' \<and> endswith path ''/enable'' then
        on_segment path (\<lambda>i. set_capability_enabled F who i True) s
      else if startswith path ''/api/menu/capabilities/'' \<and> endswith path ''/disable'' then
        on_segment path (\<lambda>i. set_capability_enabled F who i False) s
      else if startswith path ''/api/menu/capabilities/'' \<and> endswith path ''/delete'' then
        on_segment path (delete_capability F who) s
      else (Inl NotFound, s))"

definition route ::
  "crypto \<Rightarrow> server \<Rightarrow> arrival \<Rightarrow> string \<Rightarrow> string \<Rightarrow> admin option \<Rightarrow> string \<Rightarrow> console \<Rightarrow>
   (console_error + json dict) \<times> console" where
  "route C R a verb path who raw s =
     (if verb = ''GET'' then (route_get C R a path who s, s)
      else (case parse_body raw of
        Inl e \<Rightarrow> (Inl e, s)
      | Inr body \<Rightarrow> route_post C R a path who body s))"

section \<open>The handler\<close>

definition dispatch ::
  "crypto \<Rightarrow> server \<Rightarrow> arrival \<Rightarrow> string \<Rightarrow> http_request \<Rightarrow> console \<Rightarrow> response \<times> console" where
  "dispatch C R a verb q s =
     (case (if verb = ''POST'' then raw_body q else Inr []) of
        Inl e \<Rightarrow> (Dropped (Raises e), s)
      | Inr raw \<Rightarrow>
          (case verify_request C (sr_registry R) verb (rq_path q) raw (rq_header q) (ar_time a) DEFAULT_MAX_SKEW_SECONDS of
             None \<Rightarrow> (Error_json 401 ''unauthorized'', s)
           | Some who \<Rightarrow>
               (case route C R a verb (route_path (rq_path q)) (Some who) raw s of
                  (r, s') \<Rightarrow> (http_answer r, s'))))"

definition serve_request :: "crypto \<Rightarrow> server \<Rightarrow> arrival \<Rightarrow> http_request \<Rightarrow> console \<Rightarrow> response \<times> console" where
  "serve_request C R a q s =
     (if rq_method q = ''GET'' then
        (case map_of STATIC_FILES (fst (split_first CHR ''?'' (rq_path q))) of
           Some file \<Rightarrow> (Static_file file, s)
         | None \<Rightarrow> dispatch C R a ''GET'' q s)
      else if rq_method q = ''POST'' then dispatch C R a ''POST'' q s
      else (Not_implemented, s))"

fun serve_requests ::
  "crypto \<Rightarrow> server \<Rightarrow> (arrival \<times> http_request) list \<Rightarrow> console \<Rightarrow> response list \<times> console" where
  "serve_requests C R [] s = ([], s)"
| "serve_requests C R ((a, q) # qs) s =
     (let (r, s1) = serve_request C R a q s; (rs, s2) = serve_requests C R qs s1 in (r # rs, s2))"

end
