(* ===== verification/Duties.thy ===== *)
theory Duties
  imports Server
begin

text \<open>
  Separation of duties: what holds of the policy history after any sequence of requests to the
  console, whoever sent them. The abstract state is the list of versions of theory
  \<^verbatim>\<open>Policy_History\<close>; every request either leaves it alone or adds one version to it.
\<close>

section \<open>The invariant\<close>

definition has_role :: "registry \<Rightarrow> string \<Rightarrow> string \<Rightarrow> bool" where
  "has_role reg i role \<longleftrightarrow> (\<exists>e. map_of reg i = Some e \<and> ke_role e = role)"

text \<open>A second operator, a reviewer, approved a version that another version of the list had proposed.\<close>

definition approved_proposal :: "registry \<Rightarrow> version list \<Rightarrow> version \<Rightarrow> bool" where
  "approved_proposal reg vs v \<longleftrightarrow>
     (\<exists>r u. v_approved_by v = Some r \<and> r \<noteq> v_author v \<and> has_role reg r ROLE_REVIEWER \<and>
        u \<in> set vs \<and> v_status u = ''pending'' \<and> v_author u = v_author v \<and>
        v_policies v = map canon (v_policies u))"

definition separated :: "catalog \<Rightarrow> registry \<Rightarrow> version list \<Rightarrow> bool" where
  "separated cat reg vs \<longleftrightarrow>
     (\<forall>v \<in> set vs. has_role reg (v_author v) ROLE_AUTHOR \<and>
        (v_status v = ''active'' \<longrightarrow>
           needs_second_admin cat (v_policies v) = Inr [] \<or> approved_proposal reg vs v))"

definition policy_file :: "version \<Rightarrow> string" where
  "policy_file v = dumps indent2_style 0 (JObj [(''policies'', canon (JArr (v_policies v)))]) @ [CHR 0x0A]"

definition duties :: "crypto \<Rightarrow> server \<Rightarrow> console \<Rightarrow> version list \<Rightarrow> bool" where
  "duties C R s vs \<longleftrightarrow>
     cs_custom s = None \<and> holds_versions (cs_history s) vs \<and> (\<forall>v \<in> set vs. wf_version v) \<and>
     verify_history_rows C (ed_pub C (cf_private_key (sr_config R))) (cs_history s) = Verified (length vs) \<and>
     separated (cf_catalog (sr_config R)) (sr_registry R) vs \<and>
     (\<forall>v. latest_active vs = Some v \<longrightarrow> files (cs_fs s) (cf_active_path (sr_config R)) = Some (policy_file v))"

lemma approved_mono: "approved_proposal reg vs v \<Longrightarrow> approved_proposal reg (vs @ ws) v"
  unfolding approved_proposal_def by fastforce

lemma separated_snoc:
  assumes "separated cat reg vs" and "has_role reg (v_author v) ROLE_AUTHOR"
    and "v_status v = ''active'' \<Longrightarrow> needs_second_admin cat (v_policies v) = Inr [] \<or> approved_proposal reg vs v"
  shows "separated cat reg (vs @ [v])"
  using assms approved_mono [of reg vs _ "[v]"] by (auto simp: separated_def)

lemma latest_active_snoc:
  "latest_active (vs @ [v]) = (if v_status v = ''active'' then Some v else latest_active vs)"
  by (simp add: latest_active_def)

section \<open>One action\<close>

lemma store_version_duties:
  assumes "sig_correct C" and "duties C R s vs" and "wf_version v"
    and "separated (cf_catalog (sr_config R)) (sr_registry R) (vs @ [v])"
    and "store_version C (sr_config R) v f s = (r, s')"
  shows "duties C R s' (vs @ [v])"
proof -
  let ?F = "sr_config R"
  have d: "cs_custom s = None" "holds_versions (cs_history s) vs" "\<forall>v \<in> set vs. wf_version v"
    "walk (history_check_row C (ed_pub C (cf_private_key ?F))) (sha256_hex C ''POLICY-GENESIS'') 0 (cs_history s) =
      Verified (length vs)"
    and cur: "latest_active vs = Some w \<Longrightarrow> files (cs_fs s) (cf_active_path ?F) = Some (policy_file w)" for w
    using assms(2) by (auto simp: duties_def verify_history_rows_def POLICY_GENESIS_PREV_HASH_def)
  obtain raw row where a: "append_version C (cf_private_key ?F) v (cs_history s) = Inr (insert_row raw (cs_history s), row)"
    "walk (history_check_row C (ed_pub C (cf_private_key ?F))) (sha256_hex C ''POLICY-GENESIS'') 0
      (insert_row raw (cs_history s)) = Verified (Suc (length vs))"
    using history.append_verified [OF conjI [OF assms(1,3)] d(4)] by blast
  define t where "t = insert_row raw (cs_history s)"
  have t: "append_version C (cf_private_key ?F) v (cs_history s) = Inr (t, row)" using a(1) by (simp add: t_def)
  have h: "holds_versions t (vs @ [v])" using holds_append [OF assms(3) t d(2)] .
  have new: "duties C R s' (vs @ [v])"
    if "cs_history s' = t" "cs_custom s' = None"
      "\<And>w. latest_active (vs @ [v]) = Some w \<Longrightarrow> files (cs_fs s') (cf_active_path ?F) = Some (policy_file w)"
    using that h d(3) assms(3,4) a(2)
    by (simp add: duties_def verify_history_rows_def POLICY_GENESIS_PREV_HASH_def t_def)
  show ?thesis
  proof (cases "v_status v = ''active''")
    case True
    then have "latest_active (vs @ [v]) = Some v" by (simp add: latest_active_snoc)
    with materialize_latest [OF h, of "cf_active_path ?F" "cs_fs s"] obtain active where
      "materialize_active (cf_active_path ?F) t (cs_fs s) =
        (Inr (Some active), write_file (cf_active_path ?F) (policy_file v) (cs_fs s))"
      by (auto simp: policy_file_def simp del: canon.simps)
    then have "s' = s\<lparr>cs_history := t, cs_fs := write_file (cf_active_path ?F) (policy_file v) (cs_fs s)\<rparr>"
      using assms(5) t True by (simp add: store_version_def materialize_def Let_def)
    then show ?thesis using d(1) True by (intro new) (simp_all add: latest_active_snoc)
  next
    case False
    then have "s' = s\<lparr>cs_history := t\<rparr>" using assms(5) t by (simp add: store_version_def Let_def)
    then show ?thesis using d(1) False cur by (intro new) (simp_all add: latest_active_snoc)
  qed
qed

text \<open>A version that \<^verbatim>\<open>_find_version\<close> finds is one of the list.\<close>

lemma find_version_shows:
  assumes "holds_versions t vs" and "find_version t seq = Inr row"
  obtains u where "u \<in> set vs" "subscript (JObj row) ''status'' = Inr (JStr (v_status u))"
    "subscript (JObj row) ''author'' = Inr (JStr (v_author u))"
    "subscript (JObj row) ''policies'' = Inr (JArr (map canon (v_policies u)))"
proof -
  obtain rows where r: "history_read_all t = Inr rows" "list_all2 shows_version rows vs"
    using assms(1) by (auto simp: holds_versions_def)
  then have "find (\<lambda>row. seq_is (jget row ''seq'') seq) rows = Some row"
    using assms(2) by (auto simp: find_version_def lifted_def split: option.splits)
  then have "row \<in> set rows" by (auto simp: find_Some_iff)
  then obtain u where "u \<in> set vs" "shows_version row u"
    using r(2) by (metis in_set_conv_nth list_all2_conv_all_nth nth_mem)
  then show thesis using that by (simp add: shows_version_def)
qed

lemma wf_policies_of:
  "wf_version u \<Longrightarrow> \<forall>j \<in> set (map canon (v_policies u)). wf_json j"
  by (auto simp: wf_version_def wf_canon)

definition kept :: "crypto \<Rightarrow> server \<Rightarrow> version list \<Rightarrow> console \<Rightarrow> bool" where
  "kept C R vs s' \<longleftrightarrow> (\<exists>ws. duties C R s' (vs @ ws))"

lemma kept_same: "duties C R s vs \<Longrightarrow> kept C R vs s"
  unfolding kept_def by (metis append_Nil2)

lemma publish_content_kept:
  assumes "sig_correct C" and "duties C R s vs" and "\<forall>j \<in> set ps. wf_json j"
    and "has_role (sr_registry R) author ROLE_AUTHOR"
    and "publish_content C (sr_config R) uuid ps author reason s = (r, s')"
  shows "kept C R vs s'"
proof (cases "bind_res (live_catalog (sr_config R) s False) (\<lambda>cat. lifted (needs_second_admin cat ps))")
  case (Inl e)
  then show ?thesis using assms(2,5) kept_same by (auto simp: publish_content_def)
next
  case (Inr flagged)
  define v where "v = \<lparr>v_uuid = uuid, v_policies = ps, v_author = author, v_reason = reason,
    v_status = (if flagged \<noteq> [] then ''pending'' else ''active''), v_approved_by = None\<rparr>"
  have "live_catalog (sr_config R) s False = Inr (cf_catalog (sr_config R))"
    using assms(2) by (simp add: live_catalog_def duties_def)
  then have "needs_second_admin (cf_catalog (sr_config R)) ps = Inr flagged"
    using Inr by (auto simp: lifted_def split: sum.splits)
  then have "separated (cf_catalog (sr_config R)) (sr_registry R) (vs @ [v])"
    using assms(2,4) by (intro separated_snoc) (auto simp: duties_def v_def split: if_splits)
  moreover have "wf_version v" using assms(3) by (simp add: wf_version_def v_def)
  moreover obtain f where "store_version C (sr_config R) v f s = (r, s')"
    using assms(5) Inr by (auto simp: publish_content_def v_def Let_def)
  ultimately show ?thesis using store_version_duties [OF assms(1,2)] unfolding kept_def by blast
qed

lemma require_role_Some: "require_role (Some a) role = Inr b \<longleftrightarrow> b = a \<and> ad_role a = role"
  by (auto simp: require_role_def)

text \<open>An operator as the registry knows it.\<close>

definition registered :: "registry \<Rightarrow> admin \<Rightarrow> bool" where
  "registered reg a \<longleftrightarrow> has_role reg (ad_id a) (ad_role a)"

lemma publish_kept:
  assumes "sig_correct C" and "duties C R s vs" and "registered (sr_registry R) a" and "wf_json candidate"
    and "publish C (sr_config R) uuid (Some a) candidate reason s = (r, s')"
  shows "kept C R vs s'"
proof (cases "bind_res (require_role (Some a) ROLE_AUTHOR) (\<lambda>a.
    bind_res (validate_policy_list candidate) (\<lambda>ps. Inr (a, ps)))")
  case (Inr ap)
  then obtain ps where ps: "ap = (a, ps)" "ad_role a = ROLE_AUTHOR" "validate_policy_list candidate = Inr ps"
    by (auto simp: bind_res_Inr require_role_Some)
  then have "candidate = JArr ps" by (auto simp: validate_policy_list_def split: json.splits if_splits)
  then have "\<forall>j \<in> set ps. wf_json j" using assms(4) by simp
  moreover have "has_role (sr_registry R) (ad_id a) ROLE_AUTHOR" using assms(3) ps(2) by (simp add: registered_def)
  ultimately show ?thesis
    using assms(5) Inr ps(1) publish_content_kept [OF assms(1,2)] kept_same [OF assms(2)]
    by (auto simp: publish_def split: if_splits)
qed (use assms in \<open>auto simp: publish_def intro: kept_same\<close>)

lemma rollback_kept:
  assumes "sig_correct C" and "duties C R s vs" and "registered (sr_registry R) a"
    and "rollback C (sr_config R) uuid (Some a) seq reason s = (r, s')"
  shows "kept C R vs s'"
proof (cases "require_role (Some a) ROLE_AUTHOR = Inr a \<and> nonempty_text reason")
  case ok: True
  show ?thesis
  proof (cases "bind_res (find_version (cs_history s) seq) (\<lambda>target.
      bind_res (lifted (subscript (JObj target) ''policies'')) (\<lambda>ps. loaded (as_list ps)))")
    case (Inl e)
    then show ?thesis using assms(4) ok kept_same [OF assms(2)] by (auto simp: rollback_def)
  next
    case (Inr ps)
    have h: "holds_versions (cs_history s) vs" "\<forall>v \<in> set vs. wf_version v" using assms(2) by (simp_all add: duties_def)
    obtain row where row: "find_version (cs_history s) seq = Inr row"
      "bind_res (lifted (subscript (JObj row) ''policies'')) (\<lambda>ps. loaded (as_list ps)) = Inr ps"
      using Inr by (auto simp: bind_res_Inr simp del: subscript.simps)
    obtain u where u: "u \<in> set vs" "subscript (JObj row) ''policies'' = Inr (JArr (map canon (v_policies u)))"
      using find_version_shows [OF h(1) row(1)] by metis
    then have "ps = map canon (v_policies u)"
      using row(2) by (simp add: lifted_def loaded_def del: subscript.simps)
    then have "\<forall>j \<in> set ps. wf_json j" using wf_policies_of [of u] h(2) u(1) by blast
    moreover have "has_role (sr_registry R) (ad_id a) ROLE_AUTHOR"
      using assms(3) ok by (simp add: registered_def require_role_Some)
    ultimately show ?thesis
      using assms(4) ok Inr publish_content_kept [OF assms(1,2)] by (auto simp: rollback_def)
  qed
next
  case False
  then show ?thesis
    using assms(4) kept_same [OF assms(2)] by (auto simp: rollback_def require_role_def split: if_splits)
qed

lemma approve_kept:
  assumes "sig_correct C" and "duties C R s vs" and "registered (sr_registry R) a"
    and "approve C (sr_config R) uuid (Some a) seq s = (r, s')"
  shows "kept C R vs s'"
proof -
  let ?check = "bind_res (require_role (Some a) ROLE_REVIEWER) (\<lambda>a.
           bind_res (find_version (cs_history s) (JInt seq)) (\<lambda>target.
           bind_res (lifted (subscript (JObj target) ''status'')) (\<lambda>status.
           if status \<noteq> JStr ''pending'' then Inl Conflict
           else bind_res (lifted (subscript (JObj target) ''author'')) (\<lambda>author.
           if author = JStr (ad_id a) then Inl AuthError
           else bind_res (lifted (subscript (JObj target) ''policies'')) (\<lambda>policies.
           bind_res (loaded (as_list policies)) (\<lambda>ps.
           bind_res (loaded (as_str author)) (\<lambda>name. Inr (a, ps, name))))))))"
  show ?thesis
  proof (cases ?check)
    case (Inl e)
    then show ?thesis using assms(4) kept_same [OF assms(2)] by (simp add: approve_def del: subscript.simps)
  next
    case (Inr p)
    have h: "holds_versions (cs_history s) vs" "\<forall>v \<in> set vs. wf_version v" "separated (cf_catalog (sr_config R)) (sr_registry R) vs"
      using assms(2) by (simp_all add: duties_def)
    obtain row where row: "find_version (cs_history s) (JInt seq) = Inr row" and a: "ad_role a = ROLE_REVIEWER"
      using Inr by (auto simp: bind_res_Inr require_role_Some simp del: subscript.simps)
    obtain u where u: "u \<in> set vs" "subscript (JObj row) ''status'' = Inr (JStr (v_status u))"
        "subscript (JObj row) ''author'' = Inr (JStr (v_author u))"
        "subscript (JObj row) ''policies'' = Inr (JArr (map canon (v_policies u)))"
      using find_version_shows [OF h(1) row] by metis
    have pend: "v_status u = ''pending''" "v_author u \<noteq> ad_id a" "p = (a, map canon (v_policies u), v_author u)"
      using Inr row u(2-4) a by (auto simp: require_role_def lifted_def loaded_def simp del: subscript.simps split: if_splits)
    define v where "v = \<lparr>v_uuid = uuid, v_policies = map canon (v_policies u), v_author = v_author u,
      v_reason = ''approved proposal seq '' @ string_of_int seq @ '' (reviewer '' @ ad_id a @ '')'',
      v_status = ''active'', v_approved_by = Some (ad_id a)\<rparr>"
    have "has_role (sr_registry R) (ad_id a) ROLE_REVIEWER" using assms(3) a by (simp add: registered_def)
    then have "approved_proposal (sr_registry R) vs v"
      using u(1) pend unfolding approved_proposal_def v_def by force
    moreover have "has_role (sr_registry R) (v_author u) ROLE_AUTHOR" using h(3) u(1) by (simp add: separated_def)
    ultimately have "separated (cf_catalog (sr_config R)) (sr_registry R) (vs @ [v])"
      using h(3) by (intro separated_snoc) (simp_all add: v_def)
    moreover have "wf_version v" using wf_policies_of [of u] h(2) u(1) by (auto simp: wf_version_def v_def)
    moreover obtain f where "store_version C (sr_config R) v f s = (r, s')"
      using assms(4) Inr pend(3) by (auto simp: approve_def v_def simp del: subscript.simps)
    ultimately show ?thesis using store_version_duties [OF assms(1,2)] unfolding kept_def by blast
  qed
qed

section \<open>One request\<close>

lemma no_curation:
  assumes "cs_custom s = None"
  shows "snd (create_capability F who form s) = s" "snd (set_capability_enabled F who i b s) = s"
    "snd (delete_capability F who i s) = s"
proof -
  have m: "require_menu_curation s = Inl Conflict" using assms by (simp add: require_menu_curation_def)
  then show "snd (create_capability F who form s) = s"
    by (auto simp: create_capability_def bind_res_Inr split: sum.split)
  have "editable_custom F who i s \<noteq> Inr d" for d using m by (auto simp: editable_custom_def bind_res_Inr)
  then show "snd (set_capability_enabled F who i b s) = s" "snd (delete_capability F who i s) = s"
    by (auto simp: set_capability_enabled_def delete_capability_def bind_res_Inr split: sum.split)
qed

lemma route_post_kept:
  assumes "sig_correct C" and "duties C R s vs" and "registered (sr_registry R) a"
    and "\<And>k. wf_json (jget body k)"
  shows "kept C R vs (snd (route_post C R ar path (Some a) body s))"
proof -
  have c: "cs_custom s = None" using assms(2) by (simp add: duties_def)
  have p: "kept C R vs (snd (publish C (sr_config R) u (Some a) (jget body k) x s))" for u k x
    using publish_kept [OF assms(1-3) assms(4)] by (metis prod.collapse)
  have rb: "kept C R vs (snd (rollback C (sr_config R) u (Some a) x y s))" for u x y
    using rollback_kept [OF assms(1-3)] by (metis prod.collapse)
  have ap: "kept C R vs (snd (approve C (sr_config R) u (Some a) x s))" for u x
    using approve_kept [OF assms(1-3)] by (metis prod.collapse)
  show ?thesis
    using p rb ap kept_same [OF assms(2)] no_curation [OF c]
    by (simp add: route_post_def Let_def on_segment_def split: sum.split)
qed

lemma wf_parse_body: "parse_body raw = Inr body \<Longrightarrow> wf_json (jget body k)"
proof -
  assume "parse_body raw = Inr body"
  then have "body = [] \<or> json_loads raw = Some (JObj body)"
    by (auto simp: parse_body_def split: if_splits option.splits json.splits)
  then have "wf_json (JObj body)" using wf_json_loads by fastforce
  then have "v \<in> snd ` set body \<Longrightarrow> wf_json v" for v by auto
  then show ?thesis by (cases "map_of body k") (force simp: jget_def jopt_def dest: map_of_SomeD)+
qed

lemma verify_request_registered:
  "verify_request C reg verb path raw header now skew = Some a \<Longrightarrow> registered reg a"
  by (auto simp: verify_request_def registered_def has_role_def split: option.splits if_splits)

lemma serve_request_kept:
  assumes "sig_correct C" and "duties C R s vs"
  shows "kept C R vs (snd (serve_request C R ar q s))"
proof -
  have "kept C R vs (snd (route C R ar verb path (Some a) raw s))" if "registered (sr_registry R) a" for verb path a raw
    using route_post_kept [OF assms that wf_parse_body] kept_same [OF assms(2)]
    by (auto simp: route_def split: sum.split)
  then have "kept C R vs (snd (dispatch C R ar verb q s))" for verb
    using kept_same [OF assms(2)] verify_request_registered
    by (simp add: dispatch_def case_prod_beta split: sum.split option.split)
  then show ?thesis using kept_same [OF assms(2)] by (simp add: serve_request_def split: option.split)
qed

lemma serve_requests_kept:
  assumes "sig_correct C"
  shows "duties C R s vs \<Longrightarrow> kept C R vs (snd (serve_requests C R qs s))"
proof (induction qs arbitrary: s vs)
  case (Cons aq qs)
  obtain a q where aq: "aq = (a, q)" by (cases aq)
  obtain ws where "duties C R (snd (serve_request C R a q s)) (vs @ ws)"
    using serve_request_kept [OF assms Cons.prems] unfolding kept_def by blast
  from Cons.IH [OF this] show ?case
    unfolding kept_def by (auto simp: aq case_prod_beta Let_def)
qed (simp add: kept_same)

section \<open>Properties\<close>


definition example_registry :: registry where
  "example_registry = [(''tanaka'', \<lparr>ke_public_key = ''k'', ke_role = ROLE_AUTHOR\<rparr>),
     (''imani'', \<lparr>ke_public_key = ''l'', ke_role = ROLE_REVIEWER\<rparr>)]"

definition example_server :: server where
  "example_server = \<lparr>sr_config = \<lparr>cf_private_key = ''sk'', cf_active_path = ''/active.json'', cf_builtin_dir = [],
       cf_catalog = [(''cap.pay'', composed payment_form [])]\<rparr>,
     sr_registry = example_registry, sr_key = Pem_ed25519 ''pk'', sr_repr = id\<rparr>"

definition example_console :: console where
  "example_console = \<lparr>cs_history = [], cs_fs = \<lparr>files = Map.empty, dirs = {}, trace = []\<rparr>, cs_custom = None\<rparr>"

definition unsigned_publish :: http_request where
  "unsigned_publish = \<lparr>rq_method = ''POST'', rq_path = ''/api/policies/publish'', rq_header = Map.empty, rq_stream = []\<rparr>"


text \<open>A policy for a capability that is not on the menu yet, and the form that puts it there.\<close>

definition pay_policies :: "json list" where
  "pay_policies = [JObj [(''role'', JStr ''account_manager''), (''allowed_capabilities'', JArr [JStr ''cap.pay'']),
     (''rate_limit_per_hour'', JInt 5)]]"

definition pay_body :: "json dict" where
  "pay_body = [(''behavior'', JStr ''payment_request''), (''capability_id'', JStr ''cap.pay''), (''name'', JStr ''Pay'')]"

lemma map_of_filter_enabled:
  "map_of all i = Some cap \<Longrightarrow> c_enabled cap \<Longrightarrow> map_of (filter (\<lambda>(cid, cap). c_enabled cap) all) i = Some cap"
  by (induction all) (auto split: if_splits)

lemma load_dir_Nil: "load_dir [] = Inr []"
  by (simp add: load_dir_def json_files_def dict_of_def)

lemma pay_policies_flagged:
  "needs_second_admin cat pay_policies = Inr (case map_of cat ''cap.pay'' of
     Some cap \<Rightarrow> if c_requires_second_admin cap then [''cap.pay''] else [] | None \<Rightarrow> [])"
  by (auto simp: needs_second_admin_def pay_policies_def flagged_by_policy_def field_or_def split: option.split)

lemma pay_policies_valid: "validate_policy_list (JArr pay_policies) = Inr pay_policies"
  by (simp add: validate_policy_list_def pay_policies_def valid_policy_def keys_def jget_def jopt_def field_or_def)

lemma pay_policies_wf: "\<forall>j \<in> set pay_policies. wf_json j"
  by (simp add: pay_policies_def wf_dict_def)

lemma pay_item_on_menu:
  obtains d custom cat where "build_descriptor (form_of pay_body) = Inr d" "save_custom_capability [] d [] = Inr custom"
    "load_catalog [] (Some custom) False = Inr cat"
    "\<exists>cap. map_of cat ''cap.pay'' = Some cap \<and> c_requires_second_admin cap"
proof -
  let ?f = "form_of pay_body"
  have "strip ''Pay'' = ''Pay''" by (rule strip_ascii_word) (simp_all add: is_space_def)
  then obtain d where d: "build_descriptor ?f = Inr d" "map_of d ''id'' = Some (JStr ''cap.pay'')"
    by (simp add: build_descriptor_def form_of_def pay_body_def field_or_def TEMPLATES_def id_matches_def slug_core_def
        slug_start_def slug_rest_def is_digit_def Let_def or_default_def jget_def jopt_def falsy_def flag_def descriptor_def)
  then obtain custom where c: "save_custom_capability [] d [] = Inr custom"
    by (simp add: save_custom_capability_def load_dir_Nil keys_def)
  have w: "well_named []" by (simp add: well_named_def)
  have l: "load_catalog [] (Some []) True = Inr []" by (simp add: load_catalog_def load_dir_Nil)
  obtain all b tmpl where a: "load_catalog [] (Some custom) True = Inr all" "f_behavior ?f = JStr b"
    "map_of TEMPLATES b = Some tmpl" "f_capability_id ?f = JStr (c_id (composed ?f tmpl))"
    "map_of all ''cap.pay'' = (if ''cap.pay'' = c_id (composed ?f tmpl) then Some (composed ?f tmpl) else None)"
    using menu_after_save [OF d(1) c w w l, of "''cap.pay''"] by auto
  have b: "b = ''payment_request''" using a(2) by (simp add: form_of_def pay_body_def field_or_def)
  have "c_id (composed ?f tmpl) = ''cap.pay''" using a(4) by (simp add: form_of_def pay_body_def field_or_def)
  moreover have "c_enabled (composed ?f tmpl)"
    by (simp add: composed_def form_of_def pay_body_def field_or_def falsy_def)
  moreover have "c_requires_second_admin (composed ?f tmpl)"
    using a(3) by (auto simp: b TEMPLATES_def composed_def form_of_def pay_body_def field_or_def flag_def jget_def jopt_def)
  ultimately have "map_of (filter (\<lambda>(cid, cap). c_enabled cap) all) ''cap.pay'' = Some (composed ?f tmpl)"
    using a(5) by (intro map_of_filter_enabled) simp_all
  moreover have "load_catalog [] (Some custom) False = Inr (filter (\<lambda>(cid, cap). c_enabled cap) all)"
    using a(1) by (auto simp: load_catalog_def bind_res_Inr Let_def)
  ultimately show thesis using that d(1) c \<open>c_requires_second_admin (composed ?f tmpl)\<close> by blast
qed

text \<open>
  C39. A defect: where the console can edit the menu, one author alone puts a capability marked for a
  second admin into force. The gate looks at the menu of the moment, so the author publishes the
  policy while the capability is not on it, which takes effect at once, and then composes the
  capability: the active version now allows a capability that needs a second admin, nobody approved
  it, and the history is as it was.
\<close>

theorem one_author_can_bypass_the_second_admin:
  fixes F0 s0 name
  defines "F \<equiv> F0\<lparr>cf_builtin_dir := []\<rparr>" and "s \<equiv> s0\<lparr>cs_history := [], cs_custom := Some []\<rparr>"
    and "a \<equiv> Some \<lparr>ad_id = name, ad_role = ROLE_AUTHOR\<rparr>"
  shows "\<exists>r1 s1 r2 s2 cat row. publish C F uuid a (JArr pay_policies) (JStr ''start'') s = (Inr r1, s1) \<and>
    map_of r1 ''status'' = Some (JStr ''active'') \<and>
    create_capability F a (JObj pay_body) s1 = (Inr r2, s2) \<and> cs_history s2 = cs_history s1 \<and>
    live_catalog F s2 False = Inr cat \<and> needs_second_admin cat pay_policies = Inr [''cap.pay''] \<and>
    active_version (cs_history s2) = Inr (Some row) \<and>
    map_of row ''policies'' = Some (canon (JArr pay_policies)) \<and> map_of row ''approved_by'' = Some JNull"
proof -
  define v where "v = \<lparr>v_uuid = uuid, v_policies = pay_policies, v_author = name, v_reason = ''start'',
    v_status = ''active'', v_approved_by = None\<rparr>"
  have wf: "wf_version v" using pay_policies_wf by (simp add: wf_version_def v_def)
  have head: "history_head_hash C [] = Inr (JStr (POLICY_GENESIS_PREV_HASH C))"
    by (simp add: history_head_hash_def head_hash_def)
  obtain t row where t: "append_version C (cf_private_key F) v [] = Inr (t, row)"
    using append_version_Inr [OF head wf] by blast
  have h: "holds_versions t [v]" using holds_append [OF wf t holds_empty] by simp
  have la: "latest_active [v] = Some v" by (simp add: latest_active_def v_def)
  obtain active fs where m: "materialize_active (cf_active_path F) t (cs_fs s) = (Inr (Some active), fs)"
    using materialize_latest [OF h, of "cf_active_path F" "cs_fs s"] by (auto simp: la)
  obtain r where r: "active_version t = Inr (Some r)" "shows_version r v"
    using active_version_latest [OF h] by (auto simp: la option_rel_Some2)
  have strip: "strip ''start'' = ''start''" by (rule strip_ascii_word) (simp_all add: is_space_def)
  have cat0: "live_catalog F s False = Inr []"
    by (simp add: live_catalog_def s_def F_def load_catalog_def load_dir_Nil loaded_def)
  have ch: "cs_history s = []" by (simp add: s_def)
  define s1 where "s1 = s\<lparr>cs_history := t, cs_fs := fs\<rparr>"
  obtain r1 where p: "publish C F uuid a (JArr pay_policies) (JStr ''start'') s = (Inr r1, s1)"
    "map_of r1 ''status'' = Some (JStr ''active'')"
    using t m unfolding publish_def a_def
    by (simp add: require_role_def pay_policies_valid nonempty_text_def strip publish_content_def cat0 pay_policies_flagged
        lifted_def store_version_def materialize_def Let_def s1_def v_def ch)
  obtain d custom cat where c: "build_descriptor (form_of pay_body) = Inr d" "save_custom_capability [] d [] = Inr custom"
    "load_catalog [] (Some custom) False = Inr cat" "\<exists>cap. map_of cat ''cap.pay'' = Some cap \<and> c_requires_second_admin cap"
    by (rule pay_item_on_menu)
  define s2 where "s2 = s1\<lparr>cs_custom := Some custom\<rparr>"
  have "create_capability F a (JObj pay_body) s1 = (Inr [(''created'', jget d ''id''), (''behavior'', jget d ''behavior''),
      (''enabled'', jget d ''enabled'')], s2)"
    by (simp add: create_capability_def a_def require_role_def require_menu_curation_def s1_def s_def c(1,2) F_def
        on_value_error_def s2_def)
  moreover have "live_catalog F s2 False = Inr cat"
    by (simp add: live_catalog_def s2_def F_def c(3) loaded_def)
  moreover have "needs_second_admin cat pay_policies = Inr [''cap.pay'']"
    using c(4) by (auto simp: pay_policies_flagged)
  moreover have "active_version (cs_history s2) = Inr (Some r)" "cs_history s2 = cs_history s1"
    by (simp_all add: s2_def s1_def r(1))
  moreover have "map_of r ''policies'' = Some (canon (JArr pay_policies))" "map_of r ''approved_by'' = Some JNull"
    using r(2) by (simp_all add: shows_version_def v_def jstr_opt_def)
  ultimately show ?thesis using p by blast
qed

end
