(* ===== verification/Gateway.thy ===== *)
theory Gateway
  imports Loop
begin

text \<open>
  \<^verbatim>\<open>gateway.py\<close>: the counter. An order arrives as JSON text or bytes, is admitted strictly or
  refused, and the outcome leaves as JSON. A refused intake is recorded too, under an identity of
  the gateway's own; nothing of its text reaches the ledger. The program around it is in
  \<^verbatim>\<open>Programs\<close>.
\<close>

section \<open>Admission\<close>

datatype intake = Str_intake string | Bytes_intake string

definition ORDER_KEYS :: "string list" where
  "ORDER_KEYS = [''order_id'', ''principal'', ''role'', ''capability_id'', ''args'', ''nonce'', ''ts'']"

definition STRING_ORDER_KEYS :: "string list" where
  "STRING_ORDER_KEYS = [''order_id'', ''principal'', ''role'', ''capability_id'', ''nonce'', ''ts'']"

text \<open>\<^verbatim>\<open>text.lstrip("\<close>U+FEFF\<^verbatim>\<open>")\<close> drops every leading byte order mark.\<close>

definition lstrip_bom :: "string \<Rightarrow> string" where
  "lstrip_bom s = encode (dropWhile (\<lambda>n. n = 0xFEFF) (code_points s))"

definition intake_text :: "intake \<Rightarrow> string option" where
  "intake_text i = (case i of Bytes_intake b \<Rightarrow> decode_utf8_sig b | Str_intake s \<Rightarrow> Some (lstrip_bom s))"

text \<open>\<^verbatim>\<open>sorted(xs)[0]\<close> of a nonempty set of keys.\<close>

definition parse_order :: "intake \<Rightarrow> string + order" where
  "parse_order i =
     (case Option.bind (intake_text i) json_loads of
        None \<Rightarrow> Inl ''unparseable JSON''
      | Some (JObj obj) \<Rightarrow>
          (case filter (\<lambda>k. k \<notin> set (keys obj)) ORDER_KEYS of
             k # _ \<Rightarrow> Inl (''missing required key: '' @ k)
           | [] \<Rightarrow>
               (case sort (filter (\<lambda>k. k \<notin> set ORDER_KEYS) (keys obj)) of
                  k # _ \<Rightarrow> Inl (''unknown key: '' @ k)
                | [] \<Rightarrow>
                    (case find (\<lambda>k. \<not> is_str (jget obj k)) STRING_ORDER_KEYS of
                       Some k \<Rightarrow> Inl (''key must be a string: '' @ k)
                     | None \<Rightarrow>
                         (case jget obj ''args'' of
                            JObj args \<Rightarrow> Inr
                              \<lparr>o_order_id = str_of (jget obj ''order_id''),
                               o_principal = str_of (jget obj ''principal''),
                               o_role = str_of (jget obj ''role''),
                               o_capability_id = str_of (jget obj ''capability_id''),
                               o_args = args, o_nonce = str_of (jget obj ''nonce''),
                               o_ts = str_of (jget obj ''ts'')\<rparr>
                          | _ \<Rightarrow> Inl ''args must be an object''))))
      | Some _ \<Rightarrow> Inl ''order JSON is not an object'')"

section \<open>Outcomes\<close>

definition receipt_to_dict :: "receipt \<Rightarrow> json dict" where
  "receipt_to_dict r =
     receipt_content_dict r @ [(''this_hash'', r_this_hash r), (''sig'', JStr (b64encode (r_sig r)))]"

definition fulfilled :: "chef_result \<Rightarrow> bool" where
  "fulfilled chef \<longleftrightarrow> cr_returncode chef = 0 \<and> cr_draft_bytes chef \<noteq> None"

definition outcome_to_dict :: "loop_state \<Rightarrow> order \<Rightarrow> outcome \<Rightarrow> exn + json dict" where
  "outcome_to_dict s ord out =
     (case out of
        RejectionOutcome reason receipt \<Rightarrow> Inr
          [(''order_id'', JStr (o_order_id ord)), (''accepted'', JBool False),
           (''status'', JStr ''REJECTED''), (''reason_code'', JStr reason), (''ticket_id'', JNull),
           (''receipt'', JObj (receipt_to_dict receipt)), (''window_dir'', JNull), (''draft_b64'', JNull)]
      | TicketOutcome t \<Rightarrow>
          (case ls_last_chef s of
             None \<Rightarrow> Inl AttributeError
           | Some chef \<Rightarrow> Inr
               [(''order_id'', JStr (o_order_id ord)), (''accepted'', JBool True),
                (''status'', r_status (cr_receipt chef)), (''reason_code'', r_reason_code (cr_receipt chef)),
                (''ticket_id'', JStr (t_ticket_id t)), (''receipt'', JObj (receipt_to_dict (cr_receipt chef))),
                (''window_dir'', if fulfilled chef then JStr (cr_out_dir chef) else JNull),
                (''draft_b64'', if fulfilled chef then JStr (b64encode (the (cr_draft_bytes chef))) else JNull)]))"

section \<open>The counter\<close>

text \<open>The readings of one call: the loop's, two identifiers and the clock as \<^verbatim>\<open>isoformat\<close> prints it.\<close>

record intake_moment =
  im_loop :: loop_moment
  im_receipt_uuid :: string
  im_order_uuid :: string
  im_now :: string

definition malformed_entry :: "intake_moment \<Rightarrow> entry" where
  "malformed_entry m =
     \<lparr>e_receipt_id = ''rcpt-'' @ im_receipt_uuid m, e_order_id = ''gw-unadmitted-'' @ im_order_uuid m,
      e_ticket_id = None, e_status = ''REJECTED'', e_reason_code = Some ''MALFORMED_ORDER'',
      e_result_digest = None, e_attestation = None,
      e_order_meta = Some (JObj
        [(''principal'', JStr ''gateway:unadmitted''), (''role'', JStr ''(none)''),
         (''capability_id'', JStr ''(unparsed)''), (''ts'', JStr (im_now m))]),
      e_containment = None\<rparr>"

definition append_malformed_receipt ::
  "crypto \<Rightarrow> service \<Rightarrow> intake_moment \<Rightarrow> loop_state \<Rightarrow> (exn + receipt) \<times> loop_state" where
  "append_malformed_receipt C S m s =
     (case ledger_append C (sv_private_key S) (malformed_entry m) (cs_ledger s) of
        Inl e \<Rightarrow> (Inl e, s)
      | Inr (ledger, receipt) \<Rightarrow> (Inr receipt, s\<lparr>cs_ledger := ledger\<rparr>))"

definition place_order_json ::
  "crypto \<Rightarrow> os \<Rightarrow> service \<Rightarrow> intake_moment \<Rightarrow> intake \<Rightarrow> loop_state \<Rightarrow> (exn + json dict) \<times> loop_state" where
  "place_order_json C W S m i s =
     (case parse_order i of
        Inl detail \<Rightarrow>
          (case append_malformed_receipt C S m s of
             (Inl e, s1) \<Rightarrow> (Inl e, s1)
           | (Inr receipt, s1) \<Rightarrow> (Inr
               [(''accepted'', JBool False), (''error'', JStr ''MALFORMED_ORDER''), (''detail'', JStr detail),
                (''receipt_id'', r_receipt_id receipt)], s1))
      | Inr ord \<Rightarrow>
          (case place C W S (im_loop m) ord s of
             (Inl e, s1) \<Rightarrow> (Inl e, s1)
           | (Inr out, s1) \<Rightarrow> (outcome_to_dict s1 ord out, s1)))"

text \<open>What \<^verbatim>\<open>main\<close> prints and returns for the bytes on standard input.\<close>

definition gateway_main ::
  "crypto \<Rightarrow> os \<Rightarrow> service \<Rightarrow> intake_moment \<Rightarrow> string \<Rightarrow> loop_state \<Rightarrow> (exn + nat \<times> string) \<times> loop_state" where
  "gateway_main C W S m stdin s =
     (case place_order_json C W S m (Bytes_intake stdin) s of
        (Inl e, s1) \<Rightarrow> (Inl e, s1)
      | (Inr result, s1) \<Rightarrow>
          (Inr (if jget result ''error'' = JStr ''MALFORMED_ORDER'' then 2 else 0,
                dumps indent2_style 0 (canon (JObj result)) @ [CHR 0x0A]), s1))"

section \<open>Strictness\<close>

text \<open>The one object that stands for an order.\<close>

definition order_dict :: "order \<Rightarrow> json dict" where
  "order_dict ord =
     [(''order_id'', JStr (o_order_id ord)), (''principal'', JStr (o_principal ord)),
      (''role'', JStr (o_role ord)), (''capability_id'', JStr (o_capability_id ord)),
      (''args'', JObj (o_args ord)), (''nonce'', JStr (o_nonce ord)), (''ts'', JStr (o_ts ord))]"

lemma JStr_str_of: "is_str j \<Longrightarrow> JStr (str_of j) = j"
  by (cases j) auto

lemma map_of_order_dict:
  assumes "set (keys d) = set ORDER_KEYS"
    and "\<forall>k \<in> set STRING_ORDER_KEYS. is_str (jget d k)" and "jget d ''args'' = JObj args"
  shows "map_of d = map_of (order_dict
    \<lparr>o_order_id = str_of (jget d ''order_id''), o_principal = str_of (jget d ''principal''),
     o_role = str_of (jget d ''role''), o_capability_id = str_of (jget d ''capability_id''),
     o_args = args, o_nonce = str_of (jget d ''nonce''), o_ts = str_of (jget d ''ts'')\<rparr>)"
proof
  fix k
  have "map_of d k = None" if "k \<notin> set ORDER_KEYS" using that assms(1) keys_iff [of k d] by auto
  moreover have "map_of d k = Some (jget d k)" if "k \<in> set ORDER_KEYS" using that assms(1) jget_key by blast
  ultimately show "map_of d k = map_of (order_dict
    \<lparr>o_order_id = str_of (jget d ''order_id''), o_principal = str_of (jget d ''principal''),
     o_role = str_of (jget d ''role''), o_capability_id = str_of (jget d ''capability_id''),
     o_args = args, o_nonce = str_of (jget d ''nonce''), o_ts = str_of (jget d ''ts'')\<rparr>) k"
    using assms(2,3) by (cases "k \<in> set ORDER_KEYS")
      (auto simp: order_dict_def ORDER_KEYS_def STRING_ORDER_KEYS_def JStr_str_of)
qed

lemma jget_order_dict:
  "jget (order_dict ord) ''order_id'' = JStr (o_order_id ord)"
  "jget (order_dict ord) ''principal'' = JStr (o_principal ord)"
  "jget (order_dict ord) ''role'' = JStr (o_role ord)"
  "jget (order_dict ord) ''capability_id'' = JStr (o_capability_id ord)"
  "jget (order_dict ord) ''args'' = JObj (o_args ord)"
  "jget (order_dict ord) ''nonce'' = JStr (o_nonce ord)"
  "jget (order_dict ord) ''ts'' = JStr (o_ts ord)"
  by (simp_all add: order_dict_def jget_def jopt_def)

lemma parse_order_Inr:
  "parse_order i = Inr ord \<longleftrightarrow>
     (\<exists>d. Option.bind (intake_text i) json_loads = Some (JObj d) \<and> map_of d = map_of (order_dict ord))"
proof
  assume a: "parse_order i = Inr ord"
  then obtain d where d: "Option.bind (intake_text i) json_loads = Some (JObj d)"
    "filter (\<lambda>k. k \<notin> set (keys d)) ORDER_KEYS = []" "sort (filter (\<lambda>k. k \<notin> set ORDER_KEYS) (keys d)) = []"
    "find (\<lambda>k. \<not> is_str (jget d k)) STRING_ORDER_KEYS = None"
    by (auto simp: parse_order_def split: option.splits json.splits list.splits)
  have "set (filter (\<lambda>k. k \<notin> set ORDER_KEYS) (keys d)) = {}" using d(3) by (metis set_empty set_sort)
  then have k: "set (keys d) = set ORDER_KEYS" using d(2) by (auto simp: filter_empty_conv)
  moreover obtain args where "jget d ''args'' = JObj args" and
    "ord = \<lparr>o_order_id = str_of (jget d ''order_id''), o_principal = str_of (jget d ''principal''),
     o_role = str_of (jget d ''role''), o_capability_id = str_of (jget d ''capability_id''),
     o_args = args, o_nonce = str_of (jget d ''nonce''), o_ts = str_of (jget d ''ts'')\<rparr>"
    using a d by (simp add: parse_order_def split: json.splits)
  moreover have "\<forall>k \<in> set STRING_ORDER_KEYS. is_str (jget d k)" using d(4) by (simp add: find_None_iff)
  ultimately show "\<exists>d. Option.bind (intake_text i) json_loads = Some (JObj d) \<and> map_of d = map_of (order_dict ord)"
    using d(1) map_of_order_dict by blast
next
  assume "\<exists>d. Option.bind (intake_text i) json_loads = Some (JObj d) \<and> map_of d = map_of (order_dict ord)"
  then obtain d where d: "Option.bind (intake_text i) json_loads = Some (JObj d)" "map_of d = map_of (order_dict ord)"
    by blast
  have k: "set (keys d) = set ORDER_KEYS"
    using keys_of_map [OF d(2)] by (simp add: order_dict_def keys_def ORDER_KEYS_def)
  have j: "jget d k = jget (order_dict ord) k" for k by (simp add: jget_def d(2))
  have "filter (\<lambda>k. k \<notin> set (keys d)) ORDER_KEYS = []" "filter (\<lambda>k. k \<notin> set ORDER_KEYS) (keys d) = []"
    by (simp_all add: filter_empty_conv k)
  moreover have "find (\<lambda>k. \<not> is_str (jget d k)) STRING_ORDER_KEYS = None"
    unfolding j by (simp add: find_None_iff jget_order_dict STRING_ORDER_KEYS_def)
  ultimately show "parse_order i = Inr ord"
    by (simp add: parse_order_def d(1) j jget_order_dict)
qed

section \<open>Round trip of the wire format\<close>

lemma intake_text_ascii:
  assumes "ascii s"
  shows "intake_text (Bytes_intake s) = Some s" "intake_text (Bytes_intake (BOM @ s)) = Some s"
    "intake_text (Str_intake (concat (replicate k BOM) @ s)) = Some s"
proof -
  show "intake_text (Bytes_intake s) = Some s" "intake_text (Bytes_intake (BOM @ s)) = Some s"
    using assms by (simp_all add: intake_text_def decode_utf8_sig_ascii)
  have "dropWhile (\<lambda>n. n = 0xFEFF) (code_points s) = code_points s"
    using assms by (cases s) (auto simp: next_cp_def)
  then have "dropWhile (\<lambda>n. n = 0xFEFF) (code_points (concat (replicate k BOM) @ s)) = code_points s"
    by (induction k) (simp_all add: code_points_BOM)
  then show "intake_text (Str_intake (concat (replicate k BOM) @ s)) = Some s"
    by (simp add: intake_text_def lstrip_bom_def)
qed

lemma order_dict_loads:
  assumes "style_ok st" and "wf_json (JObj (o_args ord))"
  shows "json_loads (dumps st 0 (JObj (order_dict ord))) = Some (JObj (order_dict ord))"
proof -
  have "wf_json (JObj (order_dict ord))" using assms(2) by (simp add: order_dict_def wf_dict_def)
  from loads_dumps [OF assms(1) this, of "[]"] show ?thesis by simp
qed

section \<open>Every intake is recorded\<close>

lemma wf_malformed_entry: "wf_entry (malformed_entry m)"
  by (simp add: wf_entry_def malformed_entry_def jopt_def wf_dict_def)

lemma malformed_intake:
  assumes "sig_correct C" and "verify_ledger_rows C (ed_pub C (sv_private_key S)) (cs_ledger s) = Verified n"
    and "parse_order i = Inl detail"
  shows "\<exists>raw s'. place_order_json C W S m i s =
      (Inr [(''accepted'', JBool False), (''error'', JStr ''MALFORMED_ORDER''), (''detail'', JStr detail),
            (''receipt_id'', JStr (''rcpt-'' @ im_receipt_uuid m))], s') \<and>
    s' = s\<lparr>cs_ledger := insert_row raw (cs_ledger s)\<rparr> \<and>
    verify_ledger_rows C (ed_pub C (sv_private_key S)) (cs_ledger s') = Verified (Suc n)"
proof -
  obtain raw r where a: "ledger_append C (sv_private_key S) (malformed_entry m) (cs_ledger s) =
      Inr (insert_row raw (cs_ledger s), r)"
    "verify_ledger_rows C (ed_pub C (sv_private_key S)) (insert_row raw (cs_ledger s)) = Verified (Suc n)"
    using ledger_append_verified [OF assms(1) wf_malformed_entry assms(2)] by blast
  have "r_receipt_id r = JStr (''rcpt-'' @ im_receipt_uuid m)"
    using ledger_append_receipt [OF a(1)] by (simp add: malformed_entry_def)
  then show ?thesis
    using a assms(3) by (auto simp: place_order_json_def append_malformed_receipt_def)
qed

text \<open>The intakes that the counter can settle: an admitted order has a directory that can be made.\<close>

definition settles :: "os \<Rightarrow> service \<Rightarrow> intake \<Rightarrow> bool" where
  "settles W S i \<longleftrightarrow> (case parse_order i of Inl _ \<Rightarrow> True | Inr ord \<Rightarrow> window_ok W S ord)"

lemma admitted_intake:
  assumes "sig_correct C" and "verify_ledger_rows C (ed_pub C (sv_private_key S)) (cs_ledger s) = Verified n"
    and "starts S" and "parse_order i = Inr ord" and "window_ok W S ord"
  shows "\<exists>result raw s'. place_order_json C W S m i s = (Inr result, s') \<and>
    jget result ''order_id'' = JStr (o_order_id ord) \<and> jget result ''error'' = JNull \<and>
    cs_ledger s' = insert_row raw (cs_ledger s) \<and>
    verify_ledger_rows C (ed_pub C (sv_private_key S)) (cs_ledger s') = Verified (Suc n)"
proof (cases "accepts S (im_loop m) s ord")
  case True
  obtain rc fs3 where "started W S (im_loop m) (minted C S (im_loop m) ord) (ls_fs s) = (Inr rc, fs3)"
    by (rule starts_on_order [OF assms(3,5) minted_fields(1)])
  from place_accepted [OF assms(1,2) True assms(5) this] show ?thesis
    using assms(4) by (fastforce simp: place_order_json_def outcome_to_dict_def jget_def jopt_def)
next
  case False
  from place_rejected [OF assms(1,2) False, of W] show ?thesis
    using assms(4) by (fastforce simp: place_order_json_def outcome_to_dict_def jget_def jopt_def)
qed

section \<open>Properties\<close>

text \<open>
  Admission is strict: an intake is admitted as an order exactly when it is the text of a JSON
  object with the seven keys of the protocol and no other, the six identity fields strings and
  the arguments an object, and the order then has those very values.
\<close>

theorem admission_is_strict:
  "parse_order i = Inr ord \<longleftrightarrow>
     (\<exists>d. Option.bind (intake_text i) json_loads = Some (JObj d) \<and> map_of d = map_of (order_dict ord))"
  by (rule parse_order_Inr)

text \<open>
  The wire format: an order written as JSON in any of the program's layouts is admitted as that
  same order, whether it arrives as bytes, with or without the byte order mark that a Windows shell
  adds, or as text after any number of them.
\<close>

theorem written_orders_are_admitted:
  assumes "style_ok st" and "wf_json (JObj (o_args ord))"
  defines "text0 \<equiv> dumps st 0 (JObj (order_dict ord))"
  shows "parse_order (Bytes_intake text0) = Inr ord \<and> parse_order (Bytes_intake (BOM @ text0)) = Inr ord \<and>
    parse_order (Str_intake (concat (replicate k BOM) @ text0)) = Inr ord"
proof -
  have "ascii text0" unfolding text0_def using assms(1) by (rule dumps_ascii)
  note i = intake_text_ascii [OF this]
  have "json_loads text0 = Some (JObj (order_dict ord))"
    unfolding text0_def using assms(1,2) by (rule order_dict_loads)
  then show ?thesis unfolding parse_order_Inr i by auto
qed

theorem written_orders_are_admitted_witness:
  "parse_order (Bytes_intake (BOM @ dumps indent2_style 0 (JObj (order_dict example_order)))) = Inr example_order"
  using written_orders_are_admitted [of indent2_style example_order 0]
  by (simp add: example_order_def wf_dict_def)


text \<open>
  The text of a refused intake is not stored: two intakes that are refused leave the same
  state, so the ledger holds no more of either than that it was refused.
\<close>

theorem refused_intake_leaves_no_text:
  assumes "parse_order i = Inl detail" and "parse_order i' = Inl detail'"
  shows "snd (place_order_json C W S m i s) = snd (place_order_json C W S m i' s)"
  using assms
  by (auto simp: place_order_json_def append_malformed_receipt_def split: sum.split prod.split)

text \<open>What the diner reads of an accepted order is what the receipt says.\<close>

lemma handed_out:
  assumes "sig_correct C" and "verify_ledger_rows C (ed_pub C (sv_private_key S)) (cs_ledger s) = Verified n"
    and "starts S" and "settles W S i" and "place_order_json C W S m i s = (Inr result, s')"
    and "jget result ''draft_b64'' = JStr b64"
  obtains ord t cr b where "parse_order i = Inr ord"
    "place C W S (im_loop m) ord s = (Inr (TicketOutcome t), s')"
    "t_order_id t = o_order_id ord" "ls_last_chef s' = Some cr" "outcome_to_dict s' ord (TicketOutcome t) = Inr result"
    "receipt_matches C (sv_kitchen S) t (Some (order_meta_from_order ord)) cr"
    "cr_draft_bytes cr = Some b" "b64 = b64encode b"
proof -
  have mal: "parse_order i \<noteq> Inl e" for e
    using malformed_intake [OF assms(1,2), of i e W m] assms(5,6) by (auto simp: jget_def jopt_def)
  then obtain ord where ord: "parse_order i = Inr ord" by (cases "parse_order i") auto
  then have w: "window_ok W S ord" using assms(4) by (simp add: settles_def)
  have acc: "accepts S (im_loop m) s ord"
  proof (rule ccontr)
    assume "\<not> accepts S (im_loop m) s ord"
    from place_rejected [OF assms(1,2) this, of W] show False
      using ord assms(5,6) by (auto simp: place_order_json_def outcome_to_dict_def jget_def jopt_def)
  qed
  obtain rc fs3 where st: "started W S (im_loop m) (minted C S (im_loop m) ord) (ls_fs s) = (Inr rc, fs3)"
    by (rule starts_on_order [OF assms(3) w minted_fields(1)])
  let ?t = "minted C S (im_loop m) ord"
  obtain cr s1 where p: "place C W S (im_loop m) ord s = (Inr (TicketOutcome ?t), s1)"
    "ls_last_chef s1 = Some cr" "receipt_matches C (sv_kitchen S) ?t (Some (order_meta_from_order ord)) cr"
    using place_accepted [OF assms(1,2) acc w st] by blast
  have s1: "s1 = s'" and o: "outcome_to_dict s' ord (TicketOutcome ?t) = Inr result"
    using ord p(1) assms(5) by (auto simp: place_order_json_def)
  obtain b where "cr_draft_bytes cr = Some b" "b64 = b64encode b"
    using o p(2) s1 assms(6)
    by (auto simp: outcome_to_dict_def fulfilled_def jget_def jopt_def split: if_splits)
  then show thesis
    using that [OF ord _ _ _ o, of cr b] p s1 by (auto simp: minted_fields)
qed

text \<open>
  C15. Content and evidence agree: when the counter hands out a draft, the result beside it says
  accepted and \<^verbatim>\<open>FULFILLED\<close>, its receipt is for the order that was placed, and the receipt's digest
  is the hash of exactly the bytes that the draft decodes to.
\<close>

theorem draft_matches_its_receipt:
  assumes "sig_correct C" and "verify_ledger_rows C (ed_pub C (sv_private_key S)) (cs_ledger s) = Verified n"
    and "starts S" and "settles W S i" and "place_order_json C W S m i s = (Inr result, s')"
    and "jget result ''draft_b64'' = JStr b64"
  shows "\<exists>b ord receipt. b64decode b64 = Some b \<and> parse_order i = Inr ord \<and>
    jget result ''accepted'' = JBool True \<and> jget result ''status'' = JStr ''FULFILLED'' \<and>
    jget result ''order_id'' = JStr (o_order_id ord) \<and>
    jget result ''receipt'' = JObj (receipt_to_dict receipt) \<and>
    r_order_id receipt = JStr (o_order_id ord) \<and> r_order_meta receipt = order_meta_from_order ord \<and>
    r_result_digest receipt = JStr (sha256_hex C b)"
proof (rule handed_out [OF assms])
  fix ord t cr b
  assume h: "parse_order i = Inr ord" "t_order_id t = o_order_id ord" "ls_last_chef s' = Some cr"
    "outcome_to_dict s' ord (TicketOutcome t) = Inr result"
    "receipt_matches C (sv_kitchen S) t (Some (order_meta_from_order ord)) cr"
    "cr_draft_bytes cr = Some b" "b64 = b64encode b"
  then show ?thesis
    by (intro exI [of _ b] exI [of _ ord] exI [of _ "cr_receipt cr"])
      (auto simp: receipt_matches_def outcome_to_dict_def jget_def jopt_def)
qed

definition example_intake :: intake where
  "example_intake = Bytes_intake (dumps default_style 0 (JObj (order_dict example_order)))"

definition example_intake_moment :: intake_moment where
  "example_intake_moment = \<lparr>im_loop = example_loop_moment, im_receipt_uuid = ''01'', im_order_uuid = ''02'',
     im_now = ''2026-01-01T00:00:00+00:00''\<rparr>"

lemma example_admitted: "parse_order example_intake = Inr example_order"
proof -
  have "ascii (dumps default_style 0 (JObj (order_dict example_order)))" by (rule dumps_ascii) simp
  moreover have "json_loads (dumps default_style 0 (JObj (order_dict example_order))) =
      Some (JObj (order_dict example_order))"
    by (rule order_dict_loads) (simp_all add: example_order_def wf_dict_def)
  ultimately show ?thesis
    unfolding parse_order_Inr example_intake_def by (auto simp: intake_text_ascii)
qed

lemma example_settles: "settles example_os example_service example_intake"
  using example_window_ok by (simp add: settles_def example_admitted)

lemma example_empty_verified:
  "verify_ledger_rows example_crypto (ed_pub example_crypto (sv_private_key example_service))
     (cs_ledger (new_loop_state example_fs)) = Verified 0"
  by (simp add: new_loop_state_def verify_ledger_rows_def)

lemma example_placed:
  obtains t cr s' where "place example_crypto example_os example_service example_loop_moment example_order
      (new_loop_state example_fs) = (Inr (TicketOutcome t), s')" "ls_last_chef s' = Some cr"
    "cr_returncode cr = 0" "cr_draft_bytes cr = Some (handle_draft_reply ''alice/t1'' ''Subject: hi'')"
proof -
  have b: "kn_backend (sv_kitchen example_service) = subprocess_sandbox example_crypto example_os"
    by (simp add: example_service_def example_kitchen_def)
  have a: "accepts example_service example_loop_moment (new_loop_state example_fs) example_order"
    using example_accepted
    by (simp add: example_service_def example_loop_moment_def example_moment_def new_loop_state_def)
  have s: "servable example_crypto example_os example_service example_order (ls_fs (new_loop_state example_fs))
      (handle_draft_reply ''alice/t1'' ''Subject: hi'')"
    using example_servable by (simp add: new_loop_state_def)
  from accepted_order_served [OF sig_correct_example example_normal b example_empty_verified a example_window_ok s]
  show thesis using that by blast
qed


theorem draft_matches_its_receipt_witness:
  "\<exists>result s' b. place_order_json example_crypto example_os example_service example_intake_moment
      example_intake (new_loop_state example_fs) = (Inr result, s') \<and>
    b64decode (str_of (jget result ''draft_b64'')) = Some b \<and> jget result ''status'' = JStr ''FULFILLED''"
proof -
  obtain t cr s' where p: "place example_crypto example_os example_service example_loop_moment example_order
      (new_loop_state example_fs) = (Inr (TicketOutcome t), s')" "ls_last_chef s' = Some cr"
    "cr_returncode cr = 0" "cr_draft_bytes cr = Some (handle_draft_reply ''alice/t1'' ''Subject: hi'')"
    by (rule example_placed)
  have "place_order_json example_crypto example_os example_service example_intake_moment example_intake
      (new_loop_state example_fs) = (outcome_to_dict s' example_order (TicketOutcome t), s')"
    using p by (simp add: place_order_json_def example_admitted example_intake_moment_def)
  moreover obtain result where r: "outcome_to_dict s' example_order (TicketOutcome t) = Inr result"
    "jget result ''draft_b64'' = JStr (b64encode (handle_draft_reply ''alice/t1'' ''Subject: hi''))"
    using p by (simp add: outcome_to_dict_def fulfilled_def jget_def jopt_def)
  ultimately have "place_order_json example_crypto example_os example_service example_intake_moment example_intake
      (new_loop_state example_fs) = (Inr result, s')" by simp
  from draft_matches_its_receipt [OF sig_correct_example example_empty_verified example_starts example_settles
      this r(2)] show ?thesis using \<open>place_order_json _ _ _ _ _ _ = (Inr result, s')\<close> r(2) by auto
qed

lemma example_malformed:
  "parse_order (Str_intake []) = Inl ''unparseable JSON''"
  "parse_order (Bytes_intake ''not an order'') = Inl ''unparseable JSON''"
  by (simp_all add: parse_order_def intake_text_def lstrip_bom_def encode_def json_loads_def skip_ws_def
      numeral_2_eq_2 decode_utf8_sig_def startswith_def BOM_def next_cp_def is_surrogate_def is_ws_def plit_def)

theorem refused_intake_leaves_no_text_witness:
  "snd (place_order_json example_crypto example_os example_service example_intake_moment (Str_intake [])
     (new_loop_state example_fs)) =
   snd (place_order_json example_crypto example_os example_service example_intake_moment
     (Bytes_intake ''not an order'') (new_loop_state example_fs))"
  by (rule refused_intake_leaves_no_text [OF example_malformed])

end
