(* ===== verification/Consumer.thy ===== *)
theory Consumer
  imports Gateway
begin

text \<open>
  The consumer's edition of the loop: \<^verbatim>\<open>consumer/preferences.py\<close> (the user's permissions and their
  file), \<^verbatim>\<open>consumer/approval.py\<close> and \<^verbatim>\<open>consumer/native.py\<close> (the approvers) and \<^verbatim>\<open>consumer/loop.py\<close>, which
  puts the user's gate between the cashier and the chef. An approver acts on the world of the user,
  whose type is open: \<^verbatim>\<open>input\<close> and the dialog are parameters. What the loop relies on is the locale
  \<open>approver\<close>; the command-line and the native approver are its interpretations. The widgets of the
  tkinter dialog and what the command line prints are not modelled.
\<close>

section \<open>Preferences\<close>

definition ALLOW :: string where "ALLOW = ''allow''"
definition ASK :: string where "ASK = ''ask''"
definition BLOCK :: string where "BLOCK = ''block''"

definition STATES :: "string list" where "STATES = [ALLOW, ASK, BLOCK]"

lemmas states = ALLOW_def ASK_def BLOCK_def STATES_def

record prefs =
  pf_settings :: "string dict"
  pf_path :: "string option"

definition effective_state :: "prefs \<Rightarrow> capability \<Rightarrow> string" where
  "effective_state p cap =
     (case map_of (pf_settings p) (c_id cap) of
        Some st \<Rightarrow> st
      | None \<Rightarrow> if c_requires_user_confirmation cap then ASK else ALLOW)"

definition explicit :: "prefs \<Rightarrow> string \<Rightarrow> string option" where
  "explicit p capability_id = map_of (pf_settings p) capability_id"

definition set_pref :: "string \<Rightarrow> string \<Rightarrow> prefs \<Rightarrow> exn + prefs" where
  "set_pref capability_id st p =
     (if st \<notin> set STATES then Inl ValueError
      else Inr (p\<lparr>pf_settings := AList.update capability_id st (pf_settings p)\<rparr>))"

definition clear_pref :: "string \<Rightarrow> prefs \<Rightarrow> prefs" where
  "clear_pref capability_id p = p\<lparr>pf_settings := AList.delete capability_id (pf_settings p)\<rparr>"

definition no_prefs :: prefs where
  "no_prefs = \<lparr>pf_settings = [], pf_path = None\<rparr>"

text \<open>The constructor sets the given settings one by one; a state that is no string is in no case one of the three.\<close>

fun set_all :: "json dict \<Rightarrow> prefs \<Rightarrow> exn + prefs" where
  "set_all [] p = Inr p"
| "set_all ((capability_id, JStr st) # kvs) p = bind_res (set_pref capability_id st p) (set_all kvs)"
| "set_all ((capability_id, _) # kvs) p = Inl ValueError"

text \<open>\<^verbatim>\<open>settings or {}\<close>\<close>

definition new_prefs :: "json \<Rightarrow> string option \<Rightarrow> exn + prefs" where
  "new_prefs settings path =
     bind_res (items (if falsy settings then JObj [] else settings)) (\<lambda>kvs.
     bind_res (set_all kvs no_prefs) (\<lambda>p. Inr (p\<lparr>pf_path := path\<rparr>)))"

definition load_prefs :: "string \<Rightarrow> fsys \<Rightarrow> exn + prefs" where
  "load_prefs path fs =
     (case files fs path of
        None \<Rightarrow> new_prefs (JObj []) (Some path)
      | Some bytes \<Rightarrow>
          bind_res (json_load_sig bytes) (\<lambda>settings. new_prefs settings (Some path)))"

definition prefs_text :: "prefs \<Rightarrow> string" where
  "prefs_text p = file_text (map (\<lambda>(k, st). (k, JStr st)) (pf_settings p))"

definition save_prefs :: "string option \<Rightarrow> prefs \<Rightarrow> fsys \<Rightarrow> (exn + string) \<times> fsys" where
  "save_prefs path p fs =
     (case (if path = None \<or> path = Some [] then pf_path p else path) of
        None \<Rightarrow> (Inl ValueError, fs)
      | Some target \<Rightarrow> (Inr target, write_file target (prefs_text p) fs))"

definition save_if_persistent :: "prefs \<Rightarrow> fsys \<Rightarrow> (exn + string option) \<times> fsys" where
  "save_if_persistent p fs =
     (case pf_path p of
        None \<Rightarrow> (Inr None, fs)
      | Some _ \<Rightarrow>
          (case save_prefs None p fs of
             (Inl e, fs1) \<Rightarrow> (Inl e, fs1)
           | (Inr target, fs1) \<Rightarrow> (Inr (Some target), fs1)))"

section \<open>Approvers\<close>

record approval =
  ap_allow :: bool
  ap_remember :: bool

abbreviation deny :: approval where
  "deny \<equiv> \<lparr>ap_allow = False, ap_remember = False\<rparr>"

type_synonym 'u approver = "order \<Rightarrow> capability \<Rightarrow> 'u \<Rightarrow> (exn + approval) \<times> 'u"

text \<open>The scripted approver: one fixed decision or a queue; and what it was asked.\<close>

datatype script = Fixed approval | Queue "approval list"

definition scripted_decide :: "(script \<times> (string \<times> string) list) approver" where
  "scripted_decide ord cap u =
     (case u of (sc, prompts) \<Rightarrow>
        let prompts' = prompts @ [(o_principal ord, c_id cap)] in
        (case sc of
           Fixed a \<Rightarrow> (Inr a, (sc, prompts'))
         | Queue [] \<Rightarrow> (Inl AssertionError, (sc, prompts'))
         | Queue (a # as) \<Rightarrow> (Inr a, (Queue as, prompts'))))"

text \<open>
  The command line: \<^verbatim>\<open>input\<close> reads a line (or raises). \<^verbatim>\<open>lower\<close> is written out for the ASCII letters;
  no other character has one of the letters of the four answers as its lower case.
\<close>

definition lower_char :: "char \<Rightarrow> char" where
  "lower_char c = (if 65 \<le> (of_char c :: nat) \<and> (of_char c :: nat) \<le> 90 then char_of ((of_char c :: nat) + 32) else c)"

definition answer :: "string option \<Rightarrow> approval" where
  "answer line =
     (let ans = map lower_char (strip (case line of None \<Rightarrow> [] | Some s \<Rightarrow> s)) in
      if ans \<in> {''o'', ''once''} then \<lparr>ap_allow = True, ap_remember = False\<rparr>
      else if ans \<in> {''a'', ''always''} then \<lparr>ap_allow = True, ap_remember = True\<rparr>
      else deny)"

definition cli_decide :: "('u \<Rightarrow> (exn + string option) \<times> 'u) \<Rightarrow> 'u approver" where
  "cli_decide input_fn ord cap u =
     (case input_fn u of
        (Inl e, u1) \<Rightarrow> (Inl e, u1)
      | (Inr line, u1) \<Rightarrow> (Inr (answer line), u1))"

text \<open>The dialog: its content, the verdict and the decision. \<^verbatim>\<open>str.format\<close> of the arguments is a parameter.\<close>

record prompt_spec =
  ps_title :: string
  ps_heading :: string
  ps_lines :: "string list"

definition middle_dot :: string where
  "middle_dot = enc 0xB7"

definition build_prompt :: "(json dict \<Rightarrow> string) \<Rightarrow> order \<Rightarrow> capability \<Rightarrow> prompt_spec" where
  "build_prompt show_args ord cap =
     \<lparr>ps_title = ''Sentinel '' @ em_dash @ '' approval needed'',
      ps_heading = ''Your agent wants to: '' @ c_name cap,
      ps_lines =
        [''agent (principal): '' @ o_principal ord,
         ''capability: '' @ c_id cap,
         ''risk: '' @ c_risk_class cap @ '' '' @ middle_dot @ '' side effects: '' @ c_side_effects cap,
         ''on: '' @ show_args (o_args ord)]\<rparr>"

definition decision_from_verdict :: "string option \<Rightarrow> approval" where
  "decision_from_verdict verdict =
     (if verdict = Some ''once'' then \<lparr>ap_allow = True, ap_remember = False\<rparr>
      else if verdict = Some ''always'' then \<lparr>ap_allow = True, ap_remember = True\<rparr>
      else deny)"

definition native_decide ::
  "(json dict \<Rightarrow> string) \<Rightarrow> (prompt_spec \<Rightarrow> 'u \<Rightarrow> (exn + string option) \<times> 'u) \<Rightarrow>
   (prompt_spec list \<times> 'u) approver" where
  "native_decide show_args show_fn ord cap u =
     (case u of (prompts, w) \<Rightarrow>
        let spec = build_prompt show_args ord cap in
        (case show_fn spec w of
           (Inl _, w1) \<Rightarrow> (Inr deny, (prompts @ [spec], w1))
         | (Inr verdict, w1) \<Rightarrow> (Inr (decision_from_verdict verdict), (prompts @ [spec], w1))))"

section \<open>The loop with the user's gate\<close>

record consumer_outcome =
  co_status :: string
  co_reason_code :: "string option"
  co_receipt :: receipt
  co_draft :: "string option"
  co_required :: bool
  co_asked :: bool

record 'u consumer_state = loop_state +
  cn_prefs :: prefs
  cn_user :: 'u

definition consumer_rejection_entry :: "string \<Rightarrow> order \<Rightarrow> ticket \<Rightarrow> string \<Rightarrow> entry" where
  "consumer_rejection_entry uuid ord t reason =
     \<lparr>e_receipt_id = ''rcpt-'' @ uuid, e_order_id = o_order_id ord, e_ticket_id = Some (t_ticket_id t),
      e_status = ''REJECTED'', e_reason_code = Some reason, e_result_digest = None,
      e_attestation = None, e_order_meta = Some (order_meta_from_order ord), e_containment = None\<rparr>"

definition consumer_refuse ::
  "crypto \<Rightarrow> service \<Rightarrow> loop_moment \<Rightarrow> order \<Rightarrow> ticket \<Rightarrow> string \<Rightarrow> string \<Rightarrow> bool \<Rightarrow>
   'u consumer_state \<Rightarrow> (exn + consumer_outcome) \<times> 'u consumer_state" where
  "consumer_refuse C S m ord t status reason asked s =
     (case ledger_append C (sv_private_key S) (consumer_rejection_entry (lm_receipt_uuid m) ord t reason) (cs_ledger s) of
        Inl e \<Rightarrow> (Inl e, s)
      | Inr (ledger, receipt) \<Rightarrow>
          (Inr \<lparr>co_status = status, co_reason_code = Some reason, co_receipt = receipt, co_draft = None,
                co_required = asked, co_asked = asked\<rparr>, s\<lparr>cs_ledger := ledger\<rparr>))"

definition consumer_execute ::
  "crypto \<Rightarrow> os \<Rightarrow> service \<Rightarrow> loop_moment \<Rightarrow> order \<Rightarrow> ticket \<Rightarrow> bool \<Rightarrow>
   'u consumer_state \<Rightarrow> (exn + consumer_outcome) \<times> 'u consumer_state" where
  "consumer_execute C W S m ord t asked s =
     (case run_chef C (sv_private_key S) W (sv_kitchen S) (lm_receipt_uuid m) (lm_workspace m) t
         (Some (order_meta_from_order ord)) (ls_fs s) (cs_ledger s) of
        (Inl e, fs, ledger) \<Rightarrow> (Inl e, s\<lparr>ls_fs := fs, cs_ledger := ledger\<rparr>)
      | (Inr chef, fs, ledger) \<Rightarrow>
          (Inr \<lparr>co_status = (if fulfilled chef then ''FULFILLED'' else ''EXECUTION_FAILED''),
                co_reason_code = (if fulfilled chef then None else Some ''EXECUTION_FAILED''),
                co_receipt = cr_receipt chef,
                co_draft = (if fulfilled chef then cr_draft_bytes chef else None),
                co_required = asked, co_asked = asked\<rparr>,
           s\<lparr>ls_fs := fs, cs_ledger := ledger\<rparr>))"

text \<open>An allowed decision that is to be remembered upgrades the permission and saves it.\<close>

definition remember :: "order \<Rightarrow> approval \<Rightarrow> 'u consumer_state \<Rightarrow> exn option \<times> 'u consumer_state" where
  "remember ord a s =
     (if ap_allow a \<and> ap_remember a then
        (case set_pref (o_capability_id ord) ALLOW (cn_prefs s) of
           Inl e \<Rightarrow> (Some e, s)
         | Inr p \<Rightarrow>
             (case save_if_persistent p (ls_fs s) of
                (Inl e, fs) \<Rightarrow> (Some e, s\<lparr>cn_prefs := p, ls_fs := fs\<rparr>)
              | (Inr _, fs) \<Rightarrow> (None, s\<lparr>cn_prefs := p, ls_fs := fs\<rparr>)))
      else (None, s))"

definition consumer_place ::
  "crypto \<Rightarrow> os \<Rightarrow> service \<Rightarrow> 'u approver \<Rightarrow> loop_moment \<Rightarrow> order \<Rightarrow>
   'u consumer_state \<Rightarrow> (exn + consumer_outcome) \<times> 'u consumer_state" where
  "consumer_place C W S decide m ord s =
     (case process_order C (sv_private_key S) (sv_menu S) (sv_policy_set S) None (lm_moment m) ord s of
        (Inl e, s1) \<Rightarrow> (Inl e, s1)
      | (Inr (RejectionOutcome reason receipt), s1) \<Rightarrow>
          (Inr \<lparr>co_status = ''REJECTED_BY_POLICY'', co_reason_code = Some reason, co_receipt = receipt,
                co_draft = None, co_required = False, co_asked = False\<rparr>, s1)
      | (Inr (TicketOutcome t), s1) \<Rightarrow>
          (case map_of (sv_menu S) (o_capability_id ord) of
             None \<Rightarrow> (Inl AttributeError, s1)
           | Some cap \<Rightarrow>
               let st = effective_state (cn_prefs s1) cap in
               if st = BLOCK then consumer_refuse C S m ord t ''BLOCKED_BY_USER'' ''USER_BLOCKED'' False s1
               else if st = ASK then
                 (case decide ord cap (cn_user s1) of
                    (Inl e, u) \<Rightarrow> (Inl e, s1\<lparr>cn_user := u\<rparr>)
                  | (Inr a, u) \<Rightarrow>
                      (case remember ord a (s1\<lparr>cn_user := u\<rparr>) of
                         (Some e, s2) \<Rightarrow> (Inl e, s2)
                       | (None, s2) \<Rightarrow>
                           if \<not> ap_allow a then
                             consumer_refuse C S m ord t ''DENIED_BY_USER'' ''USER_DENIED'' True s2
                           else consumer_execute C W S m ord t True s2))
               else consumer_execute C W S m ord t False s1))"

section \<open>What the steps keep\<close>

lemma set_allow: "set_pref c ALLOW p = Inr (p\<lparr>pf_settings := AList.update c ALLOW (pf_settings p)\<rparr>)"
  by (simp add: set_pref_def STATES_def)

lemma save_if_persistent_returns: "\<exists>r fs'. save_if_persistent p fs = (Inr r, fs')"
  by (auto simp: save_if_persistent_def save_prefs_def split: option.split)

definition remembered :: "order \<Rightarrow> approval \<Rightarrow> prefs \<Rightarrow> prefs" where
  "remembered ord a p = (if ap_allow a \<and> ap_remember a
     then p\<lparr>pf_settings := AList.update (o_capability_id ord) ALLOW (pf_settings p)\<rparr> else p)"

lemma remember_returns:
  obtains fs where "remember ord a s = (None, s\<lparr>cn_prefs := remembered ord a (cn_prefs s), ls_fs := fs\<rparr>)"
    "ap_allow a \<and> ap_remember a \<Longrightarrow>
      fs = snd (save_if_persistent (remembered ord a (cn_prefs s)) (ls_fs s))"
    "\<not> (ap_allow a \<and> ap_remember a) \<Longrightarrow> fs = ls_fs s"
proof (cases "ap_allow a \<and> ap_remember a")
  case True
  obtain r fs where "save_if_persistent (remembered ord a (cn_prefs s)) (ls_fs s) = (Inr r, fs)"
    using save_if_persistent_returns by blast
  then show thesis using True by (intro that [of fs]) (auto simp: remember_def remembered_def set_allow)
next
  case False
  then show thesis by (intro that [of "ls_fs s"]) (auto simp: remember_def remembered_def)
qed

lemma wf_consumer_rejection: "wf_entry (consumer_rejection_entry uuid ord t reason)"
  using wf_order_meta [of ord] by (simp add: wf_entry_def consumer_rejection_entry_def jopt_def)

lemma refuse_one_row:
  assumes "sig_correct C" and "verify_ledger_rows C (ed_pub C (sv_private_key S)) (cs_ledger s) = Verified n"
  shows "\<exists>out raw s'. consumer_refuse C S m ord t status reason asked s = (Inr out, s') \<and>
    s' = s\<lparr>cs_ledger := insert_row raw (cs_ledger s)\<rparr> \<and>
    verify_ledger_rows C (ed_pub C (sv_private_key S)) (cs_ledger s') = Verified (Suc n) \<and>
    co_status out = status \<and> co_draft out = None \<and> co_asked out = asked \<and>
    r_status (co_receipt out) = JStr ''REJECTED'' \<and> r_reason_code (co_receipt out) = JStr reason \<and>
    r_order_id (co_receipt out) = JStr (o_order_id ord) \<and> r_ticket_id (co_receipt out) = JStr (t_ticket_id t)"
proof -
  let ?e = "consumer_rejection_entry (lm_receipt_uuid m) ord t reason"
  obtain raw r where a: "ledger_append C (sv_private_key S) ?e (cs_ledger s) = Inr (insert_row raw (cs_ledger s), r)"
    "verify_ledger_rows C (ed_pub C (sv_private_key S)) (insert_row raw (cs_ledger s)) = Verified (Suc n)"
    using ledger_append_verified [OF assms(1) wf_consumer_rejection assms(2)] by blast
  then show ?thesis
    using ledger_append_receipt [OF a(1)] by (simp add: consumer_refuse_def consumer_rejection_entry_def jstr_opt_def)
      (rule exI, rule refl)
qed

lemma execute_one_row:
  assumes "sig_correct C" and "verify_ledger_rows C (ed_pub C (sv_private_key S)) (cs_ledger s) = Verified n"
    and "starts S" and "window_ok W S ord" and "t_order_id t = o_order_id ord"
  shows "\<exists>out raw s'. consumer_execute C W S m ord t asked s = (Inr out, s') \<and>
    cs_ledger s' = insert_row raw (cs_ledger s) \<and> cn_prefs s' = cn_prefs s \<and>
    verify_ledger_rows C (ed_pub C (sv_private_key S)) (cs_ledger s') = Verified (Suc n) \<and>
    co_status out \<in> {''FULFILLED'', ''EXECUTION_FAILED''} \<and> co_asked out = asked"
proof -
  have meta: "wf_json (jopt (Some (order_meta_from_order ord)))" using wf_order_meta by (simp add: jopt_def)
  have nul: "CHR 0x00 \<notin> set (window_path W (t_order_id t) (kn_window_root (sv_kitchen S)))"
    using assms(4,5) by (simp add: window_ok_def)
  obtain rc fs3 where "b_run (kn_backend (sv_kitchen S)) (started_spec W (sv_kitchen S) (lm_workspace m) t)
      (started_fs W (sv_kitchen S) (lm_workspace m) t (ls_fs s)) = (Inr rc, fs3)"
    using starts_on_order [OF assms(3-5)] unfolding started_def by blast
  from run_chef_verified [OF assms(1) meta assms(2) nul this, of "lm_receipt_uuid m"] show ?thesis
    by (auto simp: consumer_execute_def)
qed

text \<open>The cashier's part of a call, with the gate that follows.\<close>

lemma consumer_rejected:
  assumes "sig_correct C" and "verify_ledger_rows C (ed_pub C (sv_private_key S)) (cs_ledger s) = Verified n"
    and "\<not> accepts S m s ord"
  shows "\<exists>out raw s'. consumer_place C W S decide m ord s = (Inr out, s') \<and>
    cs_ledger s' = insert_row raw (cs_ledger s) \<and>
    verify_ledger_rows C (ed_pub C (sv_private_key S)) (cs_ledger s') = Verified (Suc n) \<and>
    co_status out = ''REJECTED_BY_POLICY'' \<and> ls_fs s' = ls_fs s \<and> cn_prefs s' = cn_prefs s \<and> cn_user s' = cn_user s"
proof -
  obtain reason where r: "evaluate_order (sv_menu S) (sv_policy_set S) (m_rate_now (lm_moment m))
      (cs_store s) ord = reject reason" using assms(3) rejected_fields by blast
  let ?e = "rejection_entry (m_uuid (lm_moment m)) ord reason"
  obtain raw rc where "ledger_append C (sv_private_key S) ?e (cs_ledger s) = Inr (insert_row raw (cs_ledger s), rc)"
    "verify_ledger_rows C (ed_pub C (sv_private_key S)) (insert_row raw (cs_ledger s)) = Verified (Suc n)"
    using ledger_append_verified [OF assms(1) wf_rejection_entry assms(2)] by blast
  then show ?thesis
    by (auto simp: consumer_place_def process_rejected [OF r] append_rejection_def after_nonce_def)
qed

definition gate ::
  "crypto \<Rightarrow> os \<Rightarrow> service \<Rightarrow> 'u approver \<Rightarrow> loop_moment \<Rightarrow> order \<Rightarrow> capability \<Rightarrow>
   'u consumer_state \<Rightarrow> (exn + consumer_outcome) \<times> 'u consumer_state" where
  "gate C W S decide m ord cap s1 =
     (let t = minted C S m ord; st = effective_state (cn_prefs s1) cap in
      if st = BLOCK then consumer_refuse C S m ord t ''BLOCKED_BY_USER'' ''USER_BLOCKED'' False s1
      else if st = ASK then
        (case decide ord cap (cn_user s1) of
           (Inl e, u) \<Rightarrow> (Inl e, s1\<lparr>cn_user := u\<rparr>)
         | (Inr a, u) \<Rightarrow>
             (case remember ord a (s1\<lparr>cn_user := u\<rparr>) of
                (Some e, s2) \<Rightarrow> (Inl e, s2)
              | (None, s2) \<Rightarrow>
                  if \<not> ap_allow a then consumer_refuse C S m ord t ''DENIED_BY_USER'' ''USER_DENIED'' True s2
                  else consumer_execute C W S m ord t True s2))
      else consumer_execute C W S m ord t False s1)"

lemma consumer_accepted:
  assumes "accepts S m s ord" and "map_of (sv_menu S) (o_capability_id ord) = Some cap"
  shows "consumer_place C W S decide m ord s = gate C W S decide m ord cap (after_accept (lm_moment m) ord s)"
  by (simp add: consumer_place_def process_accepted [OF assms(1)] assms(2) gate_def minted_def Let_def)

lemma after_accept_consumer [simp]:
  "cn_prefs (after_accept m ord s) = cn_prefs s" "cn_user (after_accept m ord s) = cn_user s"
  by (simp_all add: after_accept_def after_nonce_def)

section \<open>The contract of an approver\<close>

text \<open>
  The loop needs an approver that answers: it may deny, but it does not raise. For such an
  approver every order leaves one receipt.
\<close>

locale approver =
  fixes decide :: "'u approver"
  assumes answers: "\<exists>a u'. decide ord cap u = (Inr a, u')"
begin

lemma gate_one_row:
  assumes "sig_correct C" and v: "verify_ledger_rows C (ed_pub C (sv_private_key S)) (cs_ledger s) = Verified n"
    and "starts S" and "window_ok W S ord"
  shows "\<exists>out raw s'. gate C W S decide m ord cap s = (Inr out, s') \<and> cs_ledger s' = insert_row raw (cs_ledger s) \<and>
    verify_ledger_rows C (ed_pub C (sv_private_key S)) (cs_ledger s') = Verified (Suc n)"
proof -
  obtain a u' where d: "decide ord cap (cn_user s) = (Inr a, u')" using answers by blast
  obtain fs where r: "remember ord a (s\<lparr>cn_user := u'\<rparr>) =
      (None, s\<lparr>cn_user := u', cn_prefs := remembered ord a (cn_prefs s), ls_fs := fs\<rparr>)"
    by (rule remember_returns [of ord a "s\<lparr>cn_user := u'\<rparr>"]) simp
  let ?s2 = "s\<lparr>cn_user := u', cn_prefs := remembered ord a (cn_prefs s), ls_fs := fs\<rparr>"
  have v2: "verify_ledger_rows C (ed_pub C (sv_private_key S)) (cs_ledger ?s2) = Verified n" using v by simp
  let ?t = "minted C S m ord"
  have x: "\<exists>out raw s'. consumer_execute C W S m ord ?t b z = (Inr out, s') \<and> cs_ledger s' = insert_row raw (cs_ledger z) \<and>
      verify_ledger_rows C (ed_pub C (sv_private_key S)) (cs_ledger s') = Verified (Suc n)"
    if "verify_ledger_rows C (ed_pub C (sv_private_key S)) (cs_ledger z) = Verified n" for b and z :: "'a consumer_state"
    using execute_one_row [OF assms(1) that assms(3,4), of ?t m b] by (auto simp: minted_fields)
  have y: "\<exists>out raw s'. consumer_refuse C S m ord ?t st re b z = (Inr out, s') \<and> cs_ledger s' = insert_row raw (cs_ledger z) \<and>
      verify_ledger_rows C (ed_pub C (sv_private_key S)) (cs_ledger s') = Verified (Suc n)"
    if "verify_ledger_rows C (ed_pub C (sv_private_key S)) (cs_ledger z) = Verified n" for st re b and z :: "'a consumer_state"
    using refuse_one_row [OF assms(1) that, of m ord ?t st re b] by auto
  show ?thesis
    using x [OF v] x [OF v2] y [OF v] y [OF v2] by (simp add: gate_def Let_def d r)
qed

lemma consumer_one_row:
  assumes "sig_correct C" and "verify_ledger_rows C (ed_pub C (sv_private_key S)) (cs_ledger s) = Verified n"
    and "starts S" and "window_ok W S ord"
  shows "\<exists>out raw s'. consumer_place C W S decide m ord s = (Inr out, s') \<and> cs_ledger s' = insert_row raw (cs_ledger s) \<and>
    verify_ledger_rows C (ed_pub C (sv_private_key S)) (cs_ledger s') = Verified (Suc n)"
proof (cases "accepts S m s ord")
  case True
  obtain cap where cap: "map_of (sv_menu S) (o_capability_id ord) = Some cap" using on_menu [OF True] by blast
  have "verify_ledger_rows C (ed_pub C (sv_private_key S)) (cs_ledger (after_accept (lm_moment m) ord s)) = Verified n"
    using assms(2) by simp
  from gate_one_row [OF assms(1) this assms(3,4)] show ?thesis
    by (simp add: consumer_accepted [OF True cap])
next
  case False
  from consumer_rejected [OF assms(1,2) False, of W decide] show ?thesis by blast
qed

end

text \<open>The dialog always answers, whatever the display does; the command line does when its input does.\<close>

interpretation native: approver "native_decide show_args show_fn" for show_args show_fn
proof
  fix ord cap u
  show "\<exists>a u'. native_decide show_args show_fn ord cap u = (Inr a, u')"
    by (auto simp: native_decide_def Let_def split: prod.split sum.split)
qed

interpretation cli: approver "cli_decide (\<lambda>u. (Inr (line u), rest u))" for line rest
  by unfold_locales (simp add: cli_decide_def)

section \<open>Well-formed preferences\<close>

definition valid_prefs :: "prefs \<Rightarrow> bool" where
  "valid_prefs p \<longleftrightarrow> wf_dict (pf_settings p) \<and> (\<forall>kv \<in> set (pf_settings p). snd kv \<in> set STATES)"

lemma valid_set: "valid_prefs p \<Longrightarrow> set_pref c st p = Inr q \<Longrightarrow> valid_prefs q"
  using set_update_subset [of c st "pf_settings p"]
  by (auto simp: valid_prefs_def set_pref_def split: if_splits)

lemma valid_remembered: "valid_prefs p \<Longrightarrow> valid_prefs (remembered ord a p)"
  using valid_set [OF _ set_allow] by (simp add: remembered_def)

lemma valid_set_all: "valid_prefs p \<Longrightarrow> set_all kvs p = Inr q \<Longrightarrow> valid_prefs q"
  by (induction kvs p rule: set_all.induct) (auto simp: bind_res_Inr dest: valid_set)

lemma valid_new: "new_prefs j path = Inr p \<Longrightarrow> valid_prefs p"
proof -
  assume "new_prefs j path = Inr p"
  then obtain kvs q where q: "set_all kvs no_prefs = Inr q" "p = q\<lparr>pf_path := path\<rparr>"
    by (auto simp: new_prefs_def bind_res_Inr)
  have "valid_prefs no_prefs" by (simp add: valid_prefs_def no_prefs_def)
  from valid_set_all [OF this q(1)] show ?thesis by (simp add: valid_prefs_def q(2))
qed

lemma effective_valid:
  assumes "valid_prefs p"
  shows "effective_state p cap \<in> {ALLOW, ASK, BLOCK}"
  using assms by (force simp: effective_state_def valid_prefs_def STATES_def split: option.split dest: map_of_SomeD)

lemma remember_prefs: "remember ord a s = (r, s') \<Longrightarrow> cn_prefs s' = remembered ord a (cn_prefs s)"
  by (rule remember_returns [of ord a s]) auto

lemma refuse_keeps: "consumer_refuse C S m ord t st re b s = (r, s') \<Longrightarrow>
    cn_prefs s' = cn_prefs s \<and> ls_fs s' = ls_fs s \<and> cn_user s' = cn_user s"
  by (auto simp: consumer_refuse_def split: sum.splits prod.splits)

lemma execute_keeps: "consumer_execute C W S m ord t b s = (r, s') \<Longrightarrow> cn_prefs s' = cn_prefs s \<and> cn_user s' = cn_user s"
  by (auto simp: consumer_execute_def split: sum.splits prod.splits)

text \<open>What the gate did, read off from the preferences it leaves.\<close>

lemma gate_prefs:
  assumes "gate C W S decide m ord cap s = (r, s')"
  shows "cn_prefs s' = (if effective_state (cn_prefs s) cap = ASK
      then (case decide ord cap (cn_user s) of (Inl e, u) \<Rightarrow> cn_prefs s | (Inr a, u) \<Rightarrow> remembered ord a (cn_prefs s))
      else cn_prefs s)"
proof -
  have ne: "ASK \<noteq> BLOCK" by (simp add: states)
  show ?thesis
  proof (cases "effective_state (cn_prefs s) cap = ASK")
    case True
    obtain d u where d: "decide ord cap (cn_user s) = (d, u)" by fastforce
    show ?thesis
    proof (cases d)
      case (Inr a)
      obtain e s2 where r: "remember ord a (s\<lparr>cn_user := u\<rparr>) = (e, s2)" by fastforce
      have "cn_prefs s2 = remembered ord a (cn_prefs s)" using remember_prefs [OF r] by simp
      then show ?thesis
        using assms True ne d Inr r
        by (auto simp: gate_def Let_def dest: refuse_keeps execute_keeps split: option.splits if_splits)
    qed (use assms True ne d in \<open>auto simp: gate_def Let_def\<close>)
  next
    case False
    then show ?thesis
      using assms by (auto simp: gate_def Let_def dest: refuse_keeps execute_keeps split: if_splits)
  qed
qed

lemma gate_touches:
  assumes "gate C W S decide m ord cap s = (r, s')" and "ls_fs s' \<noteq> ls_fs s"
  shows "effective_state (cn_prefs s) cap \<noteq> BLOCK \<and> (effective_state (cn_prefs s) cap = ASK \<longrightarrow>
    (\<exists>a u. decide ord cap (cn_user s) = (Inr a, u) \<and> ap_allow a))"
proof (intro conjI impI)
  have refused: "consumer_refuse C S m ord t st re b z \<noteq> (r, s')" if "ls_fs z = ls_fs s" for t st re b z
    using that assms(2) refuse_keeps [of C S m ord t st re b z r s'] by auto
  show "effective_state (cn_prefs s) cap \<noteq> BLOCK"
    using assms(1) refused [of s] by (auto simp: gate_def Let_def)
  assume ask: "effective_state (cn_prefs s) cap = ASK"
  have "ASK \<noteq> BLOCK" by (simp add: states)
  note g = assms(1) [unfolded gate_def Let_def ask if_not_P [OF this] if_P [OF refl]]
  obtain d u where d: "decide ord cap (cn_user s) = (d, u)" by fastforce
  show "\<exists>a u. decide ord cap (cn_user s) = (Inr a, u) \<and> ap_allow a"
  proof (cases d)
    case (Inl e)
    then show ?thesis using g d assms(2) by auto
  next
    case (Inr a)
    have "ap_allow a"
    proof (rule ccontr)
      assume n: "\<not> ap_allow a"
      then have "remember ord a (s\<lparr>cn_user := u\<rparr>) = (None, s\<lparr>cn_user := u\<rparr>)" by (simp add: remember_def)
      then show False using g d Inr n refused [of "s\<lparr>cn_user := u\<rparr>"] by simp
    qed
    then show ?thesis using d Inr by blast
  qed
qed

lemma process_rejected_keeps:
  assumes "\<not> accepts S m s ord" and "consumer_place C W S decide m ord s = (r, s')"
  shows "cn_prefs s' = cn_prefs s \<and> ls_fs s' = ls_fs s \<and> cn_user s' = cn_user s"
proof -
  obtain reason where r: "evaluate_order (sv_menu S) (sv_policy_set S) (m_rate_now (lm_moment m))
      (cs_store s) ord = reject reason" using assms(1) rejected_fields by blast
  show ?thesis
    using assms(2) by (auto simp: consumer_place_def process_rejected [OF r] after_nonce_def split: sum.splits prod.splits)
qed

section \<open>Properties\<close>

text \<open>
  C36. Preferences hold only the three states, each capability once: whatever the settings file
  holds, loading gives such preferences or raises, and setting, clearing and placing orders keep
  them so; the state that applies to a capability is then always one of the three.
\<close>

theorem preferences_stay_valid:
  "(load_prefs path fs = Inr p \<longrightarrow> valid_prefs p) \<and>
   (valid_prefs p \<longrightarrow> (set_pref c st p = Inr q \<longrightarrow> valid_prefs q) \<and> valid_prefs (clear_pref c p) \<and>
      effective_state p cap \<in> {ALLOW, ASK, BLOCK}) \<and>
   (valid_prefs (cn_prefs s) \<longrightarrow> valid_prefs (cn_prefs (snd (consumer_place C W S decide m ord s))))"
proof (intro conjI impI)
  show "load_prefs path fs = Inr p \<Longrightarrow> valid_prefs p"
    by (auto simp: load_prefs_def bind_res_Inr split: option.splits dest: valid_new)
  show "valid_prefs p \<Longrightarrow> set_pref c st p = Inr q \<Longrightarrow> valid_prefs q" by (rule valid_set)
  show "valid_prefs p \<Longrightarrow> effective_state p cap \<in> {ALLOW, ASK, BLOCK}" by (rule effective_valid)
  have "set (AList.delete c d) \<subseteq> set d" for d :: "string dict" by (induction d) auto
  then show "valid_prefs p \<Longrightarrow> valid_prefs (clear_pref c p)"
    by (auto simp: valid_prefs_def clear_pref_def wf_dict_def distinct_delete)
  assume v: "valid_prefs (cn_prefs s)"
  obtain r s' where p: "consumer_place C W S decide m ord s = (r, s')" by fastforce
  show "valid_prefs (cn_prefs (snd (consumer_place C W S decide m ord s)))"
  proof (cases "accepts S m s ord")
    case True
    obtain cap where "map_of (sv_menu S) (o_capability_id ord) = Some cap" using on_menu [OF True] by blast
    from gate_prefs [OF p [unfolded consumer_accepted [OF True this]]] show ?thesis
      using v valid_remembered [OF v] by (auto simp: p split: sum.splits prod.splits)
  next
    case False
    from process_rejected_keeps [OF False p] show ?thesis using v by (simp add: p)
  qed
qed

text \<open>
  C13. Nothing runs without consent: if placing an order touched the file system at all, then the
  cashier had accepted the order and the user's permission for the capability was to allow it, or
  was to ask and the approver, asked about this very order, allowed it.
\<close>

theorem nothing_runs_without_consent:
  assumes "valid_prefs (cn_prefs s)" and "consumer_place C W S decide m ord s = (r, s')"
    and "ls_fs s' \<noteq> ls_fs s"
  shows "\<exists>cap. accepts S m s ord \<and> map_of (sv_menu S) (o_capability_id ord) = Some cap \<and>
    (effective_state (cn_prefs s) cap = ALLOW \<or>
     effective_state (cn_prefs s) cap = ASK \<and> (\<exists>a u. decide ord cap (cn_user s) = (Inr a, u) \<and> ap_allow a))"
proof -
  have acc: "accepts S m s ord" using process_rejected_keeps [OF _ assms(2)] assms(3) by blast
  then obtain cap where cap: "map_of (sv_menu S) (o_capability_id ord) = Some cap" using on_menu by blast
  let ?s1 = "after_accept (lm_moment m) ord s"
  have g: "gate C W S decide m ord cap ?s1 = (r, s')" using assms(2) by (simp add: consumer_accepted [OF acc cap])
  have "ls_fs s' \<noteq> ls_fs ?s1" using assms(3) by simp
  from gate_touches [OF g this] show ?thesis using acc cap effective_valid [OF assms(1), of cap] by auto
qed


text \<open>
  "Always allow" is a promise: once the user has allowed a capability for good, the permission
  is to allow it, and the outcome of any later order for it does not depend on the approver, which
  is not asked again.
\<close>

theorem always_allow_is_remembered:
  assumes "accepts S m s ord" and "map_of (sv_menu S) (o_capability_id ord) = Some cap"
    and "c_id cap = o_capability_id ord" and "effective_state (cn_prefs s) cap = ASK"
    and "decide ord cap (cn_user s) = (Inr \<lparr>ap_allow = True, ap_remember = True\<rparr>, u)"
    and "consumer_place C W S decide m ord s = (r, s')" and "o_capability_id later = o_capability_id ord"
  shows "effective_state (cn_prefs s') cap = ALLOW \<and>
    consumer_place C W S approver1 m' later s' = consumer_place C W S approver2 m' later s'"
proof -
  have "cn_prefs s' = remembered ord \<lparr>ap_allow = True, ap_remember = True\<rparr> (cn_prefs s)"
    using gate_prefs [OF assms(6) [unfolded consumer_accepted [OF assms(1,2)]]] assms(4,5) by simp
  then have e: "effective_state (cn_prefs s') cap = ALLOW"
    by (simp add: effective_state_def remembered_def assms(3) dict_simps)
  moreover have "ALLOW \<noteq> BLOCK" "ALLOW \<noteq> ASK" by (simp_all add: states)
  moreover have "map_of (sv_menu S) (o_capability_id later) = Some cap" using assms(2,7) by simp
  ultimately have "consumer_place C W S approver1 m' later s' = consumer_place C W S approver2 m' later s'"
  proof (cases "accepts S m' s' later")
    case True
    then show ?thesis
      using e \<open>map_of (sv_menu S) (o_capability_id later) = Some cap\<close> \<open>ALLOW \<noteq> BLOCK\<close> \<open>ALLOW \<noteq> ASK\<close>
      by (simp add: consumer_accepted gate_def Let_def)
  next
    case False
    then obtain reason where "evaluate_order (sv_menu S) (sv_policy_set S) (m_rate_now (lm_moment m'))
      (cs_store s') later = reject reason" using rejected_fields by blast
    then show ?thesis by (simp add: consumer_place_def process_rejected split: sum.split prod.split)
  qed
  with e show ?thesis by blast
qed

section \<open>The settings file\<close>

abbreviation json_settings :: "string dict \<Rightarrow> json dict" where
  "json_settings d \<equiv> map (\<lambda>(k, st). (k, JStr st)) d"

lemma set_all_strings:
  "\<forall>kv \<in> set kvs. snd kv \<in> set STATES \<Longrightarrow> distinct (map fst (pf_settings p @ kvs)) \<Longrightarrow>
    set_all (json_settings kvs) p = Inr (p\<lparr>pf_settings := pf_settings p @ kvs\<rparr>)"
proof (induction kvs arbitrary: p)
  case (Cons kv kvs)
  obtain k st where kv: "kv = (k, st)" by (cases kv)
  have "AList.update k st (pf_settings p) = pf_settings p @ [(k, st)]"
    using Cons.prems(2) kv by (intro update_new_append) auto
  then show ?case
    using Cons.IH [of "p\<lparr>pf_settings := pf_settings p @ [(k, st)]\<rparr>"] Cons.prems kv
    by (simp add: set_pref_def)
qed simp

lemma new_prefs_settings:
  assumes "\<forall>kv \<in> set d. snd kv \<in> set STATES" and "wf_dict d"
  shows "new_prefs (JObj (json_settings d)) path = Inr \<lparr>pf_settings = d, pf_path = path\<rparr>"
proof -
  have "(if falsy (JObj (json_settings d)) then JObj [] else JObj (json_settings d)) = JObj (json_settings d)"
    by (auto simp: falsy_def)
  then show ?thesis
    using set_all_strings [of d no_prefs] assms by (simp add: new_prefs_def no_prefs_def wf_dict_def)
qed

lemma canon_settings: "canon (JObj (json_settings d)) = JObj (json_settings (sort_key fst d))"
  by (simp add: comp_def case_prod_unfold map_sort_key_fst)

lemma saved_text_loads:
  assumes "valid_prefs p" and "pf_path p = Some path"
  shows "load_prefs path (write_file path (prefs_text p) fs) = Inr (p\<lparr>pf_settings := sort_key fst (pf_settings p)\<rparr>)"
    and "load_prefs path (write_file path (BOM @ prefs_text p) fs) = Inr (p\<lparr>pf_settings := sort_key fst (pf_settings p)\<rparr>)"
proof -
  have "wf_dict (pf_settings p)" using assms(1) by (simp add: valid_prefs_def)
  moreover have "new_prefs (JObj (json_settings (sort_key fst (pf_settings p)))) (Some path) =
      Inr (p\<lparr>pf_settings := sort_key fst (pf_settings p)\<rparr>)"
    using assms by (subst new_prefs_settings) (auto simp: valid_prefs_def)
  ultimately show "load_prefs path (write_file path (prefs_text p) fs) = Inr (p\<lparr>pf_settings := sort_key fst (pf_settings p)\<rparr>)"
    "load_prefs path (write_file path (BOM @ prefs_text p) fs) = Inr (p\<lparr>pf_settings := sort_key fst (pf_settings p)\<rparr>)"
    using json_load_file_text [of "json_settings (pf_settings p)", unfolded canon_settings]
    by (auto simp: load_prefs_def prefs_text_def wf_dict_def comp_def case_prod_unfold)
qed

text \<open>
  The settings file keeps the choices: what was saved, whether or not an editor has since put a
  byte order mark in front, loads again with the same settings, in key order, so the same state
  applies to every capability in the next session.
\<close>

theorem saved_preferences_load:
  assumes "valid_prefs p" and "pf_path p = Some path"
  shows "\<exists>fs'. save_prefs None p fs = (Inr path, fs') \<and>
    (\<forall>bytes \<in> {the (files fs' path), BOM @ the (files fs' path)}. \<exists>q.
      load_prefs path (write_file path bytes fs') = Inr q \<and>
      q = p\<lparr>pf_settings := sort_key fst (pf_settings p)\<rparr> \<and>
      effective_state q cap = effective_state p cap)"
proof -
  let ?q = "p\<lparr>pf_settings := sort_key fst (pf_settings p)\<rparr>"
  have "wf_dict (pf_settings p)" using assms(1) by (simp add: valid_prefs_def)
  then have "effective_state ?q cap = effective_state p cap"
    by (simp add: effective_state_def map_of_sort_key)
  then show ?thesis using saved_text_loads [OF assms] by (auto simp: save_prefs_def assms(2))
qed

section \<open>Examples\<close>

definition example_prefs :: prefs where
  "example_prefs = \<lparr>pf_settings = [(''gmail.draft_reply'', ASK)], pf_path = Some ''/permissions.json''\<rparr>"

definition example_consumer :: "(prompt_spec list \<times> nat) consumer_state" where
  "example_consumer = \<lparr>cs_store = empty_store, cs_ledger = [], ls_fs = example_fs, ls_last_chef = None,
     ls_current_order_meta = None, cn_prefs = example_prefs, cn_user = ([], 0)\<rparr>"

text \<open>A user who presses the same button every time.\<close>

definition presses :: "string \<Rightarrow> prompt_spec \<Rightarrow> nat \<Rightarrow> (exn + string option) \<times> nat" where
  "presses verdict spec n = (Inr (Some verdict), Suc n)"

definition example_show :: "json dict \<Rightarrow> string" where
  "example_show args = canonical_bytes (JObj args)"

lemma example_consumer_accepted:
  "accepts example_service example_loop_moment example_consumer (example_order\<lparr>o_order_id := i\<rparr>)"
  using example_accepted
  by (simp add: evaluate_other_id example_service_def example_loop_moment_def example_moment_def example_consumer_def)

lemma example_same_order: "example_order\<lparr>o_order_id := o_order_id example_order\<rparr> = example_order"
  by (simp add: example_order_def)

lemma example_menu_lookup: "map_of (sv_menu example_service) (o_capability_id (example_order\<lparr>o_order_id := i\<rparr>)) =
    Some example_capability"
  by (simp add: example_service_def example_menu_def example_order_def)

lemma example_valid_prefs: "valid_prefs (cn_prefs example_consumer)"
  by (simp add: example_consumer_def valid_prefs_def example_prefs_def wf_dict_def STATES_def)

theorem saved_preferences_load_witness:
  "\<exists>fs' q. save_prefs None example_prefs example_fs = (Inr ''/permissions.json'', fs') \<and>
    load_prefs ''/permissions.json'' (write_file ''/permissions.json'' (BOM @ the (files fs' ''/permissions.json'')) fs') = Inr q \<and>
    effective_state q example_capability = ASK"
proof -
  have "effective_state example_prefs example_capability = ASK"
    by (simp add: effective_state_def example_prefs_def example_capability_def)
  moreover have "valid_prefs example_prefs" using example_valid_prefs by (simp add: example_consumer_def)
  ultimately show ?thesis
    using saved_preferences_load [of example_prefs "''/permissions.json''" example_fs example_capability]
    by (auto simp: example_prefs_def)
qed

theorem preferences_stay_valid_witness:
  "valid_prefs (cn_prefs (snd (consumer_place example_crypto example_os example_service
     (native_decide example_show (presses ''always'')) example_loop_moment example_order example_consumer)))"
  using preferences_stay_valid example_valid_prefs by blast

theorem nothing_runs_without_consent_witness:
  "\<exists>s'. ls_fs s' \<noteq> ls_fs example_consumer \<and>
    consumer_place example_crypto example_os example_service (native_decide example_show (presses ''once''))
      example_loop_moment (example_order\<lparr>o_order_id := [CHR 0x00]\<rparr>) example_consumer = (Inl ValueError, s') \<and>
    (\<exists>cap. map_of (sv_menu example_service) ''gmail.draft_reply'' = Some cap)"
proof -
  let ?ord = "example_order\<lparr>o_order_id := [CHR 0x00]\<rparr>"
  let ?d = "native_decide example_show (presses ''once'')"
  let ?s1 = "after_accept (lm_moment example_loop_moment) ?ord example_consumer"
  have "\<not> window_ok example_os example_service ?ord"
    by (simp add: window_ok_def window_path_def example_service_def example_kitchen_def abspath_def example_os_def
        normpath_def path_join_def startswith_def endswith_def comps_def split_on_append)
  then have nul: "CHR 0x00 \<in> set (window_path example_os (o_order_id ?ord) (kn_window_root (sv_kitchen example_service)))"
    by (simp add: window_ok_def)
  have "\<exists>s'. gate example_crypto example_os example_service ?d example_loop_moment ?ord example_capability ?s1 =
      (Inl ValueError, s') \<and> trace (ls_fs s') = [MakeDir ''/ws/1'']"
    using nul
    by (simp add: gate_def Let_def example_consumer_def example_prefs_def effective_state_def example_capability_def
        states native_decide_def presses_def decision_from_verdict_def remember_def consumer_execute_def
        run_chef_def window_dir_def makedirs_def minted_fields mkdtemp_def rmtree_def touch_def example_fs_def
        example_loop_moment_def)
  then obtain s' where p: "consumer_place example_crypto example_os example_service ?d example_loop_moment ?ord
      example_consumer = (Inl ValueError, s')" "trace (ls_fs s') = [MakeDir ''/ws/1'']"
    using consumer_accepted [OF example_consumer_accepted example_menu_lookup] by fastforce
  then have "ls_fs s' \<noteq> ls_fs example_consumer" by (auto simp: example_consumer_def example_fs_def)
  from nothing_runs_without_consent [OF example_valid_prefs p(1) this] this p(1) show ?thesis
    by (auto simp: example_order_def)
qed


theorem always_allow_is_remembered_witness:
  "\<exists>r s'. consumer_place example_crypto example_os example_service (native_decide example_show (presses ''always''))
      example_loop_moment example_order example_consumer = (r, s') \<and>
    effective_state (cn_prefs s') example_capability = ALLOW"
proof -
  let ?d = "native_decide example_show (presses ''always'')"
  obtain r s' where p: "consumer_place example_crypto example_os example_service ?d
      example_loop_moment example_order example_consumer = (r, s')" by fastforce
  have d: "?d example_order example_capability (cn_user example_consumer) =
      (Inr \<lparr>ap_allow = True, ap_remember = True\<rparr>, ([build_prompt example_show example_order example_capability], 1))"
    by (simp add: native_decide_def example_consumer_def presses_def decision_from_verdict_def)
  have e: "effective_state (cn_prefs example_consumer) example_capability = ASK"
    by (simp add: example_consumer_def example_prefs_def effective_state_def example_capability_def)
  have c: "c_id example_capability = o_capability_id example_order"
    by (simp add: example_capability_def example_order_def)
  note a = example_consumer_accepted [of "o_order_id example_order", unfolded example_same_order]
    example_menu_lookup [of "o_order_id example_order", unfolded example_same_order]
  from always_allow_is_remembered [OF a c e d p refl] show ?thesis using p by blast
qed

section \<open>A closed terminal\<close>

text \<open>
  A defect: the command-line approver lets the \<^verbatim>\<open>EOFError\<close> of \<^verbatim>\<open>input\<close> out. The order had passed the
  cashier, its nonce is spent and its acceptance counted, but it has no receipt, although the
  documentation says that anything but a yes is recorded as a denial.
\<close>

lemma closed_terminal_loses_the_receipt:
  assumes "accepts S m s ord" and "map_of (sv_menu S) (o_capability_id ord) = Some cap"
    and "effective_state (cn_prefs s) cap = ASK" and "input_fn (cn_user s) = (Inl EOFError, u)"
  shows "\<exists>s'. consumer_place C W S (cli_decide input_fn) m ord s = (Inl EOFError, s') \<and>
    cs_ledger s' = cs_ledger s \<and> o_nonce ord \<in> seen_nonces (cs_store s')"
proof -
  have "ASK \<noteq> BLOCK" by (simp add: states)
  then show ?thesis
    by (simp add: consumer_accepted [OF assms(1,2)] gate_def Let_def assms(3,4) cli_decide_def)
qed

end
