(* ===== verification/Mcp.thy ===== *)
theory Mcp
  imports Consumer Drill
begin

text \<open>
  \<^verbatim>\<open>mcp_gateway.py\<close>: the loop behind JSON-RPC. A message is a JSON value; the answer is one as well,
  or there is none. What a tool call does with its order is the one difference between the plain and
  the confirmed gateway, so it is a field of the gateway: \<open>plain_call\<close> places the order with the
  loop, \<open>confirmed_call\<close> with the consumer loop. The choice of the sandbox is in \<^verbatim>\<open>Apphome\<close>, the wiring
  of \<^verbatim>\<open>main\<close> in \<^verbatim>\<open>Programs\<close>. \<^verbatim>\<open>str\<close> of a list or a dictionary is a parameter.
\<close>

section \<open>Answers\<close>

definition rpc_ok :: "json \<Rightarrow> json dict \<Rightarrow> json" where
  "rpc_ok req_id result = JObj [(''jsonrpc'', JStr ''2.0''), (''id'', req_id), (''result'', JObj result)]"

definition rpc_error :: "json \<Rightarrow> int \<Rightarrow> string \<Rightarrow> json" where
  "rpc_error req_id code message =
     JObj [(''jsonrpc'', JStr ''2.0''), (''id'', req_id),
       (''error'', JObj [(''code'', JInt code), (''message'', JStr message)])]"

definition text_item :: "string \<Rightarrow> json" where
  "text_item s = JObj [(''type'', JStr ''text''), (''text'', JStr s)]"

definition tool_error :: "string \<Rightarrow> json dict" where
  "tool_error message = [(''content'', JArr [text_item message]), (''isError'', JBool True)]"

definition fulfilled_result :: "string \<Rightarrow> receipt \<Rightarrow> json dict" where
  "fulfilled_result output_text rc =
     [(''content'', JArr [text_item output_text,
         text_item (''[Sentinel receipt '' @ str_of (r_receipt_id rc) @ '' | status '' @ str_of (r_status rc) @
           '' | result digest '' @ take 12 (str_of (r_result_digest rc)) @ ''.. | '' @ ''verifiable in the ledger]'')]),
      (''isError'', JBool False)]"

text \<open>\<^verbatim>\<open>bytes.decode("utf-8")\<close>\<close>

definition decode_utf8 :: "string \<Rightarrow> exn + string" where
  "decode_utf8 b = (if list_ex is_surrogate (code_points b) then Inl ValueError else Inr b)"

section \<open>Placing an order\<close>

type_synonym 's call = "loop_moment \<Rightarrow> order \<Rightarrow> 's \<Rightarrow> (exn + json dict) \<times> 's"

definition execution_failed :: "receipt \<Rightarrow> json dict" where
  "execution_failed rc = tool_error (''Execution failed ('' @ str_of (r_reason_code rc) @ ''). Receipt: '' @
     str_of (r_receipt_id rc) @ ''.'')"

definition recorded :: "string \<Rightarrow> receipt \<Rightarrow> json dict" where
  "recorded what rc = tool_error (what @ ''A signed rejection receipt was '' @ ''recorded ('' @ str_of (r_receipt_id rc) @ '').'')"

definition plain_call :: "crypto \<Rightarrow> os \<Rightarrow> service \<Rightarrow> loop_state call" where
  "plain_call C W S m ord s =
     (case place C W S m ord s of
        (Inl e, s1) \<Rightarrow> (Inl e, s1)
      | (Inr (RejectionOutcome reason rc), s1) \<Rightarrow> (Inr (recorded (''Refused by policy: '' @ reason @ ''. '') rc), s1)
      | (Inr (TicketOutcome t), s1) \<Rightarrow>
          (case ls_last_chef s1 of
             None \<Rightarrow> (Inl AttributeError, s1)
           | Some chef \<Rightarrow>
               (case cr_draft_bytes chef of
                  Some draft \<Rightarrow>
                    if cr_returncode chef = 0
                    then (bind_res (decode_utf8 draft) (\<lambda>d. Inr (fulfilled_result d (cr_receipt chef))), s1)
                    else (Inr (execution_failed (cr_receipt chef)), s1)
                | None \<Rightarrow> (Inr (execution_failed (cr_receipt chef)), s1))))"

definition confirmed_result :: "consumer_outcome \<Rightarrow> exn + json dict" where
  "confirmed_result co =
     (if co_status co = ''REJECTED_BY_POLICY''
      then Inr (recorded (''Refused by policy: '' @ str_of (jstr_opt (co_reason_code co)) @ ''. '') (co_receipt co))
      else if co_status co = ''BLOCKED_BY_USER''
      then Inr (recorded (''Blocked by the user's standing permissions (USER_BLOCKED). '') (co_receipt co))
      else if co_status co = ''DENIED_BY_USER''
      then Inr (recorded (''The user declined this action on-device (USER_DENIED). '') (co_receipt co))
      else if co_status co = ''FULFILLED''
      then (case co_draft co of
          None \<Rightarrow> Inl AttributeError
        | Some draft \<Rightarrow> bind_res (decode_utf8 draft) (\<lambda>d. Inr (fulfilled_result d (co_receipt co))))
      else Inr (execution_failed (co_receipt co)))"

definition confirmed_call :: "crypto \<Rightarrow> os \<Rightarrow> service \<Rightarrow> 'u approver \<Rightarrow> 'u consumer_state call" where
  "confirmed_call C W S decide m ord s =
     (case consumer_place C W S decide m ord s of
        (Inl e, s1) \<Rightarrow> (Inl e, s1)
      | (Inr co, s1) \<Rightarrow> (confirmed_result co, s1))"

section \<open>The gateway\<close>

record 's gateway =
  gw_menu :: "(string \<times> capability) list"
  gw_principal :: string
  gw_role :: string
  gw_server_name :: string
  gw_version :: string
  gw_confirms :: bool
  gw_call :: "'s call"
  gw_str :: "json \<Rightarrow> string"

definition server_version :: string where
  "server_version = ''0.15.0''"

definition DEFAULT_PROTOCOL_VERSION :: string where
  "DEFAULT_PROTOCOL_VERSION = ''2025-06-18''"

definition name_char :: "nat \<Rightarrow> bool" where
  "name_char n \<longleftrightarrow> 97 \<le> n \<and> n \<le> 122 \<or> 65 \<le> n \<and> n \<le> 90 \<or> 48 \<le> n \<and> n \<le> 57 \<or> n = 0x5F \<or> n = 0x2D"

definition tool_name :: "string \<Rightarrow> string" where
  "tool_name capability_id = encode (map (\<lambda>n. if name_char n then n else 0x5F) (code_points capability_id))"

definition menu_map :: "'s gateway \<Rightarrow> (string \<times> capability) list" where
  "menu_map G = dict_of (map (\<lambda>(k, cap). (tool_name (c_id cap), cap)) (gw_menu G))"

text \<open>\<^verbatim>\<open>str(x)\<close>, and \<^verbatim>\<open>x.get\<close> of what may be no dictionary.\<close>

fun show_value :: "'s gateway \<Rightarrow> json \<Rightarrow> string" where
  "show_value G (JStr s) = s"
| "show_value G JNull = ''None''"
| "show_value G (JBool b) = (if b then ''True'' else ''False'')"
| "show_value G (JInt i) = string_of_int i"
| "show_value G j = gw_str G j"

definition params_of :: "json dict \<Rightarrow> exn + json dict" where
  "params_of request =
     (let p = jget request ''params'' in
      if falsy p then Inr [] else (case p of JObj d \<Rightarrow> Inr d | _ \<Rightarrow> Inl AttributeError))"

definition initialize :: "'s gateway \<Rightarrow> json dict \<Rightarrow> json dict" where
  "initialize G params =
     [(''protocolVersion'', if falsy (jget params ''protocolVersion'') then JStr DEFAULT_PROTOCOL_VERSION
        else jget params ''protocolVersion''),
      (''capabilities'', JObj [(''tools'', JObj [(''listChanged'', JBool False)])]),
      (''serverInfo'', JObj [(''name'', JStr (gw_server_name G)), (''version'', JStr (gw_version G))]),
      (''instructions'', JStr (''Every tool call is governed by Sentinel policy (scope, role, '' @
         ''rate) and leaves a signed receipt. Refused calls return an '' @ ''error and are still recorded.'' @
         (if gw_confirms G then '' High-stakes calls additionally require the user's '' @
            ''on-device approval; a denial is recorded too.'' else [])))]"

definition tool_item :: "string \<times> capability \<Rightarrow> json" where
  "tool_item tc =
     (case tc of (tname, cap) \<Rightarrow> JObj
        [(''name'', JStr tname),
         (''description'', JStr ((if c_description cap = [] then c_name cap else c_description cap) @
            ''  [governed: '' @ c_risk_class cap @ '' risk; every call scope-checked and '' @ ''receipted]'')),
         (''inputSchema'', JObj [(''type'', JStr ''object''),
            (''properties'', JObj (map (\<lambda>key. (key, JObj [(''type'', JStr ''string''),
               (''description'', JStr (if key = c_scoped_input cap
                  then ''scoped resource id (e.g. <owner>/<item>)'' else key))])) (keys (c_inputs cap)))),
            (''required'', JArr (map JStr (keys (c_inputs cap))))])])"

definition tools_list :: "'s gateway \<Rightarrow> json dict" where
  "tools_list G = [(''tools'', JArr (map tool_item (sort_key fst (menu_map G))))]"

text \<open>\<^verbatim>\<open>self._menu_map().get(name)\<close>\<close>

fun find_tool :: "'s gateway \<Rightarrow> json \<Rightarrow> exn + capability option" where
  "find_tool G (JStr name) = Inr (map_of (menu_map G) name)"
| "find_tool G (JArr _) = Inl TypeError"
| "find_tool G (JObj _) = Inl TypeError"
| "find_tool G _ = Inr None"

definition tool_order :: "'s gateway \<Rightarrow> draw \<Rightarrow> capability \<Rightarrow> json dict \<Rightarrow> order" where
  "tool_order G r cap arguments =
     \<lparr>o_order_id = ''ord-'' @ dr_order_uuid r, o_principal = gw_principal G, o_role = gw_role G,
      o_capability_id = c_id cap, o_args = arguments, o_nonce = ''nonce-'' @ dr_nonce_uuid r, o_ts = dr_ts r\<rparr>"

text \<open>The order of a tool call, or the answer that there is none.\<close>

definition call_order :: "'s gateway \<Rightarrow> draw \<Rightarrow> json dict \<Rightarrow> exn + json dict + order" where
  "call_order G r params =
     (let args = (if falsy (jget params ''arguments'') then JObj [] else jget params ''arguments'') in
      case args of
        JObj arguments \<Rightarrow>
          bind_res (find_tool G (jget params ''name'')) (\<lambda>found.
            case found of
              None \<Rightarrow> Inr (Inl (tool_error (''unknown tool: '' @ show_value G (jget params ''name''))))
            | Some cap \<Rightarrow> Inr (Inr (tool_order G r cap arguments)))
      | _ \<Rightarrow> Inr (Inl (tool_error ''arguments must be an object'')))"

definition tools_call :: "'s gateway \<Rightarrow> draw \<Rightarrow> json dict \<Rightarrow> 's \<Rightarrow> (exn + json dict) \<times> 's" where
  "tools_call G r params s =
     (case call_order G r params of
        Inl e \<Rightarrow> (Inl e, s)
      | Inr (Inl told) \<Rightarrow> (Inr told, s)
      | Inr (Inr ord) \<Rightarrow> gw_call G (dr_moment r) ord s)"

definition handle :: "'s gateway \<Rightarrow> draw \<Rightarrow> json \<Rightarrow> 's \<Rightarrow> (exn + json option) \<times> 's" where
  "handle G r request s =
     (case request of
        JObj d \<Rightarrow>
          if jget d ''jsonrpc'' \<noteq> JStr ''2.0''
          then (Inr (Some (rpc_error JNull (- 32600) ''invalid JSON-RPC request'')), s)
          else
            let verb = jget d ''method''; req_id = jget d ''id''
            in if verb = JStr ''initialize'' then
                 (bind_res (params_of d) (\<lambda>p. Inr (Some (rpc_ok req_id (initialize G p)))), s)
               else if verb = JStr ''ping'' then (Inr (Some (rpc_ok req_id [])), s)
               else if verb = JStr ''tools/list'' then (Inr (Some (rpc_ok req_id (tools_list G))), s)
               else if verb = JStr ''tools/call'' then
                 (case params_of d of
                    Inl e \<Rightarrow> (Inl e, s)
                  | Inr p \<Rightarrow>
                      (case tools_call G r p s of
                         (Inl e, s1) \<Rightarrow> (Inl e, s1)
                       | (Inr result, s1) \<Rightarrow> (Inr (Some (rpc_ok req_id result)), s1)))
               else if (case verb of JStr v \<Rightarrow> startswith v ''notifications/'' | _ \<Rightarrow> False) then (Inr None, s)
               else if ''id'' \<notin> set (keys d) then (Inr None, s)
               else (Inr (Some (rpc_error req_id (- 32601) (''method not found: '' @ show_value G verb))), s)
      | _ \<Rightarrow> (Inr (Some (rpc_error JNull (- 32600) ''invalid JSON-RPC request'')), s))"

section \<open>The stdio loop\<close>

definition clean_line :: "string \<Rightarrow> string" where
  "clean_line l = strip (if startswith l BOM then drop (length BOM) l else l)"

definition wire_line :: "json \<Rightarrow> string" where
  "wire_line j = dumps default_style 0 j @ [CHR 0x0A]"

text \<open>One line of the input: what is written, and whether the server goes on.\<close>

definition serve_line :: "'s gateway \<Rightarrow> draw \<Rightarrow> string \<Rightarrow> 's \<Rightarrow> (exn + string) \<times> 's" where
  "serve_line G r l s =
     (if clean_line l = [] then (Inr [], s)
      else (case json_loads (clean_line l) of
        None \<Rightarrow> (Inr (wire_line (rpc_error JNull (- 32700) ''parse error'')), s)
      | Some request \<Rightarrow>
          (case handle G r request s of
             (Inl e, s1) \<Rightarrow> (Inl e, s1)
           | (Inr None, s1) \<Rightarrow> (Inr [], s1)
           | (Inr (Some response), s1) \<Rightarrow> (Inr (wire_line response), s1))))"

text \<open>The exception that ends the server, if one does, and everything it wrote.\<close>

fun serve :: "'s gateway \<Rightarrow> (draw \<times> string) list \<Rightarrow> 's \<Rightarrow> (exn option \<times> string) \<times> 's" where
  "serve G [] s = ((None, []), s)"
| "serve G ((r, l) # ls) s =
     (case serve_line G r l s of
        (Inl e, s1) \<Rightarrow> ((Some e, []), s1)
      | (Inr out, s1) \<Rightarrow> (case serve G ls s1 of ((e, outs), s2) \<Rightarrow> ((e, out @ outs), s2)))"

section \<open>Lines of a client\<close>

lemma strip_framed:
  assumes "ascii (a # s @ [b])" and "\<not> is_space (of_char a)" and "\<not> is_space (of_char b)"
    and "ascii w" and "\<forall>c \<in> set w. is_space (of_char c)"
  shows "strip ((a # s @ [b]) @ w) = a # s @ [b]"
proof -
  have cp: "code_points ((a # s @ [b]) @ w) = map of_char (a # s @ [b]) @ map of_char w"
    using assms(1,4) by (subst code_points_ascii) (auto simp: ascii_def)
  have "dropWhile is_space (rev (map of_char w)) = []" using assms(5) by (simp add: dropWhile_eq_Nil_conv)
  then have "strip ((a # s @ [b]) @ w) = encode (map of_char (a # s @ [b]))"
    unfolding strip_def cp using assms(2,3,5) by (simp add: dropWhile_append rev_map)
  also have "\<dots> = a # s @ [b]" using code_points_ascii [OF assms(1)] encode_code_points [of "a # s @ [b]"] by simp
  finally show ?thesis .
qed

text \<open>A JSON object in any layout, with or without the line feed, is what the server parses.\<close>

lemma clean_object_line:
  assumes "style_ok st" and "w = [] \<or> w = [CHR 0x0A]"
  shows "clean_line (dumps st 0 (JObj d) @ w) = dumps st 0 (JObj d)"
proof -
  obtain s where s: "dumps st 0 (JObj d) = CHR ''{'' # s @ [CHR ''}'']" by (cases d) simp_all
  have a: "ascii (CHR ''{'' # s @ [CHR ''}''])" using dumps_ascii [OF assms(1), of 0 "JObj d"] by (simp only: s)
  have "\<not> startswith (dumps st 0 (JObj d) @ w) BOM" by (simp add: s startswith_def BOM_def)
  moreover have "strip ((CHR ''{'' # s @ [CHR ''}'']) @ w) = CHR ''{'' # s @ [CHR ''}'']"
    using assms(2) by (intro strip_framed [OF a]) (auto simp: is_space_def ascii_def)
  ultimately show ?thesis by (simp add: clean_line_def s)
qed

lemma loads_object_line:
  assumes "style_ok st" and "w = [] \<or> w = [CHR 0x0A]" and "wf_json (JObj d)"
  shows "clean_line (dumps st 0 (JObj d) @ w) \<noteq> [] \<and>
    json_loads (clean_line (dumps st 0 (JObj d) @ w)) = Some (JObj d)"
proof -
  have "dumps st 0 (JObj d) \<noteq> []" by (cases d) simp_all
  then show ?thesis
    using clean_object_line [OF assms(1,2)] loads_dumps [of st "JObj d" "[]"] assms(1,3) by simp
qed

section \<open>What a line orders\<close>

definition line_order :: "'s gateway \<Rightarrow> draw \<Rightarrow> string \<Rightarrow> order option" where
  "line_order G r l =
     (if clean_line l = [] then None
      else (case json_loads (clean_line l) of
        Some (JObj d) \<Rightarrow>
          if jget d ''jsonrpc'' = JStr ''2.0'' \<and> jget d ''method'' = JStr ''tools/call''
          then (case bind_res (params_of d) (call_order G r) of Inr (Inr ord) \<Rightarrow> Some ord | _ \<Rightarrow> None)
          else None
      | _ \<Rightarrow> None))"

definition orders_of :: "'s gateway \<Rightarrow> (draw \<times> string) list \<Rightarrow> order list" where
  "orders_of G ls = concat (map (\<lambda>(r, l). case line_order G r l of None \<Rightarrow> [] | Some ord \<Rightarrow> [ord]) ls)"

lemma serve_line_state:
  "snd (serve_line G r l s) = (case line_order G r l of None \<Rightarrow> s | Some ord \<Rightarrow> snd (gw_call G (dr_moment r) ord s))"
proof (cases "clean_line l = [] \<or> json_loads (clean_line l) = None")
  case True
  then show ?thesis by (auto simp: serve_line_def line_order_def)
next
  case False
  then obtain request where j: "clean_line l \<noteq> []" "json_loads (clean_line l) = Some request" by auto
  have h: "snd (serve_line G r l s) = snd (handle G r request s)"
    using j by (simp add: serve_line_def split: prod.split sum.split option.split)
  show ?thesis
  proof (cases request)
    case (JObj d)
    show ?thesis
    proof (cases "jget d ''jsonrpc'' = JStr ''2.0'' \<and> jget d ''method'' = JStr ''tools/call''")
      case True
      then have "snd (handle G r request s) = (case params_of d of Inl e \<Rightarrow> s | Inr p \<Rightarrow> snd (tools_call G r p s))"
        by (simp add: JObj handle_def Let_def split: prod.split sum.split)
      then show ?thesis
        using True j h by (simp add: JObj line_order_def tools_call_def split: sum.split)
    next
      case False
      then show ?thesis
        using j h by (auto simp: JObj line_order_def handle_def Let_def)
    qed
  qed (use j h in \<open>simp_all add: line_order_def handle_def\<close>)
qed

text \<open>Whose order it is does not depend on the message.\<close>

lemma call_order_fields:
  assumes "call_order G r params = Inr (Inr ord)"
  shows "o_order_id ord = ''ord-'' @ dr_order_uuid r \<and> o_principal ord = gw_principal G \<and> o_role ord = gw_role G \<and> (\<exists>cap \<in> snd ` set (gw_menu G). o_capability_id ord = c_id cap)"
proof -
  obtain cap args where c: "find_tool G (jget params ''name'') = Inr (Some cap)" "ord = tool_order G r cap args"
    using assms by (auto simp: call_order_def Let_def bind_res_Inr split: json.splits option.splits if_splits)
  then obtain name where "map_of (menu_map G) name = Some cap" by (cases "jget params ''name''") auto
  then have "cap \<in> snd ` set (menu_map G)" by (force dest: map_of_SomeD)
  then have "cap \<in> snd ` set (gw_menu G)"
    using set_dict_of_subset [of "map (\<lambda>(k, cap). (tool_name (c_id cap), cap)) (gw_menu G)"] by (force simp: menu_map_def)
  then show ?thesis using c(2) by (auto simp: tool_order_def)
qed

lemma line_order_fields:
  assumes "line_order G r l = Some ord"
  shows "o_order_id ord = ''ord-'' @ dr_order_uuid r \<and> o_principal ord = gw_principal G \<and> o_role ord = gw_role G \<and> (\<exists>cap \<in> snd ` set (gw_menu G). o_capability_id ord = c_id cap)"
  using assms call_order_fields
  by (auto simp: line_order_def bind_res_Inr split: option.splits json.splits sum.splits if_splits)

section \<open>The contract of a call\<close>

text \<open>
  What the gateway asks of the way it places orders: whatever comes back, a result or an exception,
  the ledger verified before has one row more.
\<close>

locale counter =
  fixes call :: "'s call"
    and verified :: "'s \<Rightarrow> nat \<Rightarrow> bool"
    and admissible :: "order \<Rightarrow> bool"
  assumes one_row: "admissible ord \<Longrightarrow> verified s n \<Longrightarrow> verified (snd (call m ord s)) (Suc n)"
begin

lemma serve_line_rows:
  assumes "gw_call G = call" and "verified s n" and "\<And>ord. line_order G r l = Some ord \<Longrightarrow> admissible ord"
  shows "verified (snd (serve_line G r l s)) (n + length (orders_of G [(r, l)]))"
  using assms one_row by (simp add: serve_line_state orders_of_def split: option.split)

lemma serve_rows:
  assumes "gw_call G = call"
  shows "verified s n \<Longrightarrow> \<forall>ord \<in> set (orders_of G ls). admissible ord \<Longrightarrow> serve G ls s = ((e, out), s') \<Longrightarrow>
    \<exists>k \<le> length ls. verified s' (n + length (orders_of G (take k ls))) \<and> (e = None \<longrightarrow> k = length ls)"
proof (induction ls arbitrary: s n e out s')
  case Nil
  then show ?case by (simp add: orders_of_def)
next
  case (Cons rl ls)
  obtain r l where rl: "rl = (r, l)" by (cases rl)
  have split: "orders_of G ((r, l) # ks) = orders_of G [(r, l)] @ orders_of G ks" for ks by (simp add: orders_of_def)
  have adm: "\<forall>ord \<in> set (orders_of G [(r, l)] @ orders_of G ls). admissible ord"
    using Cons.prems(2) unfolding rl split [of ls] .
  have v: "verified (snd (serve_line G r l s)) (n + length (orders_of G [(r, l)]))"
    using adm by (intro serve_line_rows [OF assms Cons.prems(1)]) (simp add: orders_of_def)
  show ?case
  proof (cases "serve_line G r l s")
    case (Pair x s1)
    show ?thesis
    proof (cases x)
      case (Inl err)
      then have "e \<noteq> None" "s' = s1" using Cons.prems(3) Pair by (auto simp: rl)
      then show ?thesis using v Pair rl by (intro exI [of _ 1]) auto
    next
      case (Inr o1)
      obtain e1 o2 s2 where q: "serve G ls s1 = ((e1, o2), s2)" by (metis prod.exhaust)
      then have e: "e = e1" "s' = s2" using Cons.prems(3) Pair Inr by (auto simp: rl)
      have "verified s1 (n + length (orders_of G [(r, l)]))" using v Pair by simp
      from Cons.IH [OF this _ q] adm obtain k where k: "k \<le> length ls"
        "verified s' (n + length (orders_of G [(r, l)]) + length (orders_of G (take k ls)))" "e1 = None \<longrightarrow> k = length ls"
        unfolding e by auto
      then show ?thesis using split [of "take k ls"] e by (intro exI [of _ "Suc k"]) (simp add: rl add.assoc)
    qed
  qed
qed

end

abbreviation verified_rows :: "crypto \<Rightarrow> service \<Rightarrow> table \<Rightarrow> nat \<Rightarrow> bool" where
  "verified_rows C S t n \<equiv> verify_ledger_rows C (ed_pub C (sv_private_key S)) t = Verified n"

lemma plain_call_state: "snd (plain_call C W S m ord s) = snd (place C W S m ord s)"
  by (auto simp: plain_call_def split: prod.split sum.split outcome.split option.split)

lemma confirmed_call_state: "snd (confirmed_call C W S decide m ord s) = snd (consumer_place C W S decide m ord s)"
  by (auto simp: confirmed_call_def split: prod.split sum.split)

lemma plain_one_row:
  assumes "sig_correct C \<and> starts S \<and> window_ok W S ord" and "verified_rows C S (cs_ledger s) n"
  shows "verified_rows C S (cs_ledger (snd (plain_call C W S m ord s))) (Suc n)"
  using place_one_row [of C S s n W ord m] assms by (auto simp: plain_call_state)

lemma confirmed_one_row:
  assumes "sig_correct C \<and> starts S \<and> window_ok W S ord" and "verified_rows C S (cs_ledger s) n"
  shows "verified_rows C S (cs_ledger (snd (confirmed_call C W S (native_decide show_args show_fn) m ord s))) (Suc n)"
  using native.consumer_one_row [of C S s n W ord show_args show_fn m] assms by (auto simp: confirmed_call_state)

interpretation plain: counter "plain_call C W S" "\<lambda>s. verified_rows C S (cs_ledger s)"
  "\<lambda>ord. sig_correct C \<and> starts S \<and> window_ok W S ord" for C W S
  by unfold_locales (rule plain_one_row)

interpretation confirmed: counter "confirmed_call C W S (native_decide show_args show_fn)"
  "\<lambda>s. verified_rows C S (cs_ledger s)" "\<lambda>ord. sig_correct C \<and> starts S \<and> window_ok W S ord"
  for C W S show_args show_fn
  by unfold_locales (rule confirmed_one_row)

section \<open>Properties\<close>

lemma orders_of_fields:
  assumes "ord \<in> set (orders_of G ls)"
  shows "(\<exists>(r, l) \<in> set ls. o_order_id ord = ''ord-'' @ dr_order_uuid r) \<and> o_principal ord = gw_principal G \<and>
    o_role ord = gw_role G \<and> (\<exists>cap \<in> snd ` set (gw_menu G). o_capability_id ord = c_id cap)"
proof -
  obtain r l where "(r, l) \<in> set ls" "line_order G r l = Some ord"
    using assms by (auto simp: orders_of_def split: option.splits)
  then show ?thesis using line_order_fields by blast
qed

text \<open>The draws' identifiers name serving directories.\<close>

definition servable_draws :: "os \<Rightarrow> service \<Rightarrow> (draw \<times> string) list \<Rightarrow> bool" where
  "servable_draws W S ls \<longleftrightarrow>
     (\<forall>(r, l) \<in> set ls. CHR 0x00 \<notin> set (window_path W (''ord-'' @ dr_order_uuid r) (kn_window_root (sv_kitchen S))))"

lemma servable_orders: "servable_draws W S ls \<Longrightarrow> ord \<in> set (orders_of G ls) \<Longrightarrow> window_ok W S ord"
  using orders_of_fields [of ord G ls] by (auto simp: servable_draws_def window_ok_def)

text \<open>
  C5. Every tool call is receipted, and nothing else is: whatever lines a client writes, the ledger
  ends verified, with one row for each of the orders those lines place, as far as the server got
  through them; it got through all of them unless an exception ended it. This holds for the plain
  gateway and for the one that asks the user on the screen. An order is always placed as the principal
  and in the role the gateway was started with, and for a capability of its menu, whatever a message says.
\<close>

theorem every_tool_call_is_receipted:
  assumes "sig_correct C" and "starts S" and "servable_draws W S ls"
    and "gw_call G = plain_call C W S" and "gw_call H = confirmed_call C W S (native_decide show_args show_fn)"
    and "verify_ledger_rows C (ed_pub C (sv_private_key S)) (cs_ledger s) = Verified n"
    and "verify_ledger_rows C (ed_pub C (sv_private_key S)) (cs_ledger z) = Verified n"
    and "serve G ls s = ((e, out), s')" and "serve H ls z = ((f, out'), z')"
  shows "(\<exists>k \<le> length ls. (e = None \<longrightarrow> k = length ls) \<and>
      verify_ledger_rows C (ed_pub C (sv_private_key S)) (cs_ledger s') = Verified (n + length (orders_of G (take k ls)))) \<and>
    (\<exists>k \<le> length ls. (f = None \<longrightarrow> k = length ls) \<and>
      verify_ledger_rows C (ed_pub C (sv_private_key S)) (cs_ledger z') = Verified (n + length (orders_of H (take k ls)))) \<and>
    (\<forall>ord \<in> set (orders_of G ls). o_principal ord = gw_principal G \<and> o_role ord = gw_role G \<and>
      (\<exists>cap \<in> snd ` set (gw_menu G). o_capability_id ord = c_id cap))"
proof -
  have "\<forall>ord \<in> set (orders_of G ls). sig_correct C \<and> starts S \<and> window_ok W S ord"
    "\<forall>ord \<in> set (orders_of H ls). sig_correct C \<and> starts S \<and> window_ok W S ord"
    using assms(1-3) servable_orders by auto
  note adm = this
  note g = plain.serve_rows [OF assms(4,6) adm(1) assms(8)]
  note h = confirmed.serve_rows [OF assms(5,7) adm(2) assms(9)]
  show ?thesis using g h orders_of_fields [of _ G ls] by blast
qed

definition example_gateway :: "'s call \<Rightarrow> 's gateway" where
  "example_gateway call =
     \<lparr>gw_menu = example_menu, gw_principal = ''user.kenji'', gw_role = ''account_manager'',
      gw_server_name = ''sentinel-loop'', gw_version = server_version, gw_confirms = False, gw_call = call,
      gw_str = (\<lambda>j. [])\<rparr>"

definition example_draw :: draw where
  "example_draw = \<lparr>dr_order_uuid = ''00'', dr_nonce_uuid = ''00'', dr_ts = ''now'', dr_moment = example_loop_moment\<rparr>"

definition example_call :: "json dict" where
  "example_call = [(''jsonrpc'', JStr ''2.0''), (''id'', JInt 1), (''method'', JStr ''tools/call''),
     (''params'', JObj [(''name'', JStr ''gmail_draft_reply''),
        (''arguments'', JObj [(''thread_id'', JStr ''user.kenji/t-001'')])])]"

lemma example_call_order:
  "\<exists>ord. orders_of (example_gateway call) [(example_draw, dumps default_style 0 (JObj example_call))] = [ord]"
proof -
  have "wf_json (JObj example_call)" by (simp add: example_call_def wf_dict_def)
  then have l: "clean_line (dumps default_style 0 (JObj example_call)) \<noteq> []"
    "json_loads (clean_line (dumps default_style 0 (JObj example_call))) = Some (JObj example_call)"
    using loads_object_line [of default_style "[]" example_call] by simp_all
  have n: "tool_name ''gmail.draft_reply'' = ''gmail_draft_reply''" by code_simp
  have "map_of (menu_map (example_gateway call)) ''gmail_draft_reply'' = Some example_capability"
    by (simp add: menu_map_def example_gateway_def example_menu_def example_capability_def n dict_of_def)
  then have "bind_res (params_of example_call) (call_order (example_gateway call) example_draw) =
      Inr (Inr (tool_order (example_gateway call) example_draw example_capability [(''thread_id'', JStr ''user.kenji/t-001'')]))"
    by (simp add: params_of_def call_order_def example_call_def jget_def jopt_def falsy_def)
  moreover have "jget example_call ''jsonrpc'' = JStr ''2.0''" "jget example_call ''method'' = JStr ''tools/call''"
    by (simp_all add: example_call_def jget_def jopt_def)
  ultimately show ?thesis using l by (simp add: orders_of_def line_order_def)
qed

lemma example_servable_draws:
  "servable_draws example_os example_service [(example_draw, l)]"
  by (simp add: servable_draws_def example_draw_def) code_simp

theorem every_tool_call_is_receipted_witness:
  "\<exists>e out s' k. serve (example_gateway (plain_call example_crypto example_os example_service))
      [(example_draw, dumps default_style 0 (JObj example_call))] (new_loop_state example_fs) = ((e, out), s') \<and>
    verify_ledger_rows example_crypto (ed_pub example_crypto (sv_private_key example_service)) (cs_ledger s') = Verified k \<and>
    (e = None \<longrightarrow> k = 1)"
proof -
  let ?ls = "[(example_draw, dumps default_style 0 (JObj example_call))]"
  let ?G = "example_gateway (plain_call example_crypto example_os example_service)"
  let ?H = "example_gateway (confirmed_call example_crypto example_os example_service (native_decide example_show (presses ''deny'')))"
  obtain e out s' f out' z' where r: "serve ?G ?ls (new_loop_state example_fs) = ((e, out), s')"
    "serve ?H ?ls example_consumer = ((f, out'), z')"
    by (metis prod.exhaust)
  have c: "gw_call ?G = plain_call example_crypto example_os example_service"
    "gw_call ?H = confirmed_call example_crypto example_os example_service (native_decide example_show (presses ''deny''))"
    by (simp_all add: example_gateway_def)
  have v: "verify_ledger_rows example_crypto (ed_pub example_crypto (sv_private_key example_service)) (cs_ledger (new_loop_state example_fs)) = Verified 0"
    "verify_ledger_rows example_crypto (ed_pub example_crypto (sv_private_key example_service)) (cs_ledger example_consumer) = Verified 0"
    by (simp_all add: new_loop_state_def example_consumer_def verify_ledger_rows_def)
  obtain ord where o: "orders_of ?G ?ls = [ord]" using example_call_order by blast
  obtain k where "(e = None \<longrightarrow> k = length ?ls)"
    "verify_ledger_rows example_crypto (ed_pub example_crypto (sv_private_key example_service)) (cs_ledger s') =
      Verified (0 + length (orders_of ?G (take k ?ls)))"
    using every_tool_call_is_receipted [OF sig_correct_example example_starts example_servable_draws c v r] by blast
  then show ?thesis using r(1) o by (intro exI [of _ e] exI [of _ out] exI [of _ s'] exI [of _ "length (orders_of ?G (take k ?ls))"]) auto
qed

text \<open>
  A defect: a message whose \<^verbatim>\<open>params\<close> is a list, which JSON-RPC allows, ends the server. The
  exception leaves \<^verbatim>\<open>serve\<close>; nothing is answered and no later line is read.
\<close>

theorem positional_params_end_the_server:
  "serve G ((r, dumps default_style 0 (JObj [(''jsonrpc'', JStr ''2.0''), (''id'', JInt i), (''method'', JStr ''tools/call''),
      (''params'', JArr [JStr x])]) @ [CHR 0x0A]) # ls) s = ((Some AttributeError, []), s)"
proof -
  let ?d = "[(''jsonrpc'', JStr ''2.0''), (''id'', JInt i), (''method'', JStr ''tools/call''), (''params'', JArr [JStr x])]"
  have "wf_json (JObj ?d)" by (simp add: wf_dict_def)
  from loads_object_line [OF style_ok_layouts(2) _ this, of "[CHR 0x0A]"] show ?thesis
    by (simp add: serve_line_def handle_def Let_def params_of_def jget_def jopt_def falsy_def del: dumps.simps)
qed

end
