(* ===== verification/Seccomp.thy ===== *)
theory Seccomp
  imports Runner "HOL-Library.Word"
begin

text \<open>
  The network half of \<^verbatim>\<open>chef/linux_sandbox.py\<close>: the filter program that the kernel runs on every system
  call of the chef. The instructions are \<^verbatim>\<open>ctypes\<close> structures, so their fields are words and what is
  stored in them is cut to their width. The machine that runs the program is the kernel's: it is a
  parameter \<open>exec\<close>, and \<open>classic_bpf\<close> is what its documentation says of the three kinds of
  instruction that occur.
\<close>

unbundle bit_operations_syntax

section \<open>Instructions\<close>

definition BPF_LD :: int where "BPF_LD = 0x00"
definition BPF_W :: int where "BPF_W = 0x00"
definition BPF_ABS :: int where "BPF_ABS = 0x20"
definition BPF_JMP :: int where "BPF_JMP = 0x05"
definition BPF_JEQ :: int where "BPF_JEQ = 0x10"
definition BPF_K :: int where "BPF_K = 0x00"
definition BPF_RET :: int where "BPF_RET = 0x06"

definition OFF_NR :: int where "OFF_NR = 0"
definition OFF_ARCH :: int where "OFF_ARCH = 4"

definition SECCOMP_RET_ALLOW :: int where "SECCOMP_RET_ALLOW = 0x7FFF0000"
definition SECCOMP_RET_ERRNO :: int where "SECCOMP_RET_ERRNO = 0x00050000"
definition SECCOMP_RET_KILL_PROCESS :: int where "SECCOMP_RET_KILL_PROCESS = 0x80000000"
definition EACCES :: int where "EACCES = 13"

lemmas bpf_defs = BPF_LD_def BPF_W_def BPF_ABS_def BPF_JMP_def BPF_JEQ_def BPF_K_def BPF_RET_def
  OFF_NR_def OFF_ARCH_def

lemmas verdict_defs = SECCOMP_RET_ALLOW_def SECCOMP_RET_ERRNO_def SECCOMP_RET_KILL_PROCESS_def EACCES_def

definition ARCH :: "(string \<times> int \<times> int list) list" where
  "ARCH =
     [(''x86_64'', 0xC000003E, [41, 42, 49]),
      (''aarch64'', 0xC00000B7, [198, 203, 200]),
      (''arm64'', 0xC00000B7, [198, 203, 200])]"

record sock_filter =
  sf_code :: "16 word"
  sf_jt :: "8 word"
  sf_jf :: "8 word"
  sf_k :: "32 word"

definition stmt :: "int \<Rightarrow> int \<Rightarrow> sock_filter" where
  "stmt code k = \<lparr>sf_code = word_of_int code, sf_jt = 0, sf_jf = 0, sf_k = word_of_int (k AND 0xFFFFFFFF)\<rparr>"

definition jump :: "int \<Rightarrow> int \<Rightarrow> int \<Rightarrow> int \<Rightarrow> sock_filter" where
  "jump code k jt jf =
     \<lparr>sf_code = word_of_int code, sf_jt = word_of_int jt, sf_jf = word_of_int jf,
      sf_k = word_of_int (k AND 0xFFFFFFFF)\<rparr>"

definition build_program :: "int \<Rightarrow> int list \<Rightarrow> sock_filter list" where
  "build_program audit_arch block_nrs =
     (let n = int (length block_nrs) in
      [stmt (BPF_LD OR BPF_W OR BPF_ABS) OFF_ARCH,
       jump (BPF_JMP OR BPF_JEQ OR BPF_K) audit_arch 0 (n + 3),
       stmt (BPF_LD OR BPF_W OR BPF_ABS) OFF_NR] @
      map (\<lambda>(i, nr). jump (BPF_JMP OR BPF_JEQ OR BPF_K) nr (n - int i) 0) (enumerate 0 block_nrs) @
      [stmt (BPF_RET OR BPF_K) SECCOMP_RET_ALLOW,
       stmt (BPF_RET OR BPF_K) (SECCOMP_RET_ERRNO OR EACCES),
       stmt (BPF_RET OR BPF_K) SECCOMP_RET_KILL_PROCESS])"

lemma instr_fields [simp]:
  "sf_code (stmt c k) = word_of_int c" "sf_k (stmt c k) = word_of_int k"
  "sf_code (jump c k t f) = word_of_int c" "sf_k (jump c k t f) = word_of_int k"
  "sf_jt (jump c k t f) = word_of_int t" "sf_jf (jump c k t f) = word_of_int f"
proof -
  have m: "(word_of_int (k AND 0xFFFFFFFF) :: 32 word) = word_of_int k" for k :: int
  proof -
    have "k AND 0xFFFFFFFF = take_bit 32 k" by (simp add: take_bit_eq_mask mask_eq_exp_minus_1)
    then show ?thesis by (simp add: word_of_int_eq_iff)
  qed
  show "sf_code (stmt c k) = word_of_int c" "sf_k (stmt c k) = word_of_int k"
    "sf_code (jump c k t f) = word_of_int c" "sf_k (jump c k t f) = word_of_int k"
    "sf_jt (jump c k t f) = word_of_int t" "sf_jf (jump c k t f) = word_of_int f"
    by (simp_all add: stmt_def jump_def m)
qed

section \<open>The machine\<close>

text \<open>
  What the kernel puts before the program, \<^verbatim>\<open>struct seccomp_data\<close>, as far as the program reads it.
  \<open>exec p d pc a\<close> is the verdict of the program \<open>p\<close> on \<open>d\<close> from instruction \<open>pc\<close> with \<open>a\<close> in
  the accumulator.
\<close>

record seccomp_data =
  sd_nr :: "32 word"
  sd_arch :: "32 word"

type_synonym bpf_exec = "sock_filter list \<Rightarrow> seccomp_data \<Rightarrow> nat \<Rightarrow> 32 word \<Rightarrow> 32 word"

definition loads_word :: "seccomp_data \<Rightarrow> 32 word \<Rightarrow> 32 word \<Rightarrow> bool" where
  "loads_word d k w \<longleftrightarrow> (k = 0 \<longrightarrow> w = sd_nr d) \<and> (k = 4 \<longrightarrow> w = sd_arch d)"

definition classic_bpf :: "bpf_exec \<Rightarrow> bool" where
  "classic_bpf exec \<longleftrightarrow>
     (\<forall>p d pc a. pc < length p \<longrightarrow>
        (sf_code (p ! pc) = 0x20 \<longrightarrow>
           (\<exists>w. loads_word d (sf_k (p ! pc)) w \<and> exec p d pc a = exec p d (Suc pc) w)) \<and>
        (sf_code (p ! pc) = 0x15 \<longrightarrow>
           exec p d pc a = exec p d (Suc pc + unat (if a = sf_k (p ! pc) then sf_jt (p ! pc) else sf_jf (p ! pc))) a) \<and>
        (sf_code (p ! pc) = 0x06 \<longrightarrow> exec p d pc a = sf_k (p ! pc)))"

lemma bpf_instr:
  assumes "classic_bpf exec" and "pc < length p"
  shows "sf_code (p ! pc) = 0x20 \<Longrightarrow> \<exists>w. loads_word d (sf_k (p ! pc)) w \<and> exec p d pc a = exec p d (Suc pc) w"
    and "sf_code (p ! pc) = 0x15 \<Longrightarrow>
      exec p d pc a = exec p d (Suc pc + unat (if a = sf_k (p ! pc) then sf_jt (p ! pc) else sf_jf (p ! pc))) a"
    and "sf_code (p ! pc) = 0x06 \<Longrightarrow> exec p d pc a = sf_k (p ! pc)"
  using assms unfolding classic_bpf_def by blast+

lemma codes [simp]:
  "BPF_LD OR BPF_W OR BPF_ABS = 0x20" "BPF_JMP OR BPF_JEQ OR BPF_K = 0x15" "BPF_RET OR BPF_K = 0x06"
  by (simp_all add: bpf_defs)

lemma bpf_load:
  assumes "classic_bpf exec" and "pc < length p" and "p ! pc = stmt 0x20 k"
  obtains w where "loads_word d (word_of_int k) w" "exec p d pc a = exec p d (Suc pc) w"
  using bpf_instr(1) [OF assms(1,2), of d a] that by (auto simp: assms(3))

lemma unat_byte: "0 \<le> i \<Longrightarrow> i < 256 \<Longrightarrow> unat (word_of_int i :: 8 word) = nat i"
  by (simp add: unat_eq_nat_uint uint_word_of_int)

lemma bpf_jump:
  assumes "classic_bpf exec" and "pc < length p" and "p ! pc = jump 0x15 k t f"
    and "0 \<le> t" and "t < 256" and "0 \<le> f" and "f < 256"
  shows "exec p d pc a = exec p d (Suc pc + nat (if a = word_of_int k then t else f)) a"
  using bpf_instr(2) [OF assms(1,2), of d a] unat_byte [OF assms(4,5)] unat_byte [OF assms(6,7)]
  by (simp add: assms(3))

lemma bpf_ret:
  assumes "classic_bpf exec" and "pc < length p" and "p ! pc = stmt 0x06 k"
  shows "exec p d pc a = word_of_int k"
  using bpf_instr(3) [OF assms(1,2), of d a] by (simp add: assms(3))

section \<open>The program\<close>

lemma program_instrs:
  fixes nrs :: "int list"
  defines "n \<equiv> length nrs"
  shows "length (build_program arch nrs) = n + 6"
    and "build_program arch nrs ! 0 = stmt 0x20 4" "build_program arch nrs ! Suc 0 = jump 0x15 arch 0 (int n + 3)"
    and "build_program arch nrs ! 2 = stmt 0x20 0"
    and "i < n \<Longrightarrow> build_program arch nrs ! (3 + i) = jump 0x15 (nrs ! i) (int n - int i) 0"
    and "build_program arch nrs ! (3 + n) = stmt 0x06 SECCOMP_RET_ALLOW"
    and "build_program arch nrs ! (4 + n) = stmt 0x06 (SECCOMP_RET_ERRNO OR EACCES)"
    and "build_program arch nrs ! (5 + n) = stmt 0x06 SECCOMP_RET_KILL_PROCESS"
  by (simp_all add: build_program_def n_def Let_def nth_append nth_Cons' nth_enumerate_eq OFF_NR_def OFF_ARCH_def)

definition verdict :: "int \<Rightarrow> int list \<Rightarrow> seccomp_data \<Rightarrow> 32 word" where
  "verdict audit_arch block_nrs d =
     word_of_int
       (if sd_arch d \<noteq> word_of_int audit_arch then SECCOMP_RET_KILL_PROCESS
        else if sd_nr d \<in> word_of_int ` set block_nrs then SECCOMP_RET_ERRNO OR EACCES
        else SECCOMP_RET_ALLOW)"

text \<open>The chain of comparisons, from the i-th on.\<close>

lemma compare_chain:
  assumes "classic_bpf exec" and "length nrs \<le> 252"
  shows "i \<le> length nrs \<Longrightarrow> exec (build_program arch nrs) d (3 + i) a =
    word_of_int (if a \<in> word_of_int ` set (drop i nrs) then SECCOMP_RET_ERRNO OR EACCES else SECCOMP_RET_ALLOW)"
proof (induction "length nrs - i" arbitrary: i)
  case 0
  then have "i = length nrs" by simp
  then show ?case using bpf_ret [OF assms(1) _ program_instrs(6) [of arch nrs]] by (simp add: program_instrs(1))
next
  case (Suc m)
  then have i: "i < length nrs" by simp
  have step: "exec (build_program arch nrs) d (3 + i) a = exec (build_program arch nrs) d
      (Suc (3 + i) + nat (if a = word_of_int (nrs ! i) then int (length nrs) - int i else 0)) a"
    using i assms(2) by (intro bpf_jump [OF assms(1) _ program_instrs(5) [OF i]]) (simp_all add: program_instrs(1))
  have drop: "set (drop i nrs) = insert (nrs ! i) (set (drop (Suc i) nrs))"
    using i by (simp add: Cons_nth_drop_Suc [symmetric])
  show ?case
  proof (cases "a = word_of_int (nrs ! i)")
    case True
    have "exec (build_program arch nrs) d (4 + length nrs) a = word_of_int (SECCOMP_RET_ERRNO OR EACCES)"
      using bpf_ret [OF assms(1) _ program_instrs(7) [of arch nrs]] by (simp add: program_instrs(1))
    moreover have "Suc (3 + i) + nat (if a = word_of_int (nrs ! i) then int (length nrs) - int i else 0) = 4 + length nrs"
      using i True by simp
    ultimately have "exec (build_program arch nrs) d (3 + i) a = word_of_int (SECCOMP_RET_ERRNO OR EACCES)"
      using step by metis
    moreover have "a \<in> word_of_int ` set (drop i nrs)" using drop True by simp
    ultimately show ?thesis by simp
  next
    case False
    have "exec (build_program arch nrs) d (3 + Suc i) a =
        word_of_int (if a \<in> word_of_int ` set (drop (Suc i) nrs) then SECCOMP_RET_ERRNO OR EACCES else SECCOMP_RET_ALLOW)"
      using Suc by (intro Suc.hyps(1)) simp_all
    then show ?thesis using step False drop by simp
  qed
qed

lemma filter_verdict:
  assumes "classic_bpf exec" and "length nrs \<le> 252"
  shows "exec (build_program arch nrs) d 0 a = verdict arch nrs d"
proof -
  let ?p = "build_program arch nrs"
  have len: "length ?p = length nrs + 6" by (rule program_instrs(1))
  obtain w where "loads_word d (word_of_int 4) w" "exec ?p d 0 a = exec ?p d (Suc 0) w"
    by (rule bpf_load [OF assms(1) _ program_instrs(2) [of arch nrs], where d = d and a = a]) (simp_all add: len)
  then have 0: "exec ?p d 0 a = exec ?p d (Suc 0) (sd_arch d)" by (simp add: loads_word_def)
  have 1: "exec ?p d (Suc 0) (sd_arch d) =
      exec ?p d (Suc (Suc 0) + nat (if sd_arch d = word_of_int arch then 0 else int (length nrs) + 3)) (sd_arch d)"
    using assms(2) by (intro bpf_jump [OF assms(1) _ program_instrs(3)]) (simp_all add: len)
  show ?thesis
  proof (cases "sd_arch d = word_of_int arch")
    case True
    obtain w where "loads_word d (word_of_int 0) w" "exec ?p d 2 (sd_arch d) = exec ?p d (Suc 2) w"
      by (rule bpf_load [OF assms(1) _ program_instrs(4) [of arch nrs], where d = d and a = "sd_arch d"]) (simp_all add: len)
    then have 2: "exec ?p d 2 (sd_arch d) = exec ?p d (3 + 0) (sd_nr d)" by (simp add: loads_word_def)
    have "Suc (Suc 0) + nat (if sd_arch d = word_of_int arch then 0 else int (length nrs) + 3) = 2" using True by simp
    then have "exec ?p d 0 a = exec ?p d (3 + 0) (sd_nr d)" using 0 1 2 by metis
    also have "\<dots> = verdict arch nrs d"
      using compare_chain [OF assms, of 0 arch d "sd_nr d"] True by (simp add: verdict_def)
    finally show ?thesis .
  next
    case False
    have "exec ?p d (5 + length nrs) (sd_arch d) = word_of_int SECCOMP_RET_KILL_PROCESS"
      by (intro bpf_ret [OF assms(1) _ program_instrs(8)]) (simp add: len)
    moreover have "Suc (Suc 0) + nat (if sd_arch d = word_of_int arch then 0 else int (length nrs) + 3) = 5 + length nrs"
      using False by simp
    ultimately have "exec ?p d 0 a = word_of_int SECCOMP_RET_KILL_PROCESS" using 0 1 by metis
    then show ?thesis using False by (simp add: verdict_def)
  qed
qed

section \<open>Properties\<close>

lemma ARCH_short: "map_of ARCH machine = Some (audit, nrs) \<Longrightarrow> length nrs \<le> 252"
  by (auto simp: ARCH_def split: if_splits)

text \<open>
  C18. What the filter lets through: on either architecture, whatever system call the chef makes, a
  call of another architecture's table kills it, a call with the number of \<^verbatim>\<open>socket\<close>, \<^verbatim>\<open>connect\<close> or
  \<^verbatim>\<open>bind\<close> fails with \<^verbatim>\<open>EACCES\<close>, and every other is allowed. The jumps of the program, eight bits
  wide, reach their targets. A machine that runs the three kinds of instruction as documented is assumed.
\<close>

theorem network_calls_are_denied:
  assumes "classic_bpf exec" and "map_of ARCH machine = Some (audit, nrs)"
  shows "exec (build_program audit nrs) d 0 a =
    (if sd_arch d \<noteq> word_of_int audit then 0x80000000
     else if sd_nr d \<in> word_of_int ` set nrs then 0x0005000D else 0x7FFF0000)"
  using filter_verdict [OF assms(1) ARCH_short [OF assms(2)]] by (simp add: verdict_def verdict_defs)

text \<open>A machine for the witness: jumps go forward only, so that every program ends.\<close>

function bpf_run :: bpf_exec where
  "bpf_run p d pc a =
     (if length p \<le> pc then 0
      else let i = p ! pc in
        if sf_code i = 0x20 then bpf_run p d (Suc pc) (if sf_k i = 4 then sd_arch d else sd_nr d)
        else if sf_code i = 0x15 then bpf_run p d (Suc pc + unat (if a = sf_k i then sf_jt i else sf_jf i)) a
        else if sf_code i = 0x06 then sf_k i else 0)"
  by pat_completeness auto
termination by (relation "measure (\<lambda>(p, d, pc, a). length p - pc)") auto

declare bpf_run.simps [simp del]

lemma classic_bpf_run: "classic_bpf bpf_run"
  unfolding classic_bpf_def loads_word_def
proof (intro allI impI conjI)
  fix p :: "sock_filter list" and d :: seccomp_data and pc :: nat and a :: "32 word"
  assume l: "pc < length p"
  show "\<exists>w. ((sf_k (p ! pc) = 0 \<longrightarrow> w = sd_nr d) \<and> (sf_k (p ! pc) = 4 \<longrightarrow> w = sd_arch d)) \<and>
      bpf_run p d pc a = bpf_run p d (Suc pc) w" if "sf_code (p ! pc) = 0x20"
    using l that by (subst bpf_run.simps) (intro exI [of _ "if sf_k (p ! pc) = 4 then sd_arch d else sd_nr d"], simp add: Let_def)
  show "bpf_run p d pc a = bpf_run p d (Suc pc + unat (if a = sf_k (p ! pc) then sf_jt (p ! pc) else sf_jf (p ! pc))) a"
    if "sf_code (p ! pc) = 0x15" using l that by (subst bpf_run.simps) (simp add: Let_def)
  show "bpf_run p d pc a = sf_k (p ! pc)" if "sf_code (p ! pc) = 0x06"
    using l that by (subst bpf_run.simps) (simp add: Let_def)
qed

theorem network_calls_are_denied_witness:
  "bpf_run (build_program 0xC000003E [41, 42, 49]) \<lparr>sd_nr = 42, sd_arch = 0xC000003E\<rparr> 0 0 = 0x0005000D \<and>
   bpf_run (build_program 0xC000003E [41, 42, 49]) \<lparr>sd_nr = 0, sd_arch = 0xC000003E\<rparr> 0 0 = 0x7FFF0000"
  using network_calls_are_denied [OF classic_bpf_run, of "''x86_64''" "0xC000003E" "[41, 42, 49]"]
  by (simp add: ARCH_def)

text \<open>
  A defect: on x86_64 the same network calls pass under their second numbers. A kernel that
  has the x32 table, which offers \<^verbatim>\<open>socket\<close>, \<^verbatim>\<open>connect\<close> and \<^verbatim>\<open>bind\<close> as well, tells it from the native
  one by bit 30 of the number alone, with the same architecture word; the filter compares whole
  numbers, so that it allows all three where the module promises \<^verbatim>\<open>EACCES\<close>.
\<close>

theorem x32_network_calls_pass:
  assumes "classic_bpf exec" and "map_of ARCH ''x86_64'' = Some (audit, nrs)" and "nr \<in> set nrs"
    and "sd_arch d = word_of_int audit" and "sd_nr d = word_of_int (nr OR 0x40000000)"
  shows "exec (build_program audit nrs) d 0 a = 0x7FFF0000"
proof -
  have "audit = 0xC000003E" "nrs = [41, 42, 49]" using assms(2) by (simp_all add: ARCH_def)
  moreover have "length nrs \<le> 252" using assms(2) by (rule ARCH_short)
  ultimately show ?thesis using filter_verdict [OF assms(1)] assms(3-5) by (auto simp: verdict_def verdict_defs)
qed

theorem x32_network_calls_pass_witness:
  "bpf_run (build_program 0xC000003E [41, 42, 49]) \<lparr>sd_nr = 0x40000029, sd_arch = 0xC000003E\<rparr> 0 0 = 0x7FFF0000"
  by (rule x32_network_calls_pass [OF classic_bpf_run, of _ _ 41]) (simp_all add: ARCH_def)

end
