(* ===== verification/Linux_Sandbox.thy ===== *)
theory Linux_Sandbox
  imports Seccomp
begin

text \<open>
  \<^verbatim>\<open>chef/linux_sandbox.py\<close>: the file system half (Landlock) and the backend that starts the chef
  behind both. The kernel and the interpreter's installation are the record \<open>linux\<close>: what each call
  answers. What a process may do is its \<open>process\<close> record; the chef that runs in a process so confined
  is a parameter, a \<open>sandbox_run\<close> for each \<open>process\<close>. The trace of the file system is what the chef
  touches, so that the look-ups of its parent are not in it.
\<close>

section \<open>Access rights\<close>

definition FS_EXECUTE :: "64 word" where "FS_EXECUTE = push_bit 0 1"
definition FS_WRITE_FILE :: "64 word" where "FS_WRITE_FILE = push_bit 1 1"
definition FS_READ_FILE :: "64 word" where "FS_READ_FILE = push_bit 2 1"
definition FS_READ_DIR :: "64 word" where "FS_READ_DIR = push_bit 3 1"
definition FS_REMOVE_DIR :: "64 word" where "FS_REMOVE_DIR = push_bit 4 1"
definition FS_REMOVE_FILE :: "64 word" where "FS_REMOVE_FILE = push_bit 5 1"
definition FS_MAKE_CHAR :: "64 word" where "FS_MAKE_CHAR = push_bit 6 1"
definition FS_MAKE_DIR :: "64 word" where "FS_MAKE_DIR = push_bit 7 1"
definition FS_MAKE_REG :: "64 word" where "FS_MAKE_REG = push_bit 8 1"
definition FS_MAKE_SOCK :: "64 word" where "FS_MAKE_SOCK = push_bit 9 1"
definition FS_MAKE_FIFO :: "64 word" where "FS_MAKE_FIFO = push_bit 10 1"
definition FS_MAKE_BLOCK :: "64 word" where "FS_MAKE_BLOCK = push_bit 11 1"
definition FS_MAKE_SYM :: "64 word" where "FS_MAKE_SYM = push_bit 12 1"
definition FS_REFER :: "64 word" where "FS_REFER = push_bit 13 1"
definition FS_TRUNCATE :: "64 word" where "FS_TRUNCATE = push_bit 14 1"
definition FS_IOCTL_DEV :: "64 word" where "FS_IOCTL_DEV = push_bit 15 1"

lemmas fs_defs = FS_EXECUTE_def FS_WRITE_FILE_def FS_READ_FILE_def FS_READ_DIR_def FS_REMOVE_DIR_def
  FS_REMOVE_FILE_def FS_MAKE_CHAR_def FS_MAKE_DIR_def FS_MAKE_REG_def FS_MAKE_SOCK_def FS_MAKE_FIFO_def
  FS_MAKE_BLOCK_def FS_MAKE_SYM_def FS_REFER_def FS_TRUNCATE_def FS_IOCTL_DEV_def

definition handled_access :: "int \<Rightarrow> 64 word" where
  "handled_access abi =
     (let h = FS_EXECUTE OR FS_WRITE_FILE OR FS_READ_FILE OR FS_READ_DIR OR FS_REMOVE_DIR OR FS_REMOVE_FILE OR
              FS_MAKE_CHAR OR FS_MAKE_DIR OR FS_MAKE_REG OR FS_MAKE_SOCK OR FS_MAKE_FIFO OR FS_MAKE_BLOCK OR
              FS_MAKE_SYM;
          h = (if abi \<ge> 2 then h OR FS_REFER else h);
          h = (if abi \<ge> 3 then h OR FS_TRUNCATE else h);
          h = (if abi \<ge> 5 then h OR FS_IOCTL_DEV else h)
      in h)"

definition read_exec_access :: "64 word \<Rightarrow> 64 word" where
  "read_exec_access handled = (FS_READ_FILE OR FS_READ_DIR OR FS_EXECUTE) AND handled"

definition read_only_access :: "64 word \<Rightarrow> 64 word" where
  "read_only_access handled = (FS_READ_FILE OR FS_READ_DIR) AND handled"

definition write_all_access :: "64 word \<Rightarrow> 64 word" where
  "write_all_access handled =
     (FS_READ_FILE OR FS_WRITE_FILE OR FS_READ_DIR OR FS_REMOVE_FILE OR FS_REMOVE_DIR OR FS_MAKE_REG OR
      FS_MAKE_DIR OR FS_MAKE_SYM OR FS_TRUNCATE) AND handled"

section \<open>The kernel and the process\<close>

record ruleset =
  rs_handled :: "64 word"
  rs_rules :: "(string \<times> 64 word) list"

record process =
  pr_no_new_privs :: bool
  pr_domain :: "ruleset option"
  pr_filter :: "sock_filter list option"

text \<open>
  What the calls answer. The version query gives \<open>None\<close> where it raises; \<open>lx_no_new_privs\<close> and
  \<open>lx_set_seccomp\<close> say whether \<^verbatim>\<open>prctl\<close> returns zero, \<open>lx_create\<close> whether the descriptor is not negative,
  \<open>lx_add_rule\<close> and \<open>lx_restrict_self\<close> whether the call returns zero, \<open>lx_open\<close> whether a path can be
  opened.
\<close>

record linux =
  lx_platform :: string
  lx_machine :: string
  lx_landlock_version :: "int option"
  lx_create :: "64 word \<Rightarrow> bool"
  lx_open :: "string \<Rightarrow> bool"
  lx_add_rule :: "string \<Rightarrow> 64 word \<Rightarrow> bool"
  lx_no_new_privs :: "process \<Rightarrow> bool"
  lx_restrict_self :: "process \<Rightarrow> ruleset \<Rightarrow> bool"
  lx_set_seccomp :: "process \<Rightarrow> sock_filter list \<Rightarrow> bool"
  lx_prefixes :: "string list"
  lx_executable :: string
  lx_sys_path :: "string list"

definition new_process :: process where
  "new_process = \<lparr>pr_no_new_privs = False, pr_domain = None, pr_filter = None\<rparr>"

text \<open>\<^verbatim>\<open>prctl(PR_SET_NO_NEW_PRIVS, 1)\<close>, and whether it returned zero.\<close>

definition set_no_new_privs :: "linux \<Rightarrow> process \<Rightarrow> bool \<times> process" where
  "set_no_new_privs X p = (if lx_no_new_privs X p then (True, p\<lparr>pr_no_new_privs := True\<rparr>) else (False, p))"

definition install_network_seccomp :: "linux \<Rightarrow> process \<Rightarrow> exn option \<times> process" where
  "install_network_seccomp X p =
     (case map_of ARCH (lx_machine X) of
        None \<Rightarrow> (Some KeyError, p)
      | Some (audit_arch, nrs) \<Rightarrow>
          (let prog = build_program audit_arch nrs in
           case set_no_new_privs X p of
             (False, p1) \<Rightarrow> (Some OSError, p1)
           | (True, p1) \<Rightarrow>
               if lx_set_seccomp X p1 prog then (None, p1\<lparr>pr_filter := Some prog\<rparr>) else (Some OSError, p1)))"

definition landlock_abi :: "linux \<Rightarrow> int" where
  "landlock_abi X =
     (if \<not> startswith (lx_platform X) ''linux'' then 0
      else case lx_landlock_version X of None \<Rightarrow> 0 | Some v \<Rightarrow> if v > 0 then v else 0)"

section \<open>The allow-list\<close>

text \<open>\<^verbatim>\<open>os.path.dirname\<close>, \<^verbatim>\<open>os.path.exists\<close> and \<^verbatim>\<open>os.path.isdir\<close>.\<close>

definition dirname :: "string \<Rightarrow> string" where
  "dirname p =
     (let head = rev (dropWhile (\<lambda>c. c \<noteq> CHR ''/'') (rev p)) in
      if list_all (\<lambda>c. c = CHR ''/'') head then head else rev (dropWhile (\<lambda>c. c = CHR ''/'') (rev head)))"

definition path_exists :: "fsys \<Rightarrow> string \<Rightarrow> bool" where
  "path_exists fs p \<longleftrightarrow> files fs p \<noteq> None \<or> p \<in> dirs fs"

definition is_dir :: "fsys \<Rightarrow> string \<Rightarrow> bool" where
  "is_dir fs p \<longleftrightarrow> p \<in> dirs fs"

text \<open>The paths of a list that are directories, each once, in order.\<close>

fun existing_dirs :: "os \<Rightarrow> fsys \<Rightarrow> string set \<Rightarrow> string list \<Rightarrow> string list" where
  "existing_dirs W fs seen [] = []"
| "existing_dirs W fs seen (p # ps) =
     (let ap = abspath W p in
      if ap \<notin> seen \<and> is_dir fs ap then ap # existing_dirs W fs (insert ap seen) ps
      else existing_dirs W fs seen ps)"

definition python_read_roots :: "os \<Rightarrow> linux \<Rightarrow> fsys \<Rightarrow> string list" where
  "python_read_roots W X fs =
     existing_dirs W fs {}
       ([''/usr'', ''/lib'', ''/lib64'', ''/lib32'', ''/libx32'', ''/bin'', ''/sbin'',
         ''/etc'', ''/opt'', ''/proc'', ''/dev'', ''/sys''] @ lx_prefixes X @
        [dirname (realpath W (lx_executable X))] @ filter (\<lambda>p. p \<noteq> []) (lx_sys_path X))"

text \<open>One rule, and the loops over the roots: the rules so far, or the exception.\<close>

definition add_rule :: "linux \<Rightarrow> fsys \<Rightarrow> string \<Rightarrow> 64 word \<Rightarrow> ruleset \<Rightarrow> exn + ruleset" where
  "add_rule X fs path access rs =
     (if path = [] \<or> \<not> path_exists fs path then Inr rs
      else if \<not> lx_open X path then Inl OSError
      else if \<not> lx_add_rule X path access then Inl OSError
      else Inr (rs\<lparr>rs_rules := rs_rules rs @ [(path, access)]\<rparr>))"

fun add_unseen ::
  "os \<Rightarrow> linux \<Rightarrow> fsys \<Rightarrow> 64 word \<Rightarrow> string list \<Rightarrow> string set \<times> ruleset \<Rightarrow> exn + string set \<times> ruleset" where
  "add_unseen W X fs access [] st = Inr st"
| "add_unseen W X fs access (p # ps) st =
     (case st of (seen, rs) \<Rightarrow>
        let ap = abspath W p in
        if ap \<in> seen then add_unseen W X fs access ps (seen, rs)
        else bind_res (add_rule X fs ap access rs) (\<lambda>rs1. add_unseen W X fs access ps (insert ap seen, rs1)))"

fun add_all :: "os \<Rightarrow> linux \<Rightarrow> fsys \<Rightarrow> 64 word \<Rightarrow> string list \<Rightarrow> ruleset \<Rightarrow> exn + ruleset" where
  "add_all W X fs access [] rs = Inr rs"
| "add_all W X fs access (p # ps) rs =
     bind_res (add_rule X fs (abspath W p) access rs) (\<lambda>rs1. add_all W X fs access ps rs1)"

definition build_rules ::
  "os \<Rightarrow> linux \<Rightarrow> fsys \<Rightarrow> 64 word \<Rightarrow> string list \<Rightarrow> string list \<Rightarrow> string list \<Rightarrow> exn + ruleset" where
  "build_rules W X fs handled read_exec_roots read_roots write_roots =
     bind_res (add_unseen W X fs (read_exec_access handled) read_exec_roots ({}, \<lparr>rs_handled = handled, rs_rules = []\<rparr>))
       (\<lambda>st1. bind_res (add_unseen W X fs (read_only_access handled) read_roots st1)
         (\<lambda>st2. add_all W X fs (write_all_access handled) write_roots (snd st2)))"

definition apply_landlock ::
  "os \<Rightarrow> linux \<Rightarrow> fsys \<Rightarrow> string list \<Rightarrow> string list \<Rightarrow> string list \<Rightarrow> process \<Rightarrow> exn option \<times> process" where
  "apply_landlock W X fs read_exec_roots read_roots write_roots p =
     (let abi = landlock_abi X; handled = handled_access abi in
      if abi < 1 then (Some OSError, p)
      else if \<not> lx_create X handled then (Some OSError, p)
      else (case build_rules W X fs handled read_exec_roots read_roots write_roots of
              Inl e \<Rightarrow> (Some e, p)
            | Inr rs \<Rightarrow>
                (let p1 = snd (set_no_new_privs X p) in
                 if lx_restrict_self X p1 rs then (None, p1\<lparr>pr_domain := Some rs\<rparr>) else (Some OSError, p1))))"

section \<open>The backend\<close>

definition linux_available :: "linux \<Rightarrow> bool" where
  "linux_available X \<longleftrightarrow>
     startswith (lx_platform X) ''linux'' \<and> lx_machine X \<in> set (keys ARCH) \<and> landlock_abi X \<ge> 1"

definition confine :: "os \<Rightarrow> linux \<Rightarrow> fsys \<Rightarrow> sandbox_spec \<Rightarrow> process \<Rightarrow> exn option \<times> process" where
  "confine W X fs spec p =
     (case apply_landlock W X fs (python_read_roots W X fs)
         [sp_fixtures_root spec, dirname (abspath W (sp_pubkey_path spec)), dirname (abspath W (sp_chef_main spec))]
         [sp_out_dir spec, sp_workspace spec] p of
        (Some e, p1) \<Rightarrow> (Some e, p1)
      | (None, p1) \<Rightarrow> install_network_seccomp X p1)"

definition linux_run :: "os \<Rightarrow> linux \<Rightarrow> (process \<Rightarrow> sandbox_run) \<Rightarrow> sandbox_run" where
  "linux_run W X chef spec fs =
     (if \<not> linux_available X then (Inl RuntimeError, fs)
      else (case makedirs (sp_out_dir spec) fs of
              (Inl e, fs1) \<Rightarrow> (Inl e, fs1)
            | (Inr _, fs1) \<Rightarrow>
                (case confine W X fs1 spec new_process of
                   (Some e, _) \<Rightarrow> (Inr 126, fs1)
                 | (None, p) \<Rightarrow>
                     (case chef p spec fs1 of
                        (Inl e, fs2) \<Rightarrow> (Inr 126, fs2)
                      | (Inr n, fs2) \<Rightarrow> (Inr n, fs2)))))"

definition linux_sandbox :: "os \<Rightarrow> linux \<Rightarrow> (process \<Rightarrow> sandbox_run) \<Rightarrow> backend" where
  "linux_sandbox W X chef = \<lparr>b_run = linux_run W X chef, b_containment_class = Some ''seccomp+landlock''\<rparr>"

section \<open>What a confined process may do\<close>

definition basic_access :: "64 word" where
  "basic_access = FS_EXECUTE OR FS_WRITE_FILE OR FS_READ_FILE OR FS_READ_DIR OR FS_REMOVE_DIR OR FS_REMOVE_FILE OR
     FS_MAKE_CHAR OR FS_MAKE_DIR OR FS_MAKE_REG OR FS_MAKE_SOCK OR FS_MAKE_FIFO OR FS_MAKE_BLOCK OR FS_MAKE_SYM"

text \<open>Every right that changes the file system.\<close>

definition write_access :: "64 word" where
  "write_access = FS_WRITE_FILE OR FS_REMOVE_DIR OR FS_REMOVE_FILE OR FS_MAKE_CHAR OR FS_MAKE_DIR OR FS_MAKE_REG OR
     FS_MAKE_SOCK OR FS_MAKE_FIFO OR FS_MAKE_BLOCK OR FS_MAKE_SYM OR FS_REFER OR FS_TRUNCATE OR FS_IOCTL_DEV"

lemma and_mask_out: "(a :: 64 word) AND w = 0 \<Longrightarrow> (a AND h) AND w = 0"
  by (metis (no_types, lifting) and.assoc and.commute and.left_commute and_zero_eq)

lemma read_rights [simp]: "read_exec_access h AND write_access = 0" "read_only_access h AND write_access = 0"
  unfolding read_exec_access_def read_only_access_def
  by (rule and_mask_out, simp add: fs_defs write_access_def)+

lemma handled_basic: "handled_access abi AND basic_access = basic_access"
  by (simp add: handled_access_def basic_access_def fs_defs Let_def)

definition rules_confine :: "64 word \<Rightarrow> string set \<Rightarrow> ruleset \<Rightarrow> bool" where
  "rules_confine handled roots rs \<longleftrightarrow> rs_handled rs = handled \<and>
     (\<forall>(q, access) \<in> set (rs_rules rs). access AND write_access \<noteq> 0 \<longrightarrow> q \<in> roots)"

lemma add_rule_confines:
  assumes "add_rule X fs q access rs = Inr rs'" and "rules_confine handled roots rs"
    and "access AND write_access \<noteq> 0 \<longrightarrow> q \<in> roots"
  shows "rules_confine handled roots rs'"
  using assms by (auto simp: add_rule_def rules_confine_def split: if_splits)

lemma add_unseen_confines:
  "add_unseen W X fs access ps (seen, rs) = Inr (seen', rs') \<Longrightarrow> access AND write_access = 0 \<Longrightarrow>
    rules_confine handled roots rs \<Longrightarrow> rules_confine handled roots rs'"
  by (induction ps arbitrary: seen rs) (auto simp: Let_def bind_res_Inr split: if_splits dest: add_rule_confines)

lemma add_all_confines:
  "add_all W X fs access ps rs = Inr rs' \<Longrightarrow> abspath W ` set ps \<subseteq> roots \<Longrightarrow> rules_confine handled roots rs \<Longrightarrow>
    rules_confine handled roots rs'"
  by (induction ps arbitrary: rs) (auto simp: bind_res_Inr dest: add_rule_confines)

lemma build_rules_confine:
  assumes "build_rules W X fs handled read_exec_roots read_roots write_roots = Inr rs"
  shows "rules_confine handled (abspath W ` set write_roots) rs"
proof -
  obtain s1 r1 s2 r2 where
    "add_unseen W X fs (read_exec_access handled) read_exec_roots ({}, \<lparr>rs_handled = handled, rs_rules = []\<rparr>) = Inr (s1, r1)"
    "add_unseen W X fs (read_only_access handled) read_roots (s1, r1) = Inr (s2, r2)"
    "add_all W X fs (write_all_access handled) write_roots r2 = Inr rs"
    using assms by (auto simp: build_rules_def bind_res_Inr)
  moreover have "rules_confine handled (abspath W ` set write_roots) \<lparr>rs_handled = handled, rs_rules = []\<rparr>"
    by (simp add: rules_confine_def)
  ultimately show ?thesis by (meson add_unseen_confines add_all_confines read_rights order_refl)
qed

text \<open>Both confinements are in force, with nothing to write but below the two directories.\<close>

definition confined :: "os \<Rightarrow> linux \<Rightarrow> sandbox_spec \<Rightarrow> process \<Rightarrow> bool" where
  "confined W X spec p \<longleftrightarrow> pr_no_new_privs p \<and>
     (\<exists>audit nrs. map_of ARCH (lx_machine X) = Some (audit, nrs) \<and> pr_filter p = Some (build_program audit nrs)) \<and>
     (\<exists>rs. pr_domain p = Some rs \<and>
        rules_confine (handled_access (landlock_abi X)) {abspath W (sp_out_dir spec), abspath W (sp_workspace spec)} rs)"

lemma confine_confines:
  assumes "confine W X fs spec p0 = (None, p)"
  shows "confined W X spec p"
proof -
  obtain p1 where l: "apply_landlock W X fs (python_read_roots W X fs)
      [sp_fixtures_root spec, dirname (abspath W (sp_pubkey_path spec)), dirname (abspath W (sp_chef_main spec))]
      [sp_out_dir spec, sp_workspace spec] p0 = (None, p1)"
    and i: "install_network_seccomp X p1 = (None, p)"
    using assms by (auto simp: confine_def split: prod.splits option.splits)
  obtain rs where "pr_domain p1 = Some rs"
    "rules_confine (handled_access (landlock_abi X)) {abspath W (sp_out_dir spec), abspath W (sp_workspace spec)} rs"
    using l by (auto simp: apply_landlock_def Let_def split: if_splits sum.splits dest: build_rules_confine)
  moreover have "pr_domain p = pr_domain p1" "pr_no_new_privs p"
    "\<exists>audit nrs. map_of ARCH (lx_machine X) = Some (audit, nrs) \<and> pr_filter p = Some (build_program audit nrs)"
    using i by (auto simp: install_network_seccomp_def set_no_new_privs_def Let_def split: option.splits prod.splits if_splits)
  ultimately show ?thesis by (auto simp: confined_def)
qed

lemma linux_run_cases:
  assumes "linux_run W X chef spec fs = (r, fs')"
  shows "(\<exists>p fs1 q. confined W X spec p \<and> files fs1 = files fs \<and> chef p spec fs1 = (q, fs') \<and>
      r = Inr (case q of Inl _ \<Rightarrow> 126 | Inr n \<Rightarrow> n)) \<or>
    files fs' = files fs \<and> r \<in> {Inl RuntimeError, Inl ValueError, Inr 126}"
proof (cases "linux_available X \<and> CHR 0x00 \<notin> set (sp_out_dir spec)")
  case True
  obtain fs1 where fs1: "makedirs (sp_out_dir spec) fs = (Inr (), fs1)" "files fs1 = files fs"
    using True by (simp add: makedirs_def)
  obtain x p where c: "confine W X fs1 spec new_process = (x, p)" by fastforce
  show ?thesis
  proof (cases x)
    case None
    obtain q fs2 where q: "chef p spec fs1 = (q, fs2)" by fastforce
    then have "r = Inr (case q of Inl _ \<Rightarrow> 126 | Inr n \<Rightarrow> n)" "fs' = fs2"
      using assms True fs1 c None by (auto simp: linux_run_def split: sum.splits)
    then show ?thesis using q fs1(2) c None confine_confines by blast
  qed (use assms True fs1 c in \<open>auto simp: linux_run_def\<close>)
qed (use assms in \<open>auto simp: linux_run_def makedirs_def split: if_splits\<close>)

section \<open>The contract of a backend\<close>

text \<open>A chef that keeps the contract of a sandbox in whatever process it runs keeps it behind this one.\<close>

locale confined_chef =
  fixes chef :: "process \<Rightarrow> sandbox_run"
  assumes chef_sandbox: "sandbox (chef p)"
begin

lemma linux_sandbox_contract: "sandbox (linux_run W X chef)"
proof unfold_locales
  fix spec fs r fs' q
  assume run: "linux_run W X chef spec fs = (r, fs')" and w: "\<not> below (sp_workspace spec) q"
  show "files fs' q = files fs q" if "q \<noteq> path_join (sp_out_dir spec) OUTPUT_FILENAME"
    using linux_run_cases [OF run] contained.writes_output_only [OF sandbox.axioms(1) [OF chef_sandbox]] that w by metis
  show "files fs' q = files fs q" if "r \<noteq> Inr 0"
    using linux_run_cases [OF run] sandbox.failure_writes_nothing [OF chef_sandbox] that w
    by (metis (no_types, lifting) Inr_inject sum.case(2) sum.distinct(1) sum.exhaust)
qed

end

sublocale confined_chef \<subseteq> linux: sandbox "linux_run W X chef" for W X
  by (rule linux_sandbox_contract)

interpretation linux_chef: confined_chef "\<lambda>p. subprocess_run C W" for C W
  by unfold_locales

lemma linux_always_starts:
  "linux_available X \<Longrightarrow> CHR 0x00 \<notin> set (sp_out_dir spec) \<Longrightarrow> \<exists>n fs'. linux_run W X chef spec fs = (Inr n, fs')"
  by (auto simp: linux_run_def makedirs_def split: prod.split option.split sum.split)

text \<open>What a run of the chef, on whatever backend, says of the backend's run.\<close>

lemma run_chef_Inr:
  assumes "run_chef C sk W K uuid ws t meta fs ledger = (Inr cr, fs', ledger')"
  obtains spec fs1 fs2 rc where "b_run (kn_backend K) spec fs1 = (Inr rc, fs2)" "files fs1 = files fs"
    "sp_out_dir spec = cr_out_dir cr" "sp_workspace spec = ws"
    "cr_draft_bytes cr = (if rc = 0 then files fs2 (cr_draft_path cr) else None)"
    "r_containment (cr_receipt cr) = JStr (containment K)"
    "r_status (cr_receipt cr) = JStr (if cr_draft_bytes cr = None then ''REJECTED'' else ''FULFILLED'')"
proof -
  obtain out_dir fs1 dpath fs2 rc fs3 where
    w: "window_dir W (t_order_id t) (kn_window_root K) (mkdtemp ws fs) = (Inr out_dir, fs1)"
    and d: "draft_path W (t_order_id t) (kn_window_root K) fs1 = (Inr dpath, fs2)"
    and b: "b_run (kn_backend K) \<lparr>sp_chef_main = kn_chef_main K, sp_pubkey_path = kn_public_key_pem_path K,
        sp_fixtures_root = kn_fixtures_root K, sp_out_dir = out_dir, sp_workspace = ws, sp_stdin = payload t\<rparr> fs2 =
      (Inr rc, fs3)"
    and s: "settle C sk K uuid ws t meta out_dir dpath rc fs3 ledger = (Inr cr, ledger')"
    using assms by (auto simp: run_chef_def Let_def split: prod.splits sum.splits)
  have "files fs2 = files fs"
    using w d by (auto simp: window_dir_def draft_path_def makedirs_def mkdtemp_def Let_def split: if_splits)
  moreover have "cr_out_dir cr = out_dir" "cr_draft_path cr = dpath"
    "cr_draft_bytes cr = (if rc = 0 then files fs3 dpath else None)"
    "r_containment (cr_receipt cr) = JStr (containment K)"
    "r_status (cr_receipt cr) = JStr (if cr_draft_bytes cr = None then ''REJECTED'' else ''FULFILLED'')"
    using s by (auto simp: settle_def Let_def fulfilled_entry_def failed_entry_def jstr_opt_def
        split: sum.splits option.splits if_splits dest!: ledger_append_receipt)
  ultimately show thesis using that [OF b] by simp
qed

section \<open>Properties\<close>


definition example_linux :: linux where
  "example_linux =
     \<lparr>lx_platform = ''linux'', lx_machine = ''x86_64'', lx_landlock_version = Some 4, lx_create = (\<lambda>h. True),
      lx_open = (\<lambda>p. True), lx_add_rule = (\<lambda>p a. True), lx_no_new_privs = (\<lambda>p. True),
      lx_restrict_self = (\<lambda>p rs. pr_no_new_privs p), lx_set_seccomp = (\<lambda>p prog. pr_no_new_privs p),
      lx_prefixes = [''/usr''], lx_executable = ''/usr/bin/python3'', lx_sys_path = []\<rparr>"

lemma example_linux_available: "linux_available example_linux"
  by (simp add: linux_available_def example_linux_def landlock_abi_def startswith_def ARCH_def keys_def)


end
