(* ===== verification/Backends.thy ===== *)
theory Backends
  imports Linux_Sandbox
begin

text \<open>
  The other backends that start a command of the system: \<^verbatim>\<open>ContainerSandbox\<close> and \<^verbatim>\<open>AppleVmSandbox\<close> of
  \<^verbatim>\<open>chef/sandbox.py\<close>, \<^verbatim>\<open>chef/mac_sandbox.py\<close> and the command of \<^verbatim>\<open>chef/microvm_sandbox.py\<close>. The commands
  and the Seatbelt profile are built here; what a started command does is a parameter. Whether a binary
  is on the path, and the platform, are fields of \<open>host\<close>. The rest of the
  micro VM, its disk and its run, is in theory \<^verbatim>\<open>Microvm\<close>.
\<close>

record host =
  ho_platform :: string
  ho_which :: "string \<Rightarrow> bool"
  ho_executable :: string

text \<open>A command with what is on its standard input: an exit code, or an exception that it does not start.\<close>

type_synonym launcher = "string list \<Rightarrow> string \<Rightarrow> fsys \<Rightarrow> (exn + int) \<times> fsys"

section \<open>Containers\<close>

definition GUEST_CHEF :: string where "GUEST_CHEF = ''/chef/chef_main.py''"
definition GUEST_PUBKEY :: string where "GUEST_PUBKEY = ''/chef/pubkey.pem''"
definition GUEST_FIXTURES :: string where "GUEST_FIXTURES = ''/kitchen''"
definition GUEST_OUT :: string where "GUEST_OUT = ''/window''"
definition VM_WORK :: string where "VM_WORK = ''/work''"

record container =
  ct_runtime :: "string option"
  ct_image :: string
  ct_docker :: string
  ct_pids_limit :: int
  ct_memory :: string
  ct_user :: string

definition no_runtime :: "container \<Rightarrow> bool" where
  "no_runtime K \<longleftrightarrow> ct_runtime K = None \<or> ct_runtime K = Some []"

definition container_class :: "container \<Rightarrow> string" where
  "container_class K = (if no_runtime K then ''container'' else ''container+'' @ the (ct_runtime K))"

definition container_available :: "host \<Rightarrow> container \<Rightarrow> bool" where
  "container_available H K \<longleftrightarrow> ho_which H (ct_docker K)"

definition read_only_mount :: "string \<Rightarrow> string \<Rightarrow> string" where
  "read_only_mount source target = source @ '':'' @ target @ '':ro''"

definition read_write_mount :: "string \<Rightarrow> string \<Rightarrow> string" where
  "read_write_mount source target = source @ '':'' @ target"

definition container_command :: "container \<Rightarrow> sandbox_spec \<Rightarrow> string list" where
  "container_command K spec =
     [ct_docker K, ''run'', ''--rm'', ''-i''] @
     [''--network'', ''none''] @
     [''--cap-drop'', ''ALL''] @
     [''--security-opt'', ''no-new-privileges''] @
     [''--read-only''] @
     [''--pids-limit'', string_of_int (ct_pids_limit K)] @
     [''--memory'', ct_memory K] @
     [''--user'', ct_user K] @
     [''-e'', ''PYTHONDONTWRITEBYTECODE=1''] @
     (if no_runtime K then [] else [''--runtime'', the (ct_runtime K)]) @
     [''-v'', read_only_mount (sp_chef_main spec) GUEST_CHEF] @
     [''-v'', read_only_mount (sp_pubkey_path spec) GUEST_PUBKEY] @
     [''-v'', read_only_mount (sp_fixtures_root spec) GUEST_FIXTURES] @
     [''-v'', read_write_mount (sp_out_dir spec) GUEST_OUT] @
     [''--tmpfs'', ''/work''] @
     [''-w'', ''/work''] @
     [ct_image K] @
     [''python'', GUEST_CHEF, GUEST_PUBKEY, GUEST_FIXTURES, GUEST_OUT]"

definition container_run :: "host \<Rightarrow> launcher \<Rightarrow> container \<Rightarrow> sandbox_run" where
  "container_run H launch K spec fs =
     (if \<not> container_available H K then (Inl RuntimeError, fs)
      else launch (container_command K spec) (sp_stdin spec) fs)"

section \<open>Apple's virtual machines\<close>

record apple_vm =
  av_image :: string
  av_binary :: string
  av_cpus :: int
  av_memory :: string
  av_uid :: "int option"
  av_gid :: "int option"

definition apple_available :: "host \<Rightarrow> apple_vm \<Rightarrow> bool" where
  "apple_available H K \<longleftrightarrow> ho_platform H = ''darwin'' \<and> ho_which H (av_binary K)"

definition apple_command :: "apple_vm \<Rightarrow> sandbox_spec \<Rightarrow> string list" where
  "apple_command K spec =
     [av_binary K, ''run'', ''--rm'', ''-i''] @
     [''-m'', av_memory K] @
     [''-c'', string_of_int (av_cpus K)] @
     (case av_uid K of None \<Rightarrow> [] | Some uid \<Rightarrow> [''--uid'', string_of_int uid]) @
     (case av_gid K of None \<Rightarrow> [] | Some gid \<Rightarrow> [''--gid'', string_of_int gid]) @
     [''-e'', ''PYTHONDONTWRITEBYTECODE=1''] @
     [''-v'', read_only_mount (sp_chef_main spec) GUEST_CHEF] @
     [''-v'', read_only_mount (sp_pubkey_path spec) GUEST_PUBKEY] @
     [''-v'', read_only_mount (sp_fixtures_root spec) GUEST_FIXTURES] @
     [''-v'', read_write_mount (sp_out_dir spec) GUEST_OUT] @
     [''-v'', read_write_mount (sp_workspace spec) VM_WORK] @
     [''-w'', VM_WORK] @
     [av_image K] @
     [''python'', GUEST_CHEF, GUEST_PUBKEY, GUEST_FIXTURES, GUEST_OUT]"

definition apple_run :: "host \<Rightarrow> launcher \<Rightarrow> apple_vm \<Rightarrow> sandbox_run" where
  "apple_run H launch K spec fs =
     (if \<not> apple_available H K then (Inl RuntimeError, fs)
      else launch (apple_command K spec) (sp_stdin spec) fs)"

section \<open>Linux virtual machines\<close>

record micro_vm =
  mv_rootfs :: string
  mv_kernel :: string
  mv_initrd :: "string option"
  mv_qemu :: string
  mv_memory_mb :: int

definition BOOT_ARGS :: string where
  "BOOT_ARGS = ''console=ttyS0 root=/dev/vda rw init=/sbin/microvm-init panic=-1 reboot=t''"

definition microvm_available :: "host \<Rightarrow> fsys \<Rightarrow> micro_vm \<Rightarrow> bool" where
  "microvm_available H fs K \<longleftrightarrow>
     startswith (ho_platform H) ''linux'' \<and> path_exists fs ''/dev/kvm'' \<and> ho_which H (mv_qemu K) \<and>
     ho_which H ''mkfs.ext4'' \<and> ho_which H ''debugfs'' \<and> mv_rootfs K \<noteq> [] \<and> files fs (mv_rootfs K) \<noteq> None \<and>
     mv_kernel K \<noteq> [] \<and> files fs (mv_kernel K) \<noteq> None"

definition microvm_command :: "micro_vm \<Rightarrow> string \<Rightarrow> string list" where
  "microvm_command K io_image =
     [mv_qemu K, ''-accel'', ''kvm'', ''-m'', string_of_int (mv_memory_mb K), ''-smp'', ''1'', ''-nographic'',
      ''-no-reboot'', ''-kernel'', mv_kernel K] @
     (if mv_initrd K = None \<or> mv_initrd K = Some [] then [] else [''-initrd'', the (mv_initrd K)]) @
     [''-append'', BOOT_ARGS,
      ''-drive'', ''file='' @ mv_rootfs K @ '',format=raw,if=virtio,snapshot=on'',
      ''-drive'', ''file='' @ io_image @ '',format=raw,if=virtio'']"

section \<open>Seatbelt\<close>

fun distinct_realpaths :: "os \<Rightarrow> string set \<Rightarrow> string list \<Rightarrow> string list" where
  "distinct_realpaths W seen [] = []"
| "distinct_realpaths W seen (p # ps) =
     (if p = [] then distinct_realpaths W seen ps
      else let rp = realpath W p in
        if rp \<in> seen then distinct_realpaths W seen ps else rp # distinct_realpaths W (insert rp seen) ps)"

definition existing_realpaths :: "os \<Rightarrow> string list \<Rightarrow> string list" where
  "existing_realpaths W paths = distinct_realpaths W {} paths"

definition mac_write_roots :: "os \<Rightarrow> sandbox_spec \<Rightarrow> string list" where
  "mac_write_roots W spec =
     existing_realpaths W [sp_out_dir spec, sp_workspace spec, ''/private/var/folders'', ''/private/tmp'']"

definition subpath :: "string \<Rightarrow> string" where
  "subpath p = ''(subpath \"'' @ p @ ''\")''"

definition subpaths :: "string list \<Rightarrow> string" where
  "subpaths paths = join '' '' (map subpath paths)"

definition build_profile :: "os \<Rightarrow> sandbox_spec \<Rightarrow> string" where
  "build_profile W spec =
     ''(version 1)'' @ ''(allow default)'' @ ''(deny network*)'' @ ''(deny file-write*)'' @
     ''(allow file-write* '' @ subpaths (mac_write_roots W spec) @
       '' (literal \"/dev/null\") (literal \"/dev/dtracehelper\"))''"

definition mac_available :: "host \<Rightarrow> string \<Rightarrow> bool" where
  "mac_available H binary \<longleftrightarrow> ho_platform H = ''darwin'' \<and> ho_which H binary"

definition mac_command :: "os \<Rightarrow> host \<Rightarrow> string \<Rightarrow> sandbox_spec \<Rightarrow> string list" where
  "mac_command W H binary spec =
     [binary, ''-p'', build_profile W spec, ho_executable H, sp_chef_main spec, sp_pubkey_path spec,
      sp_fixtures_root spec, sp_out_dir spec]"

definition mac_run :: "os \<Rightarrow> host \<Rightarrow> launcher \<Rightarrow> string \<Rightarrow> sandbox_run" where
  "mac_run W H launch binary spec fs =
     (if \<not> mac_available H binary then (Inl RuntimeError, fs)
      else (case makedirs (sp_out_dir spec) fs of
              (Inl e, fs1) \<Rightarrow> (Inl e, fs1)
            | (Inr _, fs1) \<Rightarrow> launch (mac_command W H binary spec) (sp_stdin spec) fs1))"

section \<open>How a profile is read\<close>

text \<open>
  The forms of a Seatbelt profile, whose syntax is Scheme's: parentheses, and string literals in double
  quotes with the backslash as escape. \<open>forms d q cur s\<close> are the forms at the top level, with \<open>d\<close>
  parentheses open, inside a literal if \<open>q\<close>, and \<open>cur\<close> the characters of the form so far in reverse.
\<close>

fun forms :: "nat \<Rightarrow> bool \<Rightarrow> string \<Rightarrow> string \<Rightarrow> string list" where
  "forms d q cur [] = (if cur = [] then [] else [rev cur])"
| "forms d q cur (c # s) =
     (if q then
        (if c = CHR 0x22 then forms d False (c # cur) s
         else if c = CHR 0x5C then (case s of [] \<Rightarrow> [rev (c # cur)] | e # s' \<Rightarrow> forms d True (e # c # cur) s')
         else forms d True (c # cur) s)
      else if c = CHR 0x22 then forms d True (c # cur) s
      else if c = CHR ''('' then forms (Suc d) False (c # cur) s
      else if c = CHR '')'' then
        (if d \<le> 1 then rev (c # cur) # forms 0 False [] s else forms (d - 1) False (c # cur) s)
      else forms d False (c # cur) s)"

definition profile_forms :: "string \<Rightarrow> string list" where
  "profile_forms s = forms 0 False [] s"

text \<open>A path that can stand in a literal.\<close>

definition plain_path :: "string \<Rightarrow> bool" where
  "plain_path p \<longleftrightarrow> CHR 0x22 \<notin> set p \<and> CHR 0x5C \<notin> set p"

lemma forms_literal: "plain_path p \<Longrightarrow> forms d True cur (p @ CHR 0x22 # s) = forms d False (CHR 0x22 # rev p @ cur) s"
  by (induction p arbitrary: cur) (auto simp: plain_path_def)

lemma forms_subpath:
  "plain_path p \<Longrightarrow> forms (Suc d) False cur (subpath p @ s) = forms (Suc d) False (rev (subpath p) @ cur) s"
  using forms_literal [of p "Suc (Suc d)" _ "CHR '')'' # s"] by (simp add: subpath_def)

lemma forms_subpaths:
  "\<forall>p \<in> set ps. plain_path p \<Longrightarrow>
    forms (Suc d) False cur (join '' '' (map subpath ps) @ s) = forms (Suc d) False (rev (join '' '' (map subpath ps)) @ cur) s"
proof (induction ps arbitrary: cur)
  case (Cons p ps)
  then show ?case by (cases ps) (auto simp: forms_subpath)
qed simp

section \<open>Properties\<close>

definition intended_forms :: "os \<Rightarrow> sandbox_spec \<Rightarrow> string list" where
  "intended_forms W spec =
     [''(version 1)'', ''(allow default)'', ''(deny network*)'', ''(deny file-write*)'',
      ''(allow file-write* '' @ subpaths (mac_write_roots W spec) @ '' (literal \"/dev/null\") (literal \"/dev/dtracehelper\"))'']"

lemma plain_profile:
  assumes "\<forall>p \<in> set (mac_write_roots W spec). plain_path p"
  shows "profile_forms (build_profile W spec) = intended_forms W spec"
  using forms_subpaths [OF assms, of 0]
  by (simp add: profile_forms_def build_profile_def intended_forms_def subpaths_def)

text \<open>An order identifier that closes the literal and the form it stands in, and the run it makes.\<close>

definition rewriting_id :: string where
  "rewriting_id = ''x\"))(allow network*)(allow file-write* (subpath \"/y''"

definition rewriting_spec :: sandbox_spec where
  "rewriting_spec =
     \<lparr>sp_chef_main = ''/chef_main.py'', sp_pubkey_path = ''/pub.pem'', sp_fixtures_root = ''/mail'',
      sp_out_dir = window_path example_os rewriting_id ''/out'', sp_workspace = ''/ws'', sp_stdin = []\<rparr>"

lemma rewriting_profile:
  "profile_forms (build_profile example_os rewriting_spec) =
     [''(version 1)'', ''(allow default)'', ''(deny network*)'', ''(deny file-write*)'',
      ''(allow file-write* (subpath \"/out/x\"))'', ''(allow network*)'',
      ''(allow file-write* (subpath \"/y\") (subpath \"/ws\") (subpath \"/private/var/folders\") (subpath \"/private/tmp\") '' @
        ''(literal \"/dev/null\") (literal \"/dev/dtracehelper\"))'']"
  by code_simp

text \<open>
  C38. The Seatbelt profile says what it is meant to say for paths without a double quote or a backslash:
  its forms are the five intended ones, with network and writes denied and nothing allowed but writes
  below the serving directory, the workspace and the temporary directories. A defect: the paths are
  not escaped, and the serving directory is named by the order's identifier, which the cashier does not
  check; an identifier with a double quote adds forms of its own, here \<^verbatim>\<open>(allow network*)\<close> after the
  denial, which it overrides.
\<close>

theorem order_id_rewrites_the_profile:
  "((\<forall>p \<in> set (mac_write_roots W spec). plain_path p) \<longrightarrow> profile_forms (build_profile W spec) = intended_forms W spec) \<and>
   profile_forms (build_profile example_os rewriting_spec) =
     [''(version 1)'', ''(allow default)'', ''(deny network*)'', ''(deny file-write*)'',
      ''(allow file-write* (subpath \"/out/x\"))'', ''(allow network*)'',
      ''(allow file-write* (subpath \"/y\") (subpath \"/ws\") (subpath \"/private/var/folders\") (subpath \"/private/tmp\") '' @
        ''(literal \"/dev/null\") (literal \"/dev/dtracehelper\"))'']"
  using plain_profile rewriting_profile by blast

theorem order_id_rewrites_the_profile_witness:
  "profile_forms (build_profile example_os (rewriting_spec\<lparr>sp_out_dir := ''/out/o1''\<rparr>)) =
     intended_forms example_os (rewriting_spec\<lparr>sp_out_dir := ''/out/o1''\<rparr>)"
proof -
  have "list_all plain_path (mac_write_roots example_os (rewriting_spec\<lparr>sp_out_dir := ''/out/o1''\<rparr>))" by code_simp
  then show ?thesis using order_id_rewrites_the_profile by (simp add: list_all_iff)
qed

end
