(* ===== verification/Apphome.thy ===== *)
theory Apphome
  imports Backends
begin

text \<open>
  Where an installed program keeps its state: \<^verbatim>\<open>apphome.py\<close>, the two programs that put the keys there
  (\<^verbatim>\<open>keygen.py\<close>, \<^verbatim>\<open>init_app.py\<close>) and the choice of the chef's containment in \<^verbatim>\<open>mcp_gateway.py\<close>
  (\<open>resolve_sandbox\<close>). Paths are joined the POSIX way on every platform. The pair of PEM files that
  \<^verbatim>\<open>cryptography\<close> generates, and the set-up of the Windows AppContainer, are parameters; what is printed
  is the list of its lines.
\<close>

section \<open>The home\<close>

type_synonym environ = "string \<Rightarrow> string option"

text \<open>\<^verbatim>\<open>env.get(k) or d\<close>\<close>

definition env_or :: "environ \<Rightarrow> string \<Rightarrow> string \<Rightarrow> string" where
  "env_or env k d = (case env k of None \<Rightarrow> d | Some v \<Rightarrow> if v = [] then d else v)"

text \<open>\<open>user\<close> is \<^verbatim>\<open>os.path.expanduser("~")\<close>.\<close>

definition default_app_home :: "os \<Rightarrow> environ \<Rightarrow> string \<Rightarrow> string \<Rightarrow> string" where
  "default_app_home W env plat user =
     (if env_or env ''SENTINEL_HOME'' [] \<noteq> [] then abspath W (env_or env ''SENTINEL_HOME'' [])
      else if plat = ''win32'' then
        path_join (env_or env ''APPDATA'' (path_join (path_join user ''AppData'') ''Roaming'')) ''SentinelLoop''
      else if plat = ''darwin'' then
        path_join (path_join (path_join user ''Library'') ''Application Support'') ''SentinelLoop''
      else path_join (env_or env ''XDG_DATA_HOME'' (path_join (path_join user ''.local'') ''share'')) ''sentinel-loop'')"

definition PRIVATE_KEY_FILENAME :: string where "PRIVATE_KEY_FILENAME = ''cashier_ed25519_private.pem''"
definition PUBLIC_KEY_FILENAME :: string where "PUBLIC_KEY_FILENAME = ''cashier_ed25519_public.pem''"

definition keys_dir :: "string \<Rightarrow> string" where "keys_dir home = path_join home ''keys''"
definition private_key_path :: "string \<Rightarrow> string" where
  "private_key_path home = path_join (keys_dir home) PRIVATE_KEY_FILENAME"
definition public_key_path :: "string \<Rightarrow> string" where
  "public_key_path home = path_join (keys_dir home) PUBLIC_KEY_FILENAME"
definition ledger_path :: "string \<Rightarrow> string" where "ledger_path home = path_join home ''ledger.db''"
definition window_root :: "string \<Rightarrow> string" where "window_root home = path_join home ''window''"
definition custom_capabilities_dir :: "string \<Rightarrow> string" where
  "custom_capabilities_dir home = path_join home ''capabilities_custom''"
definition preferences_path :: "string \<Rightarrow> string" where "preferences_path home = path_join home ''permissions.json''"
definition sandbox_marker_path :: "string \<Rightarrow> string" where "sandbox_marker_path home = path_join home ''sandbox.json''"

definition read_sandbox_backend :: "string \<Rightarrow> fsys \<Rightarrow> string option" where
  "read_sandbox_backend home fs =
     (case files fs (sandbox_marker_path home) of
        None \<Rightarrow> None
      | Some bytes \<Rightarrow>
          (case json_load_sig bytes of
             Inr (JObj data) \<Rightarrow>
               (case jget data ''backend'' of JStr b \<Rightarrow> if b = [] then None else Some b | _ \<Rightarrow> None)
           | _ \<Rightarrow> None))"

definition write_sandbox_backend :: "string \<Rightarrow> string \<Rightarrow> fsys \<Rightarrow> string \<times> fsys" where
  "write_sandbox_backend home backend fs =
     (sandbox_marker_path home, write_file (sandbox_marker_path home) (file_text [(''backend'', JStr backend)]) fs)"

definition is_initialized :: "string \<Rightarrow> fsys \<Rightarrow> bool" where
  "is_initialized home fs \<longleftrightarrow> files fs (private_key_path home) \<noteq> None"

text \<open>The directories made one after the other.\<close>

fun make_all :: "string list \<Rightarrow> fsys \<Rightarrow> (exn + unit) \<times> fsys" where
  "make_all [] fs = (Inr (), fs)"
| "make_all (d # ds) fs =
     (case makedirs d fs of (Inl e, fs1) \<Rightarrow> (Inl e, fs1) | (Inr _, fs1) \<Rightarrow> make_all ds fs1)"

definition ensure_app_home :: "string \<Rightarrow> fsys \<Rightarrow> (exn + string) \<times> fsys" where
  "ensure_app_home home fs =
     (case make_all [home, keys_dir home, window_root home, custom_capabilities_dir home] fs of
        (Inl e, fs1) \<Rightarrow> (Inl e, fs1) | (Inr _, fs1) \<Rightarrow> (Inr home, fs1))"

record runtime_paths =
  rt_home :: string
  rt_initialized :: bool
  rt_ledger :: string
  rt_keys_dir :: "string option"
  rt_window_root :: "string option"
  rt_custom_capabilities_dir :: "string option"
  rt_preferences_path :: "string option"

definition given_or :: "'a option \<Rightarrow> 'a \<Rightarrow> 'a" where
  "given_or given d = (case given of None \<Rightarrow> d | Some x \<Rightarrow> x)"

lemma given_or_simps [simp]: "given_or None d = d" "given_or (Some x) d = x"
  by (simp_all add: given_or_def)

text \<open>\<open>usual\<close> is the default home, for \<open>home\<close> not given.\<close>

definition resolve_runtime_paths ::
  "string option \<Rightarrow> string option \<Rightarrow> string option \<Rightarrow> string option \<Rightarrow> string \<Rightarrow> fsys \<Rightarrow> runtime_paths" where
  "resolve_runtime_paths ledger keys_arg window home usual fs =
     (let resolved_home = given_or home usual in
      if is_initialized resolved_home fs then
        \<lparr>rt_home = resolved_home, rt_initialized = True,
         rt_ledger = given_or ledger (ledger_path resolved_home),
         rt_keys_dir = Some (given_or keys_arg (keys_dir resolved_home)),
         rt_window_root = Some (given_or window (window_root resolved_home)),
         rt_custom_capabilities_dir = Some (custom_capabilities_dir resolved_home),
         rt_preferences_path = Some (preferences_path resolved_home)\<rparr>
      else
        \<lparr>rt_home = resolved_home, rt_initialized = False, rt_ledger = given_or ledger ''ledger.db'',
         rt_keys_dir = keys_arg, rt_window_root = window, rt_custom_capabilities_dir = None, rt_preferences_path = None\<rparr>)"

section \<open>The keys\<close>

text \<open>\<open>kp_private\<close> and \<open>kp_public\<close> are the two PEM files of a fresh pair.\<close>

record key_pair =
  kp_private :: string
  kp_public :: string

definition generate_keypair :: "key_pair \<Rightarrow> string \<Rightarrow> fsys \<Rightarrow> (exn + string \<times> string) \<times> fsys" where
  "generate_keypair kp dir fs =
     (case makedirs dir fs of
        (Inl e, fs1) \<Rightarrow> (Inl e, fs1)
      | (Inr _, fs1) \<Rightarrow>
          (let private_path = path_join dir PRIVATE_KEY_FILENAME; public_path = path_join dir PUBLIC_KEY_FILENAME;
               fs2 = write_file private_path (kp_private kp) fs1;
               fs3 = write_file public_path (kp_public kp) fs2
           in (Inr (private_path, public_path), fs3)))"

definition refusal_lines :: "string \<Rightarrow> string \<Rightarrow> fsys \<Rightarrow> string list" where
  "refusal_lines private_path public_path fs =
     [''refusing to overwrite existing keypair:''] @
     map (\<lambda>p. ''  '' @ p) (filter (\<lambda>p. files fs p \<noteq> None) [private_path, public_path]) @
     [''Regenerating breaks verification of every ledger signed by the '' @
      ''old key. Re-run with --force only if you intend to retire those '' @ ''ledgers.'']"

definition warning_lines :: "string \<Rightarrow> bool \<Rightarrow> bool \<Rightarrow> string list" where
  "warning_lines dir private_exists public_exists =
     (if private_exists then
        [''WARNING: overwriting the cashier keypair at '' @ dir @ ''. Previously signed '' @
         ''ledgers (including a committed ledger.db) will no longer verify '' @ ''against the new public key.'']
      else if public_exists then
        [''Note: a demo public key shipped with the repo but this clone has '' @
         ''no private key. Creating your own keypair now. The committed demo '' @
         ''ledger.db was signed by the demo key (still verifiable via git '' @
         ''history); start a fresh ledger for your own runs.'']
      else [])"

text \<open>\<open>package\<close> is the directory of the package, for \<open>--keys\<close> not given.\<close>

definition keygen_main ::
  "os \<Rightarrow> key_pair \<Rightarrow> string \<Rightarrow> string option \<Rightarrow> bool \<Rightarrow> fsys \<Rightarrow> (exn + int \<times> string list) \<times> fsys" where
  "keygen_main W kp package keys_arg force fs =
     (let dir = (case keys_arg of None \<Rightarrow> package | Some k \<Rightarrow> if k = [] then package else abspath W k);
          private_path = path_join dir PRIVATE_KEY_FILENAME; public_path = path_join dir PUBLIC_KEY_FILENAME;
          private_exists = (files fs private_path \<noteq> None); public_exists = (files fs public_path \<noteq> None)
      in if private_exists \<and> \<not> force then (Inr (1, refusal_lines private_path public_path fs), fs)
         else (case generate_keypair kp dir fs of
                 (Inl e, fs1) \<Rightarrow> (Inl e, fs1)
               | (Inr (written_private, written_public), fs1) \<Rightarrow>
                   (Inr (0, warning_lines dir private_exists public_exists @ [written_private, written_public]), fs1)))"

section \<open>The first run\<close>

text \<open>Whether the AppContainer is available, and what its set-up does.\<close>

record app_container =
  ac_available :: bool
  ac_setup :: "fsys \<Rightarrow> (exn + unit) \<times> fsys"

definition setup_sandbox :: "app_container \<Rightarrow> string \<Rightarrow> bool \<Rightarrow> fsys \<Rightarrow> (exn + string list) \<times> fsys" where
  "setup_sandbox A home requested fs =
     (if \<not> requested then
        (Inr (if ac_available A
              then [''  containment:  available '' @ em_dash @ '' re-run with --sandbox to '' @
                    ''enable the Windows AppContainer (OS-enforced)'']
              else []), fs)
      else if \<not> ac_available A then
        (Inr [''  containment:  --sandbox requested but AppContainer is '' @
              ''unavailable here; the chef runs as a subprocess (contract).''], fs)
      else (case ac_setup A fs of
              (Inl e, fs1) \<Rightarrow> (Inl e, fs1)
            | (Inr _, fs1) \<Rightarrow>
                (case write_sandbox_backend home ''appcontainer'' fs1 of
                   (marker, fs2) \<Rightarrow>
                     (Inr [''  containment:  Windows AppContainer ENABLED (no network, '' @
                           ''ACL-confined). marker: '' @ marker], fs2))))"

definition next_steps :: "string \<Rightarrow> string \<Rightarrow> string list" where
  "next_steps ledger pubkey =
     [''next steps:'', ''  permissions   python -m sentinel_slice.consumer.permissions'',
      ''  agent gateway sentinel-mcp   (every tool call governed + receipted)'',
      ''  verify ledger sentinel-verify \"'' @ ledger @ ''\" \"'' @ pubkey @ ''\"'', [],
      ''to connect an MCP host (e.g. Claude Desktop), add to its config:'',
      ''  {\"mcpServers\": {\"sentinel\": {\"command\": \"sentinel-mcp\"}}}'', []]"

definition init_main ::
  "key_pair \<Rightarrow> app_container \<Rightarrow> string \<Rightarrow> string option \<Rightarrow> bool \<Rightarrow> bool \<Rightarrow> fsys \<Rightarrow> (exn + int \<times> string list) \<times> fsys" where
  "init_main kp A usual home_arg force with_sandbox fs =
     (let home = given_or home_arg usual in
      case ensure_app_home home fs of
        (Inl e, fs1) \<Rightarrow> (Inl e, fs1)
      | (Inr _, fs1) \<Rightarrow>
          if is_initialized home fs1 \<and> \<not> force then
            (Inr (1, [''already initialized: '' @ home, ''  private key: '' @ private_key_path home,
                ''Regenerating breaks verification of every ledger signed by the '' @
                ''existing key. Re-run with --force only if you intend to retire '' @ ''those ledgers.'']), fs1)
          else
            (case generate_keypair kp (keys_dir home) fs1 of
               (Inl e, fs2) \<Rightarrow> (Inl e, fs2)
             | (Inr (private_path, public_path), fs2) \<Rightarrow>
                 (case setup_sandbox A home with_sandbox fs2 of
                    (Inl e, fs3) \<Rightarrow> (Inl e, fs3)
                  | (Inr told, fs3) \<Rightarrow>
                      (Inr (0,
                         (if is_initialized home fs1
                          then [''WARNING: overwriting the cashier keypair. Previously signed '' @
                                ''ledgers in this home will no longer verify against the new '' @ ''public key.'']
                          else []) @
                         [''initialized '' @ home,
                          ''  private key:  '' @ private_path @ ''  (never leaves this machine)'',
                          ''  public key:   '' @ public_path,
                          ''  ledger:       '' @ ledger_path home @ ''  (created on first order)'',
                          ''  permissions:  '' @ preferences_path home] @ told @ [[]] @
                         next_steps (ledger_path home) public_path), fs3))))"

section \<open>The choice of the containment\<close>

datatype containment_choice = App_Container | Linux_Seccomp | Mac_Seatbelt | Micro_Vm

definition containment_label :: "containment_choice option \<Rightarrow> string" where
  "containment_label ch =
     (case ch of
        None \<Rightarrow> ''subprocess-contract'' | Some App_Container \<Rightarrow> ''appcontainer''
      | Some Linux_Seccomp \<Rightarrow> ''seccomp+landlock'' | Some Mac_Seatbelt \<Rightarrow> ''macsandbox''
      | Some Micro_Vm \<Rightarrow> ''microvm-kvm'')"

definition env_micro_vm :: "environ \<Rightarrow> micro_vm" where
  "env_micro_vm env =
     \<lparr>mv_rootfs = env_or env ''SENTINEL_MICROVM_ROOTFS'' [], mv_kernel = env_or env ''SENTINEL_MICROVM_KERNEL'' [],
      mv_initrd = env ''SENTINEL_MICROVM_INITRD'', mv_qemu = ''qemu-system-x86_64'', mv_memory_mb = 1024\<rparr>"

definition wanted_backend :: "string \<Rightarrow> string \<Rightarrow> fsys \<Rightarrow> string" where
  "wanted_backend choice home fs =
     (if choice = ''auto'' then (case read_sandbox_backend home fs of None \<Rightarrow> ''subprocess'' | Some b \<Rightarrow> b) else choice)"

definition resolve_sandbox ::
  "app_container \<Rightarrow> linux \<Rightarrow> host \<Rightarrow> environ \<Rightarrow> string \<Rightarrow> string \<Rightarrow> fsys \<Rightarrow> containment_choice option" where
  "resolve_sandbox A X H env choice home fs =
     (let want = wanted_backend choice home fs in
      if want = ''appcontainer'' then (if ac_available A then Some App_Container else None)
      else if want = ''seccomp'' then (if linux_available X then Some Linux_Seccomp else None)
      else if want = ''macsandbox'' then (if mac_available H ''sandbox-exec'' then Some Mac_Seatbelt else None)
      else if want = ''microvm'' then (if microvm_available H fs (env_micro_vm env) then Some Micro_Vm else None)
      else None)"

section \<open>Properties\<close>

definition folder :: "string \<Rightarrow> string" where
  "folder home = (if home = [] \<or> endswith home ''/'' then home else home @ ''/'')"

lemma path_join_below: "\<not> startswith p ''/'' \<Longrightarrow> path_join home p = folder home @ p"
  by (auto simp: path_join_def folder_def)

lemma home_paths:
  "keys_dir home = folder home @ ''keys''" "private_key_path home = folder home @ ''keys/cashier_ed25519_private.pem''"
  "public_key_path home = folder home @ ''keys/cashier_ed25519_public.pem''"
  "sandbox_marker_path home = folder home @ ''sandbox.json''"
proof -
  show k: "keys_dir home = folder home @ ''keys''"
    by (simp add: keys_dir_def path_join_below startswith_def)
  have "folder (folder home @ ''keys'') = folder home @ ''keys/''"
    by (simp add: folder_def [of "folder home @ ''keys''"] endswith_def)
  then show "private_key_path home = folder home @ ''keys/cashier_ed25519_private.pem''"
    "public_key_path home = folder home @ ''keys/cashier_ed25519_public.pem''"
    by (simp_all add: private_key_path_def public_key_path_def k path_join_below startswith_def
        PRIVATE_KEY_FILENAME_def PUBLIC_KEY_FILENAME_def)
  show "sandbox_marker_path home = folder home @ ''sandbox.json''"
    by (simp add: sandbox_marker_path_def path_join_below startswith_def)
qed

lemma makedirs_files: "makedirs d fs = (r, fs') \<Longrightarrow> files fs' = files fs"
  by (auto simp: makedirs_def split: if_splits)

lemma make_all_files: "make_all ds fs = (r, fs') \<Longrightarrow> files fs' = files fs"
  by (induction ds arbitrary: fs) (auto split: prod.splits sum.splits dest: makedirs_files)

lemma ensure_app_home_files: "ensure_app_home home fs = (r, fs') \<Longrightarrow> files fs' = files fs"
  by (auto simp: ensure_app_home_def simp del: make_all.simps split: prod.splits sum.splits dest: make_all_files)

lemma marker_roundtrip:
  "backend \<noteq> [] \<Longrightarrow> read_sandbox_backend home (snd (write_sandbox_backend home backend fs)) = Some backend"
  using json_load_file_text(1) [of "[(''backend'', JStr backend)]"]
  by (simp add: read_sandbox_backend_def write_sandbox_backend_def wf_dict_def jget_def jopt_def)

text \<open>
  The cashier's key is not replaced by accident: without \<^verbatim>\<open>--force\<close>, where a private key lies in the
  directory or the home a program is given, both \<^verbatim>\<open>sentinel-keygen\<close> and \<^verbatim>\<open>sentinel-init\<close> leave every file
  as it was and, if they return, return 1.
\<close>

theorem keys_survive_without_force:
  assumes "files fs (path_join (abspath W dir) PRIVATE_KEY_FILENAME) \<noteq> None" and "dir \<noteq> []"
    and "is_initialized home fs"
    and "keygen_main W kp package (Some dir) False fs = (r, fs1)"
    and "init_main kp A usual (Some home) False with_sandbox fs = (q, fs2)"
  shows "files fs1 = files fs \<and> (\<exists>printed. r = Inr (1, printed)) \<and>
    files fs2 = files fs \<and> (\<forall>code printed. q = Inr (code, printed) \<longrightarrow> code = 1)"
proof -
  have "files fs1 = files fs \<and> (\<exists>printed. r = Inr (1, printed))"
    using assms(1,2,4) by (auto simp: keygen_main_def Let_def)
  moreover obtain x fs' where e: "ensure_app_home home fs = (x, fs')" by fastforce
  then have "files fs' = files fs" by (rule ensure_app_home_files)
  then have "files fs2 = files fs \<and> (\<forall>code printed. q = Inr (code, printed) \<longrightarrow> code = 1)"
    using assms(3,5) e by (auto simp: init_main_def Let_def given_or_def is_initialized_def split: sum.splits)
  ultimately show ?thesis by blast
qed

lemma generate_keypair_files:
  assumes "generate_keypair kp (keys_dir home) fs = (Inr w, fs')"
  shows "files fs' = (files fs)(private_key_path home \<mapsto> kp_private kp, public_key_path home \<mapsto> kp_public kp)"
  using assms makedirs_files
  by (fastforce simp: generate_keypair_def private_key_path_def public_key_path_def Let_def split: prod.splits sum.splits)

lemma setup_sandbox_files:
  assumes "setup_sandbox A home with_sandbox fs = (Inr told, fs')"
    and "\<forall>fs fs'. ac_setup A fs = (Inr (), fs') \<longrightarrow> files fs' = files fs"
  shows "\<forall>p. p \<noteq> sandbox_marker_path home \<longrightarrow> files fs' p = files fs p"
    and "with_sandbox \<Longrightarrow> ac_available A \<Longrightarrow> read_sandbox_backend home fs' = Some ''appcontainer''"
proof -
  show "\<forall>p. p \<noteq> sandbox_marker_path home \<longrightarrow> files fs' p = files fs p"
    using assms by (auto simp: setup_sandbox_def write_sandbox_backend_def split: if_splits prod.splits sum.splits)
  show "read_sandbox_backend home fs' = Some ''appcontainer''" if w: "with_sandbox" "ac_available A"
  proof -
    obtain fs1 where "ac_setup A fs = (Inr (), fs1)" "fs' = snd (write_sandbox_backend home ''appcontainer'' fs1)"
      using assms(1) w by (auto simp: setup_sandbox_def split: prod.splits sum.splits)
    then show ?thesis using marker_roundtrip [of "''appcontainer''" home fs1] by simp
  qed
qed


definition example_app_container :: app_container where
  "example_app_container = \<lparr>ac_available = True, ac_setup = (\<lambda>fs. (Inr (), fs))\<rparr>"

definition empty_fs :: fsys where
  "empty_fs = \<lparr>files = Map.empty, dirs = {}, trace = []\<rparr>"

definition example_pair :: key_pair where
  "example_pair = \<lparr>kp_private = ''private'', kp_public = ''public''\<rparr>"

lemma example_init:
  obtains printed fs' where
    "init_main example_pair example_app_container ''/home'' None False True empty_fs = (Inr (0, printed), fs')"
proof -
  have "CHR 0x00 \<notin> set p" if "p \<in> {''/home'', keys_dir ''/home'', window_root ''/home'', custom_capabilities_dir ''/home''}" for p
    using that by (auto simp: keys_dir_def window_root_def custom_capabilities_dir_def path_join_def startswith_def endswith_def)
  then have "\<exists>fs'. make_all [''/home'', keys_dir ''/home'', window_root ''/home'', custom_capabilities_dir ''/home''] empty_fs = (Inr (), fs')"
    and m: "\<exists>fs'. makedirs (keys_dir ''/home'') fs = (Inr (), fs')" for fs
    by (simp_all add: makedirs_def)
  then obtain fs1 where e: "ensure_app_home ''/home'' empty_fs = (Inr ''/home'', fs1)"
    by (auto simp: ensure_app_home_def simp del: make_all.simps)
  have "\<not> is_initialized ''/home'' fs1" using ensure_app_home_files [OF e] by (simp add: is_initialized_def empty_fs_def)
  moreover obtain fs2 where "makedirs (keys_dir ''/home'') fs1 = (Inr (), fs2)" using m by blast
  ultimately show thesis using that e
    by (simp add: init_main_def given_or_def generate_keypair_def Let_def setup_sandbox_def example_app_container_def
        write_sandbox_backend_def)
qed


theorem keys_survive_without_force_witness:
  "\<exists>fs r fs1. is_initialized ''/home'' fs \<and>
     keygen_main example_os example_pair ''/package'' (Some ''/home/keys'') False fs = (r, fs1) \<and> files fs1 = files fs"
proof -
  let ?fs = "empty_fs\<lparr>files := [private_key_path ''/home'' \<mapsto> ''old'']\<rparr>"
  have p: "path_join (abspath example_os ''/home/keys'') PRIVATE_KEY_FILENAME = private_key_path ''/home''" by code_simp
  obtain r fs1 q fs2 where
    "keygen_main example_os example_pair ''/package'' (Some ''/home/keys'') False ?fs = (r, fs1)"
    "init_main example_pair example_app_container ''/home'' (Some ''/home'') False False ?fs = (q, fs2)"
    by fastforce
  from keys_survive_without_force [OF _ _ _ this] show ?thesis
    using \<open>keygen_main _ _ _ _ _ _ = _\<close>
    by (intro exI [of _ ?fs] exI [of _ r] exI [of _ fs1]) (simp add: p is_initialized_def)
qed

end
