(* ===== verification/Connect.thy ===== *)
theory Connect
  imports Apphome
begin

text \<open>
  \<^verbatim>\<open>app/connect.py\<close>: the entry of the gateway in the configuration file of an MCP host. A file is read as
  JSON with or without a byte order mark, and written in key order; a configuration is the dictionary
  of its top-level keys. Paths are joined the POSIX way on every platform.
\<close>

section \<open>Hosts\<close>

definition SERVER_KEY :: string where "SERVER_KEY = ''sentinel''"

record mcp_host =
  mh_key :: string
  mh_display_name :: string
  mh_config_path :: string
  mh_note :: string

definition claude_desktop_path :: "environ \<Rightarrow> string \<Rightarrow> string \<Rightarrow> string" where
  "claude_desktop_path env plat user =
     (if plat = ''win32'' then
        path_join (path_join (env_or env ''APPDATA'' (path_join (path_join user ''AppData'') ''Roaming'')) ''Claude'')
          ''claude_desktop_config.json''
      else if plat = ''darwin'' then
        path_join (path_join (path_join (path_join user ''Library'') ''Application Support'') ''Claude'')
          ''claude_desktop_config.json''
      else path_join (path_join (env_or env ''XDG_CONFIG_HOME'' (path_join user ''.config'')) ''Claude'')
             ''claude_desktop_config.json'')"

definition known_hosts :: "environ \<Rightarrow> string \<Rightarrow> string \<Rightarrow> mcp_host list" where
  "known_hosts env plat user =
     [\<lparr>mh_key = ''claude_desktop'', mh_display_name = ''Claude Desktop'',
       mh_config_path = claude_desktop_path env plat user, mh_note = []\<rparr>,
      \<lparr>mh_key = ''claude_code'', mh_display_name = ''Claude Code'', mh_config_path = path_join user ''.claude.json'',
       mh_note = ''global MCP servers''\<rparr>,
      \<lparr>mh_key = ''cursor'', mh_display_name = ''Cursor'',
       mh_config_path = path_join (path_join user ''.cursor'') ''mcp.json'', mh_note = []\<rparr>]"

definition get_host :: "string \<Rightarrow> environ \<Rightarrow> string \<Rightarrow> string \<Rightarrow> mcp_host option" where
  "get_host key env plat user = find (\<lambda>h. mh_key h = key) (known_hosts env plat user)"

text \<open>\<open>executable\<close> is \<^verbatim>\<open>sys.executable\<close>.\<close>

definition gateway_command :: "string option \<Rightarrow> string list option \<Rightarrow> string \<Rightarrow> json dict" where
  "gateway_command python_exe extra_args executable =
     [(''command'', JStr (case python_exe of None \<Rightarrow> executable | Some p \<Rightarrow> if p = [] then executable else p)),
      (''args'', JArr (map JStr ([''-m'', ''sentinel_slice.mcp_gateway''] @
         (case extra_args of None \<Rightarrow> [''--sandbox'', ''auto''] | Some args \<Rightarrow> args))))]"

section \<open>The configuration\<close>

definition is_installed :: "mcp_host \<Rightarrow> fsys \<Rightarrow> bool" where
  "is_installed host fs \<longleftrightarrow> is_dir fs (dirname (mh_config_path host))"

definition read_config :: "mcp_host \<Rightarrow> fsys \<Rightarrow> json dict" where
  "read_config host fs =
     (case files fs (mh_config_path host) of
        None \<Rightarrow> []
      | Some bytes \<Rightarrow> (case json_load_sig bytes of Inr (JObj data) \<Rightarrow> data | _ \<Rightarrow> []))"

definition is_connected :: "mcp_host \<Rightarrow> fsys \<Rightarrow> bool" where
  "is_connected host fs =
     (case jget (read_config host fs) ''mcpServers'' of JObj servers \<Rightarrow> SERVER_KEY \<in> set (keys servers) | _ \<Rightarrow> False)"

definition write_config :: "mcp_host \<Rightarrow> json dict \<Rightarrow> fsys \<Rightarrow> (exn + unit) \<times> fsys" where
  "write_config host config fs =
     (case makedirs (dirname (mh_config_path host)) fs of
        (Inl e, fs1) \<Rightarrow> (Inl e, fs1)
      | (Inr _, fs1) \<Rightarrow> (Inr (), write_file (mh_config_path host) (file_text config) fs1))"

definition servers_of :: "json dict \<Rightarrow> json dict" where
  "servers_of config = (case jget config ''mcpServers'' of JObj servers \<Rightarrow> servers | _ \<Rightarrow> [])"

definition connect :: "mcp_host \<Rightarrow> json dict \<Rightarrow> fsys \<Rightarrow> (exn + string) \<times> fsys" where
  "connect host spec fs =
     (let config = read_config host fs; servers = servers_of config;
          existed = (SERVER_KEY \<in> set (keys servers));
          servers1 = AList.update SERVER_KEY (JObj spec) servers;
          config1 = AList.update ''mcpServers'' (JObj servers1) config
      in case write_config host config1 fs of
           (Inl e, fs1) \<Rightarrow> (Inl e, fs1)
         | (Inr _, fs1) \<Rightarrow> (Inr (if existed then ''updated'' else ''added''), fs1))"

definition disconnect :: "mcp_host \<Rightarrow> fsys \<Rightarrow> (exn + string) \<times> fsys" where
  "disconnect host fs =
     (let config = read_config host fs in
      case jget config ''mcpServers'' of
        JObj servers \<Rightarrow>
          if SERVER_KEY \<notin> set (keys servers) then (Inr ''absent'', fs)
          else (case write_config host (AList.update ''mcpServers'' (JObj (AList.delete SERVER_KEY servers)) config) fs of
                  (Inl e, fs1) \<Rightarrow> (Inl e, fs1)
                | (Inr _, fs1) \<Rightarrow> (Inr ''removed'', fs1))
      | _ \<Rightarrow> (Inr ''absent'', fs))"

definition status_row :: "fsys \<Rightarrow> mcp_host \<Rightarrow> json dict" where
  "status_row fs host =
     [(''key'', JStr (mh_key host)), (''display_name'', JStr (mh_display_name host)),
      (''config_path'', JStr (mh_config_path host)), (''installed'', JBool (is_installed host fs)),
      (''connected'', JBool (is_connected host fs)), (''note'', JStr (mh_note host))]"

definition connect_status :: "environ \<Rightarrow> string \<Rightarrow> string \<Rightarrow> fsys \<Rightarrow> json dict list" where
  "connect_status env plat user fs = map (status_row fs) (known_hosts env plat user)"

text \<open>\<^verbatim>\<open>AppModel.toggle_connection\<close>, the button of the Connect screen.\<close>

definition toggle_connection ::
  "environ \<Rightarrow> string \<Rightarrow> string \<Rightarrow> string \<Rightarrow> string \<Rightarrow> fsys \<Rightarrow> (exn + string) \<times> fsys" where
  "toggle_connection env plat user executable host_key fs =
     (case get_host host_key env plat user of
        None \<Rightarrow> (Inl ValueError, fs)
      | Some host \<Rightarrow>
          if is_connected host fs then disconnect host fs
          else connect host (gateway_command None None executable) fs)"

section \<open>Properties\<close>

lemma read_config_wf: "wf_json (JObj (read_config host fs))"
  by (fastforce simp: read_config_def json_load_sig_def loads_def split: option.splits sum.splits json.splits
      dest!: wf_json_loads)

lemma servers_of_wf: "wf_json (JObj config) \<Longrightarrow> wf_json (JObj (servers_of config))"
  by (fastforce simp: servers_of_def jget_def jopt_def split: json.splits option.splits dest!: map_of_SomeD)

lemma wf_update: "wf_json (JObj d) \<Longrightarrow> wf_json v \<Longrightarrow> wf_json (JObj (AList.update k v d))"
  by (auto dest!: set_update_subset [THEN subsetD])

lemma write_config_read:
  assumes "write_config host config fs = (Inr u, fs')" and "wf_json (JObj config)"
  shows "map_of (read_config host fs') k = map_option canon (map_of config k)"
proof -
  have "files fs' (mh_config_path host) = Some (file_text config)"
    using assms(1) by (auto simp: write_config_def split: prod.splits sum.splits)
  then have "read_config host fs' = sort_key fst (map canon_item config)"
    using json_load_file_text(1) [OF assms(2)] by (simp add: read_config_def)
  then show ?thesis using map_of_canon_obj [of config k] assms(2) by simp
qed

lemma write_servers_read:
  assumes "write_config host (AList.update ''mcpServers'' (JObj servers) config) fs = (Inr u, fs')"
    and "wf_json (JObj config)" and "wf_json (JObj servers)"
  shows "k \<noteq> ''mcpServers'' \<Longrightarrow> map_of (read_config host fs') k = map_option canon (map_of config k)"
    and "jget (read_config host fs') ''mcpServers'' = canon (JObj servers)"
    and "map_of (servers_of (read_config host fs')) k = map_option canon (map_of servers k)"
proof -
  note r = write_config_read [OF assms(1) wf_update [OF assms(2,3)]]
  show "map_of (read_config host fs') k = map_option canon (map_of config k)" if "k \<noteq> ''mcpServers''"
    using r that by (simp add: map_of_update)
  show j: "jget (read_config host fs') ''mcpServers'' = canon (JObj servers)"
    using r [of "''mcpServers''"] by (simp add: map_of_update jget_def jopt_def)
  show "map_of (servers_of (read_config host fs')) k = map_option canon (map_of servers k)"
    using map_of_canon_obj [of servers k] assms(3) by (simp add: servers_of_def j)
qed

lemma connected_servers: "is_connected host fs \<longleftrightarrow> map_of (servers_of (read_config host fs)) SERVER_KEY \<noteq> None"
  by (auto simp: is_connected_def servers_of_def keys_iff split: json.splits)

text \<open>The file system after a connection that was made.\<close>

lemma connect_Inr:
  assumes "connect host spec fs = (Inr told, fs')"
  shows "write_config host (AList.update ''mcpServers'' (JObj (AList.update SERVER_KEY (JObj spec)
      (servers_of (read_config host fs)))) (read_config host fs)) fs = (Inr (), fs')"
  using assms by (auto simp: connect_def Let_def split: prod.splits sum.splits)

lemma disconnect_after_connect:
  assumes "connect host spec fs = (Inr told, fs1)" and "is_connected host fs1"
  obtains fs2 where "disconnect host fs1 = (Inr ''removed'', fs2)"
    "write_config host (AList.update ''mcpServers'' (JObj (AList.delete SERVER_KEY (servers_of (read_config host fs1))))
      (read_config host fs1)) fs1 = (Inr (), fs2)"
proof -
  have "CHR 0x00 \<notin> set (dirname (mh_config_path host))"
    using connect_Inr [OF assms(1)] by (auto simp: write_config_def makedirs_def split: if_splits)
  then obtain fs2 where w: "write_config host (AList.update ''mcpServers'' (JObj (AList.delete SERVER_KEY
      (servers_of (read_config host fs1)))) (read_config host fs1)) fs1 = (Inr (), fs2)"
    by (simp add: write_config_def makedirs_def)
  then show thesis using that assms(2)
    by (auto simp: disconnect_def is_connected_def servers_of_def Let_def split: json.splits)
qed

lemma wf_delete: "wf_json (JObj d) \<Longrightarrow> wf_json (JObj (AList.delete k d))"
  by (auto simp: wf_dict_def AList.delete_eq distinct_map_filter)


definition example_host :: mcp_host where
  "example_host = \<lparr>mh_key = ''cursor'', mh_display_name = ''Cursor'', mh_config_path = ''/u/.cursor/mcp.json'', mh_note = []\<rparr>"

definition example_config :: "json dict" where
  "example_config = [(''mcpServers'', JObj [(''other'', JObj [])]), (''theme'', JInt 1)]"

definition example_host_fs :: fsys where
  "example_host_fs = empty_fs\<lparr>files := [''/u/.cursor/mcp.json'' \<mapsto> file_text example_config]\<rparr>"

lemma read_example_config: "read_config example_host example_host_fs = example_config"
  using json_load_file_text(1) [of example_config]
  by (simp add: read_config_def example_host_def example_host_fs_def) (simp add: example_config_def wf_dict_def)

lemma example_config_simps:
  "map_of example_config ''theme'' = Some (JInt 1)" "servers_of example_config = [(''other'', JObj [])]"
  by (simp_all add: example_config_def servers_of_def jget_def jopt_def)


text \<open>
  A defect: a file that is no JSON to the reader, a list for instance or JSON with comments, counts as an
  empty configuration, and connecting then replaces it, so that every other server in it is lost.
\<close>

lemma unreadable_config_is_replaced:
  assumes "files fs (mh_config_path host) = Some bytes" and "json_load_sig bytes = Inl e"
    and "connect host spec fs = (Inr told, fs')"
  shows "files fs' (mh_config_path host) = Some (file_text [(''mcpServers'', JObj [(SERVER_KEY, JObj spec)])])"
proof -
  have "read_config host fs = []" using assms(1,2) by (simp add: read_config_def)
  then show ?thesis using connect_Inr [OF assms(3)]
    by (auto simp: write_config_def servers_of_def jget_def jopt_def split: prod.splits sum.splits)
qed

end
