(* ===== verification/Screens.thy ===== *)
theory Screens
  imports Consumer Menu Connect Inspector Signed_Auth
begin

text \<open>
  The forms a user fills in: the permissions editor (\<^verbatim>\<open>consumer/permissions.py\<close>), the authoring form of
  the policy (\<^verbatim>\<open>authoring/policy_form.py\<close>) and what is behind the screens of the desktop program
  (\<^verbatim>\<open>app/model.py\<close>). Input is a list of lines, and its end is the \<^verbatim>\<open>EOFError\<close> of \<^verbatim>\<open>input\<close>; output is the
  list of what is printed. What \<^verbatim>\<open>isdigit\<close> and \<^verbatim>\<open>int\<close> make of characters beyond ASCII, and \<^verbatim>\<open>repr\<close>, are
  parameters.
\<close>

section \<open>The permissions screen\<close>

definition LABEL :: "(string \<times> string) list" where
  "LABEL = [(ALLOW, ''Allow''), (ASK, ''Ask each time''), (BLOCK, ''Block'')]"

definition CHOICE :: "(string \<times> string) list" where
  "CHOICE = [(''a'', ALLOW), (''s'', ASK), (''b'', BLOCK)]"

definition state_label :: "string \<Rightarrow> exn + string" where
  "state_label st = (case map_of LABEL st of None \<Rightarrow> Inl KeyError | Some l \<Rightarrow> Inr l)"

text \<open>\<^verbatim>\<open>"{:<n}".format(s)\<close>\<close>

definition pad :: "nat \<Rightarrow> string \<Rightarrow> string" where
  "pad n s = s @ replicate (n - length (code_points s)) CHR '' ''"

definition ordered_caps :: "catalog \<Rightarrow> capability list" where
  "ordered_caps catalog = sort_key c_id (map snd catalog)"

definition permission_lines :: "prefs \<Rightarrow> nat \<times> capability \<Rightarrow> exn + string list" where
  "permission_lines p icap =
     (case icap of (i, cap) \<Rightarrow>
        bind_res (state_label (effective_state p cap)) (\<lambda>label. Inr
          [''  '' @ string_of_nat i @ ''. '' @ pad 28 (c_id cap) @ '' risk:'' @ pad 5 (c_risk_class cap) @ '' -> '' @ label @
             (if (case explicit p (c_id cap) of None \<Rightarrow> False | Some st \<Rightarrow> st \<noteq> []) then [] else ''  (default)''),
           ''       '' @ c_name cap]))"

definition render_permissions :: "catalog \<Rightarrow> prefs \<Rightarrow> exn + string" where
  "render_permissions catalog p =
     bind_res (map_res (permission_lines p) (enumerate 1 (ordered_caps catalog)))
       (\<lambda>ls. Inr (join [CHR 0x0A] ([''Your agent's permissions'', []] @ concat ls)))"

section \<open>The editor\<close>

record unicode =
  un_isdigit :: "string \<Rightarrow> bool"
  un_int :: "string \<Rightarrow> int option"

definition py_isdigit :: "unicode \<Rightarrow> string \<Rightarrow> bool" where
  "py_isdigit U s = (if ascii s then s \<noteq> [] \<and> list_all is_digit s else un_isdigit U s)"

text \<open>\<^verbatim>\<open>int(s)\<close> on what \<open>py_isdigit\<close> accepts; \<open>None\<close> is the \<^verbatim>\<open>ValueError\<close>.\<close>

definition digits_int :: "unicode \<Rightarrow> string \<Rightarrow> int option" where
  "digits_int U s = (if ascii s then Some (int (nat_of_digits s)) else un_int U s)"

text \<open>One round of the loop, on the line read and the lines that follow.\<close>

datatype round = Save | Fails exn | Again "string list" prefs "string list"

definition edit_round :: "unicode \<Rightarrow> catalog \<Rightarrow> string \<Rightarrow> string list \<Rightarrow> prefs \<Rightarrow> round" where
  "edit_round U catalog l ls p =
     (let raw = strip l; caps = ordered_caps catalog in
      if raw = [] then Save
      else if \<not> py_isdigit U raw then Again ls p [''  (not a listed number)'']
      else (case digits_int U raw of
        None \<Rightarrow> Fails ValueError
      | Some i \<Rightarrow>
          if \<not> (1 \<le> i \<and> i \<le> int (length caps)) then Again ls p [''  (not a listed number)'']
          else (case ls of
            [] \<Rightarrow> Fails EOFError
          | c # ls' \<Rightarrow>
              (case map_of CHOICE (map lower_char (strip c)) of
                 None \<Rightarrow> Again ls' p [''  (unchanged)'']
               | Some st \<Rightarrow>
                   (case set_pref (c_id (caps ! (nat i - 1))) st p of
                      Inl e \<Rightarrow> Fails e | Inr p1 \<Rightarrow> Again ls' p1 [])))))"

lemma edit_round_shorter: "edit_round U catalog l ls p = Again ls' p1 told \<Longrightarrow> length ls' \<le> length ls"
  by (auto simp: edit_round_def Let_def split: if_splits option.splits list.splits sum.splits)

text \<open>The loop: the exception or the preferences at the end, and what was printed.\<close>

function edit_loop :: "unicode \<Rightarrow> catalog \<Rightarrow> string list \<Rightarrow> prefs \<Rightarrow> (exn + prefs) \<times> string list" where
  "edit_loop U catalog ls p =
     (case render_permissions catalog p of
        Inl e \<Rightarrow> (Inl e, [])
      | Inr screen \<Rightarrow>
          (case ls of
             [] \<Rightarrow> (Inl EOFError, [screen, []])
           | l # ls1 \<Rightarrow>
               (case edit_round U catalog l ls1 p of
                  Save \<Rightarrow> (Inr p, [screen, []])
                | Fails e \<Rightarrow> (Inl e, [screen, []])
                | Again ls2 p1 told \<Rightarrow>
                    (case edit_loop U catalog ls2 p1 of (r, out) \<Rightarrow> (r, [screen, []] @ told @ out)))))"
  by pat_completeness auto
termination by (relation "measure (\<lambda>(U, catalog, ls, p). length ls)") (auto dest!: edit_round_shorter)

declare edit_loop.simps [simp del]

definition default_prefs_path :: "runtime_paths \<Rightarrow> string \<Rightarrow> string" where
  "default_prefs_path rt cwd_path =
     (case rt_preferences_path rt of None \<Rightarrow> cwd_path | Some p \<Rightarrow> if p = [] then cwd_path else p)"

definition permissions_main ::
  "unicode \<Rightarrow> catalog \<Rightarrow> string \<Rightarrow> string list \<Rightarrow> fsys \<Rightarrow> (exn + int \<times> string list) \<times> fsys" where
  "permissions_main U catalog path inputs fs =
     (case load_prefs path fs of
        Inl e \<Rightarrow> (Inl e, fs)
      | Inr p \<Rightarrow>
          (case edit_loop U catalog inputs p of
             (Inl e, out) \<Rightarrow> (Inl e, fs)
           | (Inr p1, out) \<Rightarrow>
               (case save_prefs (Some path) p1 fs of
                  (Inl e, fs1) \<Rightarrow> (Inl e, fs1)
                | (Inr saved, fs1) \<Rightarrow> (Inr (0, out @ [''saved '' @ saved]), fs1))))"

section \<open>The authoring form\<close>

definition DEFAULT_ROLE :: string where "DEFAULT_ROLE = ''account_manager''"
definition DEFAULT_CAPABILITY :: string where "DEFAULT_CAPABILITY = ''cap.email.draft_reply.v1''"
definition DEFAULT_RATE :: int where "DEFAULT_RATE = 5"

definition emit_policy_bytes :: "string \<Rightarrow> string list \<Rightarrow> int \<Rightarrow> string" where
  "emit_policy_bytes role allowed_capabilities rate_limit_per_hour =
     dumps indent2_style 0 (JObj [(''policies'', JArr [JObj
       [(''role'', JStr role), (''allowed_capabilities'', JArr (map JStr allowed_capabilities)),
        (''rate_limit_per_hour'', JInt rate_limit_per_hour)]])]) @ [CHR 0x0A]"

definition prompt :: "string \<Rightarrow> string list \<Rightarrow> exn + string \<times> string list" where
  "prompt usual inputs =
     (case inputs of
        [] \<Rightarrow> Inl EOFError
      | l # ls \<Rightarrow> Inr (if strip l = [] then usual else strip l, ls))"

definition policy_form_main ::
  "(string \<Rightarrow> string) \<Rightarrow> string \<Rightarrow> string list \<Rightarrow> fsys \<Rightarrow> (exn + int \<times> string list) \<times> fsys" where
  "policy_form_main repr policy_path inputs fs =
     (case bind_res (prompt DEFAULT_ROLE inputs) (\<lambda>(role, ls1).
           bind_res (prompt DEFAULT_CAPABILITY ls1) (\<lambda>(capability, ls2).
           bind_res (prompt (string_of_int DEFAULT_RATE) ls2) (\<lambda>(rate_raw, _). Inr (role, capability, rate_raw)))) of
        Inl e \<Rightarrow> (Inl e, fs)
      | Inr (role, capability, rate_raw) \<Rightarrow>
          (let (rate, told) = (case py_int rate_raw of
                 None \<Rightarrow> (DEFAULT_RATE, [''invalid rate '' @ repr rate_raw @ ''; using default '' @ string_of_int DEFAULT_RATE])
               | Some rate \<Rightarrow> (rate, []));
               data = emit_policy_bytes role [capability] rate
           in (Inr (0, told @ [''wrote '' @ policy_path @ '' ('' @ string_of_nat (length data) @ '' bytes)'']),
               write_file policy_path data fs)))"

section \<open>The desktop program\<close>

record app_model =
  am_home :: string
  am_prefs :: prefs

definition new_app_model :: "string \<Rightarrow> fsys \<Rightarrow> exn + app_model" where
  "new_app_model home fs =
     bind_res (load_prefs (preferences_path home) fs) (\<lambda>p. Inr \<lparr>am_home = home, am_prefs = p\<rparr>)"

definition permission_row :: "prefs \<Rightarrow> capability \<Rightarrow> exn + json dict" where
  "permission_row p cap =
     (let st = effective_state p cap in
      bind_res (state_label st) (\<lambda>label. Inr
        [(''id'', JStr (c_id cap)), (''name'', JStr (c_name cap)), (''risk'', JStr (c_risk_class cap)),
         (''state'', JStr st), (''state_label'', JStr label), (''is_default'', JBool (explicit p (c_id cap) = None))]))"

definition permission_rows :: "catalog \<Rightarrow> app_model \<Rightarrow> exn + json dict list" where
  "permission_rows catalog M = map_res (permission_row (am_prefs M)) (ordered_caps catalog)"

definition set_permission :: "string \<Rightarrow> string \<Rightarrow> app_model \<Rightarrow> fsys \<Rightarrow> (exn + string) \<times> app_model \<times> fsys" where
  "set_permission capability_id st M fs =
     (case set_pref capability_id st (am_prefs M) of
        Inl e \<Rightarrow> (Inl e, M, fs)
      | Inr p \<Rightarrow>
          (case save_prefs (Some (preferences_path (am_home M))) p fs of
             (r, fs1) \<Rightarrow> (r, M\<lparr>am_prefs := p\<rparr>, fs1)))"

definition load_public_key :: "os \<Rightarrow> string \<Rightarrow> fsys \<Rightarrow> pem_file option" where
  "load_public_key W home fs =
     (case files fs (public_key_path home) of
        None \<Rightarrow> None
      | Some bytes \<Rightarrow> (case load_pem W bytes of Pem_unreadable \<Rightarrow> None | key \<Rightarrow> Some key))"

definition empty_report :: "json dict" where
  "empty_report = [(''empty'', JBool True), (''fulfilled'', JInt 0), (''rejected'', JInt 0), (''findings'', JArr []),
     (''chain_valid'', JBool True)]"

text \<open>The report, where the ledger exists; the rows of its table are an argument.\<close>

definition ledger_report :: "crypto \<Rightarrow> (string \<Rightarrow> string) \<Rightarrow> os \<Rightarrow> table \<Rightarrow> app_model \<Rightarrow> fsys \<Rightarrow> load_error + bool \<times> report" where
  "ledger_report C repr W t M fs =
     bind_res (lift (read_rows t)) (\<lambda>rows.
     bind_res (build_report C repr (load_public_key W (am_home M) fs) rows) (\<lambda>r. Inr (rows = [], r)))"

definition activity_report :: "crypto \<Rightarrow> (string \<Rightarrow> string) \<Rightarrow> os \<Rightarrow> table \<Rightarrow> app_model \<Rightarrow> fsys \<Rightarrow> load_error + json dict" where
  "activity_report C repr W t M fs =
     (if \<not> path_exists fs (ledger_path (am_home M)) then Inr empty_report
      else bind_res (ledger_report C repr W t M fs) (\<lambda>(empty, r). Inr (report_json r @ [(''empty'', JBool empty)])))"

definition no_activity :: string where
  "no_activity = ''No activity yet. When your AI uses a tool, every action '' @ em_dash @ '' '' @
     ''allowed or refused '' @ em_dash @ '' will show up here with a verifiable '' @ ''receipt.''"

definition activity_text :: "crypto \<Rightarrow> (string \<Rightarrow> string) \<Rightarrow> os \<Rightarrow> table \<Rightarrow> app_model \<Rightarrow> fsys \<Rightarrow> load_error + string" where
  "activity_text C repr W t M fs =
     (if \<not> path_exists fs (ledger_path (am_home M)) then Inr no_activity
      else bind_res (ledger_report C repr W t M fs) (\<lambda>(empty, r).
        if empty \<and> rp_fulfilled r = 0 \<and> rp_rejected r = 0 \<and> rp_findings r = [] then Inr no_activity
        else lift (render_text r)))"

section \<open>Properties\<close>

lemma label_valid: "st \<in> set STATES \<Longrightarrow> \<exists>l. state_label st = Inr l"
  by (auto simp: state_label_def LABEL_def states)

lemma map_res_total: "(\<And>x. x \<in> set xs \<Longrightarrow> \<exists>y. f x = Inr y) \<Longrightarrow> \<exists>ys. map_res f xs = Inr ys"
  by (induction xs) (auto, fastforce)

lemma render_returns: "valid_prefs p \<Longrightarrow> \<exists>screen. render_permissions catalog p = Inr screen"
proof -
  assume v: "valid_prefs p"
  have "\<exists>ls. permission_lines p icap = Inr ls" for icap
  proof (cases icap)
    case (Pair i cap)
    obtain l where "state_label (effective_state p cap) = Inr l"
      using effective_valid [OF v, of cap] label_valid [of "effective_state p cap"] by (auto simp: STATES_def)
    then show ?thesis by (simp add: Pair permission_lines_def)
  qed
  then obtain lss where "map_res (permission_lines p) (enumerate 1 (ordered_caps catalog)) = Inr lss"
    using map_res_total [of "enumerate 1 (ordered_caps catalog)" "permission_lines p"] by auto
  then show ?thesis by (simp add: render_permissions_def)
qed

text \<open>Only the settings of listed capabilities differ.\<close>

definition edited :: "catalog \<Rightarrow> prefs \<Rightarrow> prefs \<Rightarrow> bool" where
  "edited catalog p q \<longleftrightarrow> valid_prefs q \<and> pf_path q = pf_path p \<and>
     (\<forall>k. map_of (pf_settings q) k \<noteq> map_of (pf_settings p) k \<longrightarrow> k \<in> c_id ` snd ` set catalog)"

lemma edited_refl: "valid_prefs p \<Longrightarrow> edited catalog p p"
  by (simp add: edited_def)

lemma edited_set:
  assumes "set_pref (c_id (ordered_caps catalog ! i)) st p = Inr p1" and "i < length (ordered_caps catalog)"
    and "valid_prefs p" and "edited catalog p1 q"
  shows "edited catalog p q"
proof -
  have "ordered_caps catalog ! i \<in> snd ` set catalog"
    using nth_mem [OF assms(2)] by (simp add: ordered_caps_def)
  then have "c_id (ordered_caps catalog ! i) \<in> c_id ` snd ` set catalog" by (rule imageI)
  moreover have "pf_path p1 = pf_path p"
    "map_of (pf_settings p1) k = (if k = c_id (ordered_caps catalog ! i) then Some st else map_of (pf_settings p) k)" for k
    using assms(1) by (auto simp: set_pref_def map_of_update split: if_splits)
  ultimately show ?thesis using assms(4) unfolding edited_def by (metis (no_types, lifting))
qed

lemma edit_round_Again:
  assumes "edit_round U catalog l ls p = Again ls' p1 told" and "valid_prefs p"
  shows "valid_prefs p1" and "edited catalog p1 q \<Longrightarrow> edited catalog p q"
    and "ls' = ls \<or> (\<exists>c. ls = c # ls')"
proof -
  have "(p1 = p \<or> (\<exists>i st. i < length (ordered_caps catalog) \<and> set_pref (c_id (ordered_caps catalog ! i)) st p = Inr p1)) \<and>
      (ls' = ls \<or> (\<exists>c. ls = c # ls'))"
    using assms(1)
    by (auto simp: edit_round_def Let_def split: if_splits option.splits list.splits sum.splits)
  then show "valid_prefs p1" "edited catalog p1 q \<Longrightarrow> edited catalog p q" "ls' = ls \<or> (\<exists>c. ls = c # ls')"
    using assms(2) valid_set edited_set by metis+
qed

lemma edit_loop_edits:
  "edit_loop U catalog ls p = (Inr q, out) \<Longrightarrow> valid_prefs p \<Longrightarrow> edited catalog p q"
proof (induction U catalog ls p arbitrary: q out rule: edit_loop.induct)
  case (1 U catalog ls p)
  obtain screen where s: "render_permissions catalog p = Inr screen" using render_returns [OF "1.prems"(2)] by blast
  show ?case
  proof (cases ls)
    case (Cons l ls1)
    show ?thesis
    proof (cases "edit_round U catalog l ls1 p")
      case (Again ls2 p1 told)
      obtain r1 out1 where r1: "edit_loop U catalog ls2 p1 = (r1, out1)" by fastforce
      then have "r1 = Inr q" using "1.prems"(1) s Cons Again by (subst (asm) (2) edit_loop.simps) simp
      then show ?thesis using "1.IH" [OF s Cons Again] r1 edit_round_Again [OF Again "1.prems"(2)] by blast
    qed (use "1.prems" s Cons edited_refl in \<open>subst (asm) edit_loop.simps; simp\<close>)+
  qed (use "1.prems" s in \<open>subst (asm) edit_loop.simps; simp\<close>)
qed

text \<open>Input on which the loop comes to an end: a blank line now, or two in a row later.\<close>

definition ends_edit :: "string list \<Rightarrow> bool" where
  "ends_edit ls \<longleftrightarrow> (\<exists>c rest. ls = c # rest \<and> strip c = []) \<or>
     (\<exists>a b c rest. ls = a @ b # c # rest \<and> strip b = [] \<and> strip c = [])"

lemma ends_edit_Cons:
  assumes "ends_edit (l # ls)" and "strip l \<noteq> []"
  shows "ls \<noteq> []" and "ends_edit ls" and "ls = c # ls' \<Longrightarrow> ends_edit ls'"
proof -
  obtain a b c rest where l: "l # ls = a @ b # c # rest" "strip b = []" "strip c = []"
    using assms by (auto simp: ends_edit_def)
  then obtain a' where a: "a = l # a'" "ls = a' @ b # c # rest" using assms(2) by (cases a) auto
  then show "ls \<noteq> []" by simp
  show "ends_edit ls" using l(2,3) unfolding a(2) ends_edit_def by blast
  show "ends_edit ls'" if "ls = c' # ls'" for c'
  proof (cases a')
    case Nil
    then have "ls' = c # rest" using that a(2) by simp
    then show ?thesis using l(3) unfolding ends_edit_def by blast
  next
    case (Cons x xs)
    then have "ls' = xs @ b # c # rest" using that a(2) by simp
    then show ?thesis using l(2,3) unfolding ends_edit_def by blast
  qed
qed

lemma edit_round_no_fail:
  assumes "ascii (strip l)" and "ls \<noteq> []"
  shows "edit_round U catalog l ls p \<noteq> Fails e"
proof -
  have "set_pref k st q = Inl e \<Longrightarrow> map_of CHOICE x = Some st \<Longrightarrow> False" for k st q x
    by (auto simp: set_pref_def CHOICE_def states split: if_splits)
  then show ?thesis using assms
    by (auto simp: edit_round_def digits_int_def Let_def split: list.splits option.splits sum.splits)
qed

lemma edit_loop_ends:
  "ends_edit ls \<Longrightarrow> valid_prefs p \<Longrightarrow> \<forall>l \<in> set ls. ascii (strip l) \<Longrightarrow> \<exists>q out. edit_loop U catalog ls p = (Inr q, out)"
proof (induction U catalog ls p rule: edit_loop.induct)
  case (1 U catalog ls p)
  obtain screen where s: "render_permissions catalog p = Inr screen" using render_returns [OF "1.prems"(2)] by blast
  obtain l ls1 where ls: "ls = l # ls1" using "1.prems"(1) by (cases ls) (auto simp: ends_edit_def)
  show ?case
  proof (cases "edit_round U catalog l ls1 p")
    case Save
    then show ?thesis using s ls by (subst edit_loop.simps) simp
  next
    case (Fails e)
    have "strip l \<noteq> []" using Fails by (auto simp: edit_round_def)
    then have "ls1 \<noteq> []" using ends_edit_Cons(1) "1.prems"(1) ls by blast
    then show ?thesis using edit_round_no_fail Fails "1.prems"(3) ls by auto
  next
    case (Again ls2 p1 told)
    have "strip l \<noteq> []" using Again by (auto simp: edit_round_def)
    note e = ends_edit_Cons [OF "1.prems"(1) [unfolded ls] this]
    note r = edit_round_Again [OF Again "1.prems"(2)]
    have "ends_edit ls2" "\<forall>l \<in> set ls2. ascii (strip l)" using r(3) e(2,3) "1.prems"(3) ls by auto
    then obtain q out where "edit_loop U catalog ls2 p1 = (Inr q, out)" using "1.IH" [OF s ls Again] r(1) by blast
    then show ?thesis using s ls Again by (subst edit_loop.simps) simp
  qed
qed

lemma load_prefs_new: "load_prefs path fs = Inr p \<Longrightarrow> \<exists>j. new_prefs j (Some path) = Inr p"
  by (auto simp: load_prefs_def bind_res_Inr split: option.splits)


definition ascii_only :: unicode where
  "ascii_only = \<lparr>un_isdigit = (\<lambda>s. False), un_int = (\<lambda>s. None)\<rparr>"

definition example_catalog :: catalog where
  "example_catalog = [(''gmail.draft_reply'', example_capability)]"

definition example_inputs :: "string list" where
  "example_inputs = [''1'', ''b'', [], []]"

lemma example_inputs_facts: "\<forall>l \<in> set example_inputs. ascii (strip l)" "ends_edit example_inputs"
proof -
  have s: "strip ''1'' = ''1''" "strip ''b'' = ''b''" "strip [] = []"
    by (rule strip_ascii_word; simp add: is_space_def)+
  then show "\<forall>l \<in> set example_inputs. ascii (strip l)" by (simp add: example_inputs_def)
  show "ends_edit example_inputs"
    unfolding ends_edit_def example_inputs_def
    using s(3) by (intro disjI2 exI [of _ "[''1'', ''b'']"] exI [of _ "[]"]) simp
qed


text \<open>The committed file \<^verbatim>\<open>policies/account_manager.json\<close>.\<close>

definition committed_policy :: string where
  "committed_policy = join [CHR 0x0A]
     [''{'', ''  \"policies\": ['', ''    {'', ''      \"role\": \"account_manager\",'',
      ''      \"allowed_capabilities\": ['', ''        \"cap.email.draft_reply.v1\"'', ''      ],'',
      ''      \"rate_limit_per_hour\": 5'', ''    }'', ''  ]'', ''}'', []]"

lemma emitted_loads:
  "load_policy_set [(name @ ''.json'', emit_policy_bytes role caps rate)] =
     Inr [\<lparr>p_role = role, p_allowed_capabilities = caps, p_rate_limit_per_hour = rate, p_paused_capabilities = []\<rparr>]"
proof -
  let ?entry = "JObj [(''role'', JStr role), (''allowed_capabilities'', JArr (map JStr caps)), (''rate_limit_per_hour'', JInt rate)]"
  have "wf_json (JObj [(''policies'', JArr [?entry])])" by (simp add: wf_dict_def)
  then have "json_loads (emit_policy_bytes role caps rate) = Some (JObj [(''policies'', JArr [?entry])])"
    unfolding emit_policy_bytes_def by (intro loads_dumps) (simp_all add: all_ws_def is_ws_def)
  moreover have "policy_of_entry ?entry =
      Inr \<lparr>p_role = role, p_allowed_capabilities = caps, p_rate_limit_per_hour = rate, p_paused_capabilities = []\<rparr>"
    by (simp add: policy_of_entry_def lift_def str_tuple_strings)
  moreover have "endswith (name @ ''.json'') ''.json''" by (simp add: endswith_def)
  ultimately show ?thesis
    by (simp add: load_policy_set_def policies_of_text_def loads_def lift_def)
qed

lemma emitted_default: "emit_policy_bytes DEFAULT_ROLE [DEFAULT_CAPABILITY] DEFAULT_RATE = committed_policy"
  by code_simp

text \<open>
  The form writes what the engine reads: whatever role, capability and rate are typed, the cashier's
  loader reads the file the form writes as the one policy with exactly these; on the defaults, the form
  writes the committed file, byte for byte. A rate that is no number becomes the default.
\<close>

theorem authored_policy_loads:
  "emit_policy_bytes DEFAULT_ROLE [DEFAULT_CAPABILITY] DEFAULT_RATE = committed_policy \<and>
   (\<exists>told data. policy_form_main repr (name @ ''.json'') (l1 # l2 # l3 # ls) fs =
        (Inr (0, told), write_file (name @ ''.json'') data fs) \<and>
      load_policy_set [(name @ ''.json'', data)] =
        Inr [\<lparr>p_role = (if strip l1 = [] then DEFAULT_ROLE else strip l1),
          p_allowed_capabilities = [if strip l2 = [] then DEFAULT_CAPABILITY else strip l2],
          p_rate_limit_per_hour =
            (case py_int (if strip l3 = [] then string_of_int DEFAULT_RATE else strip l3) of
               None \<Rightarrow> DEFAULT_RATE | Some n \<Rightarrow> n),
          p_paused_capabilities = []\<rparr>])"
proof (intro conjI)
  show "emit_policy_bytes DEFAULT_ROLE [DEFAULT_CAPABILITY] DEFAULT_RATE = committed_policy" by (rule emitted_default)
  let ?raw = "if strip l3 = [] then string_of_int DEFAULT_RATE else strip l3"
  have "\<exists>told. policy_form_main repr (name @ ''.json'') (l1 # l2 # l3 # ls) fs =
      (Inr (0, told), write_file (name @ ''.json'')
        (emit_policy_bytes (if strip l1 = [] then DEFAULT_ROLE else strip l1)
          [if strip l2 = [] then DEFAULT_CAPABILITY else strip l2]
          (case py_int ?raw of None \<Rightarrow> DEFAULT_RATE | Some n \<Rightarrow> n)) fs)"
    by (cases "py_int ?raw") (simp_all add: policy_form_main_def prompt_def Let_def)
  then show "\<exists>told data. policy_form_main repr (name @ ''.json'') (l1 # l2 # l3 # ls) fs =
        (Inr (0, told), write_file (name @ ''.json'') data fs) \<and>
      load_policy_set [(name @ ''.json'', data)] =
        Inr [\<lparr>p_role = (if strip l1 = [] then DEFAULT_ROLE else strip l1),
          p_allowed_capabilities = [if strip l2 = [] then DEFAULT_CAPABILITY else strip l2],
          p_rate_limit_per_hour = (case py_int ?raw of None \<Rightarrow> DEFAULT_RATE | Some n \<Rightarrow> n),
          p_paused_capabilities = []\<rparr>]"
    using emitted_loads by blast
qed

end
