(* ===== verification/Microvm.thy ===== *)
theory Microvm
  imports Apphome
begin

text \<open>
  The rest of \<^verbatim>\<open>chef/microvm_sandbox.py\<close>, the run of an order in a virtual machine, and
  \<^verbatim>\<open>src/microvm/make_order.py\<close>, which prepares an order for such a machine by hand. What the commands of the
  system do (\<^verbatim>\<open>dd\<close>, \<^verbatim>\<open>mkfs.ext4\<close>, QEMU, \<^verbatim>\<open>debugfs\<close>) is a parameter; that they write below the directory made
  for the order is what the code relies on.
\<close>

section \<open>Steps\<close>

text \<open>One step after the other on the file system; an exception ends the sequence.\<close>

type_synonym 'a step = "fsys \<Rightarrow> (exn + 'a) \<times> fsys"

definition then_do :: "'a step \<Rightarrow> ('a \<Rightarrow> 'b step) \<Rightarrow> 'b step" where
  "then_do f g fs = (case f fs of (Inl e, fs1) \<Rightarrow> (Inl e, fs1) | (Inr x, fs1) \<Rightarrow> g x fs1)"

definition write_text :: "string \<Rightarrow> string \<Rightarrow> unit step" where
  "write_text path data fs = (Inr (), write_file path data fs)"

section \<open>Staging the disk\<close>

definition VM_GUEST_CHEF :: string where
  "VM_GUEST_CHEF = ''/opt/sentinel/sentinel_slice/chef/chef_main.py''"

text \<open>\<^verbatim>\<open>shutil.copyfile\<close>, and \<^verbatim>\<open>shutil.copytree\<close> to a directory that must not be there.\<close>

definition copyfile :: "string \<Rightarrow> string \<Rightarrow> unit step" where
  "copyfile src dst fs =
     (case files fs src of None \<Rightarrow> (Inl OSError, fs) | Some data \<Rightarrow> (Inr (), write_file dst data fs))"

definition copytree :: "string \<Rightarrow> string \<Rightarrow> unit step" where
  "copytree src dst fs =
     (if src \<notin> dirs fs \<or> dst \<in> dirs fs then (Inl OSError, fs)
      else (Inr (), fs\<lparr>
        files := (\<lambda>p. if startswith p (dst @ ''/'') then files fs (src @ drop (length dst) p) else files fs p),
        dirs := (\<lambda>d. dst @ drop (length src) d) ` Set.filter (\<lambda>d. d = src \<or> startswith d (src @ ''/'')) (dirs fs) \<union> dirs fs\<rparr>))"

definition guest_script :: string where
  "guest_script = ''python3 '' @ VM_GUEST_CHEF @ '' /io/pub.pem /io/fixtures /io/out '' @
     ''< /io/ticket.json'' @ nl @ ''echo chef_exit=$?'' @ nl"

definition stage_io :: "string \<Rightarrow> sandbox_spec \<Rightarrow> unit step" where
  "stage_io io_dir spec =
     then_do (makedirs (path_join io_dir ''out'')) (\<lambda>_.
     then_do (copyfile (sp_pubkey_path spec) (path_join io_dir ''pub.pem'')) (\<lambda>_.
     then_do (copytree (sp_fixtures_root spec) (path_join io_dir ''fixtures'')) (\<lambda>_.
     then_do (write_text (path_join io_dir ''ticket.json'') (sp_stdin spec)) (\<lambda>_.
       write_text (path_join io_dir ''run.sh'') guest_script))))"

section \<open>The run\<close>

text \<open>
  A command of the system, started for an order that works in a directory: its exit code, \<open>None\<close> where the
  time given to it runs out, or the exception that it does not start.
\<close>

type_synonym commands = "string \<Rightarrow> string list \<Rightarrow> int option step"

text \<open>\<^verbatim>\<open>subprocess.run(cmd, check=True)\<close>\<close>

definition run_checked :: "commands \<Rightarrow> string \<Rightarrow> string list \<Rightarrow> unit step" where
  "run_checked exec work cmd =
     then_do (exec work cmd) (\<lambda>code fs. (if code = Some 0 then Inr () else Inl SubprocessError, fs))"

definition disk_image :: "string \<Rightarrow> string" where "disk_image work = path_join work ''io.ext4''"
definition extracted :: "string \<Rightarrow> string" where "extracted work = path_join work ''output.txt''"

definition dd_command :: "string \<Rightarrow> string list" where
  "dd_command work = [''dd'', ''if=/dev/zero'', ''of='' @ disk_image work, ''bs=1M'', ''count=64'', ''status=none'']"

definition mkfs_command :: "string \<Rightarrow> string list" where
  "mkfs_command work = [''mkfs.ext4'', ''-q'', ''-d'', path_join work ''io'', disk_image work]"

definition debugfs_command :: "string \<Rightarrow> string list" where
  "debugfs_command work = [''debugfs'', ''-R'', ''dump /out/output.txt '' @ extracted work, disk_image work]"

text \<open>The virtual machine's exit code, 124 where its time runs out.\<close>

definition boot :: "commands \<Rightarrow> micro_vm \<Rightarrow> string \<Rightarrow> int step" where
  "boot exec K work =
     then_do (exec work (microvm_command K (disk_image work)))
       (\<lambda>code fs. (Inr (case code of None \<Rightarrow> 124 | Some rc \<Rightarrow> rc), fs))"

text \<open>What the disk gave becomes the order's draft; an empty file is none.\<close>

definition hand_over :: "string \<Rightarrow> sandbox_spec \<Rightarrow> int \<Rightarrow> int step" where
  "hand_over work spec rc fs =
     (if files fs (extracted work) = None \<or> files fs (extracted work) = Some []
      then (Inr (if rc = 0 then 1 else rc), fs)
      else then_do (makedirs (sp_out_dir spec)) (\<lambda>_.
           then_do (copyfile (extracted work) (path_join (sp_out_dir spec) ''output.txt'')) (\<lambda>_ fs1. (Inr 0, fs1))) fs)"

text \<open>What stands before the draft is handed over.\<close>

definition run_machine :: "commands \<Rightarrow> micro_vm \<Rightarrow> string \<Rightarrow> sandbox_spec \<Rightarrow> int step" where
  "run_machine exec K work spec =
     then_do (makedirs (path_join work ''io'')) (\<lambda>_.
     then_do (stage_io (path_join work ''io'') spec) (\<lambda>_.
     then_do (run_checked exec work (dd_command work)) (\<lambda>_.
     then_do (run_checked exec work (mkfs_command work)) (\<lambda>_.
     then_do (boot exec K work) (\<lambda>rc.
     then_do (exec work (debugfs_command work)) (\<lambda>_ fs. (Inr rc, fs)))))))"

text \<open>\<open>work\<close> is the name that \<^verbatim>\<open>mkdtemp\<close> picks.\<close>

definition microvm_run :: "host \<Rightarrow> commands \<Rightarrow> micro_vm \<Rightarrow> string \<Rightarrow> sandbox_run" where
  "microvm_run H exec K work spec fs =
     (if \<not> microvm_available H fs K then (Inl RuntimeError, fs)
      else (case then_do (run_machine exec K work spec) (hand_over work spec) (mkdtemp work fs) of (r, fs1) \<Rightarrow> (r, rmtree work fs1)))"

definition microvm_sandbox :: "host \<Rightarrow> commands \<Rightarrow> micro_vm \<Rightarrow> string \<Rightarrow> backend" where
  "microvm_sandbox H exec K work =
     \<lparr>b_run = microvm_run H exec K work, b_containment_class = Some ''microvm-kvm''\<rparr>"

section \<open>What the host sees of it\<close>

text \<open>What the code relies on: the commands write nowhere but below the directory made for the order.\<close>

definition commands_stay_below :: "commands \<Rightarrow> bool" where
  "commands_stay_below exec \<longleftrightarrow> (\<forall>work cmd fs r fs' p. exec work cmd fs = (r, fs') \<longrightarrow> \<not> below work p \<longrightarrow>
     files fs' p = files fs p)"

text \<open>A step that changes no file outside a directory.\<close>

definition keeps_outside :: "string \<Rightarrow> 'a step \<Rightarrow> bool" where
  "keeps_outside work f \<longleftrightarrow> (\<forall>fs r fs' p. f fs = (r, fs') \<longrightarrow> \<not> below work p \<longrightarrow> files fs' p = files fs p)"

lemma keeps_outsideD: "keeps_outside work f \<Longrightarrow> f fs = (r, fs') \<Longrightarrow> \<not> below work p \<Longrightarrow> files fs' p = files fs p"
  by (simp add: keeps_outside_def)

lemma keeps_then: "keeps_outside work f \<Longrightarrow> (\<And>x. keeps_outside work (g x)) \<Longrightarrow> keeps_outside work (then_do f g)"
  unfolding keeps_outside_def then_do_def by (fastforce split: prod.splits sum.splits)

lemma keeps_pure: "keeps_outside work (\<lambda>fs. (r, fs))"
  by (simp add: keeps_outside_def)

lemma keeps_makedirs: "keeps_outside work (makedirs d)"
  using makedirs_files by (simp add: keeps_outside_def)

lemma keeps_write: "below work p \<Longrightarrow> keeps_outside work (write_text p data)"
  by (auto simp: keeps_outside_def write_text_def)

lemma keeps_copyfile: "below work dst \<Longrightarrow> keeps_outside work (copyfile src dst)"
  by (auto simp: keeps_outside_def copyfile_def split: option.splits)

lemma below_trans:
  assumes "below a b" and "below b c"
  shows "below a c"
proof -
  have l: "length (comps a) \<le> length (comps b)"
    using arg_cong [OF assms(1) [unfolded below_def], of length] by simp
  have "take (length (comps a)) (comps c) = take (length (comps a)) (take (length (comps b)) (comps c))"
    using l by (simp add: min_absorb1)
  also have "\<dots> = comps a" using assms by (simp add: below_def)
  finally show ?thesis by (simp add: below_def)
qed

lemma below_joined: "\<not> startswith b ''/'' \<Longrightarrow> below a (path_join a b)"
  by (simp add: below_def comps_path_join)

lemma below_extended:
  assumes "below a d"
  shows "below a (d @ CHR ''/'' # r)"
proof (rule below_trans [OF assms])
  show "below d (d @ CHR ''/'' # r)" by (simp add: below_def comps_append_sep)
qed

lemma below_prefix:
  assumes "below a d" and "startswith p (d @ ''/'')"
  shows "below a p"
proof -
  have "p = take (length (d @ ''/'')) p @ drop (length (d @ ''/'')) p" by (simp only: append_take_drop_id)
  also have "take (length (d @ ''/'')) p = d @ ''/''" using assms(2) by (simp only: startswith_def)
  finally have "p = d @ CHR ''/'' # drop (length (d @ ''/'')) p" by simp
  then show ?thesis using below_extended [OF assms(1)] by metis
qed

lemma keeps_copytree:
  assumes "below work dst"
  shows "keeps_outside work (copytree src dst)"
  using below_prefix [OF assms] by (auto simp: copytree_def keeps_outside_def)

lemmas keeps_steps = keeps_then keeps_pure keeps_makedirs keeps_write keeps_copyfile keeps_copytree

lemma keeps_stage_io:
  assumes "below work io_dir"
  shows "keeps_outside work (stage_io io_dir spec)"
  unfolding stage_io_def by (intro keeps_steps below_trans [OF assms] below_joined) (simp_all add: startswith_def)

lemma keeps_run_machine:
  assumes "commands_stay_below exec"
  shows "keeps_outside work (run_machine exec K work spec)"
proof -
  have "keeps_outside work (exec work cmd)" for cmd
    using assms by (simp add: commands_stay_below_def keeps_outside_def)
  then show ?thesis
    unfolding run_machine_def run_checked_def boot_def
    by (intro keeps_then keeps_pure keeps_makedirs keeps_stage_io below_joined)
      (simp_all add: startswith_def keeps_outside_def)
qed



definition example_machine :: micro_vm where
  "example_machine =
     \<lparr>mv_rootfs = ''/vm/rootfs'', mv_kernel = ''/vm/kernel'', mv_initrd = None, mv_qemu = ''qemu-system-x86_64'', mv_memory_mb = 1024\<rparr>"

definition example_vm_host :: host where
  "example_vm_host = \<lparr>ho_platform = ''linux'', ho_which = (\<lambda>b. True), ho_executable = ''/usr/bin/python3''\<rparr>"

definition example_commands :: commands where
  "example_commands work cmd fs =
     (Inr (Some 0), if hd cmd = ''debugfs'' then write_file (extracted work) ''draft'' fs else fs)"

definition example_vm_spec :: sandbox_spec where
  "example_vm_spec =
     \<lparr>sp_chef_main = ''/chef_main.py'', sp_pubkey_path = ''/pub.pem'', sp_fixtures_root = ''/mail'',
      sp_out_dir = ''/out/o1'', sp_workspace = ''/ws'', sp_stdin = ''{}''\<rparr>"

definition example_vm_fs :: fsys where
  "example_vm_fs =
     \<lparr>files = [''/vm/rootfs'' \<mapsto> ''image'', ''/vm/kernel'' \<mapsto> ''kernel'', ''/pub.pem'' \<mapsto> ''sk'', ''/dev/kvm'' \<mapsto> []],
      dirs = {''/mail''}, trace = []\<rparr>"

lemma example_commands_stay_below: "commands_stay_below example_commands"
  unfolding commands_stay_below_def example_commands_def extracted_def
  using below_joined [of "''output.txt''"] by (auto simp: startswith_def)

lemma example_vm_run: "fst (microvm_run example_vm_host example_commands example_machine ''/tmp/vm'' example_vm_spec example_vm_fs) = Inr 0"
proof -
  have p: "path_join ''/tmp/vm'' ''io'' = ''/tmp/vm/io''" "path_join ''/tmp/vm/io'' ''fixtures'' = ''/tmp/vm/io/fixtures''"
    "path_join ''/tmp/vm/io'' ''out'' = ''/tmp/vm/io/out''" "path_join ''/tmp/vm/io'' ''pub.pem'' = ''/tmp/vm/io/pub.pem''"
    by (simp_all add: path_join_def startswith_def endswith_def)
  have c: "hd (dd_command w) \<noteq> ''debugfs''" "hd (mkfs_command w) \<noteq> ''debugfs''" "hd (debugfs_command w) = ''debugfs''"
    "hd (microvm_command example_machine w) \<noteq> ''debugfs''" for w
    by (simp_all add: dd_command_def mkfs_command_def debugfs_command_def microvm_command_def example_machine_def)
  have a: "microvm_available example_vm_host example_vm_fs example_machine"
    by (simp add: microvm_available_def example_vm_host_def example_vm_fs_def example_machine_def startswith_def path_exists_def)
  show ?thesis
    using a by (simp add: microvm_run_def run_machine_def then_do_def stage_io_def run_checked_def boot_def hand_over_def
        example_commands_def c p makedirs_def copyfile_def copytree_def write_text_def mkdtemp_def
        example_vm_spec_def example_vm_fs_def)
qed


section \<open>An order made by hand\<close>

definition made_signable :: "json dict" where
  "made_signable =
     [(''ticket_id'', JStr ''tkt-microvm''), (''order_id'', JStr ''ord-microvm''),
      (''capability_id'', JStr ''cap.email.draft_reply.v1''), (''behavior'', JStr ''draft_reply''),
      (''behavior_config'', JObj []), (''scoped_args'', JObj [(''thread_id'', JStr ''user.kenji/t-001'')]),
      (''issued_ts'', JStr ''2026-06-14T00:00:00+00:00'')]"

definition made_wire :: "crypto \<Rightarrow> string \<Rightarrow> json dict" where
  "made_wire C priv =
     made_signable @ [(''cashier_sig'', JStr (b64encode (ed_sign C priv (canonical_bytes (JObj made_signable)))))]"

text \<open>\<open>priv\<close> is the new key, \<open>pem\<close> the file of its public half.\<close>

definition make_order :: "crypto \<Rightarrow> string \<Rightarrow> string \<Rightarrow> string \<Rightarrow> string \<Rightarrow> string step" where
  "make_order C priv pem io_dir fixture_src =
     then_do (makedirs io_dir) (\<lambda>_.
     then_do (write_text (path_join io_dir ''pub.pem'') pem) (\<lambda>_.
     then_do (write_text (path_join io_dir ''ticket.json'') (dumps default_style 0 (JObj (made_wire C priv)))) (\<lambda>_.
     (let dst = path_join (path_join io_dir ''fixtures'') ''user.kenji'' in
      then_do (makedirs dst) (\<lambda>_.
      then_do (copyfile fixture_src (path_join dst ''t-001.txt'')) (\<lambda>_.
      then_do (makedirs (path_join io_dir ''out'')) (\<lambda>_ fs.
        (Inr (''wrote pub.pem, ticket.json, fixtures/user.kenji/t-001.txt, out/ into '' @ io_dir), fs))))))))"

text \<open>The ticket it stands for.\<close>

definition made_ticket :: "crypto \<Rightarrow> string \<Rightarrow> ticket" where
  "made_ticket C priv =
     \<lparr>t_ticket_id = ''tkt-microvm'', t_order_id = ''ord-microvm'', t_capability_id = ''cap.email.draft_reply.v1'',
      t_behavior = ''draft_reply'', t_behavior_config = [], t_scoped_args = [(''thread_id'', JStr ''user.kenji/t-001'')],
      t_issued_ts = ''2026-06-14T00:00:00+00:00'', t_cashier_sig = ed_sign C priv (canonical_bytes (JObj made_signable))\<rparr>"

lemma made_ticket_signable: "ticket_signable_dict (made_ticket C priv) = made_signable"
  by (simp add: made_ticket_def made_signable_def ticket_signable_dict_def)

lemma made_ticket_payload: "payload (made_ticket C priv) = dumps default_style 0 (JObj (made_wire C priv))"
  by (simp add: payload_def wire_def made_ticket_def made_wire_def made_signable_def)

lemma made_paths:
  "path_join io_dir ''pub.pem'' = folder io_dir @ ''pub.pem''" "path_join io_dir ''ticket.json'' = folder io_dir @ ''ticket.json''"
  "path_join io_dir ''fixtures'' = folder io_dir @ ''fixtures''" "path_join io_dir ''out'' = folder io_dir @ ''out''"
  "path_join (folder io_dir @ ''fixtures'') ''user.kenji'' = folder io_dir @ ''fixtures/user.kenji''"
  "path_join (folder io_dir @ ''fixtures/user.kenji'') ''t-001.txt'' = folder io_dir @ ''fixtures/user.kenji/t-001.txt''"
  by (simp_all add: path_join_below startswith_def) (simp_all add: folder_def [of "_ @ _"] endswith_def)

lemma make_order_files:
  assumes "make_order C priv pem io_dir fixture_src fs = (Inr told, fs')"
  shows "files fs' (path_join io_dir ''pub.pem'') = Some pem"
    and "files fs' (path_join io_dir ''ticket.json'') = Some (payload (made_ticket C priv))"
    and "fixture_src \<notin> {path_join io_dir ''pub.pem'', path_join io_dir ''ticket.json''} \<Longrightarrow>
      files fs' (path_join (path_join (path_join io_dir ''fixtures'') ''user.kenji'') ''t-001.txt'') = files fs fixture_src"
  using assms
  by (auto simp: make_order_def then_do_def write_text_def copyfile_def Let_def made_paths made_ticket_payload makedirs_files
      split: prod.splits sum.splits option.splits dest!: makedirs_files)

text \<open>
  The order that \<^verbatim>\<open>make_order.py\<close> prepares is one that the chef in the machine accepts: run on the files
  it wrote, where no link leads away from them, the chef verifies the signature, exits with 0 and writes
  the draft for the copied text.
\<close>

theorem made_order_is_served:
  assumes "sig_correct C" and "load_pem W pem = Pem_ed25519 (ed_pub C priv)"
    and "make_order C priv pem io_dir fixture_src fs = (Inr told, fs1)"
    and "fixture_src \<notin> {path_join io_dir ''pub.pem'', path_join io_dir ''ticket.json''}"
    and "files fs fixture_src = Some content" and "read_text content = Inr source"
    and "\<forall>p. normal_path (realpath W p)"
    and "base = path_join io_dir ''fixtures''"
    and "\<forall>p \<in> {base, path_join base ''user.kenji'', path_join (path_join base ''user.kenji'') ''t-001.txt''}. realpath W p = p"
  shows "\<exists>stdin fs2. files fs1 (path_join io_dir ''ticket.json'') = Some stdin \<and>
    chef_main C W [chef, path_join io_dir ''pub.pem'', base, path_join io_dir ''out''] stdin fs1 = (Exit 0 [], fs2) \<and>
    files fs2 = (files fs1)(path_join (path_join io_dir ''out'') ''output.txt'' \<mapsto>
      handle_draft_reply ''user.kenji/t-001'' source)"
proof -
  note made = make_order_files [OF assms(3)]
  have o: "owner_dir W base ''user.kenji'' = path_join base ''user.kenji''"
    and c: "candidate_path W base ''user.kenji'' ''t-001'' = path_join (path_join base ''user.kenji'') ''t-001.txt''"
    using assms(9) by (simp_all add: owner_dir_def candidate_path_def)
  have "\<exists>fs2. chef_main C W [chef, path_join io_dir ''pub.pem'', base, path_join io_dir ''out''] (payload (made_ticket C priv)) fs1 =
      (Exit 0 [], fs2) \<and>
      files fs2 = (files fs1)(path_join (path_join io_dir ''out'') ''output.txt'' \<mapsto> handle_draft_reply ''user.kenji/t-001'' source) \<and>
      Read (candidate_path W base ''user.kenji'' ''t-001'') \<in> set (trace fs2)"
  proof (rule chef_serves [where bytes = pem and pk = "ed_pub C priv" and resource = "''user.kenji/t-001''" and k = "''thread_id''"
        and content = content and source = source and h = "\<lambda>r s c. Inr (handle_draft_reply r s)"])
    show "ed_verify C (ed_pub C priv) (t_cashier_sig (made_ticket C priv))
        (canonical_bytes (JObj (ticket_signable_dict (made_ticket C priv))))"
      unfolding made_ticket_signable using assms(1) by (simp add: made_ticket_def sig_correctD)
    show "guard_resource ''user.kenji/t-001'' = Inr (''user.kenji'', ''t-001'')"
      by (simp add: guard_resource_def split_first_def is_control_def)
    show "inside (owner_dir W base ''user.kenji'') (candidate_path W base ''user.kenji'' ''t-001'')"
      unfolding o c by (simp add: inside_def comps_path_join startswith_def comps_piece)
    show "files fs1 (candidate_path W base ''user.kenji'' ''t-001'') = Some content"
      unfolding c using made(3) assms(4,5,8) by simp
  qed (use made(1) assms(2,6,7) in \<open>simp_all add: made_ticket_def HANDLERS_def wf_dict_def\<close>)
  then show ?thesis using made(2) by blast
qed

theorem made_order_is_served_witness:
  "\<exists>told fs1 stdin fs2.
     make_order example_crypto ''sk'' ''sk'' ''/io'' ''/t.txt'' \<lparr>files = [''/t.txt'' \<mapsto> ''Subject: hi''], dirs = {}, trace = []\<rparr> =
       (Inr told, fs1) \<and>
     chef_main example_crypto example_os [''/chef.py'', ''/io/pub.pem'', ''/io/fixtures'', ''/io/out''] stdin fs1 = (Exit 0 [], fs2)"
proof -
  let ?fs = "\<lparr>files = [''/t.txt'' \<mapsto> ''Subject: hi''], dirs = {}, trace = []\<rparr>"
  have p: "path_join ''/io'' ''pub.pem'' = ''/io/pub.pem''" "path_join ''/io'' ''ticket.json'' = ''/io/ticket.json''"
    "path_join ''/io'' ''fixtures'' = ''/io/fixtures''" "path_join ''/io'' ''out'' = ''/io/out''"
    "path_join ''/io/fixtures'' ''user.kenji'' = ''/io/fixtures/user.kenji''"
    "path_join ''/io/fixtures/user.kenji'' ''t-001.txt'' = ''/io/fixtures/user.kenji/t-001.txt''"
    by (simp_all add: path_join_def startswith_def endswith_def)
  obtain told fs1 where m: "make_order example_crypto ''sk'' ''sk'' ''/io'' ''/t.txt'' ?fs = (Inr told, fs1)"
    by (simp add: make_order_def then_do_def write_text_def copyfile_def makedirs_def Let_def p)
  have "\<exists>stdin fs2. files fs1 (path_join ''/io'' ''ticket.json'') = Some stdin \<and>
    chef_main example_crypto example_os [''/chef.py'', path_join ''/io'' ''pub.pem'', ''/io/fixtures'', path_join ''/io'' ''out''] stdin fs1 =
      (Exit 0 [], fs2) \<and>
    files fs2 = (files fs1)(path_join (path_join ''/io'' ''out'') ''output.txt'' \<mapsto>
      handle_draft_reply ''user.kenji/t-001'' ''Subject: hi'')"
    by (rule made_order_is_served [OF sig_correct_example _ m _ _ example_text example_normal])
      (simp_all add: p, simp_all add: example_os_def example_crypto_def normpath_def comps_def)
  then show ?thesis using m by (auto simp: p)
qed

end
