(* ===== verification/Appcontainer.thy ===== *)
theory Appcontainer
  imports Apphome "HOL-Library.Word"
begin

text \<open>
  \<^verbatim>\<open>chef/appcontainer.py\<close>: the Windows backend. The system is the record \<open>win32\<close>, what each call answers;
  what the calls change is the record \<open>windows\<close>: the file system, the access lists as far as \<^verbatim>\<open>icacls\<close>
  writes them for a package, the handles this process holds, the package identifiers it has not freed,
  and the process of the chef. What \<^verbatim>\<open>icacls\<close> does to the access lists is a parameter of which
  \<open>icacls_documented\<close> says what the code relies on. Paths are joined the POSIX way; how \<^verbatim>\<open>ctypes\<close> is told
  the types of the calls (\<open>_configure\<close>) is not modelled.
\<close>

section \<open>Constants and structures\<close>

definition PROFILE_NAME :: string where "PROFILE_NAME = ''SentinelLoopChef''"

definition CREATE_SUSPENDED :: "32 word" where "CREATE_SUSPENDED = 0x00000004"
definition CREATE_UNICODE_ENVIRONMENT :: "32 word" where "CREATE_UNICODE_ENVIRONMENT = 0x00000400"
definition EXTENDED_STARTUPINFO_PRESENT :: "32 word" where "EXTENDED_STARTUPINFO_PRESENT = 0x00080000"
definition STARTF_USESTDHANDLES :: "32 word" where "STARTF_USESTDHANDLES = 0x00000100"
definition WAIT_TIMEOUT :: "32 word" where "WAIT_TIMEOUT = 0x00000102"
definition WAIT_OBJECT_0 :: "32 word" where "WAIT_OBJECT_0 = 0x00000000"

definition JOB_OBJECT_LIMIT_ACTIVE_PROCESS :: "32 word" where "JOB_OBJECT_LIMIT_ACTIVE_PROCESS = 0x00000008"
definition JOB_OBJECT_LIMIT_PROCESS_MEMORY :: "32 word" where "JOB_OBJECT_LIMIT_PROCESS_MEMORY = 0x00000100"
definition JOB_OBJECT_LIMIT_KILL_ON_JOB_CLOSE :: "32 word" where "JOB_OBJECT_LIMIT_KILL_ON_JOB_CLOSE = 0x00002000"

lemmas win_flags = CREATE_SUSPENDED_def CREATE_UNICODE_ENVIRONMENT_def EXTENDED_STARTUPINFO_PRESENT_def
  JOB_OBJECT_LIMIT_ACTIVE_PROCESS_def JOB_OBJECT_LIMIT_PROCESS_MEMORY_def JOB_OBJECT_LIMIT_KILL_ON_JOB_CLOSE_def

text \<open>\<open>H_job\<close> stands for the handle of the job, and so on.\<close>

datatype win_handle = H_in | H_out | H_err | H_job | H_process | H_thread

text \<open>The identifier is the one the pointer points to; the list of capabilities is \<open>None\<close> for a null pointer.\<close>

record security_capabilities =
  sc_app_container_sid :: string
  sc_capabilities :: "string list option"
  sc_capability_count :: "32 word"

record startup_info =
  si_flags :: "32 word"
  si_std_input :: win_handle
  si_std_output :: win_handle
  si_std_error :: win_handle
  si_attributes :: security_capabilities

record job_limits =
  jl_limit_flags :: "32 word"
  jl_active_process_limit :: "32 word"
  jl_process_memory_limit :: "64 word"

section \<open>The system\<close>

type_synonym acl = "(string \<times> string \<times> string) list"

text \<open>
  A process: what it was created with, the job it is in, whether its first thread is still suspended and
  whether it is still there.
\<close>

record guest =
  g_image :: string
  g_command_line :: string
  g_directory :: string
  g_environment :: string
  g_creation_flags :: "32 word"
  g_startup :: startup_info
  g_job :: "job_limits option"
  g_suspended :: bool
  g_running :: bool

record windows =
  wn_fs :: fsys
  wn_acl :: acl
  wn_handles :: "win_handle list"
  wn_sids :: nat
  wn_guest :: "guest option"

text \<open>
  \<open>wa_create_profile\<close> and \<open>wa_derive\<close> give the result code for a name, \<open>wa_sid\<close> the identifier that is
  then there, as \<^verbatim>\<open>ConvertSidToStringSidW\<close> writes it; the answers of type \<open>bool\<close> say whether a call
  succeeds.
\<close>

record win32 =
  wa_platform :: string
  wa_create_profile :: "string \<Rightarrow> int"
  wa_derive :: "string \<Rightarrow> int"
  wa_sid :: "string \<Rightarrow> string"
  wa_convert_sid :: bool
  wa_icacls :: "string list \<Rightarrow> acl \<Rightarrow> int \<times> acl"
  wa_create_file :: "win_handle \<Rightarrow> bool"
  wa_init_attributes :: bool
  wa_update_attributes :: bool
  wa_create_job :: bool
  wa_set_job :: bool
  wa_create_process :: bool
  wa_assign_job :: bool

record interpreter =
  in_prefixes :: "string list"
  in_executable :: string
  in_base_executable :: "string option"
  in_sys_path :: "string list"
  in_environ :: "(string \<times> string) list"

text \<open>
  What waiting for the process gives: the result of \<^verbatim>\<open>WaitForSingleObject\<close>, and what \<^verbatim>\<open>GetExitCodeProcess\<close>
  then stores, \<open>None\<close> where it fails. The chef is a parameter: it sees the system as it is when its thread
  is resumed, and leaves the file system as it is when the wait ends.
\<close>

record waited =
  wt_result :: "32 word"
  wt_exit_code :: "32 word option"

type_synonym contained_chef = "windows \<Rightarrow> int \<Rightarrow> sandbox_spec \<Rightarrow> waited \<times> fsys"

text \<open>\<^verbatim>\<open>try: ... finally: ...\<close>: an exception of the last part replaces what the first part gave.\<close>

definition try_finally :: "(exn + 'a) \<times> 's \<Rightarrow> ('s \<Rightarrow> exn option \<times> 's) \<Rightarrow> (exn + 'a) \<times> 's" where
  "try_finally first final =
     (case first of (r, s1) \<Rightarrow> (case final s1 of (Some e, s2) \<Rightarrow> (Inl e, s2) | (None, s2) \<Rightarrow> (r, s2)))"

definition open_handle :: "win_handle \<Rightarrow> windows \<Rightarrow> windows" where
  "open_handle h s = s\<lparr>wn_handles := h # wn_handles s\<rparr>"

definition close_handles :: "win_handle list \<Rightarrow> windows \<Rightarrow> windows" where
  "close_handles hs s = s\<lparr>wn_handles := filter (\<lambda>h. h \<notin> set hs) (wn_handles s)\<rparr>"

definition local_free_sid :: "windows \<Rightarrow> windows" where
  "local_free_sid s = s\<lparr>wn_sids := wn_sids s - 1\<rparr>"

section \<open>The package\<close>

definition derive_sid :: "win32 \<Rightarrow> string \<Rightarrow> windows \<Rightarrow> (exn + string) \<times> windows" where
  "derive_sid A name s =
     (if wa_create_profile A name \<noteq> 0 \<and> wa_derive A name \<noteq> 0 then (Inl OSError, s)
      else (let s1 = s\<lparr>wn_sids := Suc (wn_sids s)\<rparr> in
            if wa_convert_sid A then (Inr (wa_sid A name), s1) else (Inl OSError, s1)))"

definition app_container_available :: "win32 \<Rightarrow> windows \<Rightarrow> bool \<times> windows" where
  "app_container_available A s =
     (if wa_platform A \<noteq> ''win32'' then (False, s)
      else (case derive_sid A PROFILE_NAME s of
              (Inl _, s1) \<Rightarrow> (False, s1)
            | (Inr sid, s1) \<Rightarrow> (sid \<noteq> [], local_free_sid s1)))"

definition grant_args :: "string \<Rightarrow> string \<Rightarrow> string \<Rightarrow> string list" where
  "grant_args path sid perm = [''icacls'', path, ''/grant'', ''*'' @ sid @ '':'' @ perm, ''/T'', ''/Q'']"

definition revoke_args :: "string \<Rightarrow> string \<Rightarrow> string list" where
  "revoke_args path sid = [''icacls'', path, ''/remove'', ''*'' @ sid, ''/T'', ''/Q'']"

definition grant :: "win32 \<Rightarrow> string \<Rightarrow> string \<Rightarrow> string \<Rightarrow> windows \<Rightarrow> exn option \<times> windows" where
  "grant A path sid perm s =
     (case wa_icacls A (grant_args path sid perm) (wn_acl s) of
        (code, acl) \<Rightarrow> (if code \<noteq> 0 then Some OSError else None, s\<lparr>wn_acl := acl\<rparr>))"

definition revoke :: "win32 \<Rightarrow> string \<Rightarrow> string \<Rightarrow> windows \<Rightarrow> exn option \<times> windows" where
  "revoke A path sid s =
     (case wa_icacls A (revoke_args path sid) (wn_acl s) of
        (code, acl) \<Rightarrow>
          (if code \<noteq> 0 \<and> path_exists (wn_fs s) path then Some OSError else None, s\<lparr>wn_acl := acl\<rparr>))"

text \<open>The loops; \<open>grant_all\<close> gives the paths granted before the first failure, too.\<close>

fun grant_all ::
  "win32 \<Rightarrow> string \<Rightarrow> (string \<times> string) list \<Rightarrow> string list \<Rightarrow> windows \<Rightarrow> exn option \<times> string list \<times> windows" where
  "grant_all A sid [] granted s = (None, granted, s)"
| "grant_all A sid ((path, perm) # ps) granted s =
     (case grant A path sid perm s of
        (Some e, s1) \<Rightarrow> (Some e, granted, s1)
      | (None, s1) \<Rightarrow> grant_all A sid ps (granted @ [path]) s1)"

fun revoke_all :: "win32 \<Rightarrow> string \<Rightarrow> string list \<Rightarrow> windows \<Rightarrow> exn option \<times> windows" where
  "revoke_all A sid [] s = (None, s)"
| "revoke_all A sid (p # ps) s =
     (case revoke A p sid s of (Some e, s1) \<Rightarrow> (Some e, s1) | (None, s1) \<Rightarrow> revoke_all A sid ps s1)"

definition READ_EXECUTE :: string where "READ_EXECUTE = ''(OI)(CI)(RX)''"
definition MODIFY :: string where "MODIFY = ''(OI)(CI)(M)''"

section \<open>The set-up\<close>

definition container_runtime_paths :: "os \<Rightarrow> interpreter \<Rightarrow> fsys \<Rightarrow> string list" where
  "container_runtime_paths W I fs = existing_dirs W fs {} (in_prefixes I)"

definition container_setup :: "win32 \<Rightarrow> os \<Rightarrow> interpreter \<Rightarrow> windows \<Rightarrow> (exn + string \<times> string list) \<times> windows" where
  "container_setup A W I s =
     (case derive_sid A PROFILE_NAME s of
        (Inl e, s1) \<Rightarrow> (Inl e, s1)
      | (Inr sid, s1) \<Rightarrow>
          (let s2 = local_free_sid s1; paths = container_runtime_paths W I (wn_fs s2) in
           case grant_all A sid (map (\<lambda>p. (p, READ_EXECUTE)) paths) [] s2 of
             (Some e, _, s3) \<Rightarrow> (Inl e, s3)
           | (None, _, s3) \<Rightarrow> (Inr (sid, paths), s3)))"

definition container_teardown :: "win32 \<Rightarrow> os \<Rightarrow> interpreter \<Rightarrow> windows \<Rightarrow> (exn + string \<times> string list) \<times> windows" where
  "container_teardown A W I s =
     (case derive_sid A PROFILE_NAME s of
        (Inl e, s1) \<Rightarrow> (Inl e, s1)
      | (Inr sid, s1) \<Rightarrow>
          (let s2 = local_free_sid s1; paths = container_runtime_paths W I (wn_fs s2) in
           case revoke_all A sid paths s2 of
             (Some e, s3) \<Rightarrow> (Inl e, s3)
           | (None, s3) \<Rightarrow> (Inr (sid, paths), s3)))"

text \<open>\<^verbatim>\<open>main\<close> on one of the three actions that \<^verbatim>\<open>argparse\<close> lets through: the exit code and the lines.\<close>

definition py_bool :: "bool \<Rightarrow> string" where
  "py_bool b = (if b then ''True'' else ''False'')"

definition container_main ::
  "win32 \<Rightarrow> os \<Rightarrow> interpreter \<Rightarrow> string \<Rightarrow> windows \<Rightarrow> (exn + int \<times> string list) \<times> windows" where
  "container_main A W I action s =
     (if wa_platform A \<noteq> ''win32'' then
        (Inr (1, [''AppContainer sandbox is Windows-only; nothing to do here.'']), s)
      else if action = ''status'' then
        (case app_container_available A s of
           (b, s1) \<Rightarrow> (Inr (0, (''available: '' @ py_bool b) #
             map (\<lambda>p. ''  runtime path: '' @ p) (container_runtime_paths W I (wn_fs s1))), s1))
      else if action = ''setup'' then
        (case container_setup A W I s of
           (Inl e, s1) \<Rightarrow> (Inl e, s1)
         | (Inr (sid, granted), s1) \<Rightarrow>
             (Inr (0, (''AppContainer profile ready; package SID '' @ sid) #
                map (\<lambda>p. ''  granted read+execute: '' @ p) granted), s1))
      else
        (case container_teardown A W I s of
           (Inl e, s1) \<Rightarrow> (Inl e, s1)
         | (Inr (sid, removed), s1) \<Rightarrow>
             (Inr (0, (''removed package SID grants ('' @ sid @ '')'') #
                map (\<lambda>p. ''  revoked: '' @ p) removed), s1)))"

text \<open>What the set-up programs of theory \<^verbatim>\<open>Apphome\<close> see of it; it changes access lists only.\<close>

definition installed_container :: "win32 \<Rightarrow> os \<Rightarrow> interpreter \<Rightarrow> windows \<Rightarrow> app_container" where
  "installed_container A W I s =
     \<lparr>ac_available = fst (app_container_available A s),
      ac_setup = (\<lambda>fs. case container_setup A W I (s\<lparr>wn_fs := fs\<rparr>) of
         (Inl e, s1) \<Rightarrow> (Inl e, wn_fs s1) | (Inr _, s1) \<Rightarrow> (Inr (), wn_fs s1))\<rparr>"

section \<open>The backend\<close>

record app_sandbox =
  as_timeout_ms :: int
  as_memory_bytes :: int
  as_python :: string
  as_pythonpath :: "string list"

definition given_nonempty :: "string option \<Rightarrow> string \<Rightarrow> string" where
  "given_nonempty x d = (case x of None \<Rightarrow> d | Some v \<Rightarrow> if v = [] then d else v)"

definition new_app_sandbox :: "interpreter \<Rightarrow> fsys \<Rightarrow> int \<Rightarrow> int \<Rightarrow> string option \<Rightarrow> app_sandbox" where
  "new_app_sandbox I fs timeout_sec memory_mb python_exe =
     \<lparr>as_timeout_ms = timeout_sec * 1000,
      as_memory_bytes = memory_mb * 1024 * 1024,
      as_python = given_nonempty python_exe (given_nonempty (in_base_executable I) (in_executable I)),
      as_pythonpath = filter (\<lambda>p. p \<noteq> [] \<and> is_infix ''site-packages'' p \<and> is_dir fs p) (in_sys_path I)\<rparr>"

text \<open>\<^verbatim>\<open>subprocess.list2cmdline\<close>; \<open>n\<close> backslashes have been read and not yet written.\<close>

fun quote_chars :: "bool \<Rightarrow> nat \<Rightarrow> string \<Rightarrow> string" where
  "quote_chars q n [] = replicate n (CHR 0x5C) @ (if q then replicate n (CHR 0x5C) @ [CHR 0x22] else [])"
| "quote_chars q n (c # s) =
     (if c = CHR 0x5C then quote_chars q (Suc n) s
      else if c = CHR 0x22 then replicate (2 * n) (CHR 0x5C) @ CHR 0x5C # CHR 0x22 # quote_chars q 0 s
      else replicate n (CHR 0x5C) @ c # quote_chars q 0 s)"

definition quote_arg :: "string \<Rightarrow> string" where
  "quote_arg a =
     (let q = (CHR '' '' \<in> set a \<or> CHR 0x09 \<in> set a \<or> a = []) in (if q then [CHR 0x22] else []) @ quote_chars q 0 a)"

definition list2cmdline :: "string list \<Rightarrow> string" where
  "list2cmdline argv = join '' '' (map quote_arg argv)"

text \<open>\<^verbatim>\<open>open(path, "w")\<close> on Windows ends a line with two characters.\<close>

fun crlf :: "string \<Rightarrow> string" where
  "crlf [] = []"
| "crlf (c # s) = (if c = CHR 0x0A then CHR 0x0D # c # crlf s else c # crlf s)"

text \<open>\<^verbatim>\<open>shutil.copy2\<close>: a missing source raises.\<close>

definition copy_file :: "string \<Rightarrow> string \<Rightarrow> windows \<Rightarrow> exn option \<times> windows" where
  "copy_file src dst s =
     (case files (wn_fs s) src of
        None \<Rightarrow> (Some OSError, s)
      | Some data \<Rightarrow> (None, s\<lparr>wn_fs := write_file dst data (wn_fs s)\<rparr>))"

definition local_chef :: "sandbox_spec \<Rightarrow> string" where
  "local_chef spec = path_join (sp_workspace spec) ''chef_main.py''"
definition local_pubkey :: "sandbox_spec \<Rightarrow> string" where
  "local_pubkey spec = path_join (sp_workspace spec) ''pubkey.pem''"
definition stdin_path :: "sandbox_spec \<Rightarrow> string" where
  "stdin_path spec = path_join (sp_workspace spec) ''_stdin''"
definition stdout_path :: "sandbox_spec \<Rightarrow> string" where
  "stdout_path spec = path_join (sp_workspace spec) ''_stdout''"
definition stderr_path :: "sandbox_spec \<Rightarrow> string" where
  "stderr_path spec = path_join (sp_workspace spec) ''_stderr''"

definition container_argv :: "app_sandbox \<Rightarrow> sandbox_spec \<Rightarrow> string list" where
  "container_argv X spec =
     [as_python X, ''-B'', local_chef spec, local_pubkey spec, sp_fixtures_root spec, sp_out_dir spec]"

definition container_grants :: "sandbox_spec \<Rightarrow> (string \<times> string) list" where
  "container_grants spec =
     [(sp_workspace spec, READ_EXECUTE), (sp_fixtures_root spec, READ_EXECUTE), (sp_out_dir spec, MODIFY)]"

text \<open>The environment block; keys are replaced where they stand, as in a \<^verbatim>\<open>dict\<close>.\<close>

definition container_environ :: "app_sandbox \<Rightarrow> interpreter \<Rightarrow> (string \<times> string) list" where
  "container_environ X I =
     (let env = in_environ I;
          env = (if as_pythonpath X \<noteq> [] then AList.update ''PYTHONPATH'' (join '';'' (as_pythonpath X)) env else env)
      in AList.update ''PYTHONDONTWRITEBYTECODE'' ''1'' env)"

definition environ_block :: "(string \<times> string) list \<Rightarrow> string" where
  "environ_block env = concat (map (\<lambda>(k, v). k @ ''='' @ v @ [CHR 0x00]) env) @ [CHR 0x00]"

definition no_capabilities :: "string \<Rightarrow> security_capabilities" where
  "no_capabilities sid =
     \<lparr>sc_app_container_sid = sid, sc_capabilities = None, sc_capability_count = 0\<rparr>"

definition container_startup :: "string \<Rightarrow> startup_info" where
  "container_startup sid =
     \<lparr>si_flags = STARTF_USESTDHANDLES, si_std_input = H_in, si_std_output = H_out, si_std_error = H_err,
      si_attributes = no_capabilities sid\<rparr>"

definition container_job :: "app_sandbox \<Rightarrow> job_limits" where
  "container_job X =
     \<lparr>jl_limit_flags = JOB_OBJECT_LIMIT_KILL_ON_JOB_CLOSE OR JOB_OBJECT_LIMIT_ACTIVE_PROCESS OR
        JOB_OBJECT_LIMIT_PROCESS_MEMORY,
      jl_active_process_limit = 1, jl_process_memory_limit = word_of_int (as_memory_bytes X)\<rparr>"

definition new_guest :: "app_sandbox \<Rightarrow> interpreter \<Rightarrow> string \<Rightarrow> sandbox_spec \<Rightarrow> guest" where
  "new_guest X I sid spec =
     \<lparr>g_image = as_python X, g_command_line = list2cmdline (container_argv X spec),
      g_directory = sp_workspace spec, g_environment = environ_block (container_environ X I),
      g_creation_flags = CREATE_SUSPENDED OR EXTENDED_STARTUPINFO_PRESENT OR CREATE_UNICODE_ENVIRONMENT,
      g_startup = container_startup sid, g_job = None, g_suspended = True, g_running = True\<rparr>"

text \<open>Opening the three files; the ones that are written are made empty. Whether all three could be opened.\<close>

definition open_std :: "win32 \<Rightarrow> win_handle \<Rightarrow> string option \<Rightarrow> windows \<Rightarrow> windows" where
  "open_std A h made s =
     (if wa_create_file A h
      then open_handle h (case made of None \<Rightarrow> s | Some p \<Rightarrow> s\<lparr>wn_fs := write_file p [] (wn_fs s)\<rparr>) else s)"

definition open_streams :: "win32 \<Rightarrow> sandbox_spec \<Rightarrow> windows \<Rightarrow> bool \<times> windows" where
  "open_streams A spec s =
     (wa_create_file A H_in \<and> wa_create_file A H_out \<and> wa_create_file A H_err,
      open_std A H_err (Some (stderr_path spec)) (open_std A H_out (Some (stdout_path spec)) (open_std A H_in None s)))"

text \<open>Closing the last handle of a job ends the processes in it, where its limits say so.\<close>

definition close_job :: "windows \<Rightarrow> windows" where
  "close_job s =
     (let s1 = close_handles [H_job] s in
      case wn_guest s1 of
        Some g \<Rightarrow> (case g_job g of
            Some j \<Rightarrow> if jl_limit_flags j AND JOB_OBJECT_LIMIT_KILL_ON_JOB_CLOSE \<noteq> 0
                      then s1\<lparr>wn_guest := Some (g\<lparr>g_running := False\<rparr>)\<rparr> else s1
          | None \<Rightarrow> s1)
      | None \<Rightarrow> s1)"

text \<open>
  The process in the job, its thread resumed, and the wait. A process whose handle is signalled has ended;
  one that is not ended by the wait goes on until it is terminated or the job is closed. The exit code is
  what the variable holds, zero at first.
\<close>

definition run_guest ::
  "win32 \<Rightarrow> app_sandbox \<Rightarrow> contained_chef \<Rightarrow> sandbox_spec \<Rightarrow> guest \<Rightarrow> windows \<Rightarrow> (exn + int) \<times> windows" where
  "run_guest A X chef spec g s =
     (if \<not> wa_assign_job A then (Inl OSError, s)
      else (let g1 = g\<lparr>g_job := Some (container_job X), g_suspended := False\<rparr>;
                s1 = s\<lparr>wn_guest := Some g1\<rparr>
            in case chef s1 (as_timeout_ms X) spec of
                 (w, fs) \<Rightarrow>
                   (let s2 = s1\<lparr>wn_fs := fs\<rparr> in
                    if wt_result w = WAIT_TIMEOUT then (Inr 1, s2\<lparr>wn_guest := Some (g1\<lparr>g_running := False\<rparr>)\<rparr>)
                    else (Inr (case wt_exit_code w of None \<Rightarrow> 0 | Some code \<Rightarrow> uint code),
                          if wt_result w = WAIT_OBJECT_0
                          then s2\<lparr>wn_guest := Some (g1\<lparr>g_running := False\<rparr>)\<rparr> else s2))))"

definition create_guest ::
  "win32 \<Rightarrow> app_sandbox \<Rightarrow> interpreter \<Rightarrow> contained_chef \<Rightarrow> string \<Rightarrow> sandbox_spec \<Rightarrow> windows \<Rightarrow> (exn + int) \<times> windows" where
  "create_guest A X I chef sid spec s =
     (if \<not> wa_create_process A then (Inl OSError, s)
      else (let g = new_guest X I sid spec;
                s1 = open_handle H_thread (open_handle H_process (s\<lparr>wn_guest := Some g\<rparr>))
            in try_finally (run_guest A X chef spec g s1) (\<lambda>s2. (None, close_handles [H_thread, H_process] s2))))"

definition launch ::
  "win32 \<Rightarrow> app_sandbox \<Rightarrow> interpreter \<Rightarrow> contained_chef \<Rightarrow> string \<Rightarrow> sandbox_spec \<Rightarrow> windows \<Rightarrow> (exn + int) \<times> windows" where
  "launch A X I chef sid spec s =
     (let s1 = s\<lparr>wn_fs := write_file (stdin_path spec) (crlf (sp_stdin spec)) (wn_fs s)\<rparr> in
      case open_streams A spec s1 of
        (False, s2) \<Rightarrow> (Inl OSError, s2)
      | (True, s2) \<Rightarrow>
          if \<not> wa_init_attributes A \<or> \<not> wa_update_attributes A \<or> \<not> wa_create_job A then (Inl OSError, s2)
          else (let s3 = open_handle H_job s2 in
                if \<not> wa_set_job A then (Inl OSError, s3)
                else try_finally (create_guest A X I chef sid spec s3)
                       (\<lambda>s4. (None, close_handles [H_in, H_out, H_err] (close_job s4)))))"

text \<open>The part of \<^verbatim>\<open>run\<close> before the launch, with the paths granted when it ends.\<close>

definition prepare :: "win32 \<Rightarrow> string \<Rightarrow> sandbox_spec \<Rightarrow> windows \<Rightarrow> exn option \<times> string list \<times> windows" where
  "prepare A sid spec s =
     (case copy_file (sp_chef_main spec) (local_chef spec) s of
        (Some e, s1) \<Rightarrow> (Some e, [], s1)
      | (None, s1) \<Rightarrow>
        (case copy_file (sp_pubkey_path spec) (local_pubkey spec) s1 of
           (Some e, s2) \<Rightarrow> (Some e, [], s2)
         | (None, s2) \<Rightarrow>
           (case makedirs (sp_out_dir spec) (wn_fs s2) of
              (Inl e, fs) \<Rightarrow> (Some e, [], s2\<lparr>wn_fs := fs\<rparr>)
            | (Inr _, fs) \<Rightarrow> grant_all A sid (container_grants spec) [] (s2\<lparr>wn_fs := fs\<rparr>))))"

definition container_cleanup :: "win32 \<Rightarrow> string \<Rightarrow> string list \<Rightarrow> windows \<Rightarrow> exn option \<times> windows" where
  "container_cleanup A sid granted s =
     (case revoke_all A sid granted s of
        (Some e, s1) \<Rightarrow> (Some e, s1)
      | (None, s1) \<Rightarrow> (None, local_free_sid s1))"

definition app_container_run ::
  "win32 \<Rightarrow> app_sandbox \<Rightarrow> interpreter \<Rightarrow> contained_chef \<Rightarrow> sandbox_spec \<Rightarrow> windows \<Rightarrow> (exn + int) \<times> windows" where
  "app_container_run A X I chef spec s =
     (if wa_platform A \<noteq> ''win32'' then (Inl RuntimeError, s)
      else (case derive_sid A PROFILE_NAME s of
              (Inl e, s1) \<Rightarrow> (Inl e, s1)
            | (Inr sid, s1) \<Rightarrow>
                (case prepare A sid spec s1 of
                   (failed, granted, s2) \<Rightarrow>
                     try_finally (case failed of Some e \<Rightarrow> (Inl e, s2) | None \<Rightarrow> launch A X I chef sid spec s2)
                       (container_cleanup A sid granted))))"

text \<open>The backend of the runner: the rest of the system is as it is in \<open>s\<close> when the order comes.\<close>

definition app_container_backend ::
  "win32 \<Rightarrow> app_sandbox \<Rightarrow> interpreter \<Rightarrow> contained_chef \<Rightarrow> windows \<Rightarrow> sandbox_run" where
  "app_container_backend A X I chef s spec fs =
     (case app_container_run A X I chef spec (s\<lparr>wn_fs := fs\<rparr>) of (r, s') \<Rightarrow> (r, wn_fs s'))"

definition app_container_sandbox ::
  "win32 \<Rightarrow> app_sandbox \<Rightarrow> interpreter \<Rightarrow> contained_chef \<Rightarrow> windows \<Rightarrow> backend" where
  "app_container_sandbox A X I chef s =
     \<lparr>b_run = app_container_backend A X I chef s, b_containment_class = Some ''appcontainer''\<rparr>"


section \<open>Which process the chef is\<close>

definition confined_guest :: "app_sandbox \<Rightarrow> string \<Rightarrow> guest \<Rightarrow> bool" where
  "confined_guest X sid g \<longleftrightarrow>
     (let c = si_attributes (g_startup g) in
        sc_app_container_sid c = sid \<and> sc_capability_count c = 0 \<and> sc_capabilities c = None) \<and>
     g_creation_flags g AND CREATE_SUSPENDED \<noteq> 0 \<and>
     (\<exists>j. g_job g = Some j \<and> jl_active_process_limit j = 1 \<and>
        jl_process_memory_limit j = word_of_int (as_memory_bytes X) \<and>
        jl_limit_flags j AND JOB_OBJECT_LIMIT_KILL_ON_JOB_CLOSE \<noteq> 0 \<and>
        jl_limit_flags j AND JOB_OBJECT_LIMIT_ACTIVE_PROCESS \<noteq> 0 \<and>
        jl_limit_flags j AND JOB_OBJECT_LIMIT_PROCESS_MEMORY \<noteq> 0)"

lemma job_flags:
  "jl_limit_flags (container_job X) AND JOB_OBJECT_LIMIT_KILL_ON_JOB_CLOSE \<noteq> 0"
  "jl_limit_flags (container_job X) AND JOB_OBJECT_LIMIT_ACTIVE_PROCESS \<noteq> 0"
  "jl_limit_flags (container_job X) AND JOB_OBJECT_LIMIT_PROCESS_MEMORY \<noteq> 0"
  by (simp_all add: container_job_def win_flags)

lemma new_guest_confined:
  "confined_guest X sid ((new_guest X I sid spec)\<lparr>g_job := Some (container_job X), g_suspended := False\<rparr>)"
  using job_flags by (simp add: confined_guest_def new_guest_def container_startup_def no_capabilities_def container_job_def)
    (simp add: win_flags)

text \<open>
  The chef is called in one place: two chefs that agree on what they are called with give the same run.
\<close>

lemma run_guest_cong:
  assumes "wa_assign_job A \<Longrightarrow>
    chef (s\<lparr>wn_guest := Some (g\<lparr>g_job := Some (container_job X), g_suspended := False\<rparr>)\<rparr>) (as_timeout_ms X) spec =
    chef' (s\<lparr>wn_guest := Some (g\<lparr>g_job := Some (container_job X), g_suspended := False\<rparr>)\<rparr>) (as_timeout_ms X) spec"
  shows "run_guest A X chef spec g s = run_guest A X chef' spec g s"
  using assms by (simp add: run_guest_def Let_def)

lemma handle_simps [simp]:
  "wn_acl (open_handle h s) = wn_acl s" "wn_fs (open_handle h s) = wn_fs s" "wn_sids (open_handle h s) = wn_sids s"
  "wn_guest (open_handle h s) = wn_guest s" "wn_handles (open_handle h s) = h # wn_handles s"
  "wn_acl (close_handles hs s) = wn_acl s" "wn_fs (close_handles hs s) = wn_fs s"
  "wn_sids (close_handles hs s) = wn_sids s" "wn_guest (close_handles hs s) = wn_guest s"
  "wn_handles (close_handles hs s) = filter (\<lambda>h. h \<notin> set hs) (wn_handles s)"
  by (simp_all add: open_handle_def close_handles_def)

lemma open_std_simps [simp]:
  "wn_acl (open_std A h p s) = wn_acl s" "wn_sids (open_std A h p s) = wn_sids s"
  "wn_guest (open_std A h p s) = wn_guest s"
  "wa_create_file A h \<Longrightarrow> wn_handles (open_std A h p s) = h # wn_handles s"
  "q \<notin> set_option p \<Longrightarrow> files (wn_fs (open_std A h p s)) q = files (wn_fs s) q"
  by (simp_all add: open_std_def split: option.split)

lemma open_streams_facts:
  assumes "open_streams A spec s = (b, s')"
  shows "wn_acl s' = wn_acl s" "wn_sids s' = wn_sids s" "wn_guest s' = wn_guest s"
    "p \<noteq> stdout_path spec \<Longrightarrow> p \<noteq> stderr_path spec \<Longrightarrow> files (wn_fs s') p = files (wn_fs s) p"
    "b \<Longrightarrow> wn_handles s' = [H_err, H_out, H_in] @ wn_handles s"
  using assms by (auto simp: open_streams_def)

text \<open>The files the backend itself puts into the workspace.\<close>

lemma workspace_paths:
  "local_chef spec = folder (sp_workspace spec) @ ''chef_main.py''" "local_pubkey spec = folder (sp_workspace spec) @ ''pubkey.pem''"
  "stdin_path spec = folder (sp_workspace spec) @ ''_stdin''" "stdout_path spec = folder (sp_workspace spec) @ ''_stdout''"
  "stderr_path spec = folder (sp_workspace spec) @ ''_stderr''"
  by (simp_all add: local_chef_def local_pubkey_def stdin_path_def stdout_path_def stderr_path_def path_join_below startswith_def)

text \<open>The system as the chef may find it, from the system in which the process was launched.\<close>

definition resumed_from :: "app_sandbox \<Rightarrow> string \<Rightarrow> sandbox_spec \<Rightarrow> windows \<Rightarrow> windows \<Rightarrow> bool" where
  "resumed_from X sid spec s st \<longleftrightarrow> wn_acl st = wn_acl s \<and> (\<exists>g. wn_guest st = Some g \<and> confined_guest X sid g) \<and>
     (\<forall>p. p \<notin> {stdin_path spec, stdout_path spec, stderr_path spec} \<longrightarrow> files (wn_fs st) p = files (wn_fs s) p)"

lemma launch_cong:
  assumes "\<And>st. resumed_from X sid spec s st \<Longrightarrow>
    chef st (as_timeout_ms X) spec = chef' st (as_timeout_ms X) spec"
  shows "launch A X I chef sid spec s = launch A X I chef' sid spec s"
proof -
  obtain b s2 where o: "open_streams A spec
      (s\<lparr>wn_fs := write_file (stdin_path spec) (crlf (sp_stdin spec)) (wn_fs s)\<rparr>) = (b, s2)" by fastforce
  let ?s = "open_handle H_thread (open_handle H_process
    ((open_handle H_job s2)\<lparr>wn_guest := Some (new_guest X I sid spec)\<rparr>))"
  have "resumed_from X sid spec s (?s\<lparr>wn_guest := Some ((new_guest X I sid spec)
      \<lparr>g_job := Some (container_job X), g_suspended := False\<rparr>)\<rparr>)"
    using open_streams_facts [OF o] new_guest_confined by (simp add: resumed_from_def)
  then have "run_guest A X chef spec (new_guest X I sid spec) ?s = run_guest A X chef' spec (new_guest X I sid spec) ?s"
    by (intro run_guest_cong assms)
  then have "create_guest A X I chef sid spec (open_handle H_job s2) = create_guest A X I chef' sid spec (open_handle H_job s2)"
    by (simp add: create_guest_def Let_def)
  then show ?thesis using o by (cases b) (simp_all add: launch_def Let_def)
qed

section \<open>What the grants come to\<close>

text \<open>
  What the documentation of \<^verbatim>\<open>icacls\<close> says, for an identifier without a colon: a grant that succeeds adds
  its entry, one that fails adds at most that; a removal adds nothing, and one that succeeds leaves no
  entry of the identifier on the path.
\<close>

definition icacls_documented :: "(string list \<Rightarrow> acl \<Rightarrow> int \<times> acl) \<Rightarrow> string \<Rightarrow> bool" where
  "icacls_documented icacls sid \<longleftrightarrow>
     (\<forall>path perm acl code acl'. icacls (grant_args path sid perm) acl = (code, acl') \<longrightarrow>
        set acl' \<subseteq> insert (path, sid, perm) (set acl) \<and>
        (code = 0 \<longrightarrow> set acl' = insert (path, sid, perm) (set acl))) \<and>
     (\<forall>path acl code acl'. icacls (revoke_args path sid) acl = (code, acl') \<longrightarrow>
        set acl' \<subseteq> set acl \<and> (code = 0 \<longrightarrow> (\<forall>perm. (path, sid, perm) \<notin> set acl')))"

lemma grant_facts:
  assumes "grant A path sid perm s = (r, s')"
  shows "wn_fs s' = wn_fs s" "wn_handles s' = wn_handles s" "wn_sids s' = wn_sids s" "wn_guest s' = wn_guest s"
    and "icacls_documented (wa_icacls A) sid \<Longrightarrow> set (wn_acl s') \<subseteq> insert (path, sid, perm) (set (wn_acl s))"
    and "icacls_documented (wa_icacls A) sid \<Longrightarrow> r = None \<Longrightarrow> set (wn_acl s') = insert (path, sid, perm) (set (wn_acl s))"
proof -
  obtain code acl where c: "wa_icacls A (grant_args path sid perm) (wn_acl s) = (code, acl)" by fastforce
  then have s: "s' = s\<lparr>wn_acl := acl\<rparr>" "r = None \<longleftrightarrow> code = 0" using assms by (auto simp: grant_def split: if_splits)
  then show "wn_fs s' = wn_fs s" "wn_handles s' = wn_handles s" "wn_sids s' = wn_sids s" "wn_guest s' = wn_guest s"
    by simp_all
  assume d: "icacls_documented (wa_icacls A) sid"
  then have "set acl \<subseteq> insert (path, sid, perm) (set (wn_acl s)) \<and> (code = 0 \<longrightarrow> set acl = insert (path, sid, perm) (set (wn_acl s)))"
    using c by (simp add: icacls_documented_def)
  then show "set (wn_acl s') \<subseteq> insert (path, sid, perm) (set (wn_acl s))"
    "r = None \<Longrightarrow> set (wn_acl s') = insert (path, sid, perm) (set (wn_acl s))" using s by simp_all
qed

lemma revoke_facts:
  assumes "revoke A path sid s = (r, s')"
  shows "wn_fs s' = wn_fs s" "wn_handles s' = wn_handles s" "wn_sids s' = wn_sids s" "wn_guest s' = wn_guest s"
    and "icacls_documented (wa_icacls A) sid \<Longrightarrow> set (wn_acl s') \<subseteq> set (wn_acl s)"
    and "icacls_documented (wa_icacls A) sid \<Longrightarrow> r = None \<Longrightarrow> path_exists (wn_fs s) path \<Longrightarrow> (path, sid, perm) \<notin> set (wn_acl s')"
proof -
  obtain code acl where c: "wa_icacls A (revoke_args path sid) (wn_acl s) = (code, acl)" by fastforce
  then have s: "s' = s\<lparr>wn_acl := acl\<rparr>" "r = None \<longleftrightarrow> code = 0 \<or> \<not> path_exists (wn_fs s) path"
    using assms by (auto simp: revoke_def split: if_splits)
  then show "wn_fs s' = wn_fs s" "wn_handles s' = wn_handles s" "wn_sids s' = wn_sids s" "wn_guest s' = wn_guest s"
    by simp_all
  assume d: "icacls_documented (wa_icacls A) sid"
  then have "set acl \<subseteq> set (wn_acl s) \<and> (code = 0 \<longrightarrow> (\<forall>perm. (path, sid, perm) \<notin> set acl))"
    using c by (simp add: icacls_documented_def)
  then show "set (wn_acl s') \<subseteq> set (wn_acl s)"
    "r = None \<Longrightarrow> path_exists (wn_fs s) path \<Longrightarrow> (path, sid, perm) \<notin> set (wn_acl s')" using s by simp_all
qed

text \<open>Only the access lists change; \<open>same_but_acl\<close> collects that.\<close>

definition same_but_acl :: "windows \<Rightarrow> windows \<Rightarrow> bool" where
  "same_but_acl s s' \<longleftrightarrow> wn_fs s' = wn_fs s \<and> wn_handles s' = wn_handles s \<and> wn_sids s' = wn_sids s \<and> wn_guest s' = wn_guest s"

lemma grant_all_facts:
  assumes "grant_all A sid ps granted s = (r, granted', s')"
  shows "same_but_acl s s'"
    and "r = None \<Longrightarrow> granted' = granted @ map fst ps"
    and "icacls_documented (wa_icacls A) sid \<Longrightarrow> r = None \<Longrightarrow>
      set (wn_acl s') = (\<lambda>(p, perm). (p, sid, perm)) ` set ps \<union> set (wn_acl s)"
proof -
  have "same_but_acl s s' \<and> (r = None \<longrightarrow> granted' = granted @ map fst ps \<and>
    (icacls_documented (wa_icacls A) sid \<longrightarrow> set (wn_acl s') = (\<lambda>(p, perm). (p, sid, perm)) ` set ps \<union> set (wn_acl s)))"
    using assms
  proof (induction ps arbitrary: granted s)
    case (Cons x ps)
    obtain p perm x' s1 where x: "x = (p, perm)" and g: "grant A p sid perm s = (x', s1)" by (metis surj_pair)
    show ?case
    proof (cases x')
      case None
      then have "grant_all A sid ps (granted @ [p]) s1 = (r, granted', s')" using Cons.prems x g by simp
      from Cons.IH [OF this] grant_facts [OF g] None show ?thesis by (auto simp: same_but_acl_def x)
    next
      case (Some e)
      then show ?thesis using Cons.prems x g grant_facts(1-4) [OF g] by (auto simp: same_but_acl_def)
    qed
  qed (simp add: same_but_acl_def)
  then show "same_but_acl s s'" "r = None \<Longrightarrow> granted' = granted @ map fst ps"
    "icacls_documented (wa_icacls A) sid \<Longrightarrow> r = None \<Longrightarrow>
      set (wn_acl s') = (\<lambda>(p, perm). (p, sid, perm)) ` set ps \<union> set (wn_acl s)" by simp_all
qed

lemma revoke_all_facts:
  assumes "revoke_all A sid ps s = (r, s')"
  shows "same_but_acl s s'"
    and "icacls_documented (wa_icacls A) sid \<Longrightarrow> set (wn_acl s') \<subseteq> set (wn_acl s)"
    and "icacls_documented (wa_icacls A) sid \<Longrightarrow> r = None \<Longrightarrow> p \<in> set ps \<Longrightarrow> path_exists (wn_fs s) p \<Longrightarrow>
      (p, sid, perm) \<notin> set (wn_acl s')"
proof -
  have "same_but_acl s s' \<and> (icacls_documented (wa_icacls A) sid \<longrightarrow> set (wn_acl s') \<subseteq> set (wn_acl s) \<and>
    (r = None \<longrightarrow> (\<forall>p \<in> set ps. path_exists (wn_fs s) p \<longrightarrow> (\<forall>perm. (p, sid, perm) \<notin> set (wn_acl s')))))"
    using assms
  proof (induction ps arbitrary: s)
    case (Cons q ps)
    obtain x s1 where g: "revoke A q sid s = (x, s1)" by fastforce
    show ?case
    proof (cases x)
      case None
      then have "revoke_all A sid ps s1 = (r, s')" using Cons.prems g by simp
      from Cons.IH [OF this] revoke_facts [OF g] None show ?thesis by (auto simp: same_but_acl_def)
    next
      case (Some e)
      then show ?thesis using Cons.prems g revoke_facts(1-5) [OF g] by (auto simp: same_but_acl_def)
    qed
  qed (simp add: same_but_acl_def)
  then show "same_but_acl s s'" "icacls_documented (wa_icacls A) sid \<Longrightarrow> set (wn_acl s') \<subseteq> set (wn_acl s)"
    "icacls_documented (wa_icacls A) sid \<Longrightarrow> r = None \<Longrightarrow> p \<in> set ps \<Longrightarrow> path_exists (wn_fs s) p \<Longrightarrow>
      (p, sid, perm) \<notin> set (wn_acl s')" by auto
qed


lemma installed_container_files:
  assumes "ac_setup (installed_container A W I s) fs = (Inr (), fs')"
  shows "files fs' = files fs"
  using assms by (auto simp: installed_container_def container_setup_def derive_sid_def local_free_sid_def Let_def
      split: if_splits prod.splits option.splits sum.splits dest!: grant_all_facts(1) simp: same_but_acl_def)

section \<open>Properties\<close>

text \<open>
  The system as the chef finds it: it is confined, the access lists are those before the order and the
  three grants, and the program it runs is the one that was named.
\<close>

definition may_start :: "app_sandbox \<Rightarrow> string \<Rightarrow> sandbox_spec \<Rightarrow> windows \<Rightarrow> windows \<Rightarrow> bool" where
  "may_start X sid spec s st \<longleftrightarrow> (\<exists>g. wn_guest st = Some g \<and> confined_guest X sid g) \<and>
     set (wn_acl st) = (\<lambda>(p, perm). (p, sid, perm)) ` set (container_grants spec) \<union> set (wn_acl s) \<and>
     files (wn_fs st) (local_chef spec) = files (wn_fs s) (sp_chef_main spec)"

lemma below_path_join: "\<not> startswith b ''/'' \<Longrightarrow> below a (path_join a b)"
  by (simp add: below_def comps_path_join)

lemma local_below:
  "below (sp_workspace spec) (local_chef spec)" "below (sp_workspace spec) (local_pubkey spec)"
  "below (sp_workspace spec) (stdin_path spec)" "below (sp_workspace spec) (stdout_path spec)"
  "below (sp_workspace spec) (stderr_path spec)"
  by (simp_all add: local_chef_def local_pubkey_def stdin_path_def stdout_path_def stderr_path_def below_path_join startswith_def)

lemma local_distinct: "distinct [local_chef spec, local_pubkey spec, stdin_path spec, stdout_path spec, stderr_path spec]"
  by (simp add: workspace_paths)

lemma copy_file_facts:
  assumes "copy_file src dst s = (r, s')"
  shows "wn_acl s' = wn_acl s" "wn_handles s' = wn_handles s" "wn_sids s' = wn_sids s" "wn_guest s' = wn_guest s"
    "p \<noteq> dst \<Longrightarrow> files (wn_fs s') p = files (wn_fs s) p"
    "r = None \<Longrightarrow> files (wn_fs s') dst = files (wn_fs s) src"
  using assms by (auto simp: copy_file_def split: option.splits)

lemma prepare_guest: "prepare A sid spec s = (r, granted, s') \<Longrightarrow> wn_guest s' = wn_guest s"
  by (auto simp: prepare_def split: prod.splits option.splits sum.splits
      dest!: copy_file_facts(4) grant_all_facts(1) simp: same_but_acl_def)

lemma prepare_files:
  assumes "prepare A sid spec s = (r, granted, s')" and "\<not> below (sp_workspace spec) p"
  shows "files (wn_fs s') p = files (wn_fs s) p"
proof -
  have c: "files (wn_fs z') p = files (wn_fs z) p"
    if "copy_file src (local_chef spec) z = (x, z') \<or> copy_file src (local_pubkey spec) z = (x, z')" for src z x z'
    using that assms(2) copy_file_facts(5) local_below(1,2) [of spec] by metis
  show ?thesis
    using assms(1) by (auto simp: prepare_def c split: prod.splits option.splits sum.splits
        dest!: c [OF disjI1] c [OF disjI2] grant_all_facts(1) makedirs_files simp: same_but_acl_def)
qed

lemma prepare_facts:
  assumes "prepare A sid spec s = (None, granted, s')"
  shows "granted = map fst (container_grants spec)"
    and "wn_handles s' = wn_handles s" and "wn_sids s' = wn_sids s"
    and "icacls_documented (wa_icacls A) sid \<Longrightarrow>
        set (wn_acl s') = (\<lambda>(p, perm). (p, sid, perm)) ` set (container_grants spec) \<union> set (wn_acl s)"
    and "files (wn_fs s') (local_chef spec) = files (wn_fs s) (sp_chef_main spec)"
proof -
  obtain s1 where c1: "copy_file (sp_chef_main spec) (local_chef spec) s = (None, s1)"
    using assms by (auto simp: prepare_def split: prod.splits option.splits)
  obtain s2 where c2: "copy_file (sp_pubkey_path spec) (local_pubkey spec) s1 = (None, s2)"
    using assms c1 by (auto simp: prepare_def split: prod.splits option.splits)
  obtain u fs where m: "makedirs (sp_out_dir spec) (wn_fs s2) = (Inr u, fs)"
    using assms c1 c2 by (auto simp: prepare_def split: prod.splits sum.splits)
  have g: "grant_all A sid (container_grants spec) [] (s2\<lparr>wn_fs := fs\<rparr>) = (None, granted, s')"
    using assms c1 c2 m by (simp add: prepare_def)
  note facts = copy_file_facts [OF c1] copy_file_facts [OF c2] grant_all_facts(1) [OF g, unfolded same_but_acl_def]
    makedirs_files [OF m]
  show "granted = map fst (container_grants spec)" using grant_all_facts(2) [OF g] by simp
  show "wn_handles s' = wn_handles s" "wn_sids s' = wn_sids s" using facts by simp_all
  show "set (wn_acl s') = (\<lambda>(p, perm). (p, sid, perm)) ` set (container_grants spec) \<union> set (wn_acl s)"
    if "icacls_documented (wa_icacls A) sid"
    using grant_all_facts(3) [OF g that] facts by simp
  show "files (wn_fs s') (local_chef spec) = files (wn_fs s) (sp_chef_main spec)"
    using facts local_distinct [of spec] by simp
qed


section \<open>What an order leaves behind\<close>

lemma run_guest_facts:
  assumes "run_guest A X chef spec g s = (r, s')"
  shows "wn_acl s' = wn_acl s" "wn_handles s' = wn_handles s" "wn_sids s' = wn_sids s"
    and "\<not> wa_assign_job A \<Longrightarrow> r = Inl OSError \<and> s' = s"
    and "r = Inr n \<Longrightarrow> \<exists>g'. wn_guest s' = Some g' \<and> g_job g' = Some (container_job X)"
  using assms by (auto simp: run_guest_def Let_def split: if_splits prod.splits)

lemma close_job_facts [simp]:
  "wn_fs (close_job s) = wn_fs s" "wn_acl (close_job s) = wn_acl s" "wn_sids (close_job s) = wn_sids s"
  "wn_handles (close_job s) = filter (\<lambda>h. h \<noteq> H_job) (wn_handles s)"
  by (auto simp: close_job_def Let_def split: option.split)

lemma close_job_guest:
  "wn_guest s = Some g \<Longrightarrow> g_job g = Some (container_job X) \<Longrightarrow> wn_guest (close_job s) = Some (g\<lparr>g_running := False\<rparr>)"
  "wn_guest s = Some g \<Longrightarrow> g_job g = None \<Longrightarrow> wn_guest (close_job s) = Some g"
  "wn_guest s = None \<Longrightarrow> wn_guest (close_job s) = None"
  using job_flags(1) [of X] by (simp_all add: close_job_def Let_def)

lemma create_guest_facts:
  assumes "create_guest A X I chef sid spec s = (r, s')"
  shows "wn_acl s' = wn_acl s" "wn_sids s' = wn_sids s" "r = Inr n \<Longrightarrow> set (wn_handles s') \<subseteq> set (wn_handles s)"
    and "r = Inr n \<Longrightarrow> \<exists>g. wn_guest s' = Some g \<and> g_job g = Some (container_job X)"
    and "\<not> wa_assign_job A \<Longrightarrow> wn_guest s = None \<Longrightarrow> (\<exists>e. r = Inl e) \<and> wn_guest s' \<in> {None, Some (new_guest X I sid spec)}"
  using assms by (auto simp: create_guest_def try_finally_def Let_def split: if_splits prod.splits dest: run_guest_facts)


lemma launch_facts:
  assumes "launch A X I chef sid spec s = (r, s')"
  shows "wn_acl s' = wn_acl s" "wn_sids s' = wn_sids s"
    and "r = Inr n \<Longrightarrow> set (wn_handles s') \<subseteq> set (wn_handles s)"
    and "r = Inr n \<Longrightarrow> \<exists>g. wn_guest s' = Some g \<and> \<not> g_running g"
    and "\<not> wa_assign_job A \<Longrightarrow> wn_guest s = None \<Longrightarrow> (\<exists>e. r = Inl e) \<and> wn_guest s' \<in> {None, Some (new_guest X I sid spec)}"
proof -
  obtain b s1 where o: "open_streams A spec
      (s\<lparr>wn_fs := write_file (stdin_path spec) (crlf (sp_stdin spec)) (wn_fs s)\<rparr>) = (b, s1)" by fastforce
  obtain r2 s2 where c: "create_guest A X I chef sid spec (open_handle H_job s1) = (r2, s2)" by fastforce
  note facts = open_streams_facts [OF o] create_guest_facts [OF c]
  let ?ok = "b \<and> wa_init_attributes A \<and> wa_update_attributes A \<and> wa_create_job A \<and> wa_set_job A"
  have late: "r = r2 \<and> s' = close_handles [H_in, H_out, H_err] (close_job s2)" if ?ok
    using assms o c that by (simp add: launch_def Let_def try_finally_def)
  have early: "r = Inl OSError \<and> wn_acl s' = wn_acl s \<and> wn_sids s' = wn_sids s \<and> wn_guest s' = wn_guest s" if "\<not> ?ok"
    using assms o that facts(1-3) by (cases b) (auto simp: launch_def Let_def split: if_splits)
  show "wn_acl s' = wn_acl s" "wn_sids s' = wn_sids s" using late early facts by (cases ?ok; simp)+
  show "set (wn_handles s') \<subseteq> set (wn_handles s)" if "r = Inr n"
    using late early facts(5,8) that by (cases ?ok) auto
  show "\<exists>g. wn_guest s' = Some g \<and> \<not> g_running g" if "r = Inr n"
    using late early facts(9) that close_job_guest(1) by (cases ?ok) fastforce+
  show "(\<exists>e. r = Inl e) \<and> wn_guest s' \<in> {None, Some (new_guest X I sid spec)}" if "\<not> wa_assign_job A" "wn_guest s = None"
    using late early facts(3,10) that close_job_guest(2,3) [of s2]
    by (cases ?ok) (auto simp: new_guest_def)
qed

text \<open>
  C20. When an order's run returns an exit code, nothing of it is left: this process holds no handle and no
  identifier more than before, the chef's process is gone, no path of the order that still exists carries
  an entry for the package, and no other entry has been added.
\<close>

theorem order_leaves_nothing_behind:
  assumes "icacls_documented (wa_icacls A) (wa_sid A PROFILE_NAME)"
    and "app_container_run A X I chef spec s = (Inr n, s')"
  shows "set (wn_handles s') \<subseteq> set (wn_handles s) \<and> wn_sids s' = wn_sids s \<and>
    (\<exists>g. wn_guest s' = Some g \<and> \<not> g_running g) \<and>
    (\<forall>(p, who, perm) \<in> set (wn_acl s').
       (p, who, perm) \<in> set (wn_acl s) \<or> who = wa_sid A PROFILE_NAME \<and> (p, perm) \<in> set (container_grants spec)) \<and>
    (\<forall>p \<in> {sp_workspace spec, sp_fixtures_root spec, sp_out_dir spec}. path_exists (wn_fs s') p \<longrightarrow>
       (\<forall>perm. (p, wa_sid A PROFILE_NAME, perm) \<notin> set (wn_acl s')))"
proof -
  let ?sid = "wa_sid A PROFILE_NAME"
  let ?s1 = "s\<lparr>wn_sids := Suc (wn_sids s)\<rparr>"
  obtain granted s2 s3 s4 where p: "prepare A ?sid spec ?s1 = (None, granted, s2)"
    and l: "launch A X I chef ?sid spec s2 = (Inr n, s3)"
    and c: "revoke_all A ?sid granted s3 = (None, s4)" "s' = local_free_sid s4"
    using assms(2) by (auto simp: app_container_run_def derive_sid_def Let_def try_finally_def container_cleanup_def
        split: if_splits prod.splits option.splits)
  note facts = prepare_facts [OF p] launch_facts [OF l] revoke_all_facts [OF c(1)]
  have g: "granted = [sp_workspace spec, sp_fixtures_root spec, sp_out_dir spec]"
    using facts(1) by (simp add: container_grants_def)
  have same: "same_but_acl s3 s4" "wn_acl s' = wn_acl s4" "wn_fs s' = wn_fs s4" "wn_guest s' = wn_guest s4"
    "wn_handles s' = wn_handles s4" "wn_sids s' = wn_sids s4 - 1"
    using revoke_all_facts(1) [OF c(1)] c(2) by (simp_all add: local_free_sid_def)
  have acl: "set (wn_acl s') \<subseteq> (\<lambda>(p, perm). (p, ?sid, perm)) ` set (container_grants spec) \<union> set (wn_acl s)"
    using facts(4) [OF assms(1)] facts(6) revoke_all_facts(2) [OF c(1) assms(1)] same by simp
  have "set (wn_handles s') \<subseteq> set (wn_handles s) \<and> wn_sids s' = wn_sids s \<and> (\<exists>g. wn_guest s' = Some g \<and> \<not> g_running g)"
    using facts(2,3,7) launch_facts(3,4) [OF l refl] same by (simp add: same_but_acl_def)
  moreover have "\<forall>(p, who, perm) \<in> set (wn_acl s').
      (p, who, perm) \<in> set (wn_acl s) \<or> who = ?sid \<and> (p, perm) \<in> set (container_grants spec)"
    using acl by auto
  moreover have "\<forall>p \<in> {sp_workspace spec, sp_fixtures_root spec, sp_out_dir spec}. path_exists (wn_fs s') p \<longrightarrow>
      (\<forall>perm. (p, ?sid, perm) \<notin> set (wn_acl s'))"
    using revoke_all_facts(3) [OF c(1) assms(1) refl] same unfolding g by (simp add: same_but_acl_def)
  ultimately show ?thesis by blast
qed

text \<open>
  A defect: the module promises that closing the job leaves no survivor. A process that could not be put
  into the job is not in it: the run raises, the handles are closed, and the process stays, suspended.
\<close>

theorem failed_assignment_strands_the_chef:
  assumes "app_container_run A X I chef spec s = (r, s')" and "\<not> wa_assign_job A" and "wn_guest s = None"
    and "wn_guest s' = Some g"
  shows "(\<exists>e. r = Inl e) \<and> g_running g \<and> g_suspended g \<and> g_job g = None"
proof -
  let ?sid = "wa_sid A PROFILE_NAME"
  obtain failed granted s2 where p: "prepare A ?sid spec (s\<lparr>wn_sids := Suc (wn_sids s)\<rparr>) = (failed, granted, s2)"
    by (metis surj_pair)
  obtain r3 s3 where l: "launch A X I chef ?sid spec s2 = (r3, s3)" by fastforce
  have g2: "wn_guest s2 = None" using prepare_guest [OF p] assms(3) by simp
  have free: "wn_guest s'' = wn_guest z" if "container_cleanup A ?sid granted z = (y, s'')" for y z s''
    using that by (auto simp: container_cleanup_def local_free_sid_def split: prod.splits option.splits
        dest!: revoke_all_facts(1) simp: same_but_acl_def)
  have "(\<exists>e. r = Inl e) \<and> g = new_guest X I ?sid spec"
    using assms(1,3,4) p l g2 launch_facts(5) [OF l assms(2) g2] free
    by (auto simp: app_container_run_def derive_sid_def Let_def try_finally_def split: if_splits prod.splits option.splits)
  then show ?thesis by (simp add: new_guest_def)
qed


section \<open>A concrete system\<close>

definition example_icacls :: "string list \<Rightarrow> acl \<Rightarrow> int \<times> acl" where
  "example_icacls args acl =
     (case args of
        [_, path, verb, who, _, _] \<Rightarrow>
          (if verb = ''/grant''
           then (0, (path, takeWhile (\<lambda>c. c \<noteq> CHR '':'') (tl who), tl (dropWhile (\<lambda>c. c \<noteq> CHR '':'') (tl who))) # acl)
           else (0, filter (\<lambda>(p, w, _). \<not> (p = path \<and> w = tl who)) acl))
      | _ \<Rightarrow> (87, acl))"

lemma example_icacls_documented: "CHR '':'' \<notin> set sid \<Longrightarrow> icacls_documented example_icacls sid"
proof -
  assume "CHR '':'' \<notin> set sid"
  then have "takeWhile (\<lambda>c. c \<noteq> CHR '':'') (sid @ CHR '':'' # perm) = sid"
    "dropWhile (\<lambda>c. c \<noteq> CHR '':'') (sid @ CHR '':'' # perm) = CHR '':'' # perm" for perm
    by (auto simp: takeWhile_append dropWhile_append)
  then show ?thesis by (simp add: icacls_documented_def example_icacls_def grant_args_def revoke_args_def)
qed

definition example_win32 :: win32 where
  "example_win32 =
     \<lparr>wa_platform = ''win32'', wa_create_profile = (\<lambda>_. -2147024713), wa_derive = (\<lambda>_. 0), wa_sid = (\<lambda>_. ''S-1-15-2-7''),
      wa_convert_sid = True, wa_icacls = example_icacls, wa_create_file = (\<lambda>_. True), wa_init_attributes = True,
      wa_update_attributes = True, wa_create_job = True, wa_set_job = True, wa_create_process = True, wa_assign_job = True\<rparr>"

lemma example_sid: "icacls_documented (wa_icacls example_win32) (wa_sid example_win32 PROFILE_NAME)"
  using example_icacls_documented [of "''S-1-15-2-7''"] by (simp add: example_win32_def)

definition example_interpreter :: interpreter where
  "example_interpreter =
     \<lparr>in_prefixes = [''/venv'', ''/python''], in_executable = ''/venv/python.exe'', in_base_executable = Some ''/python/python.exe'',
      in_sys_path = [''/venv/site-packages''], in_environ = [(''SYSTEMROOT'', ''/windows'')]\<rparr>"

definition example_order_spec :: sandbox_spec where
  "example_order_spec =
     \<lparr>sp_chef_main = ''/chef_main.py'', sp_pubkey_path = ''/pubkey.pem'', sp_fixtures_root = ''/mailbox'',
      sp_out_dir = ''/window/ord-1'', sp_workspace = ''/ws'', sp_stdin = ''{}''\<rparr>"

definition example_windows :: windows where
  "example_windows =
     \<lparr>wn_fs = \<lparr>files = [''/chef_main.py'' \<mapsto> ''chef'', ''/pubkey.pem'' \<mapsto> ''pem''], dirs = {''/ws'', ''/mailbox''}, trace = []\<rparr>,
      wn_acl = [(''/python'', ''S-1-15-2-7'', READ_EXECUTE)], wn_handles = [], wn_sids = 0, wn_guest = None\<rparr>"

definition example_container :: app_sandbox where
  "example_container = new_app_sandbox example_interpreter (wn_fs example_windows) 60 256 None"

definition idle_chef :: contained_chef where
  "idle_chef st ms spec = (\<lparr>wt_result = WAIT_OBJECT_0, wt_exit_code = Some 2\<rparr>, wn_fs st)"

lemma example_grants:
  "wa_icacls A = example_icacls \<Longrightarrow> \<exists>s'. grant_all A sid ps granted s = (None, granted @ map fst ps, s')"
proof (induction ps arbitrary: granted s)
  case (Cons x ps)
  obtain p perm where x: "x = (p, perm)" by fastforce
  obtain s1 where "grant A p sid perm s = (None, s1)"
    using Cons.prems by (simp add: grant_def example_icacls_def grant_args_def)
  then show ?case using Cons.IH [of "granted @ [p]" s1] Cons.prems by (simp add: x)
qed simp

lemma example_revokes: "wa_icacls A = example_icacls \<Longrightarrow> \<exists>s'. revoke_all A sid ps s = (None, s')"
  by (induction ps arbitrary: s) (simp_all add: revoke_def example_icacls_def revoke_args_def)

lemma prepare_succeeds:
  assumes "wa_icacls A = example_icacls" and "files (wn_fs s) (sp_chef_main spec) = Some a"
    and "files (wn_fs s) (sp_pubkey_path spec) = Some b" and "sp_pubkey_path spec \<noteq> local_chef spec"
    and "CHR 0x00 \<notin> set (sp_out_dir spec)"
  shows "\<exists>s2. prepare A sid spec s = (None, map fst (container_grants spec), s2)"
  using assms(2-5) example_grants [OF assms(1), of sid "container_grants spec" "[]"]
  by (simp add: prepare_def copy_file_def makedirs_def)

lemma example_prepare:
  assumes "wa_icacls A = example_icacls"
  shows "\<exists>s2. prepare A sid example_order_spec (example_windows\<lparr>wn_sids := n\<rparr>) =
     (None, map fst (container_grants example_order_spec), s2)"
  by (rule prepare_succeeds [OF assms])
    (simp_all add: example_windows_def workspace_paths folder_def endswith_def, simp_all add: example_order_spec_def folder_def endswith_def)

lemma example_launch:
  "\<exists>s'. launch example_win32 X example_interpreter idle_chef sid example_order_spec s = (Inr 2, s')"
  by (simp add: launch_def open_streams_def create_guest_def run_guest_def try_finally_def idle_chef_def Let_def
      example_win32_def WAIT_OBJECT_0_def WAIT_TIMEOUT_def)

text \<open>A run in a system like this one is its launch.\<close>

lemma example_runs:
  assumes "wa_icacls A = example_icacls" and "wa_platform A = ''win32''" and "wa_derive A PROFILE_NAME = 0"
    and "wa_convert_sid A" and "\<And>s. \<exists>s'. launch A X I chef (wa_sid A PROFILE_NAME) example_order_spec s = (r, s') \<and> P (wn_guest s')"
  shows "\<exists>s'. app_container_run A X I chef example_order_spec example_windows = (r, s') \<and> P (wn_guest s')"
proof -
  obtain s2 where p: "prepare A (wa_sid A PROFILE_NAME) example_order_spec
     (example_windows\<lparr>wn_sids := Suc (wn_sids example_windows)\<rparr>) = (None, map fst (container_grants example_order_spec), s2)"
    using example_prepare [OF assms(1)] by blast
  obtain s3 where l: "launch A X I chef (wa_sid A PROFILE_NAME) example_order_spec s2 = (r, s3)" "P (wn_guest s3)"
    using assms(5) by blast
  obtain s4 where c: "revoke_all A (wa_sid A PROFILE_NAME) (map fst (container_grants example_order_spec)) s3 = (None, s4)"
    using example_revokes [OF assms(1)] by blast
  then have "wn_guest s4 = wn_guest s3" using revoke_all_facts(1) by (simp add: same_but_acl_def)
  then show ?thesis
    using p l c assms(2-4)
    by (simp add: app_container_run_def derive_sid_def try_finally_def container_cleanup_def local_free_sid_def)
qed

lemma example_run:
  "\<exists>s'. app_container_run example_win32 X example_interpreter idle_chef example_order_spec example_windows = (Inr 2, s')"
  using example_runs [of example_win32 X example_interpreter idle_chef "Inr 2" "\<lambda>_. True"] example_launch
  by (simp add: example_win32_def)


theorem order_leaves_nothing_behind_witness:
  "\<exists>s'. app_container_run example_win32 example_container example_interpreter idle_chef example_order_spec example_windows = (Inr 2, s') \<and>
     set (wn_handles s') \<subseteq> set (wn_handles example_windows) \<and> wn_sids s' = 0"
proof -
  obtain s' where r: "app_container_run example_win32 example_container example_interpreter idle_chef example_order_spec example_windows = (Inr 2, s')"
    using example_run by blast
  from order_leaves_nothing_behind [OF example_sid r] r show ?thesis by (auto simp: example_windows_def)
qed

definition refusing_win32 :: win32 where
  "refusing_win32 = example_win32\<lparr>wa_assign_job := False\<rparr>"

theorem failed_assignment_strands_the_chef_witness:
  "\<exists>r s' g. app_container_run refusing_win32 example_container example_interpreter idle_chef example_order_spec example_windows = (r, s') \<and>
     wn_guest s' = Some g \<and> g_running g \<and> g_suspended g \<and> g_job g = None"
proof -
  have "\<exists>s'. launch refusing_win32 X I chef sid spec s = (Inl OSError, s') \<and> wn_guest s' \<noteq> None" for X I chef sid spec s
    by (simp add: launch_def open_streams_def create_guest_def run_guest_def try_finally_def Let_def close_job_def new_guest_def
        refusing_win32_def example_win32_def)
  then obtain s' where r: "app_container_run refusing_win32 example_container example_interpreter idle_chef example_order_spec
      example_windows = (Inl OSError, s')" and g: "wn_guest s' \<noteq> None"
    using example_runs [of refusing_win32 example_container example_interpreter idle_chef "Inl OSError" "\<lambda>g. g \<noteq> None"]
    by (auto simp: refusing_win32_def example_win32_def)
  obtain g' where g': "wn_guest s' = Some g'" using g by blast
  show ?thesis
    using failed_assignment_strands_the_chef [OF r _ _ g'] r g' by (auto simp: refusing_win32_def example_windows_def)
qed

section \<open>The contract of a backend\<close>

locale container_chef =
  fixes chef :: contained_chef
  assumes chef_writes: "chef st ms spec = (w, fs) \<Longrightarrow> p \<noteq> path_join (sp_out_dir spec) OUTPUT_FILENAME \<Longrightarrow>
    \<not> below (sp_workspace spec) p \<Longrightarrow> files fs p = files (wn_fs st) p"
begin

lemma run_guest_files:
  assumes "run_guest A X chef spec g s = (r, s')" and "p \<noteq> path_join (sp_out_dir spec) OUTPUT_FILENAME"
    and "\<not> below (sp_workspace spec) p"
  shows "files (wn_fs s') p = files (wn_fs s) p"
  using assms chef_writes [OF _ assms(2,3)] by (fastforce simp: run_guest_def Let_def split: if_splits prod.splits)

lemma launch_files:
  assumes "launch A X I chef sid spec s = (r, s')" and "p \<noteq> path_join (sp_out_dir spec) OUTPUT_FILENAME"
    and "\<not> below (sp_workspace spec) p"
  shows "files (wn_fs s') p = files (wn_fs s) p"
proof -
  have p: "p \<noteq> stdin_path spec" "p \<noteq> stdout_path spec" "p \<noteq> stderr_path spec" using assms(3) local_below by auto
  obtain b s1 where o: "open_streams A spec
      (s\<lparr>wn_fs := write_file (stdin_path spec) (crlf (sp_stdin spec)) (wn_fs s)\<rparr>) = (b, s1)" by fastforce
  obtain r2 s2 where c: "create_guest A X I chef sid spec (open_handle H_job s1) = (r2, s2)" by fastforce
  have "files (wn_fs s1) p = files (wn_fs s) p" using open_streams_facts(4) [OF o] p by simp
  moreover have "files (wn_fs s2) p = files (wn_fs s1) p"
    using c run_guest_files [OF _ assms(2,3)]
    by (auto simp: create_guest_def try_finally_def Let_def split: if_splits prod.splits dest: sym)
  moreover have "files (wn_fs s') p \<in> {files (wn_fs s1) p, files (wn_fs s2) p}"
    using assms(1) o c by (auto simp: launch_def Let_def try_finally_def split: if_splits bool.splits)
  ultimately show ?thesis by auto
qed

lemma app_container_contained: "contained (app_container_backend A X I chef s)"
proof
  fix spec fs r fs' p
  assume run: "app_container_backend A X I chef s spec fs = (r, fs')"
    and p: "p \<noteq> path_join (sp_out_dir spec) OUTPUT_FILENAME" "\<not> below (sp_workspace spec) p"
  have post: "wn_fs s2 = wn_fs s1" if "container_cleanup A sid granted s1 = (x, s2)" for sid granted s1 x s2
    using that by (auto simp: container_cleanup_def local_free_sid_def split: prod.splits option.splits
        dest!: revoke_all_facts(1) simp: same_but_acl_def)
  show "files fs' p = files fs p"
    using run prepare_files [OF _ p(2)] post launch_files [OF _ p]
    by (auto simp: app_container_backend_def app_container_run_def derive_sid_def Let_def try_finally_def
        split: if_splits prod.splits option.splits)
qed

end

sublocale container_chef \<subseteq> app_container: contained "app_container_backend A X I chef s" for A X I s
  by (rule app_container_contained)

text \<open>The program of the repository in the container: it runs on the copies, and ends within the wait.\<close>

definition chef_in_container :: "crypto \<Rightarrow> os \<Rightarrow> contained_chef" where
  "chef_in_container C W st ms spec =
     (case subprocess_run C W (spec\<lparr>sp_chef_main := local_chef spec, sp_pubkey_path := local_pubkey spec\<rparr>) (wn_fs st) of
        (x, fs) \<Rightarrow> (\<lparr>wt_result = WAIT_OBJECT_0, wt_exit_code = Some (case x of Inl _ \<Rightarrow> 1 | Inr n \<Rightarrow> word_of_int n)\<rparr>, fs))"

interpretation contained_program: container_chef "chef_in_container C W" for C W
proof
  fix st ms spec w fs p
  assume "chef_in_container C W st ms spec = (w, fs)" "p \<noteq> path_join (sp_out_dir spec) OUTPUT_FILENAME"
    "\<not> below (sp_workspace spec) p"
  then show "files fs p = files (wn_fs st) p"
    using subprocess.writes_output_only [of C W "spec\<lparr>sp_chef_main := local_chef spec, sp_pubkey_path := local_pubkey spec\<rparr>"]
    by (auto simp: chef_in_container_def split: prod.splits)
qed

end
