(* ===== verification/Programs.thy ===== *)
theory Programs
  imports Mcp Menu Microvm Appcontainer
begin

text \<open>
  The programs that put the parts together: the factory \<open>build_default\<close> of \<^verbatim>\<open>loop.py\<close>, and what
  \<^verbatim>\<open>run_slice.py\<close>, \<^verbatim>\<open>curriculum/drill.py\<close>, \<^verbatim>\<open>gateway.py\<close>, \<^verbatim>\<open>consumer/__main__.py\<close> and \<^verbatim>\<open>mcp_gateway.py\<close> do
  between the parsing of their arguments and their exit code. The installed package, the databases that
  \<^verbatim>\<open>sqlite3\<close> opens and the decoding of a private key are parameters; what is printed is the list of lines.
\<close>

section \<open>The package and the failures of a start\<close>

text \<open>
  The directory of the package (absolute, as \<^verbatim>\<open>os.path.abspath(__file__)\<close> gives it), its capabilities and policies, the operator's own capabilities (\<open>None\<close>
  where there is no directory of them) and the text of the chef's program.
\<close>

record package =
  pk_dir :: string
  pk_capabilities :: "string dict"
  pk_custom :: "string dict option"
  pk_policies :: "(string \<times> string) list"
  pk_chef_source :: string

text \<open>
  What the libraries give: the private key of a PEM file, the receipts of a database file once the
  constructor of the ledger has created the table it may lack, and the files of a directory, if it is one.
\<close>

record libraries =
  lb_load_private :: "string \<Rightarrow> exn + string"
  lb_open_ledger :: "string \<Rightarrow> string + table"
  lb_list_dir :: "string \<Rightarrow> string dict option"

datatype failure = Key_not_found string | Database_error string | Fails load_error

definition started_with :: "load_error + 'a \<Rightarrow> failure + 'a" where
  "started_with r = (case r of Inl e \<Rightarrow> Inl (Fails e) | Inr x \<Rightarrow> Inr x)"

definition raising :: "exn + 'a \<Rightarrow> failure + 'a" where
  "raising r = (case r of Inl e \<Rightarrow> Inl (Fails (Raises e)) | Inr x \<Rightarrow> Inr x)"

lemma started_with_Inr [simp]: "started_with r = Inr x \<longleftrightarrow> r = Inr x"
  by (cases r) (simp_all add: started_with_def)

lemma raising_simps [simp]: "raising (Inr x) = Inr x" "raising (Inl e) = Inl (Fails (Raises e))"
  by (simp_all add: raising_def)

definition in_package :: "package \<Rightarrow> string list \<Rightarrow> string" where
  "in_package P parts = fold (\<lambda>part path. path_join path part) parts (pk_dir P)"

definition missing_key :: "string \<Rightarrow> string" where
  "missing_key path =
     ''cashier private key not found at '' @ path @ ''.'' @ nl @
     ''Generate a keypair first:  python -m sentinel_slice.keygen'' @ nl @
     ''NOTE: a fresh keypair cannot verify receipts signed by an older '' @
     ''key - start a new ledger db (see README, 'Fresh clone '' @ ''bootstrap').''"

section \<open>The factory of the loop\<close>

text \<open>\<open>attestor_key\<close> is the key that the mock attestor generates for itself.\<close>

definition default_kitchen ::
  "crypto \<Rightarrow> os \<Rightarrow> package \<Rightarrow> string \<Rightarrow> string \<Rightarrow> string \<Rightarrow> backend option \<Rightarrow> kitchen" where
  "default_kitchen C W P attestor_key public_pem window chosen =
     \<lparr>kn_chef_main = in_package P [''chef'', ''chef_main.py''], kn_chef_source = pk_chef_source P,
      kn_public_key_pem_path = public_pem,
      kn_fixtures_root = in_package P [''kitchen'', ''fixtures'', ''mailbox''],
      kn_attestor_key = attestor_key, kn_window_root = window,
      kn_backend = given_or chosen (subprocess_sandbox C W)\<rparr>"

definition build_default ::
  "crypto \<Rightarrow> os \<Rightarrow> package \<Rightarrow> libraries \<Rightarrow> string \<Rightarrow> string \<Rightarrow> string option \<Rightarrow> string option \<Rightarrow> backend option \<Rightarrow>
   fsys \<Rightarrow> failure + service \<times> loop_state" where
  "build_default C W P L attestor_key ledger_db_path window keys_given chosen fs =
     (let key_dir = abspath W (given_or keys_given (in_package P [''keys'']));
          private_path = path_join key_dir PRIVATE_KEY_FILENAME
      in case files fs private_path of
           None \<Rightarrow> Inl (Key_not_found (missing_key private_path))
         | Some pem \<Rightarrow>
             bind_res (raising (lb_load_private L pem)) (\<lambda>private_key.
             bind_res (case lb_open_ledger L ledger_db_path of Inl e \<Rightarrow> Inl (Database_error e) | Inr rows \<Rightarrow> Inr rows) (\<lambda>rows.
             bind_res (started_with (load_catalog (pk_capabilities P) None False)) (\<lambda>menu.
             bind_res (started_with (load_policy_set (pk_policies P))) (\<lambda>policies. Inr
               (new_service W private_key menu policies
                  (default_kitchen C W P attestor_key (abspath W (path_join key_dir PUBLIC_KEY_FILENAME))
                     (abspath W (given_or window (in_package P [''window'', ''orders'']))) chosen),
                \<lparr>cs_store = empty_store, cs_ledger = rows, ls_fs = fs, ls_last_chef = None,
                 ls_current_order_meta = None\<rparr>))))))"

section \<open>The whole slice\<close>

text \<open>A field of a receipt or an outcome as an f-string shows it.\<close>

definition shown :: "json \<Rightarrow> string" where
  "shown j = (if j = JNull then ''None'' else str_of j)"

definition honest_line :: "honest_result \<Rightarrow> chef_result option \<Rightarrow> string" where
  "honest_line h chef =
     ''honest: accepted='' @ py_bool (hr_accepted h) @ '' fulfilled='' @ py_bool (hr_fulfilled h) @
     '' status='' @ (case chef of None \<Rightarrow> ''NONE'' | Some cr \<Rightarrow> shown (r_status (cr_receipt cr))) @
     '' digest='' @ (case chef of None \<Rightarrow> ''None'' | Some cr \<Rightarrow> shown (r_result_digest (cr_receipt cr)))"

definition injected_line :: "string \<times> bool \<times> string option \<Rightarrow> string" where
  "injected_line i =
     (case i of (order_id, accepted, reason) \<Rightarrow>
        ''injected: accepted='' @ py_bool accepted @ '' reason='' @ shown (jstr_opt reason))"

definition poisoned_path :: "package \<Rightarrow> string" where
  "poisoned_path P = in_package P [''kitchen'', ''fixtures'', ''mailbox'', ''user.kenji'', ''poisoned.txt'']"

definition poisoned_body :: "package \<Rightarrow> fsys \<Rightarrow> exn + string" where
  "poisoned_body P fs = (case files fs (poisoned_path P) of None \<Rightarrow> Inl OSError | Some bytes \<Rightarrow> read_text bytes)"

text \<open>The public key as the verifier's process reads it, and that process: its exit code and its output.\<close>

definition pem_at :: "os \<Rightarrow> fsys \<Rightarrow> string \<Rightarrow> pem_file" where
  "pem_at W fs path = (case files fs path of None \<Rightarrow> Pem_unreadable | Some pem \<Rightarrow> load_pem W pem)"

definition verifier_process :: "crypto \<Rightarrow> os \<Rightarrow> package \<Rightarrow> string \<Rightarrow> string \<Rightarrow> loop_state \<Rightarrow> nat \<times> string" where
  "verifier_process C W P ledger_db_path public_pem s =
     (case verify_ledger_main C (pem_at W (ls_fs s)) (\<lambda>_. Db_rows (cs_ledger s))
         [in_package P [''verify_ledger.py''], ledger_db_path, public_pem] of
        Inl _ \<Rightarrow> (1, [])
      | Inr r \<Rightarrow> r)"

text \<open>
  \<^verbatim>\<open>run_slice.py\<close>: the exit code and the lines printed, or the failure that ends the program; and the loop as
  it is then, if it was built.
\<close>

definition run_slice_main ::
  "crypto \<Rightarrow> os \<Rightarrow> package \<Rightarrow> libraries \<Rightarrow> string \<Rightarrow> draw \<Rightarrow> draw \<Rightarrow> string list \<Rightarrow> fsys \<Rightarrow>
   (failure + nat \<times> string list) \<times> loop_state option" where
  "run_slice_main C W P L attestor_key r1 r2 argv fs =
     (let ledger_db_path = (case argv of [] \<Rightarrow> ''ledger.db'' | a # _ \<Rightarrow> a) in
      case build_default C W P L attestor_key ledger_db_path None None None fs of
        Inl (Key_not_found text) \<Rightarrow> (Inr (2, [text]), None)
      | Inl e \<Rightarrow> (Inl e, None)
      | Inr (S, s) \<Rightarrow>
          (case run_honest C W S r1 s of
             (Inl e, s1) \<Rightarrow> (raising (Inl e), Some s1)
           | (Inr h, s1) \<Rightarrow>
               (case poisoned_body P (ls_fs s1) of
                  Inl e \<Rightarrow> (raising (Inl e), Some s1)
                | Inr body \<Rightarrow>
                    (case run_injected C W S r2 body s1 of
                       (Inl e, s2) \<Rightarrow> (raising (Inl e), Some s2)
                     | (Inr i, s2) \<Rightarrow>
                         (case verifier_process C W P ledger_db_path (kn_public_key_pem_path (sv_kitchen S)) s2 of
                            (code, said) \<Rightarrow>
                              (Inr (code, [honest_line h (ls_last_chef s1), injected_line i, strip said]), Some s2))))))"

section \<open>The drill and the gateway as programs\<close>

text \<open>
  Options of a command line that are not given are \<open>None\<close>. The drill opens the poisoned email when it comes
  to its second probe.
\<close>

definition drill_program ::
  "crypto \<Rightarrow> os \<Rightarrow> package \<Rightarrow> libraries \<Rightarrow> string \<Rightarrow> (nat \<Rightarrow> draw) \<Rightarrow> string \<Rightarrow> string option \<Rightarrow> string option \<Rightarrow> string option \<Rightarrow>
   bool \<Rightarrow> fsys \<Rightarrow> (failure + nat \<times> string) \<times> loop_state option" where
  "drill_program C W P L attestor_key draws control_uuid ledger keys_given window json fs =
     (case build_default C W P L attestor_key (given_or ledger ''drill-ledger.db'') window keys_given None fs of
        Inl (Key_not_found text) \<Rightarrow> (Inr (2, text), None)
      | Inl e \<Rightarrow> (Inl e, None)
      | Inr (S, s) \<Rightarrow>
          (case poisoned_body P (ls_fs s) of
             Inl e \<Rightarrow>
               (case fire_all C W S (take 1 (fixed_probes draws control_uuid [])) s of
                  (Inl x, s1) \<Rightarrow> (raising (Inl x), Some s1) | (Inr _, s1) \<Rightarrow> (raising (Inl e), Some s1))
           | Inr body \<Rightarrow>
               (case drill_main C W S draws control_uuid body json s of (r, s1) \<Rightarrow> (raising r, Some s1))))"

definition gateway_program ::
  "crypto \<Rightarrow> os \<Rightarrow> package \<Rightarrow> libraries \<Rightarrow> string \<Rightarrow> intake_moment \<Rightarrow> string option \<Rightarrow> string option \<Rightarrow> string option \<Rightarrow>
   string \<Rightarrow> fsys \<Rightarrow> (failure + nat \<times> string) \<times> loop_state option" where
  "gateway_program C W P L attestor_key m ledger keys_given window stdin fs =
     (case build_default C W P L attestor_key (given_or ledger ''ledger.db'') window keys_given None fs of
        Inl e \<Rightarrow> (Inl e, None)
      | Inr (S, s) \<Rightarrow> (case gateway_main C W S m stdin s of (r, s1) \<Rightarrow> (raising r, Some s1)))"

section \<open>The consumer's demonstration\<close>

definition DRAFT :: string where "DRAFT = ''cap.email.draft_reply.v1''"
definition PAY :: string where "PAY = ''cap.payment.initiate.v1''"

definition demo_order :: "draw \<Rightarrow> string \<Rightarrow> order" where
  "demo_order r capability_id =
     \<lparr>o_order_id = ''ord-'' @ dr_order_uuid r, o_principal = ''user.kenji'', o_role = ''account_manager'',
      o_capability_id = capability_id, o_args = [(''thread_id'', JStr ''user.kenji/t-001'')],
      o_nonce = ''nonce-'' @ dr_nonce_uuid r, o_ts = dr_ts r\<rparr>"

text \<open>The best gate there is: the dialog where there is a display, else the prompt in the terminal.\<close>

definition default_approver ::
  "bool \<Rightarrow> (json dict \<Rightarrow> string) \<Rightarrow> (prompt_spec \<Rightarrow> 'u \<Rightarrow> (exn + string option) \<times> 'u) \<Rightarrow>
   ('u \<Rightarrow> (exn + string option) \<times> 'u) \<Rightarrow> (prompt_spec list \<times> 'u) approver" where
  "default_approver display show_args show_fn input_fn =
     (if display then native_decide show_args show_fn
      else (\<lambda>ord cap (prompts, u). case cli_decide input_fn ord cap u of (r, u1) \<Rightarrow> (r, (prompts, u1))))"

definition demo_policy :: policy where
  "demo_policy = \<lparr>p_role = ''account_manager'', p_allowed_capabilities = [DRAFT, PAY], p_rate_limit_per_hour = 20,
     p_paused_capabilities = []\<rparr>"

text \<open>\<open>tmp\<close> is the directory that \<^verbatim>\<open>mkdtemp\<close> makes, \<open>usual\<close> the default home of the application.\<close>

definition demo_service ::
  "crypto \<Rightarrow> os \<Rightarrow> package \<Rightarrow> string \<Rightarrow> string \<Rightarrow> string \<Rightarrow> (string \<times> capability) list \<Rightarrow> service" where
  "demo_service C W P attestor_key tmp private_key menu =
     new_service W private_key menu [demo_policy]
       (default_kitchen C W P attestor_key (path_join (path_join tmp ''keys'') PUBLIC_KEY_FILENAME)
          (path_join tmp ''win'') None)"

definition demo_preferences_path :: "os \<Rightarrow> string \<Rightarrow> fsys \<Rightarrow> string" where
  "demo_preferences_path W usual fs =
     (case rt_preferences_path (resolve_runtime_paths None None None None usual fs) of
        None \<Rightarrow> abspath W ''sentinel_permissions.json''
      | Some p \<Rightarrow> if p = [] then abspath W ''sentinel_permissions.json'' else p)"

definition demo_set_up ::
  "crypto \<Rightarrow> os \<Rightarrow> package \<Rightarrow> libraries \<Rightarrow> string \<Rightarrow> key_pair \<Rightarrow> string \<Rightarrow> string \<Rightarrow> 'u \<Rightarrow> fsys \<Rightarrow>
   (failure + service \<times> 'u consumer_state) \<times> fsys" where
  "demo_set_up C W P L attestor_key kp tmp usual u fs =
     (case generate_keypair kp (path_join tmp ''keys'') fs of
        (Inl e, fs1) \<Rightarrow> (raising (Inl e), fs1)
      | (Inr (private_path, public_path), fs1) \<Rightarrow>
          (bind_res (raising (lb_load_private L (kp_private kp))) (\<lambda>private_key.
           bind_res (started_with (load_catalog (pk_capabilities P) None False)) (\<lambda>menu.
           bind_res (raising (load_prefs (demo_preferences_path W usual fs1) fs1)) (\<lambda>prefs. Inr
             (demo_service C W P attestor_key tmp private_key menu,
              \<lparr>cs_store = empty_store, cs_ledger = [], ls_fs = fs1, ls_last_chef = None,
               ls_current_order_meta = None, cn_prefs = prefs, cn_user = u\<rparr>)))), fs1))"

text \<open>A row of the receipts as the demonstration prints it.\<close>

definition receipt_line :: "nat \<Rightarrow> receipt \<Rightarrow> exn + string" where
  "receipt_line i rc =
     (case (if falsy (r_order_meta rc) then JObj [] else r_order_meta rc) of
        JObj who \<Rightarrow>
          bind_res (str_item (r_status rc)) (\<lambda>st. Inr (
            ''  seq '' @ string_of_nat i @ '' '' @ ljust 10 st @ '' '' @
            ljust 18 (if falsy (r_reason_code rc) then ''-'' else str_of (r_reason_code rc)) @ '' '' @
            shown (field_or who ''capability_id'' (JStr ''?''))))
      | _ \<Rightarrow> Inl AttributeError)"

definition demo_lines :: "consumer_outcome \<Rightarrow> consumer_outcome \<Rightarrow> receipt list \<Rightarrow> exn + string list" where
  "demo_lines o1 o2 receipts =
     bind_res (map_res (\<lambda>(i, rc). receipt_line i rc) (zip [1..<Suc (length receipts)] receipts)) (\<lambda>rows. Inr (
       [''=== benign action: draft a reply (no friction expected) ==='',
        ''  -> '' @ co_status o1 @ '' (asked you? '' @ py_bool (co_asked o1) @ '')'',
        nl @ ''=== high-stakes action: initiate a payment ==='',
        ''  (imagine the agent reached this after reading a sketchy email)'',
        ''  -> '' @ co_status o2 @ '' (reason: '' @ shown (jstr_opt (co_reason_code o2)) @ '')'',
        nl @ ''=== the receipt chain (what your agent actually did) ===''] @ rows))"

definition run_demo ::
  "crypto \<Rightarrow> os \<Rightarrow> service \<Rightarrow> 'u approver \<Rightarrow> draw \<Rightarrow> draw \<Rightarrow> 'u consumer_state \<Rightarrow> (exn + string list) \<times> 'u consumer_state" where
  "run_demo C W S decide r1 r2 s =
     (case consumer_place C W S decide (dr_moment r1) (demo_order r1 DRAFT) s of
        (Inl e, s1) \<Rightarrow> (Inl e, s1)
      | (Inr o1, s1) \<Rightarrow>
          (case consumer_place C W S decide (dr_moment r2) (demo_order r2 PAY) s1 of
             (Inl e, s2) \<Rightarrow> (Inl e, s2)
           | (Inr o2, s2) \<Rightarrow> (bind_res (read_all (cs_ledger s2)) (demo_lines o1 o2), s2)))"

definition consumer_demo ::
  "crypto \<Rightarrow> os \<Rightarrow> package \<Rightarrow> libraries \<Rightarrow> string \<Rightarrow> key_pair \<Rightarrow> string \<Rightarrow> string \<Rightarrow> bool \<Rightarrow> (prompt_spec list \<times> 'u) approver \<Rightarrow>
   draw \<Rightarrow> draw \<Rightarrow> 'u \<Rightarrow> fsys \<Rightarrow> (failure + nat \<times> string list) \<times> table \<times> fsys" where
  "consumer_demo C W P L attestor_key kp tmp usual display decide r1 r2 u fs =
     (case demo_set_up C W P L attestor_key kp tmp usual ([], u) (mkdtemp tmp fs) of
        (Inl e, fs1) \<Rightarrow> (Inl e, [], rmtree tmp fs1)
      | (Inr (S, s), fs1) \<Rightarrow>
          (case run_demo C W S decide r1 r2 s of
             (r, s1) \<Rightarrow>
               (bind_res (raising r) (\<lambda>printed. Inr (0,
                  (''(confirmation gate: '' @ (if display then ''on-device dialog'' else ''terminal prompt'') @ '')'') # printed)),
                cs_ledger s1, rmtree tmp (ls_fs s1))))"

section \<open>The MCP gateway as a program\<close>

record mcp_options =
  mo_principal :: string
  mo_role :: string
  mo_ledger :: "string option"
  mo_keys :: "string option"
  mo_window :: "string option"
  mo_home :: "string option"
  mo_sandbox :: string
  mo_confirm :: bool

text \<open>What each backend of the chef takes of the machine it is started on.\<close>

record platform =
  pf_win32 :: win32
  pf_interpreter :: interpreter
  pf_windows :: windows
  pf_contained_chef :: contained_chef
  pf_linux :: linux
  pf_linux_chef :: "process \<Rightarrow> sandbox_run"
  pf_host :: host
  pf_launch :: launcher
  pf_commands :: commands
  pf_vm_work :: string
  pf_environ :: environ
  pf_usual_home :: string
  pf_display :: bool

definition chosen_backend :: "os \<Rightarrow> platform \<Rightarrow> fsys \<Rightarrow> containment_choice \<Rightarrow> backend" where
  "chosen_backend W F fs ch =
     (case ch of
        App_Container \<Rightarrow>
          app_container_sandbox (pf_win32 F) (new_app_sandbox (pf_interpreter F) fs 60 256 None) (pf_interpreter F)
            (pf_contained_chef F) (pf_windows F)
      | Linux_Seccomp \<Rightarrow> linux_sandbox W (pf_linux F) (pf_linux_chef F)
      | Mac_Seatbelt \<Rightarrow>
          \<lparr>b_run = mac_run W (pf_host F) (pf_launch F) ''sandbox-exec'', b_containment_class = Some ''macsandbox''\<rparr>
      | Micro_Vm \<Rightarrow> microvm_sandbox (pf_host F) (pf_commands F) (env_micro_vm (pf_environ F)) (pf_vm_work F))"

text \<open>What is said on the error stream about a backend that is wanted and is not there.\<close>

definition fallback_note :: "string \<Rightarrow> string list" where
  "fallback_note want =
     (if want = ''appcontainer'' then
        [''sentinel-mcp: AppContainer requested but unavailable here; '' @ ''falling back to the subprocess contract.'']
      else if want = ''seccomp'' then
        [''sentinel-mcp: seccomp sandbox requested but unavailable here '' @
         ''(needs Linux x86_64/aarch64); falling back to the subprocess '' @ ''contract.'']
      else if want = ''macsandbox'' then
        [''sentinel-mcp: macsandbox requested but unavailable here '' @ ''(needs macOS with sandbox-exec); falling back to the '' @
         ''subprocess contract.'']
      else if want = ''microvm'' then
        [''sentinel-mcp: microvm requested but unavailable here (needs '' @ ''Linux + /dev/kvm + qemu + a prebuilt rootfs/kernel in '' @
         ''$SENTINEL_MICROVM_ROOTFS/_KERNEL); falling back to the '' @ ''subprocess contract.'']
      else [])"

definition mcp_paths :: "platform \<Rightarrow> mcp_options \<Rightarrow> fsys \<Rightarrow> runtime_paths" where
  "mcp_paths F Q fs = resolve_runtime_paths (mo_ledger Q) (mo_keys Q) (mo_window Q) (mo_home Q) (pf_usual_home F) fs"

definition mcp_choice :: "os \<Rightarrow> platform \<Rightarrow> mcp_options \<Rightarrow> fsys \<Rightarrow> containment_choice option" where
  "mcp_choice W F Q fs =
     resolve_sandbox (installed_container (pf_win32 F) W (pf_interpreter F) (pf_windows F)) (pf_linux F) (pf_host F) (pf_environ F)
       (mo_sandbox Q) (rt_home (mcp_paths F Q fs)) fs"

definition mcp_notes :: "os \<Rightarrow> platform \<Rightarrow> mcp_options \<Rightarrow> fsys \<Rightarrow> string list" where
  "mcp_notes W F Q fs =
     (let paths = mcp_paths F Q fs in
      (if rt_initialized paths then [''sentinel-mcp: using app home '' @ rt_home paths] else []) @
      (case mcp_choice W F Q fs of
         None \<Rightarrow> fallback_note (wanted_backend (mo_sandbox Q) (rt_home paths) fs)
       | Some ch \<Rightarrow> [''sentinel-mcp: chef containment = '' @ (case b_containment_class (chosen_backend W F fs ch) of
           None \<Rightarrow> [] | Some c \<Rightarrow> c)]))"

text \<open>The service behind the gateway: the loop, with the operator's own capabilities on its menu.\<close>

definition mcp_service ::
  "crypto \<Rightarrow> os \<Rightarrow> package \<Rightarrow> libraries \<Rightarrow> platform \<Rightarrow> string \<Rightarrow> mcp_options \<Rightarrow> fsys \<Rightarrow> failure + service \<times> loop_state" where
  "mcp_service C W P L F attestor_key Q fs =
     (let paths = mcp_paths F Q fs in
      bind_res (build_default C W P L attestor_key (rt_ledger paths) (rt_window_root paths) (rt_keys_dir paths)
        (map_option (chosen_backend W F fs) (mcp_choice W F Q fs)) fs) (\<lambda>(S, s).
      bind_res (started_with (load_catalog (pk_capabilities P)
        (case rt_custom_capabilities_dir paths of None \<Rightarrow> pk_custom P | Some d \<Rightarrow> lb_list_dir L d) False)) (\<lambda>menu.
      Inr (S\<lparr>sv_menu := menu\<rparr>, s))))"

definition mcp_gateway :: "mcp_options \<Rightarrow> service \<Rightarrow> (json \<Rightarrow> string) \<Rightarrow> 's call \<Rightarrow> 's gateway" where
  "mcp_gateway Q S show_json call =
     \<lparr>gw_menu = sv_menu S, gw_principal = mo_principal Q, gw_role = mo_role Q, gw_server_name = ''sentinel-loop'',
      gw_version = server_version, gw_confirms = mo_confirm Q, gw_call = call, gw_str = show_json\<rparr>"

text \<open>
  A session: the exit code or the failure that ends it, what was written to the standard output and to the
  error stream, and the ledger and the files at its end. \<open>lines\<close> are the lines that the client writes.
\<close>

record session =
  sn_result :: "failure + nat"
  sn_stdout :: string
  sn_stderr :: "string list"
  sn_ledger :: "table option"
  sn_fs :: fsys

definition no_display_note :: string where
  "no_display_note = ''sentinel-mcp: --confirm needs a display for on-device '' @
     ''approval dialogs and none is available; refusing to start '' @ ''(the confirmation gate must not fail open).''"

definition session_end ::
  "string list \<Rightarrow> (exn option \<times> string) \<times> 'z loop_state_scheme \<Rightarrow> session" where
  "session_end notes r =
     (case r of ((e, out), s) \<Rightarrow>
        \<lparr>sn_result = (case e of None \<Rightarrow> Inr 0 | Some x \<Rightarrow> Inl (Fails (Raises x))), sn_stdout = out, sn_stderr = notes,
         sn_ledger = Some (cs_ledger s), sn_fs = ls_fs s\<rparr>)"

definition confirmed_session ::
  "crypto \<Rightarrow> os \<Rightarrow> platform \<Rightarrow> mcp_options \<Rightarrow> (json \<Rightarrow> string) \<Rightarrow> (json dict \<Rightarrow> string) \<Rightarrow>
   (prompt_spec \<Rightarrow> 'u \<Rightarrow> (exn + string option) \<times> 'u) \<Rightarrow> 'u \<Rightarrow> (draw \<times> string) list \<Rightarrow> runtime_paths \<Rightarrow> service \<Rightarrow> loop_state \<Rightarrow>
   string list \<Rightarrow> session" where
  "confirmed_session C W F Q show_json show_args show_fn u client paths S s notes =
     (let prefs_path = (case rt_preferences_path paths of None \<Rightarrow> abspath W ''sentinel_permissions.json'' | Some p \<Rightarrow> p);
          at_once = (\<lambda>result notes. \<lparr>sn_result = result, sn_stdout = [], sn_stderr = notes,
            sn_ledger = Some (cs_ledger s), sn_fs = ls_fs s\<rparr>)
      in if \<not> pf_display F then at_once (Inr 2) (notes @ [no_display_note])
         else (case load_prefs prefs_path (ls_fs s) of
             Inl e \<Rightarrow> at_once (raising (Inl e)) notes
           | Inr prefs \<Rightarrow>
               session_end (notes @ [''sentinel-mcp: on-device confirmation gate active '' @ ''(permissions: '' @ prefs_path @ '')''])
                 (serve (mcp_gateway Q S show_json (confirmed_call C W S (native_decide show_args show_fn))) client
                   \<lparr>cs_store = cs_store s, cs_ledger = cs_ledger s, ls_fs = ls_fs s, ls_last_chef = ls_last_chef s,
                    ls_current_order_meta = ls_current_order_meta s, cn_prefs = prefs, cn_user = ([], u)\<rparr>)))"

definition mcp_main ::
  "crypto \<Rightarrow> os \<Rightarrow> package \<Rightarrow> libraries \<Rightarrow> platform \<Rightarrow> string \<Rightarrow> (json \<Rightarrow> string) \<Rightarrow> (json dict \<Rightarrow> string) \<Rightarrow>
   (prompt_spec \<Rightarrow> 'u \<Rightarrow> (exn + string option) \<times> 'u) \<Rightarrow> 'u \<Rightarrow> mcp_options \<Rightarrow> (draw \<times> string) list \<Rightarrow> fsys \<Rightarrow> session" where
  "mcp_main C W P L F attestor_key show_json show_args show_fn u Q client fs =
     (let notes = mcp_notes W F Q fs;
          at_once = (\<lambda>result notes. \<lparr>sn_result = result, sn_stdout = [], sn_stderr = notes, sn_ledger = None, sn_fs = fs\<rparr>)
      in case mcp_service C W P L F attestor_key Q fs of
           Inl (Key_not_found text) \<Rightarrow> at_once (Inr 2) (notes @ [text])
         | Inl e \<Rightarrow> at_once (Inl e) notes
         | Inr (S, s) \<Rightarrow>
             if mo_confirm Q
             then confirmed_session C W F Q show_json show_args show_fn u client (mcp_paths F Q fs) S s notes
             else session_end notes (serve (mcp_gateway Q S show_json (plain_call C W S)) client s))"

section \<open>What placing an order leaves alone\<close>

definition order_output :: "os \<Rightarrow> service \<Rightarrow> order \<Rightarrow> string" where
  "order_output W S ord =
     path_join (window_path W (o_order_id ord) (kn_window_root (sv_kitchen S))) OUTPUT_FILENAME"

lemma place_store:
  assumes "place C W S m ord s = (r, s')"
  shows "seen_nonces (cs_store s') = insert (o_nonce ord) (seen_nonces (cs_store s))"
proof -
  have "cs_store s' = cs_store (snd (place C W S m ord s))" by (simp add: assms)
  then show ?thesis unfolding place_def store_after_process [OF spawn_keeps_store] by simp
qed

lemma place_files:
  assumes "kn_backend (sv_kitchen S) = subprocess_sandbox C W" and "place C W S m ord s = (r, s')"
    and "\<not> below (lm_workspace m) p" and "p \<noteq> order_output W S ord"
  shows "files (ls_fs s') p = files (ls_fs s) p"
proof (cases "accepts S m s ord")
  case True
  let ?t = "ticket_for C (sv_private_key S) (sv_menu S) (lm_moment m) ord"
  have b: "b_run (kn_backend (sv_kitchen S)) = subprocess_run C W" by (simp add: assms(1) subprocess_sandbox_def)
  have t: "t_order_id ?t = o_order_id ord" by (simp add: ticket_for_def mint_ticket_def Let_def)
  let ?meta = "Some (order_meta_from_order ord)"
  obtain q fs2 ledger where q: "run_chef C (sv_private_key S) W (sv_kitchen S) (lm_receipt_uuid m) (lm_workspace m) ?t
      ?meta (ls_fs s) (cs_ledger s) = (q, fs2, ledger)" by (metis prod.exhaust)
  have "files fs2 p = files (ls_fs s) p"
    using subprocess.run_chef_files [OF b q assms(3)] assms(4) t by (simp add: order_output_def)
  moreover have "d_accepted (evaluate_order (sv_menu S) (sv_policy_set S) (m_rate_now (lm_moment m))
      (cs_store (begin_place ord s)) ord)" using True by simp
  ultimately show ?thesis
    using assms(2) q by (auto simp: place_def process_accepted spawn_chef_def split: sum.splits)
next
  case False
  then obtain reason where "evaluate_order (sv_menu S) (sv_policy_set S) (m_rate_now (lm_moment m))
      (cs_store (begin_place ord s)) ord = reject reason"
    using rejected_fields by fastforce
  then show ?thesis
    using assms(2) by (auto simp: place_def process_rejected after_nonce_def split: sum.splits prod.splits)
qed

lemma place_refused:
  assumes "sig_correct C" and "verify_ledger_rows C (ed_pub C (sv_private_key S)) (cs_ledger s) = Verified n"
    and "evaluate_order (sv_menu S) (sv_policy_set S) (m_rate_now (lm_moment m)) (cs_store s) ord = reject reason"
  obtains rc s' where "place C W S m ord s = (Inr (RejectionOutcome reason rc), s')"
    "verify_ledger_rows C (ed_pub C (sv_private_key S)) (cs_ledger s') = Verified (Suc n)" "ls_fs s' = ls_fs s"
    "ls_last_chef s' = None" "r_status rc = JStr ''REJECTED''" "r_reason_code rc = JStr reason"
proof -
  let ?e = "rejection_entry (m_uuid (lm_moment m)) ord reason"
  obtain raw rc where a: "ledger_append C (sv_private_key S) ?e (cs_ledger s) = Inr (insert_row raw (cs_ledger s), rc)"
    "verify_ledger_rows C (ed_pub C (sv_private_key S)) (insert_row raw (cs_ledger s)) = Verified (Suc n)"
    using ledger_append_verified [OF assms(1) wf_rejection_entry assms(2)] by blast
  have e: "evaluate_order (sv_menu S) (sv_policy_set S) (m_rate_now (lm_moment m)) (cs_store (begin_place ord s)) ord = reject reason"
    using assms(3) by simp
  show thesis
    using a ledger_append_receipt [OF a(1)]
    by (intro that [of rc "(after_nonce ord (begin_place ord s))\<lparr>cs_ledger := insert_row raw (cs_ledger s)\<rparr>"])
      (simp_all add: place_def process_rejected [OF e] append_rejection_def rejection_entry_def jstr_opt_def)
qed

section \<open>The slice from end to end\<close>

lemma build_default_Inr:
  assumes "build_default C W P L attestor_key db window keys_given chosen fs = Inr (S, s)"
  shows "ls_fs s = fs" and "cs_store s = empty_store" and "lb_open_ledger L db = Inr (cs_ledger s)"
    and "kn_backend (sv_kitchen S) = given_or chosen (subprocess_sandbox C W)"
  using assms by (auto simp: build_default_def Let_def bind_res_Inr new_service_def default_kitchen_def
      split: option.splits sum.splits)

lemma strip_numbered:
  assumes "ascii (a # s)" and "\<not> is_space (of_char a)"
  shows "strip (a # s @ string_of_nat n) = a # s @ string_of_nat n"
proof -
  have d: "\<forall>c \<in> set (string_of_nat n). is_digit c" using string_of_nat_digits [of n] by (simp add: list_all_iff)
  obtain cs c where n: "string_of_nat n = cs @ [c]" using string_of_nat_head [of n] by (metis list.discI rev_exhaust)
  have "ascii (string_of_nat n)" using d by (auto simp: ascii_def is_digit_def)
  then have "ascii (a # (s @ cs) @ [c])" using assms(1) n by (auto simp: ascii_def)
  moreover have "\<not> is_space (of_char c)" using d n by (auto simp: is_digit_def is_space_def)
  ultimately show ?thesis using strip_framed [of a "s @ cs" c "[]"] assms(2) n by (simp add: ascii_def)
qed

lemma read_own_draft:
  assumes "window_ok W S ord"
  obtains draft fs' where "read_window_draft W S (o_order_id ord) fs = (Inr draft, fs')" "files fs' = files fs"
  using assms that
  by (auto simp: read_window_draft_def read_draft_def draft_path_def window_dir_def makedirs_def window_ok_def Let_def)

lemma run_honest_served:
  assumes "place C W S (dr_moment r) (make_honest_order r ''user.kenji'') s = (Inr (TicketOutcome t), s1)"
    and "ls_last_chef s1 = Some cr" and "cr_returncode cr = 0" and "window_ok W S (make_honest_order r ''user.kenji'')"
  obtains h s2 where "run_honest C W S r s = (Inr h, s2)" "hr_accepted h" "hr_fulfilled h" "ls_last_chef s2 = Some cr"
    "cs_ledger s2 = cs_ledger s1" "cs_store s2 = cs_store s1" "files (ls_fs s2) = files (ls_fs s1)"
proof -
  obtain draft fs' where "read_window_draft W S (o_order_id (make_honest_order r ''user.kenji'')) (ls_fs s1) = (Inr draft, fs')"
    "files fs' = files (ls_fs s1)"
    by (rule read_own_draft [OF assms(4)])
  then show thesis using assms(1-3) that by (auto simp: run_honest_def Let_def)
qed

lemma run_injected_refused:
  assumes "sig_correct C" and "verify_ledger_rows C (ed_pub C (sv_private_key S)) (cs_ledger s) = Verified n"
    and "map_of (sv_menu S) ''forward_inbox'' = None" and "''nonce-'' @ dr_nonce_uuid r \<notin> seen_nonces (cs_store s)"
    and "injected_target body \<noteq> None"
  obtains i s' where "run_injected C W S r body s = (Inr (i, False, Some ''OFF_MENU''), s')"
    "verify_ledger_rows C (ed_pub C (sv_private_key S)) (cs_ledger s') = Verified (Suc n)" "ls_fs s' = ls_fs s"
proof -
  obtain target where t: "injected_target body = Some target" using assms(5) by blast
  let ?ord = "\<lparr>o_order_id = ''ord-'' @ dr_order_uuid r, o_principal = ''user.kenji'', o_role = ''account_manager'',
    o_capability_id = ''forward_inbox'', o_args = [(''target'', JStr target)], o_nonce = ''nonce-'' @ dr_nonce_uuid r,
    o_ts = dr_ts r\<rparr>"
  have "evaluate_order (sv_menu S) (sv_policy_set S) (m_rate_now (lm_moment (dr_moment r))) (cs_store s) ?ord = reject ''OFF_MENU''"
    using assms(3,4) by (simp add: evaluate_order_def nonce_is_spent_def)
  from place_refused [OF assms(1,2) this] obtain rc s' where
    "place C W S (dr_moment r) ?ord s = (Inr (RejectionOutcome ''OFF_MENU'' rc), s')"
    "verify_ledger_rows C (ed_pub C (sv_private_key S)) (cs_ledger s') = Verified (Suc n)" "ls_fs s' = ls_fs s"
    by blast
  then show thesis using that by (simp add: run_injected_def make_injected_order_def t)
qed

text \<open>The files that the slice needs after its first order, which that order does not write.\<close>

definition kept_by :: "os \<Rightarrow> service \<Rightarrow> loop_moment \<Rightarrow> order \<Rightarrow> string \<Rightarrow> bool" where
  "kept_by W S m ord p \<longleftrightarrow> \<not> below (lm_workspace m) p \<and> p \<noteq> order_output W S ord"

text \<open>
  C12. The slice from end to end, to the letter: with a cashier's key that belongs to the public key on the
  disk, a ledger that verifies under it and a policy that admits the honest order, \<^verbatim>\<open>run_slice.py\<close> ends with
  exit code 0 and prints exactly three lines: the honest order was accepted and fulfilled, with the digest of
  what the chef's handler makes of the thread; the order that the poisoned email demands was rejected as
  \<^verbatim>\<open>OFF_MENU\<close>; and the verifier counts two rows more than there were.
\<close>

theorem slice_runs_end_to_end:
  fixes P :: package and r1 r2 :: draw
  defines "honest \<equiv> make_honest_order r1 ''user.kenji''"
  assumes "sig_correct C" and "\<forall>p. normal_path (realpath W p)"
    and "build_default C W P L attestor_key db None None None fs = Inr (S, s)"
    and "verify_ledger_rows C (ed_pub C (sv_private_key S)) (cs_ledger s) = Verified n"
    and "accepts S (dr_moment r1) s honest" and "window_ok W S honest" and "servable C W S honest fs out"
    and "map_of (sv_menu S) ''forward_inbox'' = None" and "dr_nonce_uuid r2 \<noteq> dr_nonce_uuid r1"
    and "poisoned_body P fs = Inr body" and "injected_target body \<noteq> None"
    and "\<forall>p \<in> {kn_public_key_pem_path (sv_kitchen S), poisoned_path P}. kept_by W S (dr_moment r1) honest p"
  shows "\<exists>s'. run_slice_main C W P L attestor_key r1 r2 [db] fs =
      (Inr (0, [''honest: accepted=True fulfilled=True status=FULFILLED digest='' @ sha256_hex C out,
          ''injected: accepted=False reason=OFF_MENU'', ''OK verified='' @ string_of_nat (n + 2)]), Some s') \<and>
    verify_ledger_rows C (ed_pub C (sv_private_key S)) (cs_ledger s') = Verified (n + 2)"
proof -
  note b = build_default_Inr [OF assms(4)]
  have sub: "kn_backend (sv_kitchen S) = subprocess_sandbox C W" using b(4) by simp
  have srv: "servable C W S honest (ls_fs s) out" using assms(8) b(1) by simp
  obtain t cr s1 where p: "place C W S (dr_moment r1) honest s = (Inr (TicketOutcome t), s1)" "ls_last_chef s1 = Some cr"
    "cr_returncode cr = 0" "r_status (cr_receipt cr) = JStr ''FULFILLED''"
    "r_result_digest (cr_receipt cr) = JStr (sha256_hex C out)"
    "verify_ledger_rows C (ed_pub C (sv_private_key S)) (cs_ledger s1) = Verified (Suc n)"
    using accepted_order_served [OF assms(2,3) sub assms(5,6,7) srv] by blast
  obtain h s2 where h: "run_honest C W S r1 s = (Inr h, s2)" "hr_accepted h" "hr_fulfilled h" "ls_last_chef s2 = Some cr"
    "cs_ledger s2 = cs_ledger s1" "cs_store s2 = cs_store s1" "files (ls_fs s2) = files (ls_fs s1)"
    using run_honest_served [OF p(1) [unfolded honest_def] p(2,3) assms(7) [unfolded honest_def]] by blast
  have same: "files (ls_fs s2) q = files fs q" if "kept_by W S (dr_moment r1) honest q" for q
    using place_files [OF sub p(1)] that h(7) b(1) by (simp add: kept_by_def)
  have body: "poisoned_body P (ls_fs s2) = Inr body"
    using assms(11,13) same by (simp add: poisoned_body_def)
  have "''nonce-'' @ dr_nonce_uuid r2 \<notin> seen_nonces (cs_store s2)"
    using place_store [OF p(1)] assms(10) h(6) b(2) by (simp add: honest_def make_honest_order_def empty_store_def)
  moreover have "verify_ledger_rows C (ed_pub C (sv_private_key S)) (cs_ledger s2) = Verified (Suc n)" using p(6) h(5) by simp
  ultimately obtain i s3 where i: "run_injected C W S r2 body s2 = (Inr (i, False, Some ''OFF_MENU''), s3)"
    "verify_ledger_rows C (ed_pub C (sv_private_key S)) (cs_ledger s3) = Verified (Suc (Suc n))" "ls_fs s3 = ls_fs s2"
    using run_injected_refused [OF assms(2) _ assms(9) _ assms(12)] by blast
  obtain pem where pem: "files fs (kn_public_key_pem_path (sv_kitchen S)) = Some pem"
    "load_pem W pem = Pem_ed25519 (ed_pub C (sv_private_key S))"
    using assms(8) unfolding servable_def by blast
  have "verifier_process C W P db (kn_public_key_pem_path (sv_kitchen S)) s3 =
      (0, ''OK verified='' @ string_of_nat (Suc (Suc n)))"
    using pem same assms(13) i(2,3) by (simp add: verifier_process_def verify_ledger_main_def pem_at_def print_verdict_def)
  moreover have "strip (''OK verified='' @ string_of_nat (Suc (Suc n))) = ''OK verified='' @ string_of_nat (Suc (Suc n))"
    using strip_numbered [of "CHR ''O''" "''K verified=''"] by (simp add: is_space_def)
  ultimately show ?thesis
    using assms(4) h(1-4) body i p(4,5)
    by (simp add: run_slice_main_def honest_line_def injected_line_def py_bool_def shown_def jstr_opt_def)
qed

lemma split_ws_word:
  assumes "ascii s" and "list_all (\<lambda>c. \<not> is_space (of_char c)) s" and "s \<noteq> []"
  shows "split_ws s = [s]"
proof -
  have w: "words w ns = [rev w @ ns]" if "list_all (\<lambda>n. \<not> is_space n) ns" "w \<noteq> [] \<or> ns \<noteq> []" for w ns
    using that by (induction ns arbitrary: w) auto
  have "words [] (map of_char s) = [map of_char s]"
    using w [of "map of_char s" "[]"] assms(2,3) by (simp add: list_all_iff)
  then show ?thesis
    using encode_code_points [of s] by (simp add: split_ws_def code_points_ascii [OF assms(1)])
qed

lemma example_target: "injected_target ''attacker@evil.test'' \<noteq> None"
proof -
  have "split_ws ''attacker@evil.test'' = [''attacker@evil.test'']"
    by (rule split_ws_word) (simp_all add: is_space_def)
  then show ?thesis by (simp add: injected_target_def startswith_def)
qed

text \<open>The draft capability and the policy that the package ships, and a home for them.\<close>

definition draft_descriptor :: "json dict" where
  "draft_descriptor =
     [(''id'', JStr ''cap.email.draft_reply.v1''), (''name'', JStr ''Draft email reply''),
      (''inputs'', JObj [(''thread_id'', JStr ''string'')]), (''outputs'', JObj [(''draft'', JStr ''text'')]),
      (''side_effects'', JStr ''none''), (''scope'', JStr ''own_queue''), (''risk_class'', JStr ''low''),
      (''behavior'', JStr ''draft_reply''), (''recommended_max_rate'', JInt 20),
      (''requires_second_admin'', JBool False)]"

definition manager_policy :: policy where
  "manager_policy = \<lparr>p_role = ''account_manager'', p_allowed_capabilities = [''cap.email.draft_reply.v1''],
     p_rate_limit_per_hour = 5, p_paused_capabilities = []\<rparr>"

definition example_package :: package where
  "example_package =
     \<lparr>pk_dir = ''/pkg'', pk_capabilities = [(''cap.email.draft_reply.v1.json'', file_text draft_descriptor)], pk_custom = None,
      pk_policies = [(''account_manager.json'', dumps indent2_style 0 (JObj [(''policies'', JArr (map policy_entry [manager_policy]))]) @ [])],
      pk_chef_source = ''chef''\<rparr>"

definition example_libraries :: libraries where
  "example_libraries = \<lparr>lb_load_private = Inr, lb_open_ledger = (\<lambda>_. Inr []), lb_list_dir = (\<lambda>_. None)\<rparr>"

definition draft_capability :: capability where
  "draft_capability =
     \<lparr>c_id = ''cap.email.draft_reply.v1'', c_name = ''Draft email reply'', c_inputs = [(''thread_id'', ''string'')],
      c_outputs = [(''draft'', ''text'')], c_side_effects = ''none'', c_scope = ''own_queue'', c_risk_class = ''low'',
      c_description = [], c_recommended_max_rate = Some 20, c_requires_second_admin = False,
      c_requires_user_confirmation = False, c_scoped_input = ''thread_id'', c_behavior = Some ''draft_reply'',
      c_enabled = True, c_behavior_config = []\<rparr>"

lemma draft_file: "capability_of_file (file_text draft_descriptor) = Inr draft_capability"
proof -
  have "wf_json (JObj draft_descriptor)" by (simp add: draft_descriptor_def wf_dict_def)
  from json_load_file_text(1) [OF this]
  have "capability_of_file (file_text draft_descriptor) = capability_of_json (canon (JObj draft_descriptor))"
    by (simp add: capability_of_file_def lift_def)
  also have "\<dots> = Inr draft_capability" by code_simp
  finally show ?thesis .
qed

lemma example_catalog_loads:
  "load_catalog (pk_capabilities example_package) None False = Inr [(''cap.email.draft_reply.v1'', draft_capability)]"
proof -
  have "json_files (pk_capabilities example_package) = pk_capabilities example_package"
    by (simp add: json_files_def example_package_def endswith_def)
  then have "load_dir (pk_capabilities example_package) = Inr [(''cap.email.draft_reply.v1'', draft_capability)]"
    by (simp add: load_dir_def example_package_def draft_file dict_of_def) (simp add: draft_capability_def)
  then show ?thesis by (simp add: load_catalog_def) (simp add: draft_capability_def)
qed

lemma example_policies_load: "load_policy_set (pk_policies example_package) = Inr [manager_policy]"
  using policies_of_emitted [of indent2_style "[]" "[manager_policy]"]
  by (simp add: load_policy_set_def example_package_def endswith_def)

definition package_fs :: fsys where
  "package_fs =
     \<lparr>files = [''/pkg/keys/cashier_ed25519_private.pem'' \<mapsto> ''sk'', ''/pkg/keys/cashier_ed25519_public.pem'' \<mapsto> ''sk'',
        ''/pkg/kitchen/fixtures/mailbox/user.kenji/t-001.txt'' \<mapsto> ''Subject: hi'',
        ''/pkg/kitchen/fixtures/mailbox/user.kenji/poisoned.txt'' \<mapsto> ''attacker@evil.test''],
      dirs = {}, trace = []\<rparr>"

lemma in_example_package: "in_package example_package parts = fold (\<lambda>part path. path_join path part) parts ''/pkg''"
  by (simp add: in_package_def example_package_def)

lemma package_paths:
  "abspath example_os (in_package example_package [''keys'']) = ''/pkg/keys''"
  "path_join ''/pkg/keys'' PRIVATE_KEY_FILENAME = ''/pkg/keys/cashier_ed25519_private.pem''"
  "abspath example_os (path_join ''/pkg/keys'' PUBLIC_KEY_FILENAME) = ''/pkg/keys/cashier_ed25519_public.pem''"
  "abspath example_os ''/pkg/keys/cashier_ed25519_public.pem'' = ''/pkg/keys/cashier_ed25519_public.pem''"
  "abspath example_os (in_package example_package [''window'', ''orders'']) = ''/pkg/window/orders''"
  "abspath example_os ''/pkg/window/orders'' = ''/pkg/window/orders''"
  "abspath example_os (in_package example_package [''kitchen'', ''fixtures'', ''mailbox'']) = ''/pkg/kitchen/fixtures/mailbox''"
  "poisoned_path example_package = ''/pkg/kitchen/fixtures/mailbox/user.kenji/poisoned.txt''"
  unfolding poisoned_path_def in_example_package by code_simp+

definition package_service :: service where
  "package_service =
     \<lparr>sv_private_key = ''sk'', sv_menu = [(''cap.email.draft_reply.v1'', draft_capability)], sv_policy_set = [manager_policy],
      sv_kitchen = \<lparr>kn_chef_main = in_package example_package [''chef'', ''chef_main.py''], kn_chef_source = ''chef'',
        kn_public_key_pem_path = ''/pkg/keys/cashier_ed25519_public.pem'', kn_fixtures_root = ''/pkg/kitchen/fixtures/mailbox'',
        kn_attestor_key = ''att'', kn_window_root = ''/pkg/window/orders'',
        kn_backend = subprocess_sandbox example_crypto example_os\<rparr>\<rparr>"

lemma example_build:
  "build_default example_crypto example_os example_package example_libraries ''att'' ''ledger.db'' None None None package_fs =
     Inr (package_service, new_loop_state package_fs)"
proof -
  have "files package_fs (path_join (abspath example_os (in_package example_package [''keys''])) PRIVATE_KEY_FILENAME) = Some ''sk''"
    by (simp add: package_paths package_fs_def)
  moreover have "lb_load_private example_libraries ''sk'' = Inr ''sk''" "lb_open_ledger example_libraries ''ledger.db'' = Inr []"
    by (simp_all add: example_libraries_def)
  moreover have "pk_chef_source example_package = ''chef''" by (simp add: example_package_def)
  ultimately show ?thesis
    by (simp add: build_default_def Let_def example_catalog_loads example_policies_load started_with_def
        new_service_def default_kitchen_def package_paths package_service_def new_loop_state_def)
qed

definition numbered_draw :: "string \<Rightarrow> draw" where
  "numbered_draw i = \<lparr>dr_order_uuid = i, dr_nonce_uuid = i, dr_ts = ''now'', dr_moment = example_loop_moment\<rparr>"

lemma package_window:
  "window_path example_os ''ord-1'' ''/pkg/window/orders'' = ''/pkg/window/orders/ord-1''"
  by code_simp

lemma package_honest_servable:
  "servable example_crypto example_os package_service (make_honest_order (numbered_draw ''1'') ''user.kenji'') package_fs
     (handle_draft_reply ''user.kenji/t-001'' ''Subject: hi'')"
proof -
  have o: "owner_dir example_os ''/pkg/kitchen/fixtures/mailbox'' ''user.kenji'' = ''/pkg/kitchen/fixtures/mailbox/user.kenji''"
    "candidate_path example_os ''/pkg/kitchen/fixtures/mailbox'' ''user.kenji'' ''t-001'' =
      ''/pkg/kitchen/fixtures/mailbox/user.kenji/t-001.txt''"
    "guard_resource ''user.kenji/t-001'' = Inr (''user.kenji'', ''t-001'')"
    by code_simp+
  have i: "inside ''/pkg/kitchen/fixtures/mailbox/user.kenji'' ''/pkg/kitchen/fixtures/mailbox/user.kenji/t-001.txt''"
    by (simp add: inside_def comps_def)
  show ?thesis
    by (rule servableI [where cap = draft_capability and resource = "''user.kenji/t-001''" and loc = "''t-001''"
          and pem = "''sk''" and content = "''Subject: hi''" and source = "''Subject: hi''"
          and h = "\<lambda>r s c. Inr (handle_draft_reply r s)"])
      (simp_all add: o i example_text package_service_def package_fs_def example_crypto_def draft_capability_def
        make_honest_order_def resolved_behavior_def HANDLERS_def wf_dict_def, simp add: example_os_def)
qed

theorem slice_runs_end_to_end_witness:
  "\<exists>s'. run_slice_main example_crypto example_os example_package example_libraries ''att'' (numbered_draw ''1'') (numbered_draw ''2'')
      [''ledger.db''] package_fs =
    (Inr (0, [''honest: accepted=True fulfilled=True status=FULFILLED digest='' @
          sha256_hex example_crypto (handle_draft_reply ''user.kenji/t-001'' ''Subject: hi''),
        ''injected: accepted=False reason=OFF_MENU'', ''OK verified='' @ string_of_nat (0 + 2)]), Some s')"
proof -
  let ?ord = "make_honest_order (numbered_draw ''1'') ''user.kenji''"
  have v: "verify_ledger_rows example_crypto (ed_pub example_crypto (sv_private_key package_service))
      (cs_ledger (new_loop_state package_fs)) = Verified 0"
    by (simp add: new_loop_state_def verify_ledger_rows_def)
  have a: "accepts package_service (dr_moment (numbered_draw ''1'')) (new_loop_state package_fs) ?ord"
    by (simp add: evaluate_order_def package_service_def draft_capability_def make_honest_order_def manager_policy_def
        numbered_draw_def example_loop_moment_def example_moment_def new_loop_state_def nonce_is_spent_def
        empty_store_def rate_count_def is_control_def split_first_def local_unsafe_def)
  have w: "window_ok example_os package_service ?ord"
    by (simp add: window_ok_def make_honest_order_def numbered_draw_def package_service_def package_window)
  have m: "map_of (sv_menu package_service) ''forward_inbox'' = None" by (simp add: package_service_def)
  have d: "dr_nonce_uuid (numbered_draw ''2'') \<noteq> dr_nonce_uuid (numbered_draw ''1'')" by (simp add: numbered_draw_def)
  have "files package_fs (poisoned_path example_package) = Some ''attacker@evil.test''"
    unfolding package_paths(8) by (simp add: package_fs_def)
  moreover have "read_text ''attacker@evil.test'' = Inr ''attacker@evil.test''"
    by (rule read_text_ascii) (simp_all add: ascii_def)
  ultimately have b: "poisoned_body example_package package_fs = Inr ''attacker@evil.test''"
    unfolding poisoned_body_def by simp
  note t = example_target
  have k: "\<forall>p \<in> {kn_public_key_pem_path (sv_kitchen package_service), poisoned_path example_package}.
      kept_by example_os package_service (dr_moment (numbered_draw ''1'')) ?ord p"
    by (simp add: kept_by_def package_service_def package_paths order_output_def make_honest_order_def numbered_draw_def
        package_window example_loop_moment_def below_def comps_def path_join_def OUTPUT_FILENAME_def endswith_def startswith_def)
  show ?thesis
    using slice_runs_end_to_end [OF sig_correct_example example_normal example_build v a w package_honest_servable m d b t k]
    by blast
qed

section \<open>What the demonstration leaves\<close>

lemma demo_set_up_Inr:
  assumes "demo_set_up C W P L attestor_key kp tmp usual u fs = (Inr (S, s), fs1)"
  shows "cs_ledger s = []" and "kn_backend (sv_kitchen S) = subprocess_sandbox C W"
  using assms by (auto simp: demo_set_up_def bind_res_Inr demo_service_def new_service_def default_kitchen_def
      split: sum.splits prod.splits)

text \<open>
  On a screen, the demonstration places both of its orders, each with one receipt, whatever the user answers,
  and removes everything below the directory it made.
\<close>

theorem demo_leaves_two_receipts:
  fixes s :: "(prompt_spec list \<times> 'u) consumer_state"
  assumes "sig_correct C" and "demo_set_up C W P L attestor_key kp tmp usual ([], u) (mkdtemp tmp fs) = (Inr (S, s), fs1)"
    and "window_ok W S (demo_order r1 DRAFT)" and "window_ok W S (demo_order r2 PAY)"
    and "consumer_demo C W P L attestor_key kp tmp usual True (default_approver True show_args show_fn input_fn) r1 r2 u fs = (r, t, fs')"
  shows "verify_ledger_rows C (ed_pub C (sv_private_key S)) t = Verified 2 \<and> (\<forall>p. below tmp p \<longrightarrow> files fs' p = None)"
proof -
  let ?d = "native_decide show_args show_fn"
  have st: "starts S" using starts_subprocess [OF demo_set_up_Inr(2) [OF assms(2)]] .
  have v: "verify_ledger_rows C (ed_pub C (sv_private_key S)) (cs_ledger s) = Verified 0"
    using demo_set_up_Inr(1) [OF assms(2)] by (simp add: verify_ledger_rows_def)
  obtain o1 s1 where p1: "consumer_place C W S ?d (dr_moment r1) (demo_order r1 DRAFT) s = (Inr o1, s1)"
    "verify_ledger_rows C (ed_pub C (sv_private_key S)) (cs_ledger s1) = Verified (Suc 0)"
    using native.consumer_one_row [OF assms(1) v st assms(3)] by blast
  obtain o2 s2 where p2: "consumer_place C W S ?d (dr_moment r2) (demo_order r2 PAY) s1 = (Inr o2, s2)"
    "verify_ledger_rows C (ed_pub C (sv_private_key S)) (cs_ledger s2) = Verified (Suc (Suc 0))"
    using native.consumer_one_row [OF assms(1) p1(2) st assms(4)] by blast
  have "t = cs_ledger s2" "fs' = rmtree tmp (ls_fs s2)"
    using assms(2,5) p1(1) p2(1) by (simp_all add: consumer_demo_def run_demo_def default_approver_def)
  then show ?thesis using p2(2) by (simp add: rmtree_def numeral_2_eq_2)
qed

section \<open>A session of the MCP gateway\<close>

text \<open>The orders that lines place do not depend on what placing them does.\<close>

lemma find_tool_menu: "find_tool (mcp_gateway Q S show_json call) name = find_tool (mcp_gateway Q S show_json call') name"
  by (cases name) (simp_all add: menu_map_def mcp_gateway_def)

lemma orders_of_call:
  "orders_of (mcp_gateway Q S show_json call) ls = orders_of (mcp_gateway Q S show_json call') ls"
proof -
  have o: "tool_order (mcp_gateway Q S show_json call) = tool_order (mcp_gateway Q S show_json call')"
    by (intro ext) (simp add: tool_order_def mcp_gateway_def)
  have v: "show_value (mcp_gateway Q S show_json call) j = show_value (mcp_gateway Q S show_json call') j" for j
    by (cases j) (simp_all add: mcp_gateway_def)
  have c: "call_order (mcp_gateway Q S show_json call) = call_order (mcp_gateway Q S show_json call')"
    by (intro ext) (simp only: call_order_def o v find_tool_menu [of Q S show_json call _ call'])
  show ?thesis unfolding orders_of_def line_order_def c ..
qed

lemma chosen_label: "b_containment_class (chosen_backend W F fs ch) = Some (containment_label (Some ch))"
  by (cases ch) (simp_all add: containment_label_def chosen_backend_def app_container_sandbox_def linux_sandbox_def microvm_sandbox_def)

lemma mcp_containment:
  assumes "mcp_service C W P L F attestor_key Q fs = Inr (S, s)"
  shows "containment (sv_kitchen S) = containment_label (mcp_choice W F Q fs)" and "ls_fs s = fs"
proof -
  obtain S0 where b: "build_default C W P L attestor_key (rt_ledger (mcp_paths F Q fs)) (rt_window_root (mcp_paths F Q fs))
      (rt_keys_dir (mcp_paths F Q fs)) (map_option (chosen_backend W F fs) (mcp_choice W F Q fs)) fs = Inr (S0, s)"
    "sv_kitchen S = sv_kitchen S0"
    using assms by (auto simp: mcp_service_def Let_def bind_res_Inr)
  show "ls_fs s = fs" by (rule build_default_Inr [OF b(1)])
  show "containment (sv_kitchen S) = containment_label (mcp_choice W F Q fs)"
    unfolding b(2) containment_def build_default_Inr(4) [OF b(1)]
    by (cases "mcp_choice W F Q fs") (simp_all add: chosen_label, simp add: containment_label_def subprocess_sandbox_def)
qed

lemma session_end_simps [simp]:
  "sn_ledger (session_end notes ((e, out), s)) = Some (cs_ledger s)" "sn_stderr (session_end notes r) = notes"
  by (simp_all add: session_end_def split: prod.split)


definition plain_platform :: platform where
  "plain_platform =
     \<lparr>pf_win32 = example_win32, pf_interpreter = example_interpreter, pf_windows = example_windows, pf_contained_chef = idle_chef,
      pf_linux = example_linux, pf_linux_chef = (\<lambda>p. subprocess_run example_crypto example_os), pf_host = example_vm_host,
      pf_launch = (\<lambda>cmd stdin fs. (Inr 0, fs)), pf_commands = example_commands, pf_vm_work = ''/tmp/vm'', pf_environ = Map.empty,
      pf_usual_home = ''/home'', pf_display = False\<rparr>"

definition plain_options :: mcp_options where
  "plain_options =
     \<lparr>mo_principal = ''user.kenji'', mo_role = ''account_manager'', mo_ledger = None, mo_keys = None, mo_window = None,
      mo_home = None, mo_sandbox = ''subprocess'', mo_confirm = False\<rparr>"

definition package_call :: "json dict" where
  "package_call = [(''jsonrpc'', JStr ''2.0''), (''id'', JInt 1), (''method'', JStr ''tools/call''),
     (''params'', JObj [(''name'', JStr ''cap_email_draft_reply_v1''),
        (''arguments'', JObj [(''thread_id'', JStr ''user.kenji/t-001'')])])]"

lemma package_call_order:
  assumes "G = mcp_gateway plain_options package_service show_json call"
  obtains ord where "orders_of G [(r, dumps default_style 0 (JObj package_call))] = [ord]"
proof -
  have "wf_json (JObj package_call)" by (simp add: package_call_def wf_dict_def)
  then have l: "clean_line (dumps default_style 0 (JObj package_call)) \<noteq> []"
    "json_loads (clean_line (dumps default_style 0 (JObj package_call))) = Some (JObj package_call)"
    using loads_object_line [of default_style "[]" package_call] by simp_all
  have n: "tool_name ''cap.email.draft_reply.v1'' = ''cap_email_draft_reply_v1''" by code_simp
  have "map_of (menu_map G) ''cap_email_draft_reply_v1'' = Some draft_capability"
    by (simp add: assms menu_map_def mcp_gateway_def package_service_def dict_of_def) (simp add: draft_capability_def n)
  then have "bind_res (params_of package_call) (call_order G r) =
      Inr (Inr (tool_order G r draft_capability [(''thread_id'', JStr ''user.kenji/t-001'')]))"
    by (simp add: params_of_def call_order_def package_call_def jget_def jopt_def falsy_def)
  moreover have "jget package_call ''jsonrpc'' = JStr ''2.0''" "jget package_call ''method'' = JStr ''tools/call''"
    by (simp_all add: package_call_def jget_def jopt_def)
  ultimately show thesis using l that by (simp add: orders_of_def line_order_def)
qed

lemma plain_service:
  "mcp_service example_crypto example_os example_package example_libraries plain_platform ''att'' plain_options package_fs =
     Inr (package_service, new_loop_state package_fs)"
proof -
  have "private_key_path ''/home'' = ''/home/keys/cashier_ed25519_private.pem''" by code_simp
  then have k: "files package_fs (private_key_path ''/home'') = None" by (simp add: package_fs_def)
  have p: "mcp_paths plain_platform plain_options package_fs =
      \<lparr>rt_home = ''/home'', rt_initialized = False, rt_ledger = ''ledger.db'', rt_keys_dir = None, rt_window_root = None,
       rt_custom_capabilities_dir = None, rt_preferences_path = None\<rparr>"
    using k by (simp add: mcp_paths_def resolve_runtime_paths_def plain_platform_def plain_options_def is_initialized_def Let_def)
  have c: "mcp_choice example_os plain_platform plain_options package_fs = None"
    by (simp add: mcp_choice_def resolve_sandbox_def wanted_backend_def plain_options_def)
  have m: "load_catalog (pk_capabilities example_package) (pk_custom example_package) False =
      Inr [(''cap.email.draft_reply.v1'', draft_capability)]"
    using example_catalog_loads by (simp add: example_package_def)
  have "package_service\<lparr>sv_menu := [(''cap.email.draft_reply.v1'', draft_capability)]\<rparr> = package_service"
    by (simp add: package_service_def)
  then show ?thesis by (simp add: mcp_service_def p c example_build m started_with_def)
qed


end
