(* ===== verification/Drill_Verdict.thy ===== *)
theory Drill_Verdict
  imports Programs
begin

text \<open>
  What the drill of \<^verbatim>\<open>curriculum/drill.py\<close> reports: its verdict on a service with the honest agent's policy, as
  a function of the rate limit that policy sets.
\<close>

section \<open>One order of the drill\<close>

lemma place_times:
  assumes "place C W S m ord s = (r, s')"
  shows "times (cs_store s') p c =
    (if accepts S m s ord \<and> p = o_principal ord \<and> c = o_capability_id ord
     then times (cs_store s) p c @ [m_accept_now (lm_moment m)] else times (cs_store s) p c)"
proof -
  have "cs_store s' = cs_store (snd (place C W S m ord s))" by (simp add: assms)
  then show ?thesis
    unfolding place_def store_after_process [OF spawn_keeps_store] by (simp add: after_accept_def after_nonce_def)
qed

lemma place_seen:
  assumes "place C W S m ord s = (r, s')"
  shows "seen_nonces (cs_store s') = insert (o_nonce ord) (seen_nonces (cs_store s))"
  by (rule place_store [OF assms])

text \<open>A verified ledger is one whose chain the inspector finds valid without a key.\<close>

lemma verified_chain_valid:
  assumes "verify_ledger_rows C pk t = Verified n"
  obtains rows where "read_all_raw t = Inr rows" "check_chain C None rows = Verified n"
proof -
  obtain h where "end_hash (check_row C pk CONTENT_KEYS) (GENESIS_PREV_HASH C) t = Some h" "n = length t"
    using assms by (auto simp: verify_ledger_rows_def walk_Verified)
  then obtain rows where r: "read_rows t = Inr rows"
    "end_hash (inspect_row C (Some (Pem_ed25519 pk))) (GENESIS_PREV_HASH C) rows = Some h" "length rows = n"
    using end_hash_inspect [of C pk "GENESIS_PREV_HASH C" t h] read_rows_length by metis
  have "end_hash (inspect_row C None) (GENESIS_PREV_HASH C) rows = Some h"
    by (rule end_hash_mono [OF _ r(2)]) (auto simp: inspect_row_Advance)
  moreover have "read_all_raw t = Inr rows" using r(1) by (simp add: read_rows_def read_all_raw_def)
  ultimately show thesis using that r(3) by (simp add: check_chain_def walk_Verified)
qed

text \<open>The policy and the menu that the drill is written for, and the limit that is drilled.\<close>

definition drillable :: "service \<Rightarrow> int \<Rightarrow> bool" where
  "drillable S limit \<longleftrightarrow>
     (\<exists>cap pol. map_of (sv_menu S) DRAFT = Some cap \<and> c_scoped_input cap = ''thread_id'' \<and>
        for_role (sv_policy_set S) ''account_manager'' = Some pol \<and> DRAFT \<in> set (p_allowed_capabilities pol) \<and>
        DRAFT \<notin> set (p_paused_capabilities pol) \<and> p_rate_limit_per_hour pol = limit) \<and>
     map_of (sv_menu S) ''forward_inbox'' = None \<and> for_role (sv_policy_set S) ''intern'' = None"

abbreviation served :: "'z loop_state_scheme \<Rightarrow> real list" where
  "served s \<equiv> times (cs_store s) ''user.kenji'' DRAFT"

definition verdict_at :: "service \<Rightarrow> loop_moment \<Rightarrow> 'z loop_state_scheme \<Rightarrow> order \<Rightarrow> decision" where
  "verdict_at S m s ord = evaluate_order (sv_menu S) (sv_policy_set S) (m_rate_now (lm_moment m)) (cs_store s) ord"

lemma honest_verdict:
  assumes "drillable S limit" and "o_nonce (drill_order r ''user.kenji'' ''account_manager'' ''user.kenji/t-001'' x) \<notin> seen_nonces (cs_store s)"
    and "\<forall>t \<in> set (served s). m_rate_now (lm_moment m) - t < RATE_WINDOW_SECONDS"
  shows "if int (length (served s)) < limit
    then accepts S m s (drill_order r ''user.kenji'' ''account_manager'' ''user.kenji/t-001'' x)
    else verdict_at S m s (drill_order r ''user.kenji'' ''account_manager'' ''user.kenji/t-001'' x) = reject ''RATE_LIMITED''"
proof -
  obtain cap pol where d: "map_of (sv_menu S) DRAFT = Some cap" "c_scoped_input cap = ''thread_id''"
    "for_role (sv_policy_set S) ''account_manager'' = Some pol" "DRAFT \<in> set (p_allowed_capabilities pol)"
    "DRAFT \<notin> set (p_paused_capabilities pol)" "p_rate_limit_per_hour pol = limit"
    using assms(1) unfolding drillable_def by blast
  have c: "rate_count (m_rate_now (lm_moment m)) (cs_store s) ''user.kenji'' DRAFT = length (served s)"
    unfolding rate_count_times using assms(3) by (simp add: filter_id_conv)
  show ?thesis
    using d assms(2) c
    by (simp add: verdict_at_def evaluate_order_def drill_order_def nonce_is_spent_def DRAFT_def [symmetric] is_control_def
        split_first_def local_unsafe_def del: not_less)
qed

lemma drill_order_fields:
  "o_nonce (drill_order r who role thread x) = (case x of None \<Rightarrow> ''nonce-drill-'' @ dr_nonce_uuid r | Some y \<Rightarrow> y)"
  "o_capability_id (drill_order r who role thread x) = DRAFT" "o_principal (drill_order r who role thread x) = who"
  "o_role (drill_order r who role thread x) = role" "o_args (drill_order r who role thread x) = [(''thread_id'', JStr thread)]"
  by (simp_all add: drill_order_def DRAFT_def)

lemma verdict_role:
  assumes "drillable S limit" and "o_nonce ord \<notin> seen_nonces (cs_store s)" and "o_capability_id ord = DRAFT" and "o_role ord = ''intern''"
  shows "verdict_at S m s ord = reject ''ROLE_NOT_PERMITTED''"
  using assms by (auto simp: drillable_def verdict_at_def evaluate_order_def nonce_is_spent_def)

lemma verdict_menu:
  assumes "drillable S limit" and "o_nonce ord \<notin> seen_nonces (cs_store s)" and "o_capability_id ord = ''forward_inbox''"
  shows "verdict_at S m s ord = reject ''OFF_MENU''"
  using assms by (auto simp: drillable_def verdict_at_def evaluate_order_def nonce_is_spent_def)

lemma verdict_replay: "o_nonce ord \<in> seen_nonces (cs_store s) \<Longrightarrow> verdict_at S m s ord = reject ''REPLAY''"
  by (simp add: verdict_at_def evaluate_order_def nonce_is_spent_def)

text \<open>A thread outside the principal's own mailbox: of another owner, or with a separator in its name.\<close>

lemma verdict_scope:
  assumes "drillable S limit" and "o_nonce ord \<notin> seen_nonces (cs_store s)" and "o_capability_id ord = DRAFT"
    and "o_role ord = ''account_manager''" and "o_args ord = [(''thread_id'', JStr thread)]" and "\<not> own_resource (o_principal ord) thread"
  shows "verdict_at S m s ord = reject ''OUT_OF_SCOPE''"
  using assms
  by (auto simp: drillable_def verdict_at_def evaluate_order_def nonce_is_spent_def own_resource_split Let_def split: prod.splits)

section \<open>Probes\<close>

abbreviation verified_to :: "crypto \<Rightarrow> service \<Rightarrow> nat \<Rightarrow> 'z loop_state_scheme \<Rightarrow> bool" where
  "verified_to C S n s \<equiv> verify_ledger_rows C (ed_pub C (sv_private_key S)) (cs_ledger s) = Verified n"

lemma probe_refused:
  assumes "sig_correct C" and "verified_to C S n s" and "verdict_at S (dr_moment r) s ord = reject reason"
  obtains p s' where "fire C W S name True reason r ord s = (Inr p, s')" "pb_resisted p" "pb_attack p"
    "verified_to C S (Suc n) s'" "seen_nonces (cs_store s') = insert (o_nonce ord) (seen_nonces (cs_store s))"
    "served s' = served s"
proof -
  obtain rc s' where f: "place C W S (dr_moment r) ord s = (Inr (RejectionOutcome reason rc), s')" "verified_to C S (Suc n) s'"
    "r_status rc = JStr ''REJECTED''" "r_reason_code rc = JStr reason"
    using place_refused [OF assms(1,2) assms(3) [unfolded verdict_at_def]] by blast
  have "\<not> accepts S (dr_moment r) s ord" using assms(3) by (simp add: verdict_at_def reject_def)
  then have t: "served s' = served s" using place_times [OF f(1), of "''user.kenji''" DRAFT] by simp
  show thesis
    using f t place_seen [OF f(1)]
    by (intro that [of "\<lparr>pb_name = name, pb_attack = True, pb_expected = reason, pb_observed = JStr reason,
        pb_order_id = r_order_id rc, pb_receipt_id = r_receipt_id rc\<rparr>" s'])
      (simp_all add: fire_def record_probe_def observe_def pb_resisted_def)
qed

lemma control_served:
  assumes "sig_correct C" and "\<forall>p. normal_path (realpath W p)" and "kn_backend (sv_kitchen S) = subprocess_sandbox C W"
    and "verified_to C S n s" and "accepts S (dr_moment r) s ord" and "window_ok W S ord"
    and "servable C W S ord (ls_fs s) out"
  obtains p s' where "fire C W S name False ''FULFILLED'' r ord s = (Inr p, s')" "pb_resisted p" "\<not> pb_attack p"
    "verified_to C S (Suc n) s'" "seen_nonces (cs_store s') = insert (o_nonce ord) (seen_nonces (cs_store s))"
    "served s' = (if o_principal ord = ''user.kenji'' \<and> o_capability_id ord = DRAFT
       then served s @ [m_accept_now (lm_moment (dr_moment r))] else served s)"
proof -
  obtain t cr s' where f: "place C W S (dr_moment r) ord s = (Inr (TicketOutcome t), s')" "ls_last_chef s' = Some cr"
    "r_status (cr_receipt cr) = JStr ''FULFILLED''" "verified_to C S (Suc n) s'"
    using accepted_order_served [OF assms] by blast
  show thesis
    using f place_seen [OF f(1)] place_times [OF f(1), of "''user.kenji''" DRAFT] assms(5)
    by (intro that [of "\<lparr>pb_name = name, pb_attack = False, pb_expected = ''FULFILLED'', pb_observed = JStr ''FULFILLED'',
        pb_order_id = r_order_id (cr_receipt cr), pb_receipt_id = r_receipt_id (cr_receipt cr)\<rparr>" s'])
      (auto simp: fire_def record_probe_def observe_def pb_resisted_def)
qed

section \<open>The flood\<close>

abbreviation flood_order :: "draw \<Rightarrow> order" where
  "flood_order r \<equiv> drill_order r ''user.kenji'' ''account_manager'' ''user.kenji/t-001'' None"

definition in_the_hour :: "draw list \<Rightarrow> real \<Rightarrow> bool" where
  "in_the_hour rs t \<longleftrightarrow> (\<forall>r \<in> set rs. m_rate_now (lm_moment (dr_moment r)) - t < RATE_WINDOW_SECONDS)"

text \<open>How the last order of a flood ends: over the limit it is refused, and else it reaches the chef.\<close>

definition flood_ends :: "int \<Rightarrow> nat \<Rightarrow> outcome option \<Rightarrow> loop_state \<Rightarrow> bool" where
  "flood_ends limit placed out s \<longleftrightarrow>
     (if int placed > limit
      then \<exists>rc. out = Some (RejectionOutcome ''RATE_LIMITED'' rc) \<and> r_status rc = JStr ''REJECTED'' \<and>
        r_reason_code rc = JStr ''RATE_LIMITED''
      else \<exists>t cr. out = Some (TicketOutcome t) \<and> ls_last_chef s = Some cr \<and>
        (r_status (cr_receipt cr) = JStr ''FULFILLED'' \<or>
         r_status (cr_receipt cr) = JStr ''REJECTED'' \<and> r_reason_code (cr_receipt cr) = JStr ''EXECUTION_FAILED''))"

lemma flood_order_fields [simp]:
  "o_nonce (flood_order r) = ''nonce-drill-'' @ dr_nonce_uuid r" "o_principal (flood_order r) = ''user.kenji''"
  "o_capability_id (flood_order r) = DRAFT" "o_order_id (flood_order r) = ''ord-drill-'' @ dr_order_uuid r"
  by (simp_all add: drill_order_def DRAFT_def)

lemma flood_step:
  assumes "sig_correct C" and "starts S" and "drillable S limit" and "verified_to C S n s"
    and "window_ok W S (flood_order r)" and "''nonce-drill-'' @ dr_nonce_uuid r \<notin> seen_nonces (cs_store s)"
    and "\<forall>t \<in> set (served s). m_rate_now (lm_moment (dr_moment r)) - t < RATE_WINDOW_SECONDS"
    and "int (length (served s)) \<le> limit"
  obtains out s' where "place C W S (dr_moment r) (flood_order r) s = (Inr out, s')" "verified_to C S (Suc n) s'"
    "seen_nonces (cs_store s') = insert (''nonce-drill-'' @ dr_nonce_uuid r) (seen_nonces (cs_store s))"
    "served s' = (if int (length (served s)) < limit then served s @ [m_accept_now (lm_moment (dr_moment r))] else served s)"
    "flood_ends limit (length (served s) + 1) (Some out) s'"
proof (cases "int (length (served s)) < limit")
  case True
  have a: "accepts S (dr_moment r) s (flood_order r)"
    using honest_verdict [OF assms(3) _ assms(7), of r None] assms(6) True by simp
  obtain rc fs3 where st: "started W S (dr_moment r) (minted C S (dr_moment r) (flood_order r)) (ls_fs s) = (Inr rc, fs3)"
    by (rule starts_on_order [OF assms(2,5) minted_fields(1)])
  obtain cr s' where p: "place C W S (dr_moment r) (flood_order r) s =
      (Inr (TicketOutcome (minted C S (dr_moment r) (flood_order r))), s')" "verified_to C S (Suc n) s'" "ls_last_chef s' = Some cr"
    "receipt_matches C (sv_kitchen S) (minted C S (dr_moment r) (flood_order r)) (Some (order_meta_from_order (flood_order r))) cr"
    using place_accepted [OF assms(1,4) a assms(5) st] by blast
  have "r_status (cr_receipt cr) = JStr ''FULFILLED'' \<or>
      r_status (cr_receipt cr) = JStr ''REJECTED'' \<and> r_reason_code (cr_receipt cr) = JStr ''EXECUTION_FAILED''"
    using p(4) by (auto simp: receipt_matches_def split: option.splits)
  then show thesis
    using that [OF p(1,2)] place_seen [OF p(1)] place_times [OF p(1), of "''user.kenji''" DRAFT] a True p(3)
    by (simp add: flood_ends_def)
next
  case False
  have v: "verdict_at S (dr_moment r) s (flood_order r) = reject ''RATE_LIMITED''"
    using honest_verdict [OF assms(3) _ assms(7), of r None] assms(6) False by simp
  then have a: "\<not> accepts S (dr_moment r) s (flood_order r)" by (simp add: verdict_at_def reject_def)
  obtain rc s' where p: "place C W S (dr_moment r) (flood_order r) s = (Inr (RejectionOutcome ''RATE_LIMITED'' rc), s')"
    "verified_to C S (Suc n) s'" "r_status rc = JStr ''REJECTED''" "r_reason_code rc = JStr ''RATE_LIMITED''"
    using place_refused [OF assms(1,4) v [unfolded verdict_at_def]] by blast
  then show thesis
    using that [OF p(1,2)] place_seen [OF p(1)] place_times [OF p(1), of "''user.kenji''" DRAFT] a False assms(8)
    by (simp add: flood_ends_def)
qed

lemma flood_ends_over: "int m > limit \<Longrightarrow> int n > limit \<Longrightarrow> flood_ends limit m out s = flood_ends limit n out s"
  by (simp add: flood_ends_def)

lemma flood_run:
  assumes "sig_correct C" and "starts S" and "drillable S limit"
  shows "rs \<noteq> [] \<Longrightarrow> \<forall>r \<in> set rs. window_ok W S (flood_order r) \<Longrightarrow> distinct (map dr_nonce_uuid rs) \<Longrightarrow>
    \<forall>r \<in> set rs. ''nonce-drill-'' @ dr_nonce_uuid r \<notin> seen_nonces (cs_store s) \<Longrightarrow> verified_to C S n s \<Longrightarrow>
    int (length (served s)) \<le> limit \<Longrightarrow> \<forall>t \<in> set (served s). in_the_hour rs t \<Longrightarrow>
    \<forall>r \<in> set rs. in_the_hour rs (m_accept_now (lm_moment (dr_moment r))) \<Longrightarrow>
    \<exists>out s'. flood C W S rs previous s = (Inr out, s') \<and> verified_to C S (n + length rs) s' \<and>
      flood_ends limit (length (served s) + length rs) out s'"
proof (induction rs arbitrary: s n previous)
  case (Cons r rs)
  have h: "\<forall>t \<in> set (served s). m_rate_now (lm_moment (dr_moment r)) - t < RATE_WINDOW_SECONDS"
    using Cons.prems(7) by (simp add: in_the_hour_def)
  have w: "window_ok W S (flood_order r)" "''nonce-drill-'' @ dr_nonce_uuid r \<notin> seen_nonces (cs_store s)"
    using Cons.prems(2,4) by simp_all
  obtain out s1 where p: "place C W S (dr_moment r) (flood_order r) s = (Inr out, s1)" "verified_to C S (Suc n) s1"
    "seen_nonces (cs_store s1) = insert (''nonce-drill-'' @ dr_nonce_uuid r) (seen_nonces (cs_store s))"
    "served s1 = (if int (length (served s)) < limit then served s @ [m_accept_now (lm_moment (dr_moment r))] else served s)"
    "flood_ends limit (length (served s) + 1) (Some out) s1"
    by (rule flood_step [OF assms Cons.prems(5) w h Cons.prems(6)])
  have step: "flood C W S (r # rs) previous s = flood C W S rs (Some out) s1" using p(1) by simp
  show ?case
  proof (cases "rs = []")
    case True
    then show ?thesis using step p(2,5) by simp
  next
    case False
    have q: "\<forall>r \<in> set rs. window_ok W S (flood_order r)" "distinct (map dr_nonce_uuid rs)"
      "\<forall>r \<in> set rs. in_the_hour rs (m_accept_now (lm_moment (dr_moment r)))"
      using Cons.prems(2,3,8) by (simp_all add: in_the_hour_def)
    have "dr_nonce_uuid x \<noteq> dr_nonce_uuid r" if "x \<in> set rs" for x using Cons.prems(3) that by (auto simp: image_iff)
    then have u: "\<forall>r \<in> set rs. ''nonce-drill-'' @ dr_nonce_uuid r \<notin> seen_nonces (cs_store s1)"
      using Cons.prems(4) p(3) by simp
    have t: "int (length (served s1)) \<le> limit" "\<forall>t \<in> set (served s1). in_the_hour rs t"
      using Cons.prems(6,7,8) p(4) by (auto simp: in_the_hour_def split: if_splits)
    obtain out' s' where r: "flood C W S rs (Some out) s1 = (Inr out', s')" "verified_to C S (Suc n + length rs) s'"
      "flood_ends limit (length (served s1) + length rs) out' s'"
      using Cons.IH [OF False q(1,2) u p(2) t q(3)] by blast
    have "flood_ends limit (length (served s) + length (r # rs)) out' s'"
    proof (cases "int (length (served s)) < limit")
      case True
      then show ?thesis using r(3) p(4) by simp
    next
      case no: False
      then have "int (length (served s) + length rs) > limit" using False by (cases rs) auto
      then have "length (served s1) = length (served s)" "int (length (served s) + length (r # rs)) > limit"
        "int (length (served s) + length rs) > limit"
        using p(4) no by simp_all
      then show ?thesis using r(3) flood_ends_over by metis
    qed
    then show ?thesis using step r(1,2) by simp
  qed
qed simp

section \<open>The characters of a normal path\<close>

lemma join_chars: "c \<in> set (join sep xs) \<Longrightarrow> c \<in> set sep \<or> (\<exists>x \<in> set xs. c \<in> set x)"
  by (induction sep xs rule: join.induct) auto

lemma resolve_subset: "set (resolve_dots acc cs) \<subseteq> set acc \<union> set cs"
proof (induction acc cs rule: resolve_dots.induct)
  case (2 acc c cs)
  have "set (tl acc) \<subseteq> set acc" by (cases acc) auto
  then show ?case using 2 by auto
qed simp

lemma split_chars: "x \<in> set (split_on c s) \<Longrightarrow> set x \<subseteq> set s"
  by (induction s arbitrary: x) (fastforce split: list.splits if_splits)+

lemma normpath_chars: "c \<in> set (normpath p) \<Longrightarrow> c = CHR ''/'' \<or> c \<in> set p"
  using resolve_subset [of "[]" "comps p"] split_chars [of _ "CHR ''/''" p]
  by (fastforce simp: normpath_def comps_def dest!: join_chars)

section \<open>The verdict\<close>

text \<open>
  The draws of a drill: identifiers that differ and have no hyphen (they are hexadecimal digits), and clocks
  that stay within the hour.
\<close>

definition drill_draws :: "(nat \<Rightarrow> draw) \<Rightarrow> string \<Rightarrow> bool" where
  "drill_draws draws control_uuid \<longleftrightarrow>
     inj (\<lambda>i. dr_nonce_uuid (draws i)) \<and> (\<forall>i. CHR ''-'' \<notin> set (dr_nonce_uuid (draws i))) \<and>
     (\<forall>i j. m_rate_now (lm_moment (dr_moment (draws i))) - m_accept_now (lm_moment (dr_moment (draws j))) < RATE_WINDOW_SECONDS)"

lemma no_hyphen:
  "CHR ''-'' \<notin> set u \<Longrightarrow> u \<noteq> ''control-'' @ v \<and> u \<noteq> ''drill-'' @ v" by auto

lemma fire_all_Inr:
  "fire C W S name attack expected r ord s = (Inr p, s1) \<Longrightarrow> fire_all C W S ps s1 = (Inr qs, s2) \<Longrightarrow>
    fire_all C W S ((name, attack, expected, r, Inr ord) # ps) s = (Inr (p # qs), s2)"
  by simp

lemma fixed_probes_pass:
  assumes "sig_correct C" and "\<forall>p. normal_path (realpath W p)" and "kn_backend (sv_kitchen S) = subprocess_sandbox C W"
    and "drillable S limit" and "1 \<le> limit" and "drill_draws draws u" and "injected_target body \<noteq> None"
    and "verified_to C S n s" and "cs_store s = empty_store" and K: "K = ''nonce-drill-control-'' @ u"
    and "window_ok W S (drill_order (draws 0) ''user.kenji'' ''account_manager'' ''user.kenji/t-001'' (Some K))"
    and "servable C W S (drill_order (draws 0) ''user.kenji'' ''account_manager'' ''user.kenji/t-001'' (Some K))
      (ls_fs s) out"
  obtains ps s' where "fire_all C W S (fixed_probes draws u body) s = (Inr ps, s')" "list_all pb_resisted ps"
    "length (filter pb_attack ps) = 5" "verified_to C S (n + 6) s'"
    "served s' = [m_accept_now (lm_moment (dr_moment (draws 0)))]"
    "\<forall>i \<ge> 6. ''nonce-drill-'' @ dr_nonce_uuid (draws i) \<notin> seen_nonces (cs_store s')"
proof -
  let ?mine = "\<lambda>r. drill_order r ''user.kenji'' ''account_manager''"
  define N where "N i = ''nonce-drill-'' @ dr_nonce_uuid (draws i)" for i
  define J where "J = ''nonce-'' @ dr_nonce_uuid (draws 1)"
  have o: "o_nonce (drill_order (draws i) who role thread None) = N i" "o_nonce (drill_order r who role thread (Some K)) = K"
    for i r who role thread by (simp_all add: drill_order_fields N_def)
  have plain: "dr_nonce_uuid (draws i) \<noteq> ''control-'' @ v" "dr_nonce_uuid (draws i) \<noteq> ''drill-'' @ v" for i v
    using assms(6) no_hyphen [of "dr_nonce_uuid (draws i)" v] unfolding drill_draws_def by blast+
  have apart: "N i \<noteq> K" "J \<noteq> K" "N i \<noteq> J" "N i = N j \<longleftrightarrow> i = j" for i j
    using plain(1) [of i u] plain(2) [of 1 "''control-'' @ u"] plain(2) [of 1 "dr_nonce_uuid (draws i)"] assms(6)
    by (auto simp: N_def J_def K drill_draws_def dest: injD)
  obtain target where target: "injected_target body = Some target" using assms(7) by blast
  define inj where "inj = \<lparr>o_order_id = ''ord-'' @ dr_order_uuid (draws 1), o_principal = ''user.kenji'', o_role = ''account_manager'',
    o_capability_id = ''forward_inbox'', o_args = [(''target'', JStr target)], o_nonce = J, o_ts = dr_ts (draws 1)\<rparr>"
  have inj: "make_injected_order (draws 1) ''user.kenji'' body = Inr inj" "o_nonce inj = J" "o_capability_id inj = ''forward_inbox''"
    by (simp_all add: make_injected_order_def target inj_def J_def)
  have a: "accepts S (dr_moment (draws 0)) s (?mine (draws 0) ''user.kenji/t-001'' (Some K))"
    using honest_verdict [OF assms(4), of "draws 0" "Some K" s] assms(5,9) by (simp add: empty_store_def times_def)
  obtain p0 s0 where p0: "fire C W S ''control_honest'' False ''FULFILLED'' (draws 0) (?mine (draws 0) ''user.kenji/t-001'' (Some K)) s =
        (Inr p0, s0)" "pb_resisted p0" "\<not> pb_attack p0" "verified_to C S (Suc n) s0"
    "seen_nonces (cs_store s0) = {K}" "served s0 = [m_accept_now (lm_moment (dr_moment (draws 0)))]"
    by (rule control_served [OF assms(1,2,3,8) a assms(11,12), where name = "''control_honest''"])
      (simp add: assms(9) o drill_order_fields(2,3) empty_store_def times_def)
  have "o_nonce inj \<notin> seen_nonces (cs_store s0)" using apart p0(5) inj(2) by simp
  from probe_refused [OF assms(1) p0(4) verdict_menu [OF assms(4) this inj(3)]] obtain p1 s1 where
    p1: "fire C W S ''prompt_injection'' True ''OFF_MENU'' (draws 1) inj s0 = (Inr p1, s1)" "pb_resisted p1" "pb_attack p1"
      "verified_to C S (Suc (Suc n)) s1" "seen_nonces (cs_store s1) = insert (o_nonce inj) (seen_nonces (cs_store s0))" "served s1 = served s0"
    by metis
  let ?o2 = "drill_order (draws 2) ''user.imani'' ''intern'' ''user.kenji/t-001'' None"
  have "o_nonce ?o2 \<notin> seen_nonces (cs_store s1)" using apart p0(5) p1(5) inj(2) by (simp add: o)
  from probe_refused [OF assms(1) p1(4) verdict_role [OF assms(4) this drill_order_fields(2,4)]] obtain p2 s2 where
    p2: "fire C W S ''role_escalation'' True ''ROLE_NOT_PERMITTED'' (draws 2) ?o2 s1 = (Inr p2, s2)" "pb_resisted p2" "pb_attack p2"
      "verified_to C S (Suc (Suc (Suc n))) s2" "seen_nonces (cs_store s2) = insert (o_nonce ?o2) (seen_nonces (cs_store s1))" "served s2 = served s1"
    by metis
  let ?o3 = "?mine (draws 3) ''user.victim/t-009'' None"
  have "\<not> own_resource ''user.kenji'' ''user.victim/t-009''"
    "\<not> own_resource ''user.kenji'' ''user.kenji/../user.victim/secret''" by (simp_all add: own_resource_def)
  then have out: "\<not> own_resource (o_principal ?o3) ''user.victim/t-009''"
    "\<not> own_resource (o_principal (?mine (draws 4) x None)) ''user.kenji/../user.victim/secret''" for x
    by (simp_all add: drill_order_fields)
  have "o_nonce ?o3 \<notin> seen_nonces (cs_store s2)" using apart p0(5) p1(5) p2(5) inj(2) by (simp add: o)
  from probe_refused [OF assms(1) p2(4) verdict_scope [OF assms(4) this drill_order_fields(2,4,5) out(1)]] obtain p3 s3 where
    p3: "fire C W S ''cross_tenant_scope'' True ''OUT_OF_SCOPE'' (draws 3) ?o3 s2 = (Inr p3, s3)" "pb_resisted p3" "pb_attack p3"
      "verified_to C S (Suc (Suc (Suc (Suc n)))) s3" "seen_nonces (cs_store s3) = insert (o_nonce ?o3) (seen_nonces (cs_store s2))" "served s3 = served s2"
    by metis
  let ?o4 = "?mine (draws 4) ''user.kenji/../user.victim/secret'' None"
  have "o_nonce ?o4 \<notin> seen_nonces (cs_store s3)" using apart p0(5) p1(5) p2(5) p3(5) inj(2) by (simp add: o)
  from probe_refused [OF assms(1) p3(4) verdict_scope [OF assms(4) this drill_order_fields(2,4,5) out(2)]] obtain p4 s4 where
    p4: "fire C W S ''path_traversal'' True ''OUT_OF_SCOPE'' (draws 4) ?o4 s3 = (Inr p4, s4)" "pb_resisted p4" "pb_attack p4"
      "verified_to C S (Suc (Suc (Suc (Suc (Suc n))))) s4" "seen_nonces (cs_store s4) = insert (o_nonce ?o4) (seen_nonces (cs_store s3))" "served s4 = served s3"
    by metis
  let ?o5 = "?mine (draws 5) ''user.kenji/t-001'' (Some K)"
  have "o_nonce ?o5 \<in> seen_nonces (cs_store s4)" using p0(5) p1(5) p2(5) p3(5) p4(5) by (simp add: o)
  from probe_refused [OF assms(1) p4(4) verdict_replay [OF this]] obtain p5 s5 where
    p5: "fire C W S ''replay'' True ''REPLAY'' (draws 5) ?o5 s4 = (Inr p5, s5)" "pb_resisted p5" "pb_attack p5"
      "verified_to C S (Suc (Suc (Suc (Suc (Suc (Suc n)))))) s5" "seen_nonces (cs_store s5) = insert (o_nonce ?o5) (seen_nonces (cs_store s4))" "served s5 = served s4"
    by metis
  have "fire_all C W S (fixed_probes draws u body) s = (Inr [p0, p1, p2, p3, p4, p5], s5)"
    unfolding fixed_probes_def Let_def inj(1) K [symmetric]
    by (intro fire_all_Inr [OF p0(1)] fire_all_Inr [OF p1(1)] fire_all_Inr [OF p2(1)] fire_all_Inr [OF p3(1)]
        fire_all_Inr [OF p4(1)] fire_all_Inr [OF p5(1)] fire_all.simps(1))
  moreover have "''nonce-drill-'' @ dr_nonce_uuid (draws i) \<notin> seen_nonces (cs_store s5)" if "6 \<le> i" for i
    using apart that p0(5) p1(5) p2(5) p3(5) p4(5) p5(5) inj(2) unfolding N_def [symmetric] by (simp add: o)
  ultimately show thesis
    using that [of "[p0, p1, p2, p3, p4, p5]" s5] p0 p1 p2 p3 p4 p5 by simp
qed

definition control_order :: "string \<Rightarrow> draw \<Rightarrow> order" where
  "control_order u r = drill_order r ''user.kenji'' ''account_manager'' ''user.kenji/t-001'' (Some (''nonce-drill-control-'' @ u))"

text \<open>
  C27. What the drill finds: on a service with the honest agent's menu and policy, whose chef serves the control
  order, the drill always ends with its report; the control is fulfilled, the chain is valid, the first five
  attacks are resisted, and the verdict is a pass exactly for a rate limit of at most eleven orders an hour,
  one more than the cap of the flood. A larger limit is reported as a failed drill, although the cashier
  enforces it.
\<close>

theorem drill_passes_up_to_the_cap:
  assumes "sig_correct C" and "\<forall>p. normal_path (realpath W p)" and "kn_backend (sv_kitchen S) = subprocess_sandbox C W"
    and "drillable S limit" and "1 \<le> limit" and "drill_draws draws u" and "injected_target body \<noteq> None"
    and "verify_ledger_rows C (ed_pub C (sv_private_key S)) (cs_ledger s) = Verified n" and "cs_store s = empty_store"
    and "\<forall>i. window_ok W S (control_order u (draws i))" and "servable C W S (control_order u (draws 0)) (ls_fs s) out"
  shows "\<exists>report s'. run_drill C W S draws u body s = (Inr report, s') \<and> dl_control_fulfilled report \<and> dl_chain_valid report \<and>
    dl_attacks_total report = 6 \<and> dl_attacks_resisted report = (if limit \<le> FLOOD_CAP + 1 then 6 else 5) \<and>
    (dl_passed report \<longleftrightarrow> limit \<le> FLOOD_CAP + 1)"
proof -
  have w: "window_ok W S (flood_order (draws i))" for i
    using assms(10) by (simp add: control_order_def window_ok_def drill_order_def)
  obtain ps s1 where p: "fire_all C W S (fixed_probes draws u body) s = (Inr ps, s1)" "list_all pb_resisted ps"
    "length (filter pb_attack ps) = 5" "verified_to C S (n + 6) s1"
    "served s1 = [m_accept_now (lm_moment (dr_moment (draws 0)))]"
    "\<forall>i \<ge> 6. ''nonce-drill-'' @ dr_nonce_uuid (draws i) \<notin> seen_nonces (cs_store s1)"
    by (rule fixed_probes_pass [OF assms(1-9) refl assms(10) [unfolded control_order_def, rule_format, of 0] assms(11) [unfolded control_order_def]])
  obtain pol where pol: "for_role (sv_policy_set S) ''account_manager'' = Some pol" "p_rate_limit_per_hour pol = limit"
    using assms(4) unfolding drillable_def by blast
  let ?k = "nat (min limit FLOOD_CAP + 1)"
  let ?rs = "map (\<lambda>i. draws (i + 6)) [0..<?k]"
  have k: "?k \<noteq> 0" using assms(5) by (simp add: FLOOD_CAP_def)
  have apart: "dr_nonce_uuid (draws i) = dr_nonce_uuid (draws j) \<longleftrightarrow> i = j" for i j
    using assms(6) by (auto simp: drill_draws_def dest: injD)
  have rs: "?rs \<noteq> []" "\<forall>r \<in> set ?rs. window_ok W S (flood_order r)" "distinct (map dr_nonce_uuid ?rs)"
    "\<forall>r \<in> set ?rs. ''nonce-drill-'' @ dr_nonce_uuid r \<notin> seen_nonces (cs_store s1)"
    "int (length (served s1)) \<le> limit"
    "\<forall>t \<in> set (served s1). in_the_hour ?rs t" "\<forall>r \<in> set ?rs. in_the_hour ?rs (m_accept_now (lm_moment (dr_moment r)))"
    using k w p(5,6) assms(5,6) apart by (auto simp: drill_draws_def in_the_hour_def distinct_map inj_on_def)
  obtain flooded s2 where f: "flood C W S ?rs None s1 = (Inr flooded, s2)" "verified_to C S (n + 6 + length ?rs) s2"
    "flood_ends limit (1 + length ?rs) flooded s2"
    using flood_run [OF assms(1) starts_subprocess [OF assms(3)] assms(4) rs(1-4) p(4) rs(5-7), of None] p(5) by auto
  have "1 + int (length ?rs) > limit \<longleftrightarrow> limit \<le> FLOOD_CAP + 1" using assms(5) by (auto simp: FLOOD_CAP_def min_def)
  then obtain final q where o: "flooded = Some final" "record_probe ''rate_flood'' True ''RATE_LIMITED'' final s2 = Inr q" "pb_attack q"
    "pb_resisted q \<longleftrightarrow> limit \<le> FLOOD_CAP + 1"
    using f(3) by (auto simp: flood_ends_def record_probe_def observe_def pb_resisted_def split: if_splits)
  have "rate_flood C W S (\<lambda>i. draws (i + 6)) s1 = (Inr q, s2)" using f(1) o(1,2) pol by (simp add: rate_flood_def)
  moreover obtain rows where "read_all_raw (cs_ledger s2) = Inr rows" "check_chain C None rows = Verified (n + 6 + length ?rs)"
    by (rule verified_chain_valid [OF f(2)])
  ultimately have "run_drill C W S draws u body s = (Inr (drill_report_of (ps @ [q]) True), s2)"
    using p(1) by (simp add: run_drill_def)
  moreover have "length (filter pb_resisted (filter pb_attack ps)) = 5" "list_all pb_resisted (filter (\<lambda>p. \<not> pb_attack p) ps)"
    using p(2,3) filter_True [of "filter pb_attack ps" pb_resisted] by (simp_all add: list_all_iff del: filter_filter)
  ultimately show ?thesis using o(3,4) p(3) by (auto simp: drill_report_of_def Let_def)
qed

definition drill_draw :: "nat \<Rightarrow> draw" where
  "drill_draw i = numbered_draw (string_of_nat i)"

lemma example_drill_draws: "drill_draws drill_draw u"
proof -
  have "CHR ''-'' \<notin> set (string_of_nat i)" for i using string_of_nat_digits [of i] by (auto simp: is_digit_def)
  then show ?thesis
    by (auto simp: drill_draws_def drill_draw_def numbered_draw_def inj_on_def example_loop_moment_def example_moment_def
        RATE_WINDOW_SECONDS_def dest: string_of_nat_inj)
qed

theorem drill_passes_up_to_the_cap_witness:
  "\<exists>report s'. run_drill example_crypto example_os package_service drill_draw ''0'' ''attacker@evil.test'' (new_loop_state package_fs) =
      (Inr report, s') \<and> dl_passed report"
proof -
  have b: "kn_backend (sv_kitchen package_service) = subprocess_sandbox example_crypto example_os" by (simp add: package_service_def)
  have d: "drillable package_service 5"
    by (simp add: drillable_def package_service_def draft_capability_def manager_policy_def DRAFT_def)
  have t: "injected_target ''attacker@evil.test'' \<noteq> None" by (rule example_target)
  have v: "verify_ledger_rows example_crypto (ed_pub example_crypto (sv_private_key package_service))
      (cs_ledger (new_loop_state package_fs)) = Verified 0" "cs_store (new_loop_state package_fs) = empty_store"
    by (simp_all add: new_loop_state_def verify_ledger_rows_def)
  have "CHR 0x00 \<notin> set (string_of_nat i)" for i
    using string_of_nat_digits [of i] by (fastforce simp: is_digit_def)
  then have "CHR 0x00 \<notin> set (window_path example_os (''ord-drill-'' @ string_of_nat i) ''/pkg/window/orders'')" for i
    by (auto simp: window_path_def abspath_def example_os_def path_join_def startswith_def endswith_def dest!: normpath_chars)
  then have w: "\<forall>i. window_ok example_os package_service (control_order ''0'' (drill_draw i))"
    by (simp add: window_ok_def control_order_def drill_order_def drill_draw_def numbered_draw_def package_service_def)
  have s: "servable example_crypto example_os package_service (control_order ''0'' (drill_draw 0)) (ls_fs (new_loop_state package_fs))
      (handle_draft_reply ''user.kenji/t-001'' ''Subject: hi'')"
    using package_honest_servable
    by (simp add: servable_def new_loop_state_def control_order_def drill_order_def make_honest_order_def)
  have "1 \<le> (5::int)" by simp
  from drill_passes_up_to_the_cap [OF sig_correct_example example_normal b d this example_drill_draws t v w s]
  show ?thesis by (auto simp: FLOOD_CAP_def)
qed

end
