(* ===== verification/Console_Program.thy ===== *)
theory Console_Program
  imports Duties Programs
begin

text \<open>
  The rest of \<^verbatim>\<open>console/server.py\<close>: the bytes of an answer (\<open>_send_json\<close>, \<open>_send_static\<close> and the security
  headers), the factory \<open>build_default_service\<close> and the program, which serves requests until it is
  interrupted; and \<open>dev_registry\<close> of \<^verbatim>\<open>console/signed_auth.py\<close>, the operators of a development console. The
  detail of an error is a parameter, and so is the page that the base class answers an unknown method with. The
  lines \<^verbatim>\<open>Server\<close> and \<^verbatim>\<open>Date\<close> that the base class puts before the headers are left out, the port is taken
  to be free, and the receipt ledger of \<^verbatim>\<open>--ledger\<close> is the one each request finds when it arrives.
\<close>

section \<open>The bytes of an answer\<close>

definition CSP :: string where
  "CSP = ''default-src 'none'; '' @ ''script-src 'self'; '' @ ''style-src 'self' 'unsafe-inline'; '' @ ''connect-src 'self'; '' @
     ''img-src 'self' data:; '' @ ''base-uri 'none'; '' @ ''form-action 'none'; '' @ ''frame-ancestors 'none'' @ [CHR 0x27]"

definition security_headers :: "string dict" where
  "security_headers =
     [(''Content-Security-Policy'', CSP), (''X-Content-Type-Options'', ''nosniff''), (''X-Frame-Options'', ''DENY''),
      (''Referrer-Policy'', ''no-referrer'')]"

record http_reply =
  hp_status :: int
  hp_headers :: "string dict"
  hp_body :: string

definition reply_with :: "int \<Rightarrow> string \<Rightarrow> string \<Rightarrow> http_reply" where
  "reply_with st ctype body =
     \<lparr>hp_status = st,
      hp_headers = [(''Content-Type'', ctype), (''Content-Length'', string_of_nat (length body))] @ security_headers,
      hp_body = body\<rparr>"

definition send_json :: "int \<Rightarrow> json dict \<Rightarrow> http_reply" where
  "send_json st obj = reply_with st ''application/json'' (dumps indent2_style 0 (canon (JObj obj)))"

text \<open>\<open>static\<close> are the files of the page's directory.\<close>

definition content_type_of :: "string \<Rightarrow> string" where
  "content_type_of file = (if file = ''app.js'' then ''text/javascript; charset=utf-8'' else ''text/html; charset=utf-8'')"

definition send_static :: "string dict \<Rightarrow> string \<Rightarrow> http_reply" where
  "send_static static file =
     (case map_of static file of
        None \<Rightarrow> send_json 404 [(''error'', JStr ''NotFound''), (''detail'', JStr file)]
      | Some body \<Rightarrow> reply_with 200 (content_type_of file) body)"

text \<open>
  What the handler writes for a response; nothing where the exception drops the connection, and \<open>page\<close>, the
  error page of \<^verbatim>\<open>http.server\<close>, for a method that has no handler.
\<close>

definition reply_of :: "string dict \<Rightarrow> string \<Rightarrow> http_reply \<Rightarrow> response \<Rightarrow> http_reply option" where
  "reply_of static detail page r =
     (case r of
        Ok_json d \<Rightarrow> Some (send_json 200 d)
      | Error_json st name \<Rightarrow> Some (send_json st [(''error'', JStr name),
          (''detail'', JStr (if st = 401 then ''missing or invalid signed request'' else detail))])
      | Static_file file \<Rightarrow> Some (send_static static file)
      | Not_implemented \<Rightarrow> Some page
      | Dropped e \<Rightarrow> None)"

section \<open>The service\<close>

definition missing_console_key :: "string \<Rightarrow> string" where
  "missing_console_key path = ''cashier private key not found at '' @ path @ ''. Run '' @ ''`python -m sentinel_slice.keygen` first.''"

text \<open>\<^verbatim>\<open>str\<close> of the exception for a file that is not there; \<open>show\<close> is \<^verbatim>\<open>repr\<close>.\<close>

definition no_such_file :: "(string \<Rightarrow> string) \<Rightarrow> string \<Rightarrow> string" where
  "no_such_file show_path path = ''[Errno 2] No such file or directory: '' @ show_path path"

definition load_console_key :: "os \<Rightarrow> (string \<Rightarrow> string) \<Rightarrow> string \<Rightarrow> fsys \<Rightarrow> failure + pem_file" where
  "load_console_key W show_path path fs =
     (case files fs path of
        None \<Rightarrow> Inl (Key_not_found (no_such_file show_path path))
      | Some pem \<Rightarrow> (case load_pem W pem of Pem_unreadable \<Rightarrow> Inl (Fails (Raises ValueError)) | key \<Rightarrow> Inr key))"

text \<open>The configuration, the public key, and the state with the history that the database holds.\<close>

definition build_default_service ::
  "os \<Rightarrow> package \<Rightarrow> libraries \<Rightarrow> (string \<Rightarrow> string) \<Rightarrow> string \<Rightarrow> string option \<Rightarrow> string option \<Rightarrow> fsys \<Rightarrow>
   (failure + console_config \<times> pem_file \<times> console) \<times> fsys" where
  "build_default_service W P L show_path policy_db policies_given keys_given fs =
     (let key_dir = given_or keys_given (in_package P [''keys'']);
          priv_path = path_join key_dir PRIVATE_KEY_FILENAME;
          pub_path = path_join key_dir PUBLIC_KEY_FILENAME;
          policies_dir = given_or policies_given (in_package P [''console'', ''active_policies''])
      in case files fs priv_path of
           None \<Rightarrow> (Inl (Key_not_found (missing_console_key priv_path)), fs)
         | Some pem \<Rightarrow>
             (case lb_load_private L pem of
                Inl e \<Rightarrow> (raising (Inl e), fs)
              | Inr private_key \<Rightarrow>
                  (case makedirs policies_dir fs of
                     (Inl e, fs1) \<Rightarrow> (raising (Inl e), fs1)
                   | (Inr _, fs1) \<Rightarrow>
                       (bind_res (case lb_open_ledger L policy_db of Inl e \<Rightarrow> Inl (Database_error e) | Inr rows \<Rightarrow> Inr rows) (\<lambda>history.
                        bind_res (started_with (load_catalog (pk_capabilities P) (pk_custom P) True)) (\<lambda>catalog.
                        bind_res (load_console_key W show_path pub_path fs1) (\<lambda>key. Inr
                          (\<lparr>cf_private_key = private_key, cf_active_path = path_join policies_dir ''active.json'',
                            cf_builtin_dir = pk_capabilities P, cf_catalog = catalog\<rparr>, key,
                           \<lparr>cs_history = history, cs_fs = fs1,
                            cs_custom = Some (case pk_custom P of None \<Rightarrow> [] | Some d \<Rightarrow> d)\<rparr>)))), fs1))))"

section \<open>The operators\<close>

text \<open>The two private keys are those that \<^verbatim>\<open>generate_admin\<close> draws.\<close>

definition generate_admin :: "crypto \<Rightarrow> string \<Rightarrow> string \<Rightarrow> key_entry" where
  "generate_admin C private_key role = \<lparr>ke_public_key = ed_pub C private_key, ke_role = role\<rparr>"

definition dev_registry :: "crypto \<Rightarrow> string \<Rightarrow> string \<Rightarrow> registry \<times> string dict" where
  "dev_registry C a_priv r_priv =
     ([(''tanaka'', generate_admin C a_priv ROLE_AUTHOR), (''reviewer-rao'', generate_admin C r_priv ROLE_REVIEWER)],
      [(''tanaka'', a_priv), (''reviewer-rao'', r_priv)])"

text \<open>Each private key written as a file, with the line that names it; \<open>pem_of\<close> is its PEM text.\<close>

definition signer_path :: "string \<Rightarrow> string \<Rightarrow> string" where
  "signer_path dir admin_id = path_join dir (admin_id @ ''.private.pem'')"

fun write_signers :: "os \<Rightarrow> (string \<Rightarrow> string) \<Rightarrow> string \<Rightarrow> registry \<Rightarrow> string dict \<Rightarrow> fsys \<Rightarrow> string list \<times> fsys" where
  "write_signers W pem_of dir reg [] fs = ([], fs)"
| "write_signers W pem_of dir reg ((admin_id, private_key) # signers) fs =
     (case write_signers W pem_of dir reg signers (write_file (signer_path dir admin_id) (pem_of private_key) fs) of
        (said, fs1) \<Rightarrow>
          ((''    '' @ admin_id @ '' ('' @ (case map_of reg admin_id of None \<Rightarrow> [] | Some e \<Rightarrow> ke_role e) @ ''): '' @
            abspath W (signer_path dir admin_id)) # said, fs1))"

record console_options =
  co_host :: string
  co_port :: int
  co_policy_db :: string
  co_admins :: "string option"
  co_dev_keys_dir :: string

text \<open>The registry, and the remark on it: fresh keys for two operators, or the file that is named.\<close>

definition dev_operators ::
  "crypto \<Rightarrow> os \<Rightarrow> (string \<Rightarrow> string) \<Rightarrow> string \<Rightarrow> string \<Rightarrow> string \<Rightarrow> fsys \<Rightarrow> (failure + registry \<times> string) \<times> fsys" where
  "dev_operators C W pem_of a_priv r_priv dir fs =
     (case dev_registry C a_priv r_priv of
        (reg, signers) \<Rightarrow>
          (case makedirs dir fs of
             (Inl e, fs1) \<Rightarrow> (raising (Inl e), fs1)
           | (Inr _, fs1) \<Rightarrow>
               (case write_signers W pem_of dir reg signers fs1 of
                  (said, fs2) \<Rightarrow>
                    (Inr (reg, ''DEV identity '' @ em_dash @ '' REAL Ed25519 admin keypairs generated this '' @
                       ''run. Load a private key in the browser to authenticate:'' @ nl @ join nl said), fs2))))"

definition console_registry ::
  "crypto \<Rightarrow> os \<Rightarrow> (string \<Rightarrow> string) \<Rightarrow> string \<Rightarrow> string \<Rightarrow> console_options \<Rightarrow> fsys \<Rightarrow> (failure + registry \<times> string) \<times> fsys" where
  "console_registry C W pem_of a_priv r_priv opts fs =
     (if co_admins opts = None \<or> co_admins opts = Some []
      then dev_operators C W pem_of a_priv r_priv (co_dev_keys_dir opts) fs
      else let path = the (co_admins opts) in
        (case files fs path of
           None \<Rightarrow> (Inl (Fails (Raises OSError)), fs)
         | Some bytes \<Rightarrow>
             (bind_res (raising (registry_from_file W bytes)) (\<lambda>reg. Inr (reg, ''admin public keys loaded from '' @ path)), fs)))"

section \<open>The program\<close>

definition host_warning :: "string \<Rightarrow> string list" where
  "host_warning h =
     (if h \<in> {''127.0.0.1'', ''localhost'', ''::1''} then []
      else [''WARNING: binding '' @ h @ '' is NOT loopback. The console is the highest-'' @
        ''value target and is designed for localhost / the operator's own '' @
        ''machine, with no TLS. Exposing it off-host is unsafe in the '' @ ''slice.''])"

text \<open>
  The program with the requests that arrive before it is interrupted: its exit code and the lines printed, or
  the failure that ends it; the responses; and the console as it leaves it, where it got as far as to serve.
\<close>

definition console_main ::
  "crypto \<Rightarrow> os \<Rightarrow> package \<Rightarrow> libraries \<Rightarrow> (string \<Rightarrow> string) \<Rightarrow> (string \<Rightarrow> string) \<Rightarrow> string \<Rightarrow> string \<Rightarrow> console_options \<Rightarrow>
   (arrival \<times> http_request) list \<Rightarrow> fsys \<Rightarrow> (failure + nat \<times> string list) \<times> response list \<times> console option" where
  "console_main C W P L show_path pem_of a_priv r_priv opts qs fs =
     (case build_default_service W P L show_path (co_policy_db opts) None None fs of
        (Inl (Key_not_found text), fs1) \<Rightarrow> (Inr (2, [text]), [], None)
      | (Inl e, fs1) \<Rightarrow> (Inl e, [], None)
      | (Inr (F, key, s), fs1) \<Rightarrow>
          (case console_registry C W pem_of a_priv r_priv opts fs1 of
             (Inl e, fs2) \<Rightarrow> (Inl e, [], None)
           | (Inr (reg, remark), fs2) \<Rightarrow>
               (case serve_requests C \<lparr>sr_config = F, sr_registry = reg, sr_key = key, sr_repr = show_path\<rparr> qs (s\<lparr>cs_fs := fs2\<rparr>) of
                  (rs, s1) \<Rightarrow>
                    (Inr (0, host_warning (co_host opts) @
                       [''Sentinel operator console on http://'' @ co_host opts @ '':'' @ string_of_int (co_port opts) @ nl @ ''  '' @ remark]),
                     rs, Some s1))))"

section \<open>Strangers\<close>

text \<open>A request that no registered operator has signed, whatever its body is taken to be.\<close>

definition stranger :: "crypto \<Rightarrow> registry \<Rightarrow> arrival \<times> http_request \<Rightarrow> bool" where
  "stranger C reg aq \<longleftrightarrow>
     (case aq of (a, q) \<Rightarrow> \<forall>body.
        verify_request C reg (rq_method q) (rq_path q) body (rq_header q) (ar_time a) DEFAULT_MAX_SKEW_SECONDS = None)"

fun turned_away :: "response \<Rightarrow> bool" where
  "turned_away (Error_json st name) \<longleftrightarrow> st = 401"
| "turned_away (Static_file f) \<longleftrightarrow> f \<in> snd ` set STATIC_FILES"
| "turned_away Not_implemented \<longleftrightarrow> True"
| "turned_away (Dropped e) \<longleftrightarrow> True"
| "turned_away (Ok_json d) \<longleftrightarrow> False"

lemma serve_stranger:
  assumes "stranger C (sr_registry R) (a, q)"
  obtains r where "serve_request C R a q s = (r, s)" "turned_away r"
proof -
  have d: "\<exists>r. dispatch C R a (rq_method q) q s = (r, s) \<and> turned_away r"
    using assms by (auto simp: dispatch_def stranger_def split: sum.split)
  show thesis
  proof (cases "rq_method q = ''GET''")
    case True
    show thesis
    proof (cases "map_of STATIC_FILES (fst (split_first CHR ''?'' (rq_path q)))")
      case None
      then show thesis using d True that by (auto simp: serve_request_def)
    next
      case (Some f)
      then have "f \<in> snd ` set STATIC_FILES" by (force dest: map_of_SomeD)
      then show thesis using True Some that by (simp add: serve_request_def)
    qed
  next
    case False
    then show thesis using d that by (cases "rq_method q = ''POST''") (auto simp: serve_request_def)
  qed
qed

lemma serve_strangers:
  "\<forall>aq \<in> set qs. stranger C (sr_registry R) aq \<Longrightarrow> serve_requests C R qs s = (rs, s') \<Longrightarrow> s' = s \<and> list_all turned_away rs"
proof (induction qs arbitrary: rs s')
  case (Cons aq qs)
  obtain a q where aq: "aq = (a, q)" by (cases aq)
  have "stranger C (sr_registry R) (a, q)" using Cons.prems(1) aq by simp
  from serve_stranger [OF this] obtain r where r: "serve_request C R a q s = (r, s)" "turned_away r" by blast
  obtain rs2 s2 where t: "serve_requests C R qs s = (rs2, s2)" by fastforce
  have "s2 = s \<and> list_all turned_away rs2" by (rule Cons.IH [OF _ t]) (use Cons.prems(1) in simp)
  then show ?case using Cons.prems(2) aq r t by auto
qed simp

lemma reply_with_locked:
  "set security_headers \<subseteq> set (hp_headers (reply_with st ctype body)) \<and>
   map_of (hp_headers (reply_with st ctype body)) ''Content-Length'' = Some (string_of_nat (length (hp_body (reply_with st ctype body))))"
  by (auto simp: reply_with_def)

text \<open>Every answer that the handler itself writes has the security headers and says how long it is.\<close>

lemma answers_are_locked_down:
  assumes "reply_of static detail page r = Some h" and "r \<noteq> Not_implemented"
  shows "set security_headers \<subseteq> set (hp_headers h) \<and>
    map_of (hp_headers h) ''Content-Length'' = Some (string_of_nat (length (hp_body h)))"
proof -
  have "\<exists>st ctype body. h = reply_with st ctype body"
    using assms by (cases r) (auto simp: reply_of_def send_json_def send_static_def split: option.splits)
  then show ?thesis using reply_with_locked by blast
qed

text \<open>
  C8. The operator console, as its program starts it, does nothing for strangers: if no request is signed by
  an operator of the registry, then when the program is interrupted the policy history is the one it opened,
  the capabilities are the ones that were there, the file of the active policies is untouched, and every
  answer was one of the three static files, a 401, a 404 for a static file that is missing, the base class's
  page or no answer; each that the handler wrote has the security headers, the policy that lets the page load
  nothing from elsewhere among them.
\<close>

theorem console_turns_strangers_away:
  assumes "build_default_service W P L show_path (co_policy_db opts) None None fs = (Inr (F, key, s), fs1)"
    and "console_registry C W pem_of a_priv r_priv opts fs1 = (Inr (reg, remark), fs2)"
    and "\<forall>aq \<in> set qs. stranger C reg aq"
    and "console_main C W P L show_path pem_of a_priv r_priv opts qs fs = (r, rs, final)"
  shows "\<exists>said. r = Inr (0, said) \<and> final = Some (s\<lparr>cs_fs := fs2\<rparr>) \<and>
    lb_open_ledger L (co_policy_db opts) = Inr (cs_history s) \<and>
    (\<forall>x \<in> set rs. \<forall>h. reply_of static detail page x = Some h \<longrightarrow> h = page \<or>
       hp_status h \<in> {200, 401, 404} \<and> set security_headers \<subseteq> set (hp_headers h) \<and>
       (hp_status h = 200 \<longrightarrow> (\<exists>f \<in> snd ` set STATIC_FILES. map_of static f = Some (hp_body h))))"
proof -
  let ?R = "\<lparr>sr_config = F, sr_registry = reg, sr_key = key, sr_repr = show_path\<rparr>"
  obtain rs' s' where q: "serve_requests C ?R qs (s\<lparr>cs_fs := fs2\<rparr>) = (rs', s')" by fastforce
  have "s' = s\<lparr>cs_fs := fs2\<rparr> \<and> list_all turned_away rs'" using serve_strangers [OF _ q] assms(3) by simp
  then have m: "\<exists>said. r = Inr (0, said) \<and> final = Some (s\<lparr>cs_fs := fs2\<rparr>)" "list_all turned_away rs"
    using assms(1,2,4) q by (auto simp: console_main_def)
  have "lb_open_ledger L (co_policy_db opts) = Inr (cs_history s)"
    using assms(1) by (auto simp: build_default_service_def Let_def bind_res_Inr split: option.splits sum.splits prod.splits)
  moreover have "h = page \<or> hp_status h \<in> {200, 401, 404} \<and> set security_headers \<subseteq> set (hp_headers h) \<and>
       (hp_status h = 200 \<longrightarrow> (\<exists>f \<in> snd ` set STATIC_FILES. map_of static f = Some (hp_body h)))"
    if "x \<in> set rs" and h: "reply_of static detail page x = Some h" for x h
  proof (cases "x = Not_implemented")
    case True
    then show ?thesis using h by (simp add: reply_of_def)
  next
    case False
    have "turned_away x" using m(2) that(1) by (simp add: list_all_iff)
    then have "hp_status h \<in> {200, 401, 404} \<and>
        (hp_status h = 200 \<longrightarrow> (\<exists>f \<in> snd ` set STATIC_FILES. map_of static f = Some (hp_body h)))"
      using h False by (cases x) (auto simp: reply_of_def send_json_def send_static_def reply_with_def intro: rev_bexI split: option.splits)
    then show ?thesis using answers_are_locked_down [OF h False] by blast
  qed
  ultimately show ?thesis using m(1) by blast
qed

definition local_console :: console_options where
  "local_console = \<lparr>co_host = ''127.0.0.1'', co_port = 8787, co_policy_db = ''policy_history.db'', co_admins = None,
     co_dev_keys_dir = ''/dev_admins''\<rparr>"

lemma local_console_starts:
  obtains F key s fs1 reg remark fs2 where
    "build_default_service example_os example_package example_libraries id (co_policy_db local_console) None None package_fs =
      (Inr (F, key, s), fs1)"
    "console_registry example_crypto example_os id ''k'' ''l'' local_console fs1 = (Inr (reg, remark), fs2)"
proof -
  have k: "files package_fs (path_join (in_package example_package [''keys'']) PRIVATE_KEY_FILENAME) = Some ''sk''"
    "files package_fs (path_join (in_package example_package [''keys'']) PUBLIC_KEY_FILENAME) = Some ''sk''"
    unfolding in_example_package
    by (simp_all add: path_join_def startswith_def endswith_def PRIVATE_KEY_FILENAME_def PUBLIC_KEY_FILENAME_def package_fs_def)
  have n: "CHR 0x00 \<notin> set (in_package example_package [''console'', ''active_policies''])"
    unfolding in_example_package by (simp add: path_join_def startswith_def endswith_def)
  have "\<exists>cat. load_catalog (pk_capabilities example_package) (pk_custom example_package) True = Inr cat"
    using load_catalog_enabled [OF example_catalog_loads] by (auto simp: example_package_def)
  then have "\<exists>F key s fs1. build_default_service example_os example_package example_libraries id (co_policy_db local_console) None None
      package_fs = (Inr (F, key, s), fs1)"
    using k n by (auto simp: build_default_service_def Let_def example_libraries_def makedirs_def started_with_def
        load_console_key_def example_os_def)
  moreover have "\<exists>reg remark fs2. console_registry example_crypto example_os id ''k'' ''l'' local_console fs1 = (Inr (reg, remark), fs2)" for fs1
    by (auto simp: console_registry_def local_console_def dev_operators_def dev_registry_def makedirs_def split: prod.split)
  ultimately show thesis using that by blast
qed

theorem console_turns_strangers_away_witness:
  "\<forall>ar page. \<exists>r rs final said. console_main example_crypto example_os example_package example_libraries id id ''k'' ''l'' local_console
      [(ar, unsigned_publish)] package_fs = (r, rs, final) \<and> r = Inr (0, said) \<and> final \<noteq> None \<and>
    (\<forall>x \<in> set rs. \<forall>h. reply_of [] [] page x = Some h \<longrightarrow> h = page \<or> hp_status h \<noteq> 200)"
proof (intro allI)
  fix ar page
  obtain F key s fs1 reg remark fs2 where c:
    "build_default_service example_os example_package example_libraries id (co_policy_db local_console) None None package_fs =
      (Inr (F, key, s), fs1)"
    "console_registry example_crypto example_os id ''k'' ''l'' local_console fs1 = (Inr (reg, remark), fs2)"
    by (rule local_console_starts)
  have q: "\<forall>aq \<in> set [(ar, unsigned_publish)]. stranger example_crypto reg aq"
    by (simp add: stranger_def unsigned_publish_def verify_request_def)
  obtain r rs final where m: "console_main example_crypto example_os example_package example_libraries id id ''k'' ''l'' local_console
      [(ar, unsigned_publish)] package_fs = (r, rs, final)" by (metis prod.exhaust)
  show "\<exists>r rs final said. console_main example_crypto example_os example_package example_libraries id id ''k'' ''l'' local_console
      [(ar, unsigned_publish)] package_fs = (r, rs, final) \<and> r = Inr (0, said) \<and> final \<noteq> None \<and>
    (\<forall>x \<in> set rs. \<forall>h. reply_of [] [] page x = Some h \<longrightarrow> h = page \<or> hp_status h \<noteq> 200)"
    using console_turns_strangers_away [OF c q m, of "[]" "[]" page] m by force
qed

text \<open>The key that a development console writes for an operator signs that operator in, in the operator's role.\<close>

lemma dev_keys_sign_in:
  assumes "sig_correct C" and "dev_registry C a_priv r_priv = (reg, signers)" and "map_of signers admin_id = Some private_key"
    and "b64encode (ed_sign C private_key (signing_bytes C verb path admin_id now body)) \<noteq> []" and "\<bar>later - now\<bar> \<le> skew"
  shows "verify_request C reg verb path body (map_of (sign_headers C private_key admin_id verb path body now)) later skew =
    Some \<lparr>ad_id = admin_id, ad_role = (if admin_id = ''tanaka'' then ROLE_AUTHOR else ROLE_REVIEWER)\<rparr>"
  using assms
  by (intro signed_requests_are_attributed) (auto simp: dev_registry_def generate_admin_def split: if_splits)

end
