(* ===== verification/Installer.thy ===== *)
theory Installer
  imports Appcontainer
begin

text \<open>
  \<^verbatim>\<open>app/firstrun.py\<close>, which brings the home up when the desktop program opens, and \<^verbatim>\<open>installer.py\<close>, the
  installation for one Windows user. The state of the installation is the file system, the values under
  the user's part of the registry, and the commands left running; what the started programs do to files is
  a parameter. Paths are joined the Windows way.
\<close>

section \<open>First run\<close>

record readiness =
  rd_home :: string
  rd_initialized :: bool
  rd_sandbox_available :: bool
  rd_sandbox_enabled :: bool

definition readiness_of :: "app_container \<Rightarrow> string \<Rightarrow> fsys \<Rightarrow> readiness" where
  "readiness_of A home fs =
     \<lparr>rd_home = home, rd_initialized = is_initialized home fs, rd_sandbox_available = ac_available A,
      rd_sandbox_enabled = (read_sandbox_backend home fs \<noteq> None)\<rparr>"

text \<open>The two actions that \<open>ensure_ready\<close> takes by default.\<close>

definition default_init :: "key_pair \<Rightarrow> app_container \<Rightarrow> string \<Rightarrow> fsys \<Rightarrow> (exn + unit) \<times> fsys" where
  "default_init kp A home fs =
     (case init_main kp A home (Some home) False False fs of
        (Inl e, fs1) \<Rightarrow> (Inl e, fs1) | (Inr _, fs1) \<Rightarrow> (Inr (), fs1))"

definition default_sandbox_setup :: "app_container \<Rightarrow> string \<Rightarrow> fsys \<Rightarrow> (exn + unit) \<times> fsys" where
  "default_sandbox_setup A home fs =
     (case ac_setup A fs of
        (Inl e, fs1) \<Rightarrow> (Inl e, fs1)
      | (Inr _, fs1) \<Rightarrow> (Inr (), snd (write_sandbox_backend home ''appcontainer'' fs1)))"

text \<open>An action that is taken only if it is called for, with the names of the actions taken so far.\<close>

definition act ::
  "bool \<Rightarrow> string \<Rightarrow> (fsys \<Rightarrow> (exn + unit) \<times> fsys) \<Rightarrow> string list \<Rightarrow> fsys \<Rightarrow> (exn + string list) \<times> fsys" where
  "act b name f done fs =
     (if \<not> b then (Inr done, fs)
      else (case f fs of (Inl e, fs1) \<Rightarrow> (Inl e, fs1) | (Inr _, fs1) \<Rightarrow> (Inr (done @ [name]), fs1)))"

record ready_report =
  ry_actions :: "string list"
  ry_after :: readiness

definition ensure_ready :: "key_pair \<Rightarrow> app_container \<Rightarrow> string \<Rightarrow> bool \<Rightarrow> fsys \<Rightarrow> (exn + ready_report) \<times> fsys" where
  "ensure_ready kp A home enable_sandbox fs =
     (case ensure_app_home home fs of
        (Inl e, fs1) \<Rightarrow> (Inl e, fs1)
      | (Inr _, fs1) \<Rightarrow>
          (let before = readiness_of A home fs1 in
           case act (\<not> rd_initialized before) ''initialized'' (default_init kp A home) [] fs1 of
             (Inl e, fs2) \<Rightarrow> (Inl e, fs2)
           | (Inr done, fs2) \<Rightarrow>
               (case act (enable_sandbox \<and> rd_sandbox_available before \<and> \<not> rd_sandbox_enabled before)
                       ''sandbox_enabled'' (default_sandbox_setup A home) done fs2 of
                  (Inl e, fs3) \<Rightarrow> (Inl e, fs3)
                | (Inr done', fs3) \<Rightarrow> (Inr \<lparr>ry_actions = done', ry_after = readiness_of A home fs3\<rparr>, fs3))))"

lemma ensure_app_home_again:
  "ensure_app_home home fs = (Inr h, fs1) \<Longrightarrow> \<exists>h' fs2. ensure_app_home home fs' = (Inr h', fs2)"
  by (auto simp: ensure_app_home_def makedirs_def split: prod.splits sum.splits if_splits)

lemma default_init_files:
  assumes "default_init kp A home fs = (Inr u, fs')" and "\<not> is_initialized home fs"
  shows "is_initialized home fs'" and "read_sandbox_backend home fs' = read_sandbox_backend home fs"
proof -
  obtain x where i: "init_main kp A home (Some home) False False fs = (Inr x, fs')"
    using assms(1) by (auto simp: default_init_def split: prod.splits sum.splits)
  obtain h fs1 where e: "ensure_app_home home fs = (Inr h, fs1)"
    using i by (auto simp: init_main_def Let_def split: prod.splits sum.splits)
  then have same: "files fs1 = files fs" by (rule ensure_app_home_files)
  then have n: "\<not> is_initialized home fs1" using assms(2) by (simp add: is_initialized_def)
  obtain w fs2 where g: "generate_keypair kp (keys_dir home) fs1 = (Inr w, fs2)"
    using i e n by (auto simp: init_main_def Let_def split: prod.splits sum.splits)
  have "fs' = fs2" using i e n g by (auto simp: init_main_def Let_def setup_sandbox_def split: prod.splits sum.splits)
  then have f: "files fs' = (files fs)(private_key_path home \<mapsto> kp_private kp, public_key_path home \<mapsto> kp_public kp)"
    using generate_keypair_files [OF g] same by simp
  show "is_initialized home fs'" using f by (simp add: is_initialized_def)
  show "read_sandbox_backend home fs' = read_sandbox_backend home fs"
    using f by (simp add: read_sandbox_backend_def home_paths)
qed

lemma default_sandbox_setup_files:
  assumes "default_sandbox_setup A home fs = (Inr u, fs')"
    and "\<forall>fs fs'. ac_setup A fs = (Inr (), fs') \<longrightarrow> files fs' = files fs"
  shows "is_initialized home fs' = is_initialized home fs" and "read_sandbox_backend home fs' = Some ''appcontainer''"
proof -
  obtain fs1 where s: "ac_setup A fs = (Inr (), fs1)" "fs' = snd (write_sandbox_backend home ''appcontainer'' fs1)"
    using assms(1) by (auto simp: default_sandbox_setup_def split: prod.splits sum.splits)
  then show "read_sandbox_backend home fs' = Some ''appcontainer''" using marker_roundtrip by simp
  have "files fs1 = files fs" using assms(2) s(1) by blast
  then show "is_initialized home fs' = is_initialized home fs"
    using s(2) by (simp add: is_initialized_def write_sandbox_backend_def home_paths)
qed

text \<open>What a call that returns has brought about.\<close>

lemma ensure_ready_ready:
  assumes "ensure_ready kp A home enable_sandbox fs = (Inr report, fs')"
    and "\<forall>fs fs'. ac_setup A fs = (Inr (), fs') \<longrightarrow> files fs' = files fs"
  shows "is_initialized home fs'" and "enable_sandbox \<and> ac_available A \<Longrightarrow> read_sandbox_backend home fs' \<noteq> None"
    and "ry_after report = readiness_of A home fs'"
proof -
  obtain h fs1 where e: "ensure_app_home home fs = (Inr h, fs1)"
    using assms(1) by (auto simp: ensure_ready_def split: prod.splits sum.splits)
  obtain d fs2 where i: "act (\<not> is_initialized home fs1) ''initialized'' (default_init kp A home) [] fs1 = (Inr d, fs2)"
    using assms(1) e by (auto simp: ensure_ready_def readiness_of_def Let_def split: prod.splits sum.splits)
  let ?b = "enable_sandbox \<and> ac_available A \<and> read_sandbox_backend home fs1 = None"
  obtain d' where s: "act ?b ''sandbox_enabled'' (default_sandbox_setup A home) d fs2 = (Inr d', fs')"
    "report = \<lparr>ry_actions = d', ry_after = readiness_of A home fs'\<rparr>"
    using assms(1) e i by (auto simp: ensure_ready_def readiness_of_def Let_def split: prod.splits sum.splits)
  have i2: "is_initialized home fs2" "read_sandbox_backend home fs2 = read_sandbox_backend home fs1"
    using i default_init_files by (auto simp: act_def split: if_splits prod.splits sum.splits)
  show "is_initialized home fs'"
    using s(1) i2 default_sandbox_setup_files(1) [OF _ assms(2)] by (auto simp: act_def split: if_splits prod.splits sum.splits)
  show "read_sandbox_backend home fs' \<noteq> None" if "enable_sandbox \<and> ac_available A"
    using s(1) i2 that default_sandbox_setup_files(2) [OF _ assms(2)] by (auto simp: act_def split: if_splits prod.splits sum.splits)
  show "ry_after report = readiness_of A home fs'" using s(2) by simp
qed

text \<open>
  C33. Opening the application twice is harmless: when the first call has returned, the home has its keys, the
  containment is on where it was asked for and there is one, and any later call, even with another key
  pair at hand, does nothing and changes no file. (Setting up the containment changes access lists only.)
\<close>

theorem ensure_ready_is_idempotent:
  assumes "ensure_ready kp A home enable_sandbox fs = (Inr report, fs1)"
    and "\<forall>fs fs'. ac_setup A fs = (Inr (), fs') \<longrightarrow> files fs' = files fs"
  shows "rd_initialized (ry_after report) \<and>
    (enable_sandbox \<and> ac_available A \<longrightarrow> rd_sandbox_enabled (ry_after report)) \<and>
    (\<exists>report' fs2. ensure_ready kp' A home enable_sandbox fs1 = (Inr report', fs2) \<and>
       ry_actions report' = [] \<and> ry_after report' = ry_after report \<and> files fs2 = files fs1)"
proof -
  note ready = ensure_ready_ready [OF assms]
  obtain h fs0 where "ensure_app_home home fs = (Inr h, fs0)"
    using assms(1) by (auto simp: ensure_ready_def split: prod.splits sum.splits)
  then obtain h' fs2 where e: "ensure_app_home home fs1 = (Inr h', fs2)" using ensure_app_home_again by blast
  then have same: "files fs2 = files fs1" by (rule ensure_app_home_files)
  then have r: "readiness_of A home fs2 = readiness_of A home fs1"
    by (simp add: readiness_of_def is_initialized_def read_sandbox_backend_def)
  have a: "rd_initialized (readiness_of A home fs1)"
    "\<not> (enable_sandbox \<and> rd_sandbox_available (readiness_of A home fs1) \<and> \<not> rd_sandbox_enabled (readiness_of A home fs1))"
    using ready(1,2) by (auto simp: readiness_of_def)
  have "act False n f d z = (Inr d, z)" for n f d z by (simp add: act_def)
  then have "ensure_ready kp' A home enable_sandbox fs1 =
      (Inr \<lparr>ry_actions = [], ry_after = readiness_of A home fs1\<rparr>, fs2)"
    using e a by (simp only: ensure_ready_def Let_def r prod.case sum.case simp_thms)
  then show ?thesis using ready same by (simp add: readiness_of_def)
qed

lemma home_nul: "CHR 0x00 \<notin> set home \<Longrightarrow> CHR 0x00 \<notin> set (folder home)"
  by (simp add: folder_def)

lemma ensure_app_home_returns:
  assumes "CHR 0x00 \<notin> set home"
  shows "\<exists>fs'. ensure_app_home home fs = (Inr home, fs')"
  using assms home_nul [OF assms]
  by (simp add: ensure_app_home_def makedirs_def keys_dir_def window_root_def custom_capabilities_dir_def
      path_join_below startswith_def)

lemma act_returns:
  assumes "\<And>fs. \<exists>fs'. f fs = (Inr (), fs')"
  shows "\<exists>d fs'. act b name f done fs = (Inr d, fs')"
proof -
  obtain fs' where "f fs = (Inr (), fs')" using assms by blast
  then show ?thesis by (cases b) (auto simp: act_def)
qed

lemma ensure_ready_returns:
  assumes "CHR 0x00 \<notin> set home" and "\<forall>fs. \<exists>fs'. ac_setup A fs = (Inr (), fs')"
  shows "\<exists>report fs'. ensure_ready kp A home enable_sandbox fs = (Inr report, fs')"
proof -
  have i: "\<exists>fs'. default_init kp A home fs = (Inr (), fs')" for fs
  proof -
    obtain fs1 where e: "ensure_app_home home fs = (Inr home, fs1)" using ensure_app_home_returns [OF assms(1)] by blast
    have "\<exists>fs2. generate_keypair kp (keys_dir home) fs1 = (Inr (private_key_path home, public_key_path home), fs2)"
      using home_nul [OF assms(1)]
      by (simp add: generate_keypair_def makedirs_def keys_dir_def path_join_below startswith_def Let_def
          private_key_path_def public_key_path_def)
    then show ?thesis using e by (auto simp: default_init_def init_main_def setup_sandbox_def)
  qed
  have x: "\<exists>fs'. default_sandbox_setup A home fs = (Inr (), fs')" for fs
  proof -
    obtain fs1 where "ac_setup A fs = (Inr (), fs1)" using assms(2) by blast
    then show ?thesis by (simp add: default_sandbox_setup_def)
  qed
  obtain fs1 where e: "ensure_app_home home fs = (Inr home, fs1)" using ensure_app_home_returns [OF assms(1)] by blast
  let ?r = "readiness_of A home fs1"
  obtain d fs2 where d: "act (\<not> rd_initialized ?r) ''initialized'' (default_init kp A home) [] fs1 = (Inr d, fs2)"
    using act_returns [of "default_init kp A home", OF i] by blast
  obtain d' fs3 where "act (enable_sandbox \<and> rd_sandbox_available ?r \<and> \<not> rd_sandbox_enabled ?r)
      ''sandbox_enabled'' (default_sandbox_setup A home) d fs2 = (Inr d', fs3)"
    using act_returns [of "default_sandbox_setup A home", OF x] by blast
  then show ?thesis using e d by (simp add: ensure_ready_def)
qed

theorem ensure_ready_is_idempotent_witness:
  "\<exists>report fs1 report' fs2. ensure_ready example_pair example_app_container ''/home'' True empty_fs = (Inr report, fs1) \<and>
     rd_sandbox_enabled (ry_after report) \<and>
     ensure_ready example_pair example_app_container ''/home'' True fs1 = (Inr report', fs2) \<and> ry_actions report' = []"
proof -
  obtain report fs1 where r: "ensure_ready example_pair example_app_container ''/home'' True empty_fs = (Inr report, fs1)"
    using ensure_ready_returns [of "''/home''" example_app_container] by (force simp: example_app_container_def)
  have "\<forall>fs fs'. ac_setup example_app_container fs = (Inr (), fs') \<longrightarrow> files fs' = files fs"
    by (simp add: example_app_container_def)
  from ensure_ready_is_idempotent [OF r this, of example_pair] r show ?thesis
    by (auto simp: example_app_container_def)
qed

section \<open>The installation\<close>

definition APP_NAME :: string where "APP_NAME = ''SentinelLoop''"
definition DISPLAY_NAME :: string where "DISPLAY_NAME = ''Sentinel Loop''"
definition UNINSTALL_KEY :: string where
  "UNINSTALL_KEY = join [CHR 0x5C] [''Software'', ''Microsoft'', ''Windows'', ''CurrentVersion'', ''Uninstall'', ''SentinelLoop'']"

text \<open>\<^verbatim>\<open>ntpath.join\<close> with a name that is relative and has no drive.\<close>

definition win_join :: "string \<Rightarrow> string \<Rightarrow> string" where
  "win_join a b = (if a = [] \<or> last a \<in> {CHR 0x5C, CHR ''/'', CHR '':''} then a @ b else a @ CHR 0x5C # b)"

definition win_path :: "string \<Rightarrow> string list \<Rightarrow> string" where
  "win_path a bs = foldl win_join a bs"

definition default_target :: "environ \<Rightarrow> string \<Rightarrow> string" where
  "default_target env user =
     win_path (env_or env ''LOCALAPPDATA'' (win_path user [''AppData'', ''Local''])) [''Programs'', APP_NAME]"

definition venv_python :: "string \<Rightarrow> bool \<Rightarrow> string" where
  "venv_python target windowed =
     win_path target [''venv'', ''Scripts'', if windowed then ''pythonw.exe'' else ''python.exe'']"

definition start_menu_dir :: "environ \<Rightarrow> string \<Rightarrow> string" where
  "start_menu_dir env user =
     win_path (env_or env ''APPDATA'' (win_path user [''AppData'', ''Roaming'']))
       [''Microsoft'', ''Windows'', ''Start Menu'', ''Programs'']"

definition shortcut_path :: "environ \<Rightarrow> string \<Rightarrow> string" where
  "shortcut_path env user = win_join (start_menu_dir env user) (DISPLAY_NAME @ ''.lnk'')"

definition ps_quoted :: "string \<Rightarrow> string" where
  "ps_quoted s = CHR 0x27 # s @ [CHR 0x27]"

definition shortcut_powershell :: "string \<Rightarrow> string \<Rightarrow> string" where
  "shortcut_powershell target link_path =
     (let app = win_path target [''venv'', ''Scripts'', ''sentinel-loop.exe''] in
      ''$ws = New-Object -ComObject WScript.Shell; '' @
      ''$s = $ws.CreateShortcut('' @ ps_quoted link_path @ ''); '' @
      ''if (Test-Path '' @ ps_quoted app @ '') { $s.TargetPath = '' @ ps_quoted app @ '' } '' @
      ''else { $s.TargetPath = '' @ ps_quoted (venv_python target True) @ ''; '' @
      ''$s.Arguments = '' @ ps_quoted ''-m sentinel_slice.app.shell'' @ '' }; '' @
      ''$s.WorkingDirectory = '' @ ps_quoted target @ ''; '' @
      ''$s.Description = '' @ ps_quoted ''Sentinel Loop'' @ ''; $s.Save()'')"

datatype reg_value = Reg_sz string | Reg_dword int

definition uninstall_key_values :: "string \<Rightarrow> string \<Rightarrow> (string \<times> reg_value) list" where
  "uninstall_key_values target version =
     [(''DisplayName'', Reg_sz DISPLAY_NAME), (''DisplayVersion'', Reg_sz version),
      (''Publisher'', Reg_sz ''Sentinel Loop (unsigned)''), (''InstallLocation'', Reg_sz target),
      (''UninstallString'', Reg_sz (venv_python target False @ '' -m sentinel_slice.installer uninstall'')),
      (''NoModify'', Reg_dword 1), (''NoRepair'', Reg_dword 1), (''EstimatedSize'', Reg_dword 0)]"

definition self_delete_command :: "string \<Rightarrow> string" where
  "self_delete_command target =
     ''cmd /c \"ping 127.0.0.1 -n 4 >nul & rmdir /s /q \"'' @ target @ ''\"\"''"

text \<open>The installation's state; the registry is that of \<^verbatim>\<open>HKEY_CURRENT_USER\<close>.\<close>

record installation =
  is_fs :: fsys
  is_registry :: "(string \<times> (string \<times> reg_value) list) list"
  is_spawned :: "string list"

definition write_registry :: "string \<Rightarrow> (string \<times> reg_value) list \<Rightarrow> installation \<Rightarrow> installation" where
  "write_registry key values s =
     s\<lparr>is_registry := AList.update key
        (fold (\<lambda>(name, v) vs. AList.update name v vs) values
           (case map_of (is_registry s) key of None \<Rightarrow> [] | Some old \<Rightarrow> old)) (is_registry s)\<rparr>"

definition delete_registry :: "string \<Rightarrow> installation \<Rightarrow> bool \<times> installation" where
  "delete_registry key s =
     (if map_of (is_registry s) key = None then (False, s)
      else (True, s\<lparr>is_registry := AList.delete key (is_registry s)\<rparr>))"

text \<open>A started program: its exit code and what it did to files, or the exception that it does not start.\<close>

type_synonym runner = "string list \<Rightarrow> fsys \<Rightarrow> (exn + int) \<times> fsys"

text \<open>One step of the flow: a command whose exit code must be among the accepted ones.\<close>

definition run_step ::
  "runner \<Rightarrow> (int \<Rightarrow> bool) \<Rightarrow> string \<Rightarrow> string list \<Rightarrow> string list \<Rightarrow> installation \<Rightarrow> (exn + string list) \<times> installation" where
  "run_step run ok name cmd actions s =
     (case run cmd (is_fs s) of
        (Inl e, fs) \<Rightarrow> (Inl e, s\<lparr>is_fs := fs\<rparr>)
      | (Inr code, fs) \<Rightarrow> (if ok code then Inr (actions @ [name]) else Inl RuntimeError, s\<lparr>is_fs := fs\<rparr>))"

record install_options =
  io_target :: "string option"
  io_wheel :: "string option"
  io_version :: string
  io_key :: string
  io_make_shortcut :: bool
  io_enable_sandbox :: bool
  io_skip_venv :: bool
  io_pip_python :: "string option"

record windows_user =
  wu_platform :: string
  wu_environ :: environ
  wu_home :: string
  wu_executable :: string

definition install_target :: "windows_user \<Rightarrow> string option \<Rightarrow> string" where
  "install_target U target = given_nonempty target (default_target (wu_environ U) (wu_home U))"

definition make_environment ::
  "runner \<Rightarrow> windows_user \<Rightarrow> install_options \<Rightarrow> string \<Rightarrow> string \<Rightarrow> installation \<Rightarrow> (exn + string list) \<times> installation" where
  "make_environment run U opt target py s =
     (if io_skip_venv opt then (Inr [], s)
      else (case run_step run (\<lambda>c. c = 0) ''venv'' [wu_executable U, ''-m'', ''venv'', win_join target ''venv''] [] s of
              (Inl e, s1) \<Rightarrow> (Inl e, s1)
            | (Inr actions, s1) \<Rightarrow>
                (case io_wheel opt of
                   None \<Rightarrow> (Inr actions, s1)
                 | Some wheel \<Rightarrow>
                     if wheel = [] then (Inr actions, s1)
                     else run_step run (\<lambda>c. c = 0) ''pip'' [py, ''-m'', ''pip'', ''install'', ''--quiet'', wheel] actions s1)))"

definition make_start_menu ::
  "runner \<Rightarrow> windows_user \<Rightarrow> install_options \<Rightarrow> string \<Rightarrow> string list \<Rightarrow> installation \<Rightarrow> (exn + string list) \<times> installation" where
  "make_start_menu run U opt target actions s =
     (if \<not> io_make_shortcut opt then (Inr actions, s)
      else (let link = shortcut_path (wu_environ U) (wu_home U) in
            case makedirs (start_menu_dir (wu_environ U) (wu_home U)) (is_fs s) of
              (Inl e, fs) \<Rightarrow> (Inl e, s\<lparr>is_fs := fs\<rparr>)
            | (Inr _, fs) \<Rightarrow>
                (case run [''powershell'', ''-NoProfile'', ''-NonInteractive'', ''-Command'', shortcut_powershell target link] fs of
                   (Inl e, fs1) \<Rightarrow> (Inl e, s\<lparr>is_fs := fs1\<rparr>)
                 | (Inr code, fs1) \<Rightarrow>
                     (Inr (if code = 0 then actions @ [''shortcut''] else actions), s\<lparr>is_fs := fs1\<rparr>))))"

definition install ::
  "runner \<Rightarrow> windows_user \<Rightarrow> install_options \<Rightarrow> installation \<Rightarrow> (exn + string \<times> string list) \<times> installation" where
  "install run U opt s =
     (if wu_platform U \<noteq> ''win32'' then (Inl RuntimeError, s)
      else (let target = install_target U (io_target opt);
                py = given_nonempty (io_pip_python opt) (venv_python target False)
            in case makedirs target (is_fs s) of
                 (Inl e, fs) \<Rightarrow> (Inl e, s\<lparr>is_fs := fs\<rparr>)
               | (Inr _, fs) \<Rightarrow>
                   (case make_environment run U opt target py (s\<lparr>is_fs := fs\<rparr>) of
                      (Inl e, s1) \<Rightarrow> (Inl e, s1)
                    | (Inr actions, s1) \<Rightarrow>
                        (case run_step run (\<lambda>c. c \<in> {0, 1}) ''init''
                            ([py, ''-m'', ''sentinel_slice.init_app''] @ (if io_enable_sandbox opt then [''--sandbox''] else []))
                            actions s1 of
                           (Inl e, s2) \<Rightarrow> (Inl e, s2)
                         | (Inr actions, s2) \<Rightarrow>
                             (case make_start_menu run U opt target actions s2 of
                                (Inl e, s3) \<Rightarrow> (Inl e, s3)
                              | (Inr actions, s3) \<Rightarrow>
                                  (Inr (target, actions @ [''registry'']),
                                   write_registry (io_key opt) (uninstall_key_values target (io_version opt)) s3))))))"

text \<open>
  \<open>teardown\<close> is whether the AppContainer is available, and then what tearing it down does; whatever it
  raises is ignored.
\<close>

record uninstall_options =
  uo_target :: "string option"
  uo_key :: string
  uo_remove_shortcut :: bool
  uo_teardown_sandbox :: bool
  uo_schedule_self_delete :: bool

definition teardown_step :: "(fsys \<Rightarrow> (exn + unit) \<times> fsys) option \<Rightarrow> bool \<Rightarrow> installation \<Rightarrow> string list \<times> installation" where
  "teardown_step teardown wanted s =
     (case (if wanted then teardown else None) of
        None \<Rightarrow> ([], s)
      | Some f \<Rightarrow>
          (case f (is_fs s) of
             (Inl _, fs) \<Rightarrow> ([], s\<lparr>is_fs := fs\<rparr>) | (Inr _, fs) \<Rightarrow> ([''sandbox_teardown''], s\<lparr>is_fs := fs\<rparr>)))"

definition remove_shortcut :: "string \<Rightarrow> bool \<Rightarrow> installation \<Rightarrow> string list \<times> installation" where
  "remove_shortcut link wanted s =
     (if wanted \<and> files (is_fs s) link \<noteq> None
      then ([''shortcut''], s\<lparr>is_fs := (is_fs s)\<lparr>files := (files (is_fs s))(link := None)\<rparr>\<rparr>) else ([], s))"

definition win_below :: "string \<Rightarrow> string \<Rightarrow> bool" where
  "win_below d p \<longleftrightarrow> p = d \<or> startswith p (d @ [CHR 0x5C])"

definition remove_target :: "string \<Rightarrow> bool \<Rightarrow> installation \<Rightarrow> string list \<times> installation" where
  "remove_target target schedule s =
     (if target \<notin> dirs (is_fs s) then ([], s)
      else if schedule then ([''scheduled_delete''], s\<lparr>is_spawned := is_spawned s @ [self_delete_command target]\<rparr>)
      else ([''deleted''], s\<lparr>is_fs := (is_fs s)\<lparr>files := (\<lambda>p. if win_below target p then None else files (is_fs s) p),
              dirs := Set.filter (\<lambda>d. \<not> win_below target d) (dirs (is_fs s))\<rparr>\<rparr>))"

definition uninstall ::
  "windows_user \<Rightarrow> (fsys \<Rightarrow> (exn + unit) \<times> fsys) option \<Rightarrow> uninstall_options \<Rightarrow> installation \<Rightarrow>
   (string \<times> string list) \<times> installation" where
  "uninstall U teardown opt s =
     (let target = install_target U (uo_target opt) in
      case teardown_step teardown (uo_teardown_sandbox opt) s of (a1, s1) \<Rightarrow>
      case remove_shortcut (shortcut_path (wu_environ U) (wu_home U)) (uo_remove_shortcut opt) s1 of (a2, s2) \<Rightarrow>
      case delete_registry (uo_key opt) s2 of (was, s3) \<Rightarrow>
      case remove_target target (uo_schedule_self_delete opt) s3 of (a4, s4) \<Rightarrow>
        ((target, a1 @ a2 @ (if was then [''registry''] else []) @ a4), s4))"

text \<open>\<^verbatim>\<open>main\<close>, for the arguments that \<^verbatim>\<open>argparse\<close> lets through.\<close>

definition default_uninstall :: "string option \<Rightarrow> uninstall_options" where
  "default_uninstall target =
     \<lparr>uo_target = target, uo_key = UNINSTALL_KEY, uo_remove_shortcut = True, uo_teardown_sandbox = True,
      uo_schedule_self_delete = True\<rparr>"

definition installer_main ::
  "runner \<Rightarrow> windows_user \<Rightarrow> (fsys \<Rightarrow> (exn + unit) \<times> fsys) option \<Rightarrow> bool \<Rightarrow> string option \<Rightarrow> string option \<Rightarrow> string \<Rightarrow>
   bool \<Rightarrow> bool \<Rightarrow> installation \<Rightarrow> (exn + int \<times> string) \<times> installation" where
  "installer_main run U teardown installing target wheel version skip_venv no_sandbox s =
     (if installing then
        (case install run U
            \<lparr>io_target = target, io_wheel = wheel, io_version = version, io_key = UNINSTALL_KEY, io_make_shortcut = True,
             io_enable_sandbox = \<not> no_sandbox, io_skip_venv = skip_venv, io_pip_python = None\<rparr> s of
           (Inl e, s1) \<Rightarrow> (Inl e, s1)
         | (Inr (dest, actions), s1) \<Rightarrow>
             (Inr (0, ''installed to '' @ dest @ '' ('' @ join '', '' actions @ '')''), s1))
      else
        (case uninstall U teardown (default_uninstall target) s of
           ((dest, actions), s1) \<Rightarrow> (Inr (0, ''uninstalled '' @ dest @ '' ('' @ join '', '' actions @ '')''), s1)))"

section \<open>What an installation leaves in the registry\<close>

lemma run_step_registry: "run_step run ok name cmd actions s = (r, s') \<Longrightarrow> is_registry s' = is_registry s"
  by (auto simp: run_step_def split: prod.splits sum.splits)

lemma make_environment_registry:
  "make_environment run U opt target py s = (r, s') \<Longrightarrow> is_registry s' = is_registry s"
  by (auto simp: make_environment_def split: if_splits prod.splits sum.splits option.splits dest!: run_step_registry)

lemma make_start_menu_registry:
  "make_start_menu run U opt target actions s = (r, s') \<Longrightarrow> is_registry s' = is_registry s"
  by (auto simp: make_start_menu_def Let_def split: if_splits prod.splits sum.splits)

lemma install_cases:
  assumes "install run U opt s = (r, s')"
  obtains e where "r = Inl e" "is_registry s' = is_registry s"
    | actions s3 where "r = Inr (install_target U (io_target opt), actions @ [''registry''])" "is_registry s3 = is_registry s"
      "s' = write_registry (io_key opt) (uninstall_key_values (install_target U (io_target opt)) (io_version opt)) s3"
  using assms
  by (auto simp: install_def Let_def split: if_splits prod.splits sum.splits
      dest!: run_step_registry make_environment_registry make_start_menu_registry)

lemma map_of_fold_values:
  "map_of (fold (\<lambda>(name, v) vs. AList.update name v vs) values old) = map_of old ++ map_of (rev values)"
  by (induction "values" arbitrary: old) (auto simp: AList.update_conv' split_beta map_add_def fun_eq_iff split: option.splits)

lemma write_registry_facts:
  "map_of (is_registry (write_registry key entries s)) key =
     Some (fold (\<lambda>(name, v) vs. AList.update name v vs) entries (case map_of (is_registry s) key of None \<Rightarrow> [] | Some old \<Rightarrow> old))"
  "k \<noteq> key \<Longrightarrow> map_of (is_registry (write_registry key entries s)) k = map_of (is_registry s) k"
  by (simp_all add: write_registry_def AList.update_conv')

text \<open>
  An installation is listed exactly when it has succeeded: one that raises has changed nothing in the
  registry, whatever step failed; one that returns has written the entry that Windows lists, over whatever
  an earlier version left there, with the command that uninstalls it and the place it is in, and has
  changed no other key.
\<close>

theorem installed_iff_listed:
  assumes "install run U opt s = (r, s')"
  shows "case r of
      Inl _ \<Rightarrow> is_registry s' = is_registry s
    | Inr (target, actions) \<Rightarrow>
        (\<exists>values. map_of (is_registry s') (io_key opt) = Some values \<and>
           map_of values ''UninstallString'' =
             Some (Reg_sz (venv_python target False @ '' -m sentinel_slice.installer uninstall'')) \<and>
           map_of values ''InstallLocation'' = Some (Reg_sz target) \<and>
           map_of values ''DisplayVersion'' = Some (Reg_sz (io_version opt))) \<and>
        (\<forall>k. k \<noteq> io_key opt \<longrightarrow> map_of (is_registry s') k = map_of (is_registry s) k)"
  using assms
proof (cases rule: install_cases)
  case (2 actions s3)
  then show ?thesis
    using write_registry_facts [where key = "io_key opt" and s = s3 and
        entries = "uninstall_key_values (install_target U (io_target opt)) (io_version opt)"]
    by (simp add: map_of_fold_values) (simp add: uninstall_key_values_def)
qed simp

lemma teardown_step_facts:
  "teardown_step teardown wanted s = (a, s') \<Longrightarrow> is_registry s' = is_registry s \<and> is_spawned s' = is_spawned s"
  by (auto simp: teardown_step_def split: option.splits prod.splits sum.splits)

lemma uninstall_facts:
  assumes "uninstall U teardown opt s = ((target, actions), s')"
  shows "target = install_target U (uo_target opt)"
    and "map_of (is_registry s') = (map_of (is_registry s))(uo_key opt := None)"
    and "map_of (is_registry s) (uo_key opt) \<noteq> None \<Longrightarrow> ''registry'' \<in> set actions"
    and "uo_remove_shortcut opt \<Longrightarrow> files (is_fs s') (shortcut_path (wu_environ U) (wu_home U)) = None"
    and "target \<in> dirs (is_fs s') \<Longrightarrow> self_delete_command target \<in> set (is_spawned s')"
proof -
  obtain a1 s1 where t: "teardown_step teardown (uo_teardown_sandbox opt) s = (a1, s1)" by fastforce
  obtain a2 s2 where c: "remove_shortcut (shortcut_path (wu_environ U) (wu_home U)) (uo_remove_shortcut opt) s1 = (a2, s2)" by fastforce
  obtain was s3 where d: "delete_registry (uo_key opt) s2 = (was, s3)" by fastforce
  obtain a4 s4 where x: "remove_target (install_target U (uo_target opt)) (uo_schedule_self_delete opt) s3 = (a4, s4)" by fastforce
  have u: "target = install_target U (uo_target opt)" "actions = a1 @ a2 @ (if was then [''registry''] else []) @ a4" "s' = s4"
    using assms t c d x by (auto simp: uninstall_def Let_def)
  then show "target = install_target U (uo_target opt)" by simp
  have r: "is_registry s2 = is_registry s" using teardown_step_facts [OF t] c by (auto simp: remove_shortcut_def split: if_splits)
  have r4: "is_registry s4 = is_registry s3" using x by (auto simp: remove_target_def split: if_splits)
  show "map_of (is_registry s') = (map_of (is_registry s))(uo_key opt := None)"
    using d r r4 u(3) by (auto simp: delete_registry_def AList.delete_conv' fun_eq_iff split: if_splits)
  show "''registry'' \<in> set actions" if "map_of (is_registry s) (uo_key opt) \<noteq> None"
    using d r that u(2) by (auto simp: delete_registry_def split: if_splits)
  have "files (is_fs s3) l = files (is_fs s2) l" for l using d by (auto simp: delete_registry_def split: if_splits)
  then show "files (is_fs s') (shortcut_path (wu_environ U) (wu_home U)) = None" if "uo_remove_shortcut opt"
    using c x u(3) that by (auto simp: remove_shortcut_def remove_target_def split: if_splits)
  show "self_delete_command target \<in> set (is_spawned s')" if "target \<in> dirs (is_fs s')"
    using x u that by (auto simp: remove_target_def win_below_def split: if_splits)
qed

text \<open>
  Uninstalling takes back what installing did: the entry is gone and every other key of the registry is
  as it was before the installation, the shortcut is gone, and the directory is gone or its removal has
  been started.
\<close>

theorem uninstall_reverses_install:
  assumes "install run U opt s = (Inr (target, actions), s1)"
    and "uninstall U teardown opt' s1 = ((target', actions'), s2)"
    and "uo_key opt' = io_key opt" and "uo_target opt' = io_target opt" and "uo_remove_shortcut opt'"
  shows "target' = target \<and> ''registry'' \<in> set actions' \<and>
    map_of (is_registry s2) = (map_of (is_registry s))(io_key opt := None) \<and>
    files (is_fs s2) (shortcut_path (wu_environ U) (wu_home U)) = None \<and>
    (target \<in> dirs (is_fs s2) \<longrightarrow> self_delete_command target \<in> set (is_spawned s2))"
proof -
  note u = uninstall_facts [OF assms(2)]
  obtain s3 where i: "target = install_target U (io_target opt)" "is_registry s3 = is_registry s"
    "s1 = write_registry (io_key opt) (uninstall_key_values (install_target U (io_target opt)) (io_version opt)) s3"
    using assms(1) by (rule install_cases) auto
  have "map_of (is_registry s2) = (map_of (is_registry s))(io_key opt := None)"
    using u(2) i(2,3) assms(3) write_registry_facts(2) by (auto simp: fun_eq_iff)
  then show ?thesis using u(1,3,4,5) i(1,3) assms(3-5) write_registry_facts(1) by simp
qed

definition example_user :: windows_user where
  "example_user =
     \<lparr>wu_platform = ''win32'', wu_environ = Map.empty, wu_home = ''/Users/kenji'', wu_executable = ''python.exe''\<rparr>"

definition example_options :: install_options where
  "example_options =
     \<lparr>io_target = None, io_wheel = Some ''sentinel.whl'', io_version = ''1.0'', io_key = UNINSTALL_KEY, io_make_shortcut = True,
      io_enable_sandbox = True, io_skip_venv = False, io_pip_python = None\<rparr>"

definition fresh_installation :: installation where
  "fresh_installation = \<lparr>is_fs = empty_fs, is_registry = [], is_spawned = []\<rparr>"

definition example_runner :: runner where
  "example_runner cmd fs = (Inr 0, fs)"

lemma example_install: "\<exists>target actions s1. install example_runner example_user example_options fresh_installation = (Inr (target, actions), s1)"
proof -
  have "CHR 0x00 \<notin> set (install_target example_user None)" "CHR 0x00 \<notin> set (start_menu_dir Map.empty ''/Users/kenji'')"
    by (simp_all add: install_target_def given_nonempty_def default_target_def start_menu_dir_def env_or_def win_path_def
        win_join_def APP_NAME_def example_user_def)
  then show ?thesis
    by (simp add: install_def Let_def makedirs_def make_environment_def make_start_menu_def run_step_def example_runner_def
        example_options_def) (simp add: example_user_def)
qed

theorem installed_iff_listed_witness:
  "\<exists>target actions s1 values. install example_runner example_user example_options fresh_installation = (Inr (target, actions), s1) \<and>
     map_of (is_registry s1) UNINSTALL_KEY = Some values \<and> map_of values ''InstallLocation'' = Some (Reg_sz target)"
proof -
  obtain target actions s1 where i: "install example_runner example_user example_options fresh_installation = (Inr (target, actions), s1)"
    using example_install by blast
  from installed_iff_listed [OF i] i show ?thesis by (auto simp: example_options_def)
qed

theorem uninstall_reverses_install_witness:
  "\<exists>target actions s1 actions' s2. install example_runner example_user example_options fresh_installation = (Inr (target, actions), s1) \<and>
     uninstall example_user None (default_uninstall None) s1 = ((target, actions'), s2) \<and> map_of (is_registry s2) = Map.empty"
proof -
  obtain target actions s1 where i: "install example_runner example_user example_options fresh_installation = (Inr (target, actions), s1)"
    using example_install by blast
  obtain target' actions' s2 where u: "uninstall example_user None (default_uninstall None) s1 = ((target', actions'), s2)"
    by (metis surj_pair)
  from uninstall_reverses_install [OF i u] i u show ?thesis
    by (auto simp: example_options_def default_uninstall_def fresh_installation_def)
qed

text \<open>
  A defect: installing over an installation whose keys are there leaves the containment off, although it
  was asked for and is available: the initialization returns 1 before it comes to it, and the installer
  takes 1 for success.
\<close>

lemma reinstalling_leaves_the_containment_off:
  assumes "is_initialized home fs" and "read_sandbox_backend home fs = None" and "CHR 0x00 \<notin> set home"
  shows "\<exists>printed fs'. init_main kp A usual (Some home) False True fs = (Inr (1, printed), fs') \<and>
    read_sandbox_backend home fs' = None"
proof -
  obtain fs' where e: "ensure_app_home home fs = (Inr home, fs')" using ensure_app_home_returns [OF assms(3)] by blast
  from ensure_app_home_files [OF this] have "is_initialized home fs'" "read_sandbox_backend home fs' = None"
    using assms(1,2) by (simp_all add: is_initialized_def read_sandbox_backend_def)
  then show ?thesis using e by (simp add: init_main_def)
qed

end
