(* ===== verification/Window.thy ===== *)
theory Window
  imports Screens Installer Programs
begin

text \<open>
  \<^verbatim>\<open>app/shell.py\<close>: the window of the desktop program. Its state is what the three tabs show, the model of
  \<^verbatim>\<open>app/model.py\<close> and the files; a click runs one callback. An exception in a callback is reported by tkinter,
  and the window goes on with what the callback had done so far. Fonts, sizes and places are left out. What
  other programs do to the files between two clicks, and the catalog and the ledger that a callback then
  finds, come with the click.
\<close>

section \<open>What the tabs show\<close>

definition cell :: "json dict \<Rightarrow> string \<Rightarrow> string" where
  "cell row k = (case jget row k of JStr s \<Rightarrow> s | _ \<Rightarrow> [])"

text \<open>A host with its button; \<open>cl_key\<close> is what the button is bound to.\<close>

record connect_line =
  cl_label :: string
  cl_button :: string
  cl_key :: string

definition connect_line_of :: "json dict \<Rightarrow> connect_line" where
  "connect_line_of row =
     \<lparr>cl_label = cell row ''display_name'' @ ''  '' @ middle_dot @ ''  '' @
        (if jget row ''connected'' = JBool True then ''connected''
         else if jget row ''installed'' = JBool True then ''installed'' else ''not installed''),
      cl_button = (if jget row ''connected'' = JBool True then ''Disconnect'' else ''Connect''),
      cl_key = cell row ''key''\<rparr>"

record choice_line =
  ch_label :: string
  ch_box :: string
  ch_id :: string

definition choice_line_of :: "json dict \<Rightarrow> choice_line" where
  "choice_line_of row =
     \<lparr>ch_label = cell row ''name'' @ '' ('' @ cell row ''risk'' @ '')'', ch_box = cell row ''state'', ch_id = cell row ''id''\<rparr>"

definition BOX_VALUES :: "string list" where
  "BOX_VALUES = [''allow'', ''ask'', ''block'']"

text \<open>The machine that the program runs on, and what is outside of it at one moment.\<close>

record desktop =
  dk_crypto :: crypto
  dk_os :: os
  dk_repr :: "string \<Rightarrow> string"
  dk_environ :: environ
  dk_platform :: string
  dk_user :: string
  dk_executable :: string

record outside =
  ou_meanwhile :: "fsys \<Rightarrow> fsys"
  ou_catalog :: "load_error + catalog"
  ou_ledger :: table

record window =
  wd_connect :: "connect_line list"
  wd_perms :: "choice_line list"
  wd_text :: string
  wd_model :: app_model
  wd_fs :: fsys

definition render_connect :: "desktop \<Rightarrow> fsys \<Rightarrow> connect_line list" where
  "render_connect D fs = map connect_line_of (connect_status (dk_environ D) (dk_platform D) (dk_user D) fs)"

definition render_perms :: "outside \<Rightarrow> app_model \<Rightarrow> load_error + choice_line list" where
  "render_perms w M =
     bind_res (ou_catalog w) (\<lambda>catalog.
     bind_res (lift (permission_rows catalog M)) (\<lambda>rows. Inr (map choice_line_of rows)))"

definition render_activity :: "desktop \<Rightarrow> outside \<Rightarrow> app_model \<Rightarrow> fsys \<Rightarrow> load_error + string" where
  "render_activity D w M fs = activity_text (dk_crypto D) (dk_repr D) (dk_os D) (ou_ledger w) M fs"

definition build_app :: "desktop \<Rightarrow> outside \<Rightarrow> app_model \<Rightarrow> fsys \<Rightarrow> load_error + window" where
  "build_app D w M fs =
     bind_res (render_perms w M) (\<lambda>perms.
     bind_res (render_activity D w M fs) (\<lambda>text.
     Inr \<lparr>wd_connect = render_connect D fs, wd_perms = perms, wd_text = text, wd_model = M, wd_fs = fs\<rparr>))"

section \<open>Clicks\<close>

text \<open>The button of a host, a value chosen in the box of a capability, and the button of the activity.\<close>

datatype click = Toggle string | Choose string string | Refresh

text \<open>A callback empties its tab before it fills it again.\<close>

definition filled :: "'a \<Rightarrow> load_error + 'a \<Rightarrow> 'a" where
  "filled nothing r = (case r of Inl _ \<Rightarrow> nothing | Inr x \<Rightarrow> x)"

definition on_toggle :: "desktop \<Rightarrow> string \<Rightarrow> window \<Rightarrow> window" where
  "on_toggle D key z =
     (case toggle_connection (dk_environ D) (dk_platform D) (dk_user D) (dk_executable D) key (wd_fs z) of
        (Inl e, fs) \<Rightarrow> z\<lparr>wd_fs := fs\<rparr>
      | (Inr _, fs) \<Rightarrow> z\<lparr>wd_fs := fs, wd_connect := render_connect D fs\<rparr>)"

definition on_choose :: "outside \<Rightarrow> string \<Rightarrow> string \<Rightarrow> window \<Rightarrow> window" where
  "on_choose w cap_id st z =
     (let shown = map (\<lambda>l. if ch_id l = cap_id then l\<lparr>ch_box := st\<rparr> else l) (wd_perms z) in
      case set_permission cap_id st (wd_model z) (wd_fs z) of
        (Inl e, M, fs) \<Rightarrow> z\<lparr>wd_perms := shown, wd_model := M, wd_fs := fs\<rparr>
      | (Inr _, M, fs) \<Rightarrow> z\<lparr>wd_perms := filled [] (render_perms w M), wd_model := M, wd_fs := fs\<rparr>)"

definition on_refresh :: "desktop \<Rightarrow> outside \<Rightarrow> window \<Rightarrow> window" where
  "on_refresh D w z = z\<lparr>wd_text := filled [] (render_activity D w (wd_model z) (wd_fs z))\<rparr>"

definition on_click :: "desktop \<Rightarrow> outside \<times> click \<Rightarrow> window \<Rightarrow> window" where
  "on_click D wc z =
     (case wc of (w, c) \<Rightarrow>
        let z1 = z\<lparr>wd_fs := ou_meanwhile w (wd_fs z)\<rparr> in
        (case c of
           Toggle key \<Rightarrow> on_toggle D key z1
         | Choose cap_id st \<Rightarrow> on_choose w cap_id st z1
         | Refresh \<Rightarrow> on_refresh D w z1))"

text \<open>
  \<open>run\<close> and \<open>main\<close>: the home is made ready, the window opened and, after the clicks, closed. The window at
  its end comes with the exit code.
\<close>

definition run_app ::
  "desktop \<Rightarrow> key_pair \<Rightarrow> app_container \<Rightarrow> string \<Rightarrow> outside \<Rightarrow> (outside \<times> click) list \<Rightarrow> fsys \<Rightarrow>
   (load_error + nat \<times> window) \<times> fsys" where
  "run_app D kp A home w clicks fs =
     (case ensure_ready kp A home True fs of
        (Inl e, fs1) \<Rightarrow> (Inl (Raises e), fs1)
      | (Inr _, fs1) \<Rightarrow>
          (case bind_res (lift (new_app_model home fs1)) (\<lambda>M. build_app D w M fs1) of
             Inl e \<Rightarrow> (Inl e, fs1)
           | Inr z \<Rightarrow> (case fold (on_click D) clicks z of z1 \<Rightarrow> (Inr (0, z1), wd_fs z1))))"

definition shell_main ::
  "desktop \<Rightarrow> key_pair \<Rightarrow> app_container \<Rightarrow> string option \<Rightarrow> outside \<Rightarrow> (outside \<times> click) list \<Rightarrow> fsys \<Rightarrow>
   (load_error + nat \<times> window) \<times> fsys" where
  "shell_main D kp A home_given w clicks fs =
     run_app D kp A (given_or home_given (default_app_home (dk_os D) (dk_environ D) (dk_platform D) (dk_user D))) w clicks fs"

section \<open>The files that a window works on\<close>

lemma is_connected_cong:
  "files fs' (mh_config_path h) = files fs (mh_config_path h) \<Longrightarrow> is_connected h fs' = is_connected h fs"
  by (simp add: is_connected_def read_config_def)

lemma load_prefs_cong: "files fs' path = files fs path \<Longrightarrow> load_prefs path fs' = load_prefs path fs"
  by (simp add: load_prefs_def)

lemma write_config_files:
  "write_config h config fs = (r, fs') \<Longrightarrow> p \<noteq> mh_config_path h \<Longrightarrow> files fs' p = files fs p"
  by (auto simp: write_config_def makedirs_def split: if_splits)

lemma toggle_connection_files:
  assumes "toggle_connection env plat user executable key fs = (r, fs')" and "\<forall>h \<in> set (known_hosts env plat user). p \<noteq> mh_config_path h"
  shows "files fs' p = files fs p"
  using assms write_config_files
  by (auto simp: toggle_connection_def get_host_def connect_def disconnect_def Let_def find_Some_iff
      split: option.splits if_splits sum.splits prod.splits json.splits)

text \<open>The three configurations and the preferences are four files: their names end differently.\<close>

lemma different_ends:
  assumes "a @ p = b @ q"
  shows "take (min (length p) (length q)) (rev p) = take (min (length p) (length q)) (rev q)"
proof -
  have "rev p @ rev a = rev q @ rev b" using arg_cong [OF assms, of rev] by simp
  from arg_cong [OF this, of "take (min (length p) (length q))"] show ?thesis by (simp add: min_def split: if_splits)
qed

definition host_ends :: "(string \<times> string) list" where
  "host_ends = [(''claude_desktop'', ''claude_desktop_config.json''), (''claude_code'', ''.claude.json''), (''cursor'', ''mcp.json'')]"

lemma host_path_end:
  assumes "h \<in> set (known_hosts env plat user)"
  obtains a e where "mh_config_path h = a @ e" "map_of host_ends (mh_key h) = Some e"
proof -
  have "\<exists>a e. mh_config_path h = a @ e \<and> map_of host_ends (mh_key h) = Some e"
    using assms by (auto simp: known_hosts_def claude_desktop_path_def host_ends_def path_join_below startswith_def)
  then show thesis using that by blast
qed

lemma host_paths_differ:
  assumes "h \<in> set (known_hosts env plat user)" and "k \<in> set (known_hosts env plat user)" and "mh_key h \<noteq> mh_key k"
  shows "mh_config_path h \<noteq> mh_config_path k"
proof
  assume eq: "mh_config_path h = mh_config_path k"
  obtain a e where h: "mh_config_path h = a @ e" "map_of host_ends (mh_key h) = Some e" by (rule host_path_end [OF assms(1)])
  obtain b g where k: "mh_config_path k = b @ g" "map_of host_ends (mh_key k) = Some g" by (rule host_path_end [OF assms(2)])
  show False using different_ends [of a e b g] eq h k assms(3) by (auto simp: host_ends_def split: if_splits)
qed

lemma preferences_apart:
  assumes "h \<in> set (known_hosts env plat user)"
  shows "preferences_path home \<noteq> mh_config_path h"
proof
  assume eq: "preferences_path home = mh_config_path h"
  obtain a e where h: "mh_config_path h = a @ e" "map_of host_ends (mh_key h) = Some e" by (rule host_path_end [OF assms(1)])
  have "preferences_path home = folder home @ ''permissions.json''"
    by (simp add: preferences_path_def path_join_below startswith_def)
  then show False using different_ends [of "folder home" "''permissions.json''" a e] eq h
    by (auto simp: host_ends_def split: if_splits)
qed

lemma host_of_key: "h \<in> set (known_hosts env plat user) \<Longrightarrow> get_host (mh_key h) env plat user = Some h"
  by (auto simp: known_hosts_def get_host_def)

section \<open>One click\<close>

text \<open>A button of a host turns its connection around, if the directory of its file can be named.\<close>

lemma gateway_command_wf: "wf_json (JObj (gateway_command None None executable))"
  by (simp add: gateway_command_def wf_dict_def)

lemma write_config_returns:
  "CHR 0x00 \<notin> set (dirname (mh_config_path h)) \<Longrightarrow> \<exists>fs'. write_config h config fs = (Inr (), fs')"
  by (simp add: write_config_def makedirs_def)

lemma toggle_turns_around:
  assumes "h \<in> set (known_hosts env plat user)" and "CHR 0x00 \<notin> set (dirname (mh_config_path h))"
  obtains told fs' where "toggle_connection env plat user executable (mh_key h) fs = (Inr told, fs')"
    "is_connected h fs' \<longleftrightarrow> \<not> is_connected h fs"
proof (cases "is_connected h fs")
  case True
  let ?c = "AList.update ''mcpServers'' (JObj (AList.delete SERVER_KEY (servers_of (read_config h fs)))) (read_config h fs)"
  obtain fs' where w: "write_config h ?c fs = (Inr (), fs')" using write_config_returns [OF assms(2)] by blast
  have d: "disconnect h fs = (Inr ''removed'', fs')"
    using True w by (auto simp: disconnect_def is_connected_def servers_of_def Let_def split: json.splits)
  note r = write_servers_read(3) [OF w read_config_wf wf_delete [OF servers_of_wf [OF read_config_wf]]]
  have "\<not> is_connected h fs'" by (simp add: connected_servers r map_of_delete)
  then show thesis using that d True by (simp add: toggle_connection_def host_of_key [OF assms(1)])
next
  case False
  let ?spec = "gateway_command None None executable"
  let ?c = "AList.update ''mcpServers'' (JObj (AList.update SERVER_KEY (JObj ?spec) (servers_of (read_config h fs)))) (read_config h fs)"
  obtain fs' where w: "write_config h ?c fs = (Inr (), fs')" using write_config_returns [OF assms(2)] by blast
  obtain told where d: "connect h ?spec fs = (Inr told, fs')" using w by (simp add: connect_def Let_def)
  note r = write_servers_read(3) [OF w read_config_wf wf_update [OF servers_of_wf [OF read_config_wf] gateway_command_wf]]
  have "is_connected h fs'" by (simp add: connected_servers r map_of_update)
  then show thesis using that d False by (simp add: toggle_connection_def host_of_key [OF assms(1)])
qed

section \<open>Screens in step with the files\<close>

abbreviation hosts_of :: "desktop \<Rightarrow> mcp_host list" where
  "hosts_of D \<equiv> known_hosts (dk_environ D) (dk_platform D) (dk_user D)"

abbreviation settings_of :: "window \<Rightarrow> string \<Rightarrow> string option" where
  "settings_of z \<equiv> map_of (pf_settings (am_prefs (wd_model z)))"

definition buttons_true :: "desktop \<Rightarrow> window \<Rightarrow> bool" where
  "buttons_true D z \<longleftrightarrow>
     map (\<lambda>l. (cl_key l, cl_button l)) (wd_connect z) =
     map (\<lambda>h. (mh_key h, if is_connected h (wd_fs z) then ''Disconnect'' else ''Connect'')) (hosts_of D)"

definition boxes_true :: "choice_line list \<Rightarrow> prefs \<Rightarrow> bool" where
  "boxes_true ls p \<longleftrightarrow> (\<forall>l \<in> set ls. \<forall>st. explicit p (ch_id l) = Some st \<longrightarrow> ch_box l = st)"

definition saved_as_shown :: "string \<Rightarrow> app_model \<Rightarrow> fsys \<Rightarrow> bool" where
  "saved_as_shown home M fs \<longleftrightarrow>
     am_home M = home \<and> valid_prefs (am_prefs M) \<and> pf_path (am_prefs M) = Some (preferences_path home) \<and>
     (\<exists>q. load_prefs (preferences_path home) fs = Inr q \<and> map_of (pf_settings q) = map_of (pf_settings (am_prefs M)))"

definition in_step :: "desktop \<Rightarrow> string \<Rightarrow> window \<Rightarrow> bool" where
  "in_step D home z \<longleftrightarrow>
     saved_as_shown home (wd_model z) (wd_fs z) \<and> buttons_true D z \<and> boxes_true (wd_perms z) (am_prefs (wd_model z))"

text \<open>The files whose contents the window answers for, and the clicks that a user can make.\<close>

definition watched :: "desktop \<Rightarrow> string \<Rightarrow> string set" where
  "watched D home = insert (preferences_path home) (mh_config_path ` set (hosts_of D))"

fun click_ok :: "desktop \<Rightarrow> string \<Rightarrow> outside \<times> click \<Rightarrow> bool" where
  "click_ok D home (w, c) \<longleftrightarrow>
     (\<forall>fs. \<forall>p \<in> watched D home. files (ou_meanwhile w fs) p = files fs p) \<and>
     (case c of Toggle key \<Rightarrow> key \<in> mh_key ` set (hosts_of D) | Choose cap_id st \<Rightarrow> st \<in> set BOX_VALUES | Refresh \<Rightarrow> True)"

lemma box_values_states: "set BOX_VALUES = set STATES"
  by (auto simp: BOX_VALUES_def STATES_def states)

lemma rendered_buttons: "wd_connect z = render_connect D (wd_fs z) \<Longrightarrow> buttons_true D z"
  by (simp add: buttons_true_def render_connect_def connect_status_def connect_line_of_def status_row_def cell_def jget_def jopt_def)

lemma lift_Inr: "lift r = Inr x \<longleftrightarrow> r = Inr x"
  by (cases r) (simp_all add: lift_def)

lemma map_res_member: "map_res f xs = Inr ys \<Longrightarrow> y \<in> set ys \<Longrightarrow> \<exists>x. f x = Inr y"
  by (induction xs arbitrary: ys) (auto simp: bind_res_Inr)

lemma rendered_boxes:
  assumes "render_perms w M = Inr ls"
  shows "boxes_true ls (am_prefs M)"
  unfolding boxes_true_def
proof (intro ballI allI impI)
  fix l st
  assume l: "l \<in> set ls" and e: "explicit (am_prefs M) (ch_id l) = Some st"
  obtain catalog rows where r: "permission_rows catalog M = Inr rows" "ls = map choice_line_of rows"
    using assms by (auto simp: render_perms_def bind_res_Inr lift_Inr)
  then obtain row where "row \<in> set rows" "l = choice_line_of row" using l by auto
  then obtain cap where "permission_row (am_prefs M) cap = Inr row" "l = choice_line_of row"
    using map_res_member r(1) unfolding permission_rows_def by metis
  then have "ch_id l = c_id cap" "ch_box l = effective_state (am_prefs M) cap"
    by (auto simp: permission_row_def choice_line_of_def cell_def jget_def jopt_def Let_def bind_res_Inr)
  then show "ch_box l = st" using e by (simp add: effective_state_def explicit_def)
qed

lemma filled_boxes: "boxes_true (filled [] (render_perms w M)) (am_prefs M)"
  by (cases "render_perms w M") (simp_all add: filled_def rendered_boxes, simp add: boxes_true_def)

text \<open>Other programs that leave the watched files alone.\<close>

lemma in_step_meanwhile:
  assumes "in_step D home z" and "\<forall>p \<in> watched D home. files fs p = files (wd_fs z) p"
  shows "in_step D home (z\<lparr>wd_fs := fs\<rparr>)" and "\<forall>h \<in> set (hosts_of D). is_connected h fs = is_connected h (wd_fs z)"
proof -
  show c: "\<forall>h \<in> set (hosts_of D). is_connected h fs = is_connected h (wd_fs z)"
    using assms(2) by (auto simp: watched_def intro!: is_connected_cong)
  have "load_prefs (preferences_path home) fs = load_prefs (preferences_path home) (wd_fs z)"
    using assms(2) by (intro load_prefs_cong) (simp add: watched_def)
  moreover have "buttons_true D (z\<lparr>wd_fs := fs\<rparr>) \<longleftrightarrow> buttons_true D z" using c by (auto simp: buttons_true_def cong: map_cong)
  ultimately show "in_step D home (z\<lparr>wd_fs := fs\<rparr>)" using assms(1) by (simp add: in_step_def saved_as_shown_def)
qed

lemma toggle_in_step:
  assumes "in_step D home z" and "h \<in> set (hosts_of D)" and "CHR 0x00 \<notin> set (dirname (mh_config_path h))"
  shows "in_step D home (on_toggle D (mh_key h) z)" and "wd_model (on_toggle D (mh_key h) z) = wd_model z"
    and "\<forall>k \<in> set (hosts_of D). is_connected k (wd_fs (on_toggle D (mh_key h) z)) \<longleftrightarrow> is_connected k (wd_fs z) \<noteq> (mh_key h = mh_key k)"
proof -
  obtain told fs' where t: "toggle_connection (dk_environ D) (dk_platform D) (dk_user D) (dk_executable D) (mh_key h) (wd_fs z) = (Inr told, fs')"
    "is_connected h fs' \<longleftrightarrow> \<not> is_connected h (wd_fs z)" by (rule toggle_turns_around [OF assms(2,3)])
  let ?z = "z\<lparr>wd_fs := fs', wd_connect := render_connect D fs'\<rparr>"
  have o: "on_toggle D (mh_key h) z = ?z" by (simp add: on_toggle_def t(1))
  have keep: "files fs' p = files (wd_fs z) p" if "p \<noteq> mh_config_path h" for p
    using t(1) that write_config_files
    by (auto simp: toggle_connection_def host_of_key [OF assms(2)] connect_def disconnect_def Let_def
        split: if_splits sum.splits prod.splits json.splits)
  have "load_prefs (preferences_path home) fs' = load_prefs (preferences_path home) (wd_fs z)"
    using keep preferences_apart [OF assms(2)] by (intro load_prefs_cong) blast
  then show "in_step D home (on_toggle D (mh_key h) z)"
    using assms(1) rendered_buttons [of ?z D] unfolding o by (simp add: in_step_def saved_as_shown_def)
  show "wd_model (on_toggle D (mh_key h) z) = wd_model z" unfolding o by simp
  show "\<forall>k \<in> set (hosts_of D). is_connected k (wd_fs (on_toggle D (mh_key h) z)) \<longleftrightarrow> is_connected k (wd_fs z) \<noteq> (mh_key h = mh_key k)"
  proof
    fix k assume k: "k \<in> set (hosts_of D)"
    show "is_connected k (wd_fs (on_toggle D (mh_key h) z)) \<longleftrightarrow> is_connected k (wd_fs z) \<noteq> (mh_key h = mh_key k)"
    proof (cases "mh_key h = mh_key k")
      case True
      then have "k = h" using host_of_key [OF k] host_of_key [OF assms(2)] by simp
      then show ?thesis using t(2) by (simp add: o)
    next
      case False
      then have "is_connected k fs' = is_connected k (wd_fs z)"
        using keep host_paths_differ [OF assms(2) k False] by (intro is_connected_cong) metis
      then show ?thesis using False by (simp add: o)
    qed
  qed
qed

lemma choose_in_step:
  assumes "in_step D home z" and "st \<in> set BOX_VALUES"
  shows "in_step D home (on_choose w cap_id st z)" and "settings_of (on_choose w cap_id st z) = (settings_of z)(cap_id \<mapsto> st)"
    and "\<forall>k \<in> set (hosts_of D). is_connected k (wd_fs (on_choose w cap_id st z)) = is_connected k (wd_fs z)"
proof -
  let ?path = "preferences_path home"
  let ?p = "(am_prefs (wd_model z))\<lparr>pf_settings := AList.update cap_id st (pf_settings (am_prefs (wd_model z)))\<rparr>"
  let ?M = "(wd_model z)\<lparr>am_prefs := ?p\<rparr>"
  let ?fs = "write_file ?path (prefs_text ?p) (wd_fs z)"
  have s: "am_home (wd_model z) = home" "valid_prefs (am_prefs (wd_model z))" "pf_path (am_prefs (wd_model z)) = Some ?path"
    using assms(1) by (auto simp: in_step_def saved_as_shown_def)
  have set: "set_pref cap_id st (am_prefs (wd_model z)) = Inr ?p" using assms(2) box_values_states by (simp add: set_pref_def)
  have v: "valid_prefs ?p" by (rule valid_set [OF s(2) set])
  have "save_prefs (Some ?path) ?p (wd_fs z) = (Inr ?path, ?fs)" using s(3) by (simp add: save_prefs_def)
  then have "set_permission cap_id st (wd_model z) (wd_fs z) = (Inr ?path, ?M, ?fs)"
    using set s(1) by (simp add: set_permission_def)
  then have o: "on_choose w cap_id st z = z\<lparr>wd_perms := filled [] (render_perms w ?M), wd_model := ?M, wd_fs := ?fs\<rparr>"
    by (simp add: on_choose_def Let_def)
  have keep: "files ?fs (mh_config_path h) = files (wd_fs z) (mh_config_path h)" if "h \<in> set (hosts_of D)" for h
    using preferences_apart [OF that, of home] by auto
  show c: "\<forall>k \<in> set (hosts_of D). is_connected k (wd_fs (on_choose w cap_id st z)) = is_connected k (wd_fs z)"
  proof
    fix k assume "k \<in> set (hosts_of D)"
    from is_connected_cong [OF keep [OF this]]
    show "is_connected k (wd_fs (on_choose w cap_id st z)) = is_connected k (wd_fs z)" by (simp add: o)
  qed
  show m: "settings_of (on_choose w cap_id st z) = (settings_of z)(cap_id \<mapsto> st)" by (rule ext) (simp add: o map_of_update)
  have "wf_dict (pf_settings ?p)" using v by (simp add: valid_prefs_def)
  then have l: "saved_as_shown home ?M ?fs"
    using saved_text_loads(1) [OF v, of ?path "wd_fs z"] v s by (auto simp: saved_as_shown_def map_of_sort_key)
  have "buttons_true D (on_choose w cap_id st z) \<longleftrightarrow> buttons_true D z"
    using c by (auto simp: buttons_true_def o cong: map_cong)
  moreover have "boxes_true (filled [] (render_perms w ?M)) (am_prefs ?M)" by (rule filled_boxes)
  ultimately show "in_step D home (on_choose w cap_id st z)" using assms(1) l unfolding o by (simp add: in_step_def)
qed

section \<open>Any number of clicks\<close>

fun choice_of :: "outside \<times> click \<Rightarrow> (string \<times> string) list" where
  "choice_of (w, Choose cap_id st) = [(cap_id, st)]"
| "choice_of (w, c) = []"

text \<open>The choices made, the last one first, and how often the button of a host was pressed.\<close>

definition choices :: "(outside \<times> click) list \<Rightarrow> (string \<times> string) list" where
  "choices cs = rev (concat (map choice_of cs))"

definition presses_of :: "string \<Rightarrow> (outside \<times> click) list \<Rightarrow> nat" where
  "presses_of key cs = length (filter (\<lambda>wc. snd wc = Toggle key) cs)"

lemma click_in_step:
  assumes "in_step D home z" and "click_ok D home wc" and "\<forall>h \<in> set (hosts_of D). CHR 0x00 \<notin> set (dirname (mh_config_path h))"
  shows "in_step D home (on_click D wc z)" and "settings_of (on_click D wc z) = settings_of z ++ map_of (choice_of wc)"
    and "\<forall>h \<in> set (hosts_of D). is_connected h (wd_fs (on_click D wc z)) \<longleftrightarrow> is_connected h (wd_fs z) \<noteq> (snd wc = Toggle (mh_key h))"
proof -
  obtain w c where wc: "wc = (w, c)" by (cases wc)
  let ?z = "z\<lparr>wd_fs := ou_meanwhile w (wd_fs z)\<rparr>"
  have z: "in_step D home ?z" "\<forall>h \<in> set (hosts_of D). is_connected h (ou_meanwhile w (wd_fs z)) = is_connected h (wd_fs z)"
    using in_step_meanwhile [OF assms(1), of "ou_meanwhile w (wd_fs z)"] assms(2) wc by auto
  have "in_step D home (on_click D wc z) \<and> settings_of (on_click D wc z) = settings_of z ++ map_of (choice_of wc) \<and>
    (\<forall>h \<in> set (hosts_of D). is_connected h (wd_fs (on_click D wc z)) \<longleftrightarrow> is_connected h (wd_fs z) \<noteq> (snd wc = Toggle (mh_key h)))"
  proof (cases c)
    case (Toggle key)
    then obtain h where h: "h \<in> set (hosts_of D)" "key = mh_key h" using assms(2) wc by auto
    note t = toggle_in_step [OF z(1) h(1)]
    show ?thesis using t assms(3) h z(2) by (simp add: wc Toggle on_click_def)
  next
    case (Choose cap_id st)
    then have st: "st \<in> set BOX_VALUES" using assms(2) wc by simp
    note t = choose_in_step [OF z(1) st, of w cap_id]
    show ?thesis using t z(2) by (simp add: wc Choose on_click_def)
  next
    case Refresh
    have o: "on_click D wc z = ?z\<lparr>wd_text := filled [] (render_activity D w (wd_model ?z) (wd_fs ?z))\<rparr>"
      by (simp add: wc Refresh on_click_def on_refresh_def)
    show ?thesis using z unfolding o by (simp add: wc Refresh in_step_def buttons_true_def)
  qed
  then show "in_step D home (on_click D wc z)" "settings_of (on_click D wc z) = settings_of z ++ map_of (choice_of wc)"
    "\<forall>h \<in> set (hosts_of D). is_connected h (wd_fs (on_click D wc z)) \<longleftrightarrow> is_connected h (wd_fs z) \<noteq> (snd wc = Toggle (mh_key h))"
    by blast+
qed

lemma clicks_in_step:
  assumes "\<forall>h \<in> set (hosts_of D). CHR 0x00 \<notin> set (dirname (mh_config_path h))"
  shows "in_step D home z \<Longrightarrow> list_all (click_ok D home) cs \<Longrightarrow> in_step D home (fold (on_click D) cs z) \<and>
    settings_of (fold (on_click D) cs z) = settings_of z ++ map_of (choices cs) \<and>
    (\<forall>h \<in> set (hosts_of D). is_connected h (wd_fs (fold (on_click D) cs z)) \<longleftrightarrow>
       is_connected h (wd_fs z) \<noteq> odd (presses_of (mh_key h) cs))"
proof (induction cs arbitrary: z)
  case Nil
  then show ?case by (simp add: choices_def presses_of_def)
next
  case (Cons wc cs)
  have ok: "click_ok D home wc" "list_all (click_ok D home) cs" using Cons.prems(2) by simp_all
  note c = click_in_step [OF Cons.prems(1) ok(1) assms]
  note ih = Cons.IH [OF c(1) ok(2)]
  have "length (choice_of wc) \<le> 1" by (cases wc rule: choice_of.cases) simp_all
  then have "rev (choice_of wc) = choice_of wc" by (cases "choice_of wc") auto
  then have "map_of (choices (wc # cs)) = map_of (choice_of wc) ++ map_of (choices cs)"
    by (simp add: choices_def)
  moreover have "odd (presses_of k (wc # cs)) \<longleftrightarrow> (snd wc = Toggle k) \<noteq> odd (presses_of k cs)" for k
    by (simp add: presses_of_def)
  ultimately show ?case using ih c(2,3) by (simp add: map_add_assoc) blast
qed

lemma opened_in_step:
  assumes "new_app_model home fs = Inr M" and "build_app D w M fs = Inr z"
  shows "in_step D home z" and "wd_model z = M" and "wd_fs z = fs"
proof -
  obtain p where p: "load_prefs (preferences_path home) fs = Inr p" "M = \<lparr>am_home = home, am_prefs = p\<rparr>"
    using assms(1) by (auto simp: new_app_model_def bind_res_Inr)
  then obtain j where j: "new_prefs j (Some (preferences_path home)) = Inr p" using load_prefs_new by blast
  then have "pf_path p = Some (preferences_path home)" by (auto simp: new_prefs_def bind_res_Inr)
  then have s: "saved_as_shown home M fs" using p valid_new [OF j] by (simp add: saved_as_shown_def)
  obtain perms shown where z: "render_perms w M = Inr perms"
    "z = \<lparr>wd_connect = render_connect D fs, wd_perms = perms, wd_text = shown, wd_model = M, wd_fs = fs\<rparr>"
    using assms(2) by (auto simp: build_app_def bind_res_Inr)
  show "wd_model z = M" "wd_fs z = fs" by (simp_all add: z(2))
  show "in_step D home z" using s rendered_boxes [OF z(1)] by (simp add: in_step_def z(2) rendered_buttons)
qed

text \<open>
  C34. The desktop program does what was clicked, and shows what is so. Between opening and closing its window a
  user presses buttons and makes choices in any order, while other programs leave the settings and the hosts'
  files alone. Then the settings file holds, for every capability, the last choice made or what it held before;
  a host is connected if and only if it was before and its button was pressed an even number of times, or the
  other way round; and at the end each button says \<open>Disconnect\<close> exactly if its host is connected, and each box
  shows the user's own choice where there is one.
\<close>

theorem window_does_what_was_clicked:
  assumes "ensure_ready kp A home True fs = (Inr report, fs1)" and "run_app D kp A home w cs fs = (Inr (code, z), fs2)"
    and "\<forall>h \<in> set (hosts_of D). CHR 0x00 \<notin> set (dirname (mh_config_path h))" and "list_all (click_ok D home) cs"
  shows "code = 0 \<and> fs2 = wd_fs z \<and>
    (\<exists>p q. load_prefs (preferences_path home) fs1 = Inr p \<and> load_prefs (preferences_path home) fs2 = Inr q \<and>
       map_of (pf_settings q) = map_of (pf_settings p) ++ map_of (choices cs)) \<and>
    (\<forall>h \<in> set (hosts_of D). is_connected h fs2 \<longleftrightarrow> is_connected h fs1 \<noteq> odd (presses_of (mh_key h) cs)) \<and>
    buttons_true D z \<and> boxes_true (wd_perms z) (am_prefs (wd_model z))"
proof -
  obtain M z0 where o: "new_app_model home fs1 = Inr M" "build_app D w M fs1 = Inr z0"
    "code = 0" "z = fold (on_click D) cs z0" "fs2 = wd_fs z"
    using assms(1,2) by (auto simp: run_app_def bind_res_Inr lift_Inr split: sum.splits)
  note z0 = opened_in_step [OF o(1,2)]
  note e = clicks_in_step [OF assms(3) z0(1) assms(4), folded o(4)]
  obtain q where "load_prefs (preferences_path home) fs2 = Inr q" "map_of (pf_settings q) = settings_of z"
    using e o(5) by (auto simp: in_step_def saved_as_shown_def)
  moreover have "load_prefs (preferences_path home) fs1 = Inr (am_prefs M)"
    using o(1) by (auto simp: new_app_model_def bind_res_Inr)
  ultimately show ?thesis using e o(3,5) z0(2,3) by (auto simp: in_step_def)
qed

lemma ready_home:
  assumes "is_initialized home fs" and "\<not> ac_available A" and "CHR 0x00 \<notin> set home"
  obtains report fs1 where "ensure_ready kp A home enable_sandbox fs = (Inr report, fs1)" "files fs1 = files fs"
proof -
  obtain h fs1 where e: "ensure_app_home home fs = (Inr h, fs1)" using ensure_app_home_returns [OF assms(3)] by blast
  then have same: "files fs1 = files fs" by (rule ensure_app_home_files)
  then have "rd_initialized (readiness_of A home fs1)" "\<not> rd_sandbox_available (readiness_of A home fs1)"
    using assms(1,2) by (simp_all add: readiness_of_def is_initialized_def)
  then show thesis using that [OF _ same] e by (simp add: ensure_ready_def act_def)
qed

lemma empty_activity: "\<exists>shown. activity_text C repr W [] M fs = Inr shown"
  by (simp add: activity_text_def ledger_report_def read_rows_def build_report_def check_chain_def lift_def
      render_text_def no_tally_def Let_def)

definition plain_desktop :: desktop where
  "plain_desktop =
     \<lparr>dk_crypto = example_crypto, dk_os = example_os, dk_repr = id, dk_environ = Map.empty, dk_platform = ''linux'',
      dk_user = ''/u'', dk_executable = ''/usr/bin/python3''\<rparr>"

definition quiet :: outside where
  "quiet = \<lparr>ou_meanwhile = id, ou_catalog = Inr example_catalog, ou_ledger = []\<rparr>"

definition no_container :: app_container where
  "no_container = \<lparr>ac_available = False, ac_setup = (\<lambda>fs. (Inr (), fs))\<rparr>"

definition keyed_fs :: fsys where
  "keyed_fs = empty_fs\<lparr>files := [private_key_path ''/home'' \<mapsto> ''k'']\<rparr>"

definition example_clicks :: "(outside \<times> click) list" where
  "example_clicks = [(quiet, Toggle ''cursor''), (quiet, Choose ''gmail.draft_reply'' ''ask''), (quiet, Refresh),
     (quiet, Choose ''gmail.draft_reply'' ''block'')]"

lemma example_hosts_nameable: "\<forall>h \<in> set (hosts_of plain_desktop). CHR 0x00 \<notin> set (dirname (mh_config_path h))"
  by code_simp

lemma keyed_home: "preferences_path ''/home'' = ''/home/permissions.json''" "is_initialized ''/home'' keyed_fs"
  "files keyed_fs ''/home/permissions.json'' = None" "files keyed_fs ''/u/.cursor/mcp.json'' = None"
  by (simp_all add: keyed_fs_def is_initialized_def home_paths folder_def endswith_def)
    (simp_all add: preferences_path_def path_join_def startswith_def endswith_def empty_fs_def)

theorem window_does_what_was_clicked_witness:
  "\<exists>report fs1 z fs2 q. ensure_ready example_pair no_container ''/home'' True keyed_fs = (Inr report, fs1) \<and>
    run_app plain_desktop example_pair no_container ''/home'' quiet example_clicks keyed_fs = (Inr (0, z), fs2) \<and>
    load_prefs ''/home/permissions.json'' fs2 = Inr q \<and> explicit q ''gmail.draft_reply'' = Some ''block'' \<and>
    (\<forall>h \<in> set (hosts_of plain_desktop). is_connected h fs2 \<longleftrightarrow> is_connected h fs1 \<noteq> (mh_key h = ''cursor''))"
proof -
  obtain report fs1 where r: "ensure_ready example_pair no_container ''/home'' True keyed_fs = (Inr report, fs1)"
    "files fs1 = files keyed_fs"
    by (rule ready_home [OF keyed_home(2), of no_container]) (simp_all add: no_container_def)
  have l: "load_prefs ''/home/permissions.json'' fs1 = Inr (no_prefs\<lparr>pf_path := Some ''/home/permissions.json''\<rparr>)"
    using r(2) keyed_home(3) by (simp add: load_prefs_def new_prefs_def falsy_def)
  let ?M = "\<lparr>am_home = ''/home'', am_prefs = no_prefs\<lparr>pf_path := Some ''/home/permissions.json''\<rparr>\<rparr>"
  have m: "new_app_model ''/home'' fs1 = Inr ?M" by (simp add: new_app_model_def keyed_home(1) l)
  have "\<exists>ls. render_perms quiet ?M = Inr ls"
    by (simp add: render_perms_def quiet_def permission_rows_def example_catalog_def ordered_caps_def permission_row_def
        effective_state_def no_prefs_def state_label_def LABEL_def states explicit_def lift_def Let_def)
  moreover have "\<exists>shown. render_activity plain_desktop quiet ?M fs1 = Inr shown"
    using empty_activity by (simp add: render_activity_def quiet_def)
  ultimately obtain z0 where "build_app plain_desktop quiet ?M fs1 = Inr z0" by (auto simp: build_app_def)
  then obtain z fs2 where a: "run_app plain_desktop example_pair no_container ''/home'' quiet example_clicks keyed_fs = (Inr (0, z), fs2)"
    using r(1) m by (simp add: run_app_def lift_def)
  have k: "list_all (click_ok plain_desktop ''/home'') example_clicks"
    by (simp add: example_clicks_def quiet_def BOX_VALUES_def known_hosts_def)
  have c: "choices example_clicks = [(''gmail.draft_reply'', ''block''), (''gmail.draft_reply'', ''ask'')]"
    by (simp add: choices_def example_clicks_def)
  have "odd (presses_of key example_clicks) \<longleftrightarrow> key = ''cursor''" for key by (auto simp: presses_of_def example_clicks_def)
  then have "(\<exists>p q. load_prefs ''/home/permissions.json'' fs1 = Inr p \<and> load_prefs ''/home/permissions.json'' fs2 = Inr q \<and>
       map_of (pf_settings q) = map_of (pf_settings p) ++ map_of (choices example_clicks)) \<and>
    (\<forall>h \<in> set (hosts_of plain_desktop). is_connected h fs2 \<longleftrightarrow> is_connected h fs1 \<noteq> (mh_key h = ''cursor''))"
    using window_does_what_was_clicked [OF r(1) a example_hosts_nameable k] unfolding keyed_home(1) by metis
  then obtain q where q: "load_prefs ''/home/permissions.json'' fs2 = Inr q" "explicit q ''gmail.draft_reply'' = Some ''block''"
    "\<forall>h \<in> set (hosts_of plain_desktop). is_connected h fs2 \<longleftrightarrow> is_connected h fs1 \<noteq> (mh_key h = ''cursor'')"
    by (auto simp: c explicit_def)
  show ?thesis by (intro exI conjI) (rule r(1), rule a, rule q(1), rule q(2), rule q(3))
qed

section \<open>Two programs with one settings file\<close>

text \<open>
  C40. A defect. The window and a confirming gateway each read the settings file when they start and write all of
  it when they save. So where a user sets a capability to \<open>block\<close> in the window while a gateway runs, the file has
  the block, but the gateway does not; and when the user then answers \<open>always\<close> to a question about any other
  capability, the gateway writes its own settings and the block is gone from the file as well.
\<close>

theorem block_set_meanwhile_is_lost:
  fixes s :: "'u consumer_state"
  assumes "kn_backend (sv_kitchen S) = subprocess_sandbox C W"
    and "valid_prefs (cn_prefs s)" and "pf_path (cn_prefs s) = Some path"
    and "saved_as_shown home M (ls_fs s)" and "preferences_path home = path"
    and "set_permission blocked BLOCK M (ls_fs s) = (Inr path, M', fs1)"
    and "accepts S m s ord" and "map_of (sv_menu S) (o_capability_id ord) = Some cap" and "effective_state (cn_prefs s) cap = ASK"
    and "decide ord cap (cn_user s) = (Inr \<lparr>ap_allow = True, ap_remember = True\<rparr>, u)" and "blocked \<noteq> o_capability_id ord"
    and "\<not> below (lm_workspace m) path" and "path \<noteq> order_output W S ord"
    and "consumer_place C W S decide m ord (s\<lparr>ls_fs := fs1\<rparr>) = (r, s')"
  shows "(\<exists>p. load_prefs path fs1 = Inr p \<and> explicit p blocked = Some BLOCK) \<and>
    explicit (cn_prefs s') blocked = explicit (cn_prefs s) blocked \<and>
    (\<exists>q. load_prefs path (ls_fs s') = Inr q \<and> explicit q blocked = explicit (cn_prefs s) blocked)"
proof -
  let ?b = "(am_prefs M)\<lparr>pf_settings := AList.update blocked BLOCK (pf_settings (am_prefs M))\<rparr>"
  let ?p = "(cn_prefs s)\<lparr>pf_settings := AList.update (o_capability_id ord) ALLOW (pf_settings (cn_prefs s))\<rparr>"
  have set: "set_pref blocked BLOCK (am_prefs M) = Inr ?b" by (simp add: set_pref_def STATES_def)
  have M: "am_home M = home" "valid_prefs (am_prefs M)" "pf_path (am_prefs M) = Some path"
    using assms(4,5) by (simp_all add: saved_as_shown_def)
  have fs1: "fs1 = write_file path (prefs_text ?b) (ls_fs s)"
    using assms(6) set M(1,3) assms(5) by (simp add: set_permission_def save_prefs_def split: if_splits)
  have vb: "valid_prefs ?b" by (rule valid_set [OF M(2) set])
  have "load_prefs path fs1 = Inr (?b\<lparr>pf_settings := sort_key fst (pf_settings ?b)\<rparr>)"
    using saved_text_loads(1) [OF vb, of path] M(3) by (simp add: fs1)
  then have first: "\<exists>p. load_prefs path fs1 = Inr p \<and> explicit p blocked = Some BLOCK"
    using vb by (simp add: explicit_def map_of_sort_key map_of_update valid_prefs_def)
  have vp: "valid_prefs ?p" using valid_remembered [OF assms(2), of ord "\<lparr>ap_allow = True, ap_remember = True\<rparr>"] by (simp add: remembered_def)
  let ?s1 = "after_accept (lm_moment m) ord (s\<lparr>ls_fs := fs1\<rparr>)"
  let ?fs2 = "write_file path (prefs_text ?p) fs1"
  have f: "ls_fs ?s1 = fs1" by (simp add: after_accept_def after_nonce_def)
  have rem: "remember ord \<lparr>ap_allow = True, ap_remember = True\<rparr> (?s1\<lparr>cn_user := u\<rparr>) = (None, ?s1\<lparr>cn_user := u, cn_prefs := ?p, ls_fs := ?fs2\<rparr>)"
    using assms(3) f by (simp add: remember_def set_allow save_if_persistent_def save_prefs_def)
  have "consumer_place C W S decide m ord (s\<lparr>ls_fs := fs1\<rparr>) = gate C W S decide m ord cap ?s1"
    using assms(7,8) by (intro consumer_accepted) simp_all
  also have "\<dots> = consumer_execute C W S m ord (minted C S m ord) True (?s1\<lparr>cn_user := u, cn_prefs := ?p, ls_fs := ?fs2\<rparr>)"
    using assms(9,10) rem by (simp add: gate_def Let_def states)
  finally have e: "consumer_execute C W S m ord (minted C S m ord) True (?s1\<lparr>cn_user := u, cn_prefs := ?p, ls_fs := ?fs2\<rparr>) = (r, s')"
    using assms(14) by simp
  have p: "cn_prefs s' = ?p" using execute_keeps [OF e] by simp
  have b: "b_run (kn_backend (sv_kitchen S)) = subprocess_run C W" by (simp add: assms(1) subprocess_sandbox_def)
  have t: "t_order_id (minted C S m ord) = o_order_id ord" by (simp add: minted_def ticket_for_def mint_ticket_def Let_def)
  obtain q fs3 ledger where q: "run_chef C (sv_private_key S) W (sv_kitchen S) (lm_receipt_uuid m) (lm_workspace m) (minted C S m ord)
      (Some (order_meta_from_order ord)) ?fs2 (cs_ledger ?s1) = (q, fs3, ledger)" by (metis prod.exhaust)
  have "files fs3 path = files ?fs2 path"
    using subprocess.run_chef_files [OF b q assms(12)] assms(13) t by (simp add: order_output_def)
  moreover have "ls_fs s' = fs3" using e q by (auto simp: consumer_execute_def split: sum.splits)
  ultimately have "load_prefs path (ls_fs s') = load_prefs path ?fs2" by (intro load_prefs_cong) simp
  then have "load_prefs path (ls_fs s') = Inr (?p\<lparr>pf_settings := sort_key fst (pf_settings ?p)\<rparr>)"
    using saved_text_loads(1) [OF vp, of path] assms(3) by simp
  then show ?thesis
    using first p vp assms(11) by (simp add: explicit_def map_of_sort_key map_of_update valid_prefs_def)
qed

definition opened_model :: app_model where
  "opened_model = \<lparr>am_home = ''/'', am_prefs = example_prefs\<rparr>"

definition sharing_consumer :: "(prompt_spec list \<times> nat) consumer_state" where
  "sharing_consumer = example_consumer\<lparr>ls_fs := write_file ''/permissions.json'' (prefs_text example_prefs) example_fs\<rparr>"

theorem block_set_meanwhile_is_lost_witness:
  "\<exists>M' fs1 p r s' q. set_permission ''cap.x'' BLOCK opened_model (ls_fs sharing_consumer) = (Inr ''/permissions.json'', M', fs1) \<and>
    load_prefs ''/permissions.json'' fs1 = Inr p \<and> explicit p ''cap.x'' = Some BLOCK \<and>
    consumer_place example_crypto example_os example_service (native_decide example_show (presses ''always''))
      example_loop_moment example_order (sharing_consumer\<lparr>ls_fs := fs1\<rparr>) = (r, s') \<and>
    load_prefs ''/permissions.json'' (ls_fs s') = Inr q \<and> explicit q ''cap.x'' = None"
proof -
  let ?decide = "native_decide example_show (presses ''always'')"
  have path: "preferences_path ''/'' = ''/permissions.json''"
    by (simp add: preferences_path_def path_join_def startswith_def endswith_def)
  have v: "valid_prefs example_prefs" "pf_path example_prefs = Some ''/permissions.json''"
    using example_valid_prefs by (simp_all add: example_consumer_def example_prefs_def)
  have m: "saved_as_shown ''/'' opened_model (ls_fs sharing_consumer)"
    using v saved_text_loads(1) [OF v, of example_fs]
    by (simp add: saved_as_shown_def opened_model_def sharing_consumer_def path map_of_sort_key valid_prefs_def)
  obtain M' fs1 where set: "set_permission ''cap.x'' BLOCK opened_model (ls_fs sharing_consumer) = (Inr ''/permissions.json'', M', fs1)"
    by (simp add: set_permission_def set_pref_def STATES_def save_prefs_def opened_model_def path)
  obtain r s' where place: "consumer_place example_crypto example_os example_service ?decide
      example_loop_moment example_order (sharing_consumer\<lparr>ls_fs := fs1\<rparr>) = (r, s')" by (metis prod.exhaust)
  have p: "cn_prefs sharing_consumer = example_prefs" "cn_user sharing_consumer = ([], 0)"
    by (simp_all add: sharing_consumer_def example_consumer_def)
  have acc: "accepts example_service example_loop_moment sharing_consumer example_order"
    using example_consumer_accepted [of "o_order_id example_order"] unfolding example_same_order
    by (simp add: sharing_consumer_def)
  have menu: "map_of (sv_menu example_service) (o_capability_id example_order) = Some example_capability"
    using example_menu_lookup [of "o_order_id example_order"] unfolding example_same_order .
  have ask: "effective_state (cn_prefs sharing_consumer) example_capability = ASK"
    by (simp add: p effective_state_def example_prefs_def example_capability_def)
  obtain u where dec: "?decide example_order example_capability (cn_user sharing_consumer) = (Inr \<lparr>ap_allow = True, ap_remember = True\<rparr>, u)"
    by (simp add: p native_decide_def presses_def decision_from_verdict_def Let_def)
  have b: "kn_backend (sv_kitchen example_service) = subprocess_sandbox example_crypto example_os"
    by (simp add: example_service_def example_kitchen_def)
  have other: "''cap.x'' \<noteq> o_capability_id example_order" by (simp add: example_order_def)
  have w: "\<not> below (lm_workspace example_loop_moment) ''/permissions.json''"
    unfolding example_loop_moment_def by code_simp
  have out: "''/permissions.json'' \<noteq> order_output example_os example_service example_order"
    by (simp add: order_output_def OUTPUT_FILENAME_def path_join_def startswith_def)
  show ?thesis
    using block_set_meanwhile_is_lost [OF b _ _ m path set acc menu ask dec other w out place] v set place
    by (auto simp: p explicit_def example_prefs_def)
qed

end
