(* ===== verification/Bundle.thy ===== *)
theory Bundle
  imports Screens
begin

text \<open>
  \<^verbatim>\<open>build_installer.py\<close>: the archive that a user downloads, with the wheel, two scripts and a text. What the
  archive's file holds for a list of members, the version in \<^verbatim>\<open>pyproject.toml\<close> and the names that match a
  pattern are parameters.
\<close>

section \<open>The members\<close>

definition PS1_LINES :: "string list" where
  "PS1_LINES =
     [''# Sentinel Loop installer (per-user, no admin).'',
      ''# UNSIGNED: you may need  Set-ExecutionPolicy -Scope Process Bypass  to run it.'',
      ''$ErrorActionPreference = \"Stop\"'',
      ''$here = Split-Path -Parent $MyInvocation.MyCommand.Path'',
      ''$wheel = Get-ChildItem (Join-Path $here \"*.whl\") | Select-Object -First 1'',
      ''if (-not $wheel) { Write-Error \"no wheel found next to install.ps1\"; exit 1 }'',
      [],
      ''# Find a Python 3.11+ launcher.'',
      ''$py = $null'',
      ''foreach ($cand in @(\"py\",\"python\",\"python3\")) {'',
      ''  $c = Get-Command $cand -ErrorAction SilentlyContinue'',
      ''  if ($c) { $py = $c.Source; break }'',
      ''}'',
      ''if (-not $py) {'',
      ''  Write-Host \"Python not found. Install it from https://python.org or the Store, then re-run.\"'',
      ''  exit 1'',
      ''}'',
      [],
      ''$target = Join-Path $env:LOCALAPPDATA \"Programs'' @ [CHR 0x5C] @ ''SentinelLoop\"'',
      ''$venv = Join-Path $target \"venv\"'',
      ''Write-Host \"Installing Sentinel Loop to $target ...\"'',
      ''New-Item -ItemType Directory -Force -Path $target | Out-Null'',
      ''& $py -m venv $venv'',
      ''$vpy = Join-Path $venv \"Scripts'' @ [CHR 0x5C] @ ''python.exe\"'',
      ''& $vpy -m pip install --quiet --upgrade pip'',
      ''& $vpy -m pip install --quiet $wheel.FullName'',
      ''# Hand off to the package's own installer for setup + shortcut + registry.'',
      ''& $vpy -m sentinel_slice.installer install --skip-venv --target $target --version \"{VERSION}\"'',
      ''Write-Host \"\"'',
      ''Write-Host \"Done. Open 'Sentinel Loop' from the Start Menu, then Connect your AI.\"'',
      []]"

definition INSTALL_PS1 :: string where "INSTALL_PS1 = join nl PS1_LINES"

definition INSTALL_BAT :: string where
  "INSTALL_BAT = join nl
     [''@echo off'',
      ''REM One-click wrapper: runs install.ps1 with a per-process bypass so an'',
      ''REM unsigned script can run without changing system policy.'',
      ''powershell -NoProfile -ExecutionPolicy Bypass -File \"%~dp0install.ps1\"'',
      ''pause'',
      []]"

definition README_TXT :: string where
  "README_TXT = join nl
     [''Sentinel Loop '' @ em_dash @ '' install'',
      [],
      ''1. Unzip this folder anywhere.'',
      ''2. Double-click INSTALL.bat  (or right-click install.ps1 -> Run with PowerShell).'',
      ''3. Open \"Sentinel Loop\" from the Start Menu. Go to Connect and turn it on for'',
      ''   your AI (Claude Desktop, etc.).'',
      [],
      ''To remove it: Settings -> Apps -> Sentinel Loop -> Uninstall'',
      ''(or run the UninstallString shown there).'',
      [],
      ''NOTE: this build is UNSIGNED. Windows SmartScreen may warn (\"unknown'',
      ''publisher\") '' @ em_dash @ '' that is expected for an unsigned app, not a sign of malware.'',
      ''A signed release removes the warning.'',
      []]"

text \<open>\<^verbatim>\<open>str.replace\<close> for a pattern that is not empty; \<open>n\<close> characters still belong to the last one found.\<close>

fun replace_from :: "string \<Rightarrow> string \<Rightarrow> nat \<Rightarrow> string \<Rightarrow> string" where
  "replace_from old new n [] = []"
| "replace_from old new (Suc n) (c # s) = replace_from old new n s"
| "replace_from old new 0 (c # s) =
     (if startswith (c # s) old then new @ replace_from old new (length old - 1) s
      else c # replace_from old new 0 s)"

definition file_name :: "string \<Rightarrow> string" where
  "file_name p = rev (takeWhile (\<lambda>c. c \<noteq> CHR ''/'') (rev p))"

definition install_script :: "string \<Rightarrow> string" where
  "install_script version = replace_from ''{VERSION}'' version 0 INSTALL_PS1"

definition bundle_members :: "string \<Rightarrow> string \<Rightarrow> string \<Rightarrow> (string \<times> string) list" where
  "bundle_members wheel bytes version =
     [(file_name wheel, bytes), (''install.ps1'', install_script version), (''INSTALL.bat'', INSTALL_BAT), (''README.txt'', README_TXT)]"

section \<open>The program\<close>

record packager =
  pa_zip :: "(string \<times> string) list \<Rightarrow> string"
  pa_project_version :: "string \<Rightarrow> exn + string"
  pa_glob :: "string \<Rightarrow> string list"
  pa_repo :: string

definition bundle_path :: "string \<Rightarrow> string \<Rightarrow> string" where
  "bundle_path out_dir version = path_join out_dir (''SentinelLoop-Setup-'' @ version @ ''.zip'')"

definition build_bundle :: "packager \<Rightarrow> string \<Rightarrow> string \<Rightarrow> string \<Rightarrow> string \<Rightarrow> fsys \<Rightarrow> (exn + string) \<times> fsys" where
  "build_bundle K wheel bytes version out_dir fs =
     (case makedirs out_dir fs of
        (Inl e, fs1) \<Rightarrow> (Inl e, fs1)
      | (Inr _, fs1) \<Rightarrow>
          (Inr (bundle_path out_dir version),
           write_file (bundle_path out_dir version) (pa_zip K (bundle_members wheel bytes version)) fs1))"

definition find_wheel :: "packager \<Rightarrow> string \<Rightarrow> string option" where
  "find_wheel K version =
     (case pa_glob K (path_join (path_join (pa_repo K) ''dist'') (''sentinel_slice-'' @ version @ ''-*.whl'')) of
        [] \<Rightarrow> None | m # ms \<Rightarrow> Some m)"

definition version_of :: "packager \<Rightarrow> string option \<Rightarrow> fsys \<Rightarrow> exn + string" where
  "version_of K given fs =
     (case given of
        Some v \<Rightarrow> Inr v
      | None \<Rightarrow>
          (case files fs (path_join (pa_repo K) ''pyproject.toml'') of
             None \<Rightarrow> Inl OSError | Some bytes \<Rightarrow> pa_project_version K bytes))"

definition wheel_of :: "packager \<Rightarrow> string option \<Rightarrow> string \<Rightarrow> string option" where
  "wheel_of K given version = (if given = None \<or> given = Some [] then find_wheel K version else given)"

definition no_wheel :: "string \<Rightarrow> string" where
  "no_wheel version = ''wheel not found for version '' @ version @ '' '' @ em_dash @ '' build it first:'' @ nl @
     ''  python -m pip wheel . --no-deps -w dist''"

text \<open>The exit code and what was printed; a wheel that is not there is said on the error stream.\<close>

definition bundle_main ::
  "packager \<Rightarrow> string option \<Rightarrow> string option \<Rightarrow> string option \<Rightarrow> fsys \<Rightarrow> (exn + nat \<times> string) \<times> fsys" where
  "bundle_main K version_given wheel_given out_given fs =
     (case version_of K version_given fs of
        Inl e \<Rightarrow> (Inl e, fs)
      | Inr version \<Rightarrow>
          (case wheel_of K wheel_given version of
             None \<Rightarrow> (Inr (1, no_wheel version), fs)
           | Some wheel \<Rightarrow>
               (case files fs wheel of
                  None \<Rightarrow> (Inr (1, no_wheel version), fs)
                | Some bytes \<Rightarrow>
                    (case build_bundle K wheel bytes version (given_or out_given (path_join (pa_repo K) ''dist'')) fs of
                       (Inl e, fs1) \<Rightarrow> (Inl e, fs1)
                     | (Inr bundle, fs1) \<Rightarrow> (Inr (0, ''built '' @ bundle), fs1)))))"

section \<open>Properties\<close>

lemma startswith_length: "startswith s p \<Longrightarrow> length p \<le> length s"
  unfolding startswith_def by (metis length_take min.cobounded1)

lemma startswith_line:
  assumes "CHR 0x0A \<notin> set old"
  shows "startswith (a @ nl @ b) old \<longleftrightarrow> startswith a old"
proof
  assume "startswith a old"
  from startswith_length [OF this] have "length old \<le> length a" .
  then show "startswith (a @ nl @ b) old" using \<open>startswith a old\<close> by (simp add: startswith_def)
next
  assume s: "startswith (a @ nl @ b) old"
  have "length old \<le> length a"
  proof (rule ccontr)
    assume "\<not> length old \<le> length a"
    then obtain k where "length old = length a + Suc k" by (metis less_imp_Suc_add not_le_imp_less add_Suc_right)
    then have "CHR 0x0A \<in> set (take (length old) (a @ nl @ b))" by (simp add: nl_def)
    then have "CHR 0x0A \<in> set old" using s unfolding startswith_def by metis
    then show False using assms by blast
  qed
  then show "startswith a old" using s by (simp add: startswith_def)
qed

lemma replace_line:
  assumes "CHR 0x0A \<notin> set old" and "old \<noteq> []"
  shows "n \<le> length a \<Longrightarrow> replace_from old new n (a @ nl @ b) = replace_from old new n a @ nl @ replace_from old new 0 b"
proof (induction a arbitrary: n)
  case Nil
  have "\<not> startswith (nl @ b) old" using startswith_line [OF assms(1), of "[]" b] assms(2) by (simp add: startswith_def)
  then show ?case using Nil by (simp add: nl_def)
next
  case (Cons c a)
  show ?case
  proof (cases n)
    case 0
    have e: "startswith (c # a @ nl @ b) old \<longleftrightarrow> startswith (c # a) old"
      using startswith_line [OF assms(1), of "c # a" b] by simp
    show ?thesis
    proof (cases "startswith (c # a) old")
      case True
      from startswith_length [OF this] have "length old - 1 \<le> length a" by simp
      then show ?thesis using True e 0 Cons.IH by simp
    next
      case False
      then show ?thesis using e 0 Cons.IH [of 0] by simp
    qed
  next
    case (Suc m)
    then show ?thesis using Cons by simp
  qed
qed

lemma replace_lines:
  assumes "CHR 0x0A \<notin> set old" and "old \<noteq> []" and "ls \<noteq> []"
  shows "replace_from old new 0 (join nl ls) = join nl (map (replace_from old new 0) ls)"
  using assms(3) by (induction nl ls rule: join.induct) (simp_all add: replace_line [OF assms(1,2)])

text \<open>The version goes into one line of the script, the one that hands over to the package's installer.\<close>

definition hand_over_line :: "string \<Rightarrow> string" where
  "hand_over_line version = ''& $vpy -m sentinel_slice.installer install --skip-venv --target $target --version \"'' @ version @ ''\"''"

lemma replace_none: "CHR ''{'' \<notin> set l \<Longrightarrow> replace_from ''{VERSION}'' version 0 l = l"
  by (induction l) (auto simp: startswith_def)

lemma script_lines: "map (replace_from ''{VERSION}'' version 0) PS1_LINES = PS1_LINES[27 := hand_over_line version]"
  by code_simp

lemma install_script_lines: "install_script version = join nl (PS1_LINES[27 := hand_over_line version])"
  unfolding install_script_def INSTALL_PS1_def script_lines [symmetric]
  by (rule replace_lines) (simp_all add: PS1_LINES_def)

text \<open>
  What the program leaves. With exit code 0 one file is new, the archive, with four members of different names:
  the wheel that was named or found, and the script with the version in its one place. With any other outcome no
  file has changed.
\<close>

theorem bundle_is_complete:
  assumes "bundle_main K version_given wheel_given out_given fs = (r, fs')"
  shows "case r of
      Inr (0, said) \<Rightarrow> \<exists>version wheel bytes. version_of K version_given fs = Inr version \<and>
        wheel_of K wheel_given version = Some wheel \<and> files fs wheel = Some bytes \<and>
        said = ''built '' @ bundle_path (given_or out_given (path_join (pa_repo K) ''dist'')) version \<and>
        files fs' = (files fs)(bundle_path (given_or out_given (path_join (pa_repo K) ''dist'')) version \<mapsto>
          pa_zip K [(file_name wheel, bytes), (''install.ps1'', join nl (PS1_LINES[27 := hand_over_line version])),
            (''INSTALL.bat'', INSTALL_BAT), (''README.txt'', README_TXT)])
    | _ \<Rightarrow> files fs' = files fs"
proof (cases r)
  case (Inl e)
  then show ?thesis using assms
    by (auto simp: bundle_main_def build_bundle_def makedirs_def split: sum.splits option.splits if_splits)
next
  case (Inr x)
  then show ?thesis using assms
    by (auto simp: bundle_main_def build_bundle_def makedirs_def bundle_members_def install_script_lines
        split: sum.splits option.splits if_splits nat.splits)
qed

lemma bundle_names_differ: "endswith wheel ''.whl'' \<Longrightarrow> distinct (map fst (bundle_members wheel bytes version))"
proof -
  assume "endswith wheel ''.whl''"
  then obtain a where a: "wheel = a @ ''.whl''" unfolding endswith_def by (metis append_take_drop_id)
  have "file_name wheel = rev (takeWhile (\<lambda>c. c \<noteq> CHR ''/'') (rev a)) @ ''.whl''" by (simp add: file_name_def a)
  then have "last (file_name wheel) = CHR ''l''" by simp
  moreover have "last ''install.ps1'' = CHR ''1''" "last ''INSTALL.bat'' = CHR ''t''" "last ''README.txt'' = CHR ''t''" by simp_all
  ultimately show ?thesis by (auto simp: bundle_members_def)
qed

end
