(* ===== verification/Dialog.thy ===== *)
theory Dialog
  imports Consumer
begin

text \<open>
  The two faces of the approval gate: the dialog of \<^verbatim>\<open>consumer/native.py\<close>, as a machine that a user's gestures
  drive until it is gone, and what \<^verbatim>\<open>consumer/approval.py\<close> prints in the terminal before it reads an answer.
  Fonts and places are left out; what tkinter raises where there is no display is the \<^verbatim>\<open>RuntimeError\<close> of the
  model (the caller catches any exception).
\<close>

section \<open>The terminal\<close>

definition rule_of :: "nat \<Rightarrow> string" where
  "rule_of n = concat (replicate n (enc 0x2500))"

definition cli_lines :: "(json dict \<Rightarrow> string) \<Rightarrow> order \<Rightarrow> capability \<Rightarrow> string list" where
  "cli_lines show_args ord cap =
     [[], ''  '' @ rule_of 2 @ '' action needs your approval '' @ rule_of 25,
      ''  agent (principal): '' @ o_principal ord,
      ''  wants to:          '' @ c_name cap @ ''  ['' @ c_id cap @ '']'',
      ''  risk:              '' @ c_risk_class cap @ '' '' @ middle_dot @ '' side effects: '' @ c_side_effects cap,
      ''  on:                '' @ show_args (o_args ord)]"

definition CLI_PROMPT :: string where
  "CLI_PROMPT = ''  allow [o]nce / [a]lways / [d]eny? ''"

text \<open>The terminal as a state: what was printed on it, and the lines that its user will type.\<close>

record terminal =
  tm_printed :: "string list"
  tm_typed :: "string list"

definition read_answer :: "terminal \<Rightarrow> (exn + string option) \<times> terminal" where
  "read_answer t =
     (case tm_typed t of
        [] \<Rightarrow> (Inl EOFError, t\<lparr>tm_printed := tm_printed t @ [CLI_PROMPT]\<rparr>)
      | l # ls \<Rightarrow> (Inr (Some l), t\<lparr>tm_printed := tm_printed t @ [CLI_PROMPT], tm_typed := ls\<rparr>))"

definition terminal_decide :: "(json dict \<Rightarrow> string) \<Rightarrow> terminal approver" where
  "terminal_decide show_args ord cap t =
     cli_decide read_answer ord cap (t\<lparr>tm_printed := tm_printed t @ cli_lines show_args ord cap\<rparr>)"

section \<open>The dialog\<close>

definition BUTTONS :: "(string \<times> string) list" where
  "BUTTONS = [(''Allow once'', ''once''), (''Always allow'', ''always''), (''Don't allow'', ''deny'')]"

text \<open>What a user can do to the dialog; other keys and clicks beside the buttons do nothing.\<close>

datatype gesture = Press string | Close | Escape | Other

record dialog =
  dg_title :: string
  dg_labels :: "string list"
  dg_buttons :: "string list"
  dg_verdict :: "string option"
  dg_open :: bool

definition open_dialog :: "prompt_spec \<Rightarrow> dialog" where
  "open_dialog spec =
     \<lparr>dg_title = ps_title spec, dg_labels = ps_heading spec # ps_lines spec, dg_buttons = map fst BUTTONS,
      dg_verdict = None, dg_open = True\<rparr>"

text \<open>\<open>choose(value)\<close>: the verdict is set and the window destroyed.\<close>

definition close_with :: "string option \<Rightarrow> dialog \<Rightarrow> dialog" where
  "close_with verdict d = d\<lparr>dg_verdict := verdict, dg_open := False\<rparr>"

definition on_gesture :: "gesture \<Rightarrow> dialog \<Rightarrow> dialog" where
  "on_gesture g d =
     (case g of
        Press label \<Rightarrow> (case map_of BUTTONS label of None \<Rightarrow> d | Some v \<Rightarrow> close_with (Some v) d)
      | Close \<Rightarrow> close_with None d
      | Escape \<Rightarrow> close_with None d
      | Other \<Rightarrow> d)"

text \<open>
  The main loop: the verdict and the gestures that are left when the window is gone, or \<open>None\<close> as long as it is
  open.
\<close>

fun dialog_loop :: "gesture list \<Rightarrow> dialog \<Rightarrow> (string option \<times> gesture list) option" where
  "dialog_loop gs d =
     (if \<not> dg_open d then Some (dg_verdict d, gs)
      else (case gs of [] \<Rightarrow> None | g # gs' \<Rightarrow> dialog_loop gs' (on_gesture g d)))"

declare dialog_loop.simps [simp del]

text \<open>A screen with or without a display, with what its user will do; tkinter may not be installed.\<close>

record screen =
  sc_tkinter :: bool
  sc_display :: bool
  sc_gestures :: "gesture list"

definition native_available :: "screen \<Rightarrow> bool" where
  "native_available sc \<longleftrightarrow> sc_tkinter sc \<and> sc_display sc"

definition show_dialog :: "prompt_spec \<Rightarrow> screen \<Rightarrow> ((exn + string option) \<times> screen) option" where
  "show_dialog spec sc =
     (if \<not> native_available sc then Some (Inl RuntimeError, sc)
      else (case dialog_loop (sc_gestures sc) (open_dialog spec) of
        None \<Rightarrow> None
      | Some (verdict, gs) \<Rightarrow> Some (Inr verdict, sc\<lparr>sc_gestures := gs\<rparr>)))"

text \<open>\<open>NativeApprover.decide\<close> with this dialog: \<open>None\<close> while the dialog is open.\<close>

definition dialog_decide :: "(json dict \<Rightarrow> string) \<Rightarrow> order \<Rightarrow> capability \<Rightarrow> screen \<Rightarrow> ((exn + approval) \<times> screen) option" where
  "dialog_decide show_args ord cap sc =
     (case show_dialog (build_prompt show_args ord cap) sc of
        None \<Rightarrow> None
      | Some shown \<Rightarrow>
          (case native_decide show_args (\<lambda>spec w. shown) ord cap ([], sc) of (r, (prompts, sc1)) \<Rightarrow> Some (r, sc1)))"

section \<open>Properties\<close>

text \<open>The gestures that end a dialog.\<close>

fun ending :: "gesture \<Rightarrow> bool" where
  "ending (Press label) \<longleftrightarrow> label \<in> fst ` set BUTTONS"
| "ending Close \<longleftrightarrow> True"
| "ending Escape \<longleftrightarrow> True"
| "ending Other \<longleftrightarrow> False"

fun verdict_of :: "gesture \<Rightarrow> string option" where
  "verdict_of (Press label) = map_of BUTTONS label"
| "verdict_of g = None"

lemma on_gesture_ending: "ending g \<Longrightarrow> on_gesture g d = close_with (verdict_of g) d"
  by (cases g) (auto simp: on_gesture_def BUTTONS_def)

lemma on_gesture_idle: "\<not> ending g \<Longrightarrow> on_gesture g d = d"
  by (cases g) (auto simp: on_gesture_def BUTTONS_def)

text \<open>The loop ends with the first gesture that ends it, and only then.\<close>

lemma dialog_loop_ends:
  assumes "dg_open d"
  shows "dialog_loop gs d =
    (case dropWhile (\<lambda>g. \<not> ending g) gs of [] \<Rightarrow> None | g # gs' \<Rightarrow> Some (verdict_of g, gs'))"
  using assms
proof (induction gs)
  case Nil
  then show ?case by (simp add: dialog_loop.simps [of "[]"])
next
  case (Cons g gs)
  then show ?case
    by (cases "ending g") (simp_all add: dialog_loop.simps [of "g # gs"] on_gesture_ending on_gesture_idle close_with_def
        dialog_loop.simps [of gs "d\<lparr>dg_verdict := verdict_of g, dg_open := False\<rparr>"])
qed

lemma native_verdict:
  "native_decide show_args (\<lambda>spec w. shown) ord cap ([], sc) =
     (Inr (case fst shown of Inl e \<Rightarrow> deny | Inr v \<Rightarrow> decision_from_verdict v), ([build_prompt show_args ord cap], snd shown))"
  by (cases shown) (simp add: native_decide_def Let_def split: sum.split)

lemma dropWhile_idle: "\<not> list_ex ending idle \<Longrightarrow> ending g \<Longrightarrow> dropWhile (\<lambda>g. \<not> ending g) (idle @ g # rest) = g # rest"
  by (induction idle) simp_all

lemma dropWhile_none: "\<not> list_ex ending gs \<Longrightarrow> dropWhile (\<lambda>g. \<not> ending g) gs = []"
  by (induction gs) simp_all

lemma verdict_decision:
  "ending g \<Longrightarrow> decision_from_verdict (verdict_of g) =
     \<lparr>ap_allow = (g = Press ''Allow once'' \<or> g = Press ''Always allow''), ap_remember = (g = Press ''Always allow'')\<rparr>"
  by (cases g) (auto simp: BUTTONS_def decision_from_verdict_def)

text \<open>
  C14. The dialog fails closed and asks for a deliberate answer. Without a display the answer is no. With one, nothing
  is decided before the user makes one of the gestures that end the dialog; the first of them decides: it allows
  only if it is the press of one of the two allowing buttons, for good only if that is \<open>Always allow\<close>, and closing
  the window or the escape key is a no. What the user does after it is left for the next dialog.
\<close>

theorem dialog_fails_closed:
  "(\<not> native_available sc \<longrightarrow> dialog_decide show_args ord cap sc = Some (Inr deny, sc)) \<and>
   (native_available sc \<and> \<not> list_ex ending (sc_gestures sc) \<longrightarrow> dialog_decide show_args ord cap sc = None) \<and>
   (native_available sc \<and> sc_gestures sc = idle @ g # rest \<and> \<not> list_ex ending idle \<and> ending g \<longrightarrow>
      dialog_decide show_args ord cap sc =
        Some (Inr \<lparr>ap_allow = (g = Press ''Allow once'' \<or> g = Press ''Always allow''), ap_remember = (g = Press ''Always allow'')\<rparr>,
          sc\<lparr>sc_gestures := rest\<rparr>))"
proof (intro conjI impI)
  have o: "dg_open (open_dialog spec)" for spec by (simp add: open_dialog_def)
  note unfold = dialog_decide_def show_dialog_def dialog_loop_ends [OF o]
  show "dialog_decide show_args ord cap sc = Some (Inr deny, sc)" if "\<not> native_available sc"
    using that by (simp add: dialog_decide_def show_dialog_def native_verdict)
  show "dialog_decide show_args ord cap sc = None" if "native_available sc \<and> \<not> list_ex ending (sc_gestures sc)"
    unfolding unfold dropWhile_none [OF conjunct2 [OF that]] using that by simp
  assume a: "native_available sc \<and> sc_gestures sc = idle @ g # rest \<and> \<not> list_ex ending idle \<and> ending g"
  then have d: "dropWhile (\<lambda>g. \<not> ending g) (sc_gestures sc) = g # rest" using dropWhile_idle by simp
  show "dialog_decide show_args ord cap sc =
      Some (Inr \<lparr>ap_allow = (g = Press ''Allow once'' \<or> g = Press ''Always allow''), ap_remember = (g = Press ''Always allow'')\<rparr>,
        sc\<lparr>sc_gestures := rest\<rparr>)"
    unfolding unfold d using a verdict_decision [of g] by (simp add: native_verdict)
qed

theorem dialog_fails_closed_witness:
  "dialog_decide example_show example_order example_capability
     \<lparr>sc_tkinter = True, sc_display = True, sc_gestures = [Other, Press ''Always allow'', Close]\<rparr> =
   Some (Inr \<lparr>ap_allow = True, ap_remember = True\<rparr>, \<lparr>sc_tkinter = True, sc_display = True, sc_gestures = [Close]\<rparr>)"
proof -
  let ?sc = "\<lparr>sc_tkinter = True, sc_display = True, sc_gestures = [Other, Press ''Always allow'', Close]\<rparr>"
  have "native_available ?sc \<and> sc_gestures ?sc = [Other] @ Press ''Always allow'' # [Close] \<and>
      \<not> list_ex ending [Other] \<and> ending (Press ''Always allow'')"
    by (simp add: native_available_def BUTTONS_def)
  from dialog_fails_closed [of ?sc example_show example_order example_capability, THEN conjunct2, THEN conjunct2, THEN mp, OF this]
  show ?thesis by simp
qed

text \<open>The terminal prints the question before it reads; an empty line, and anything but the four answers, is a no.\<close>

lemma terminal_asks_first:
  assumes "terminal_decide show_args ord cap t = (r, t')"
  shows "tm_printed t' = tm_printed t @ cli_lines show_args ord cap @ [CLI_PROMPT]"
  using assms by (auto simp: terminal_decide_def cli_decide_def read_answer_def split: list.splits)

end
