(* ===== verification/Spec2Isabelle.thy ===== *)
theory Spec2Isabelle
  imports Duties Mcp Screens Drill_Verdict Console_Program Window Bundle Dialog
begin

text \<open>
  Tanaka (\<^verbatim>\<open>src/sentinel_slice\<close>): a verification development.

  \<^bold>\<open>The program.\<close> An agent may act only by placing \<^emph>\<open>orders\<close>. The cashier checks an order against a
  menu, a policy, a nonce store and a rate limit, signs a ticket for it and hands the ticket to a
  chef, a separate program in a sandbox, which verifies the signature before it touches anything and
  leaves one draft in the serving window. Whatever happens, one signed receipt is appended to a hash
  chain that a standalone verifier checks. Around that core are the JSON gateway, the MCP gateway, the
  consumer's edition with its permissions, the operator console with its signed requests and its
  policy history, the inspector, the drill, the sandboxes of each platform and the programs that
  install and configure all this.

  \<^bold>\<open>Theories and code\<close> (paths under \<^verbatim>\<open>src/sentinel_slice\<close>).

  \<^item> \<^verbatim>\<open>Prelude\<close>, \<^verbatim>\<open>Text\<close>, \<^verbatim>\<open>Json\<close>, \<^verbatim>\<open>Base64\<close>: what the program uses of Python and its standard library:
    dictionaries in insertion order, strings as the bytes of their UTF-8 encoding, \<^verbatim>\<open>json.dumps\<close> and
    \<^verbatim>\<open>json.loads\<close> in the layouts that occur, \<^verbatim>\<open>base64\<close>; and \<^verbatim>\<open>spine/canonical.py\<close>.
  \<^item> \<^verbatim>\<open>Spine\<close>: \<^verbatim>\<open>spine/types.py\<close>, \<^verbatim>\<open>spine/hashing.py\<close>. Capabilities, orders, tickets and receipts; SHA-256
    and Ed25519 are the record \<open>crypto\<close>.
  \<^item> \<^verbatim>\<open>Chain\<close>: what the two hash chains share, as the locales \<open>hash_chain\<close> and \<open>chain_store\<close>, which
    \<^verbatim>\<open>Verify_Ledger\<close> (\<^verbatim>\<open>verify_ledger.py\<close>), \<^verbatim>\<open>Ledger\<close> (\<^verbatim>\<open>ledger/receipts.py\<close>) and \<^verbatim>\<open>Policy_History\<close>
    (\<^verbatim>\<open>authoring/policy_store.py\<close>, \<^verbatim>\<open>verify_policy_history.py\<close>) interpret.
  \<^item> \<^verbatim>\<open>Policy\<close>, \<^verbatim>\<open>Store\<close>, \<^verbatim>\<open>Engine\<close>: \<^verbatim>\<open>cashier/\<close>. The verdict, and the handler with its effects in order.
  \<^item> \<^verbatim>\<open>Paths\<close>, \<^verbatim>\<open>Chef\<close>: the functions of \<^verbatim>\<open>os.path\<close> and \<^verbatim>\<open>chef/chef_main.py\<close>, on a file system with a log
    of accesses.
  \<^item> \<^verbatim>\<open>Runner\<close>: \<^verbatim>\<open>chef/runner.py\<close>, \<^verbatim>\<open>window/serving.py\<close>, \<^verbatim>\<open>attestor/mock.py\<close> and the seam of
    \<^verbatim>\<open>chef/sandbox.py\<close>. What the runner expects of a backend are the locales \<open>contained\<close>, \<open>sandbox\<close> and
    \<open>reliable_sandbox\<close>, each an extension of the one before.
  \<^item> \<^verbatim>\<open>Seccomp\<close>, \<^verbatim>\<open>Linux_Sandbox\<close>, \<^verbatim>\<open>Backends\<close>, \<^verbatim>\<open>Microvm\<close>, \<^verbatim>\<open>Appcontainer\<close>: the other backends
    (\<^verbatim>\<open>chef/linux_sandbox.py\<close>, \<^verbatim>\<open>chef/sandbox.py\<close>, \<^verbatim>\<open>chef/mac_sandbox.py\<close>,
    \<^verbatim>\<open>chef/microvm_sandbox.py\<close>, \<^verbatim>\<open>src/microvm/make_order.py\<close>, \<^verbatim>\<open>chef/appcontainer.py\<close>).
  \<^item> \<^verbatim>\<open>Loop\<close>: \<^verbatim>\<open>loop.py\<close>, cashier, runner and ledger in one object.
  \<^item> \<^verbatim>\<open>Gateway\<close>: \<^verbatim>\<open>gateway.py\<close>. \<^verbatim>\<open>Consumer\<close>: \<^verbatim>\<open>consumer/\<close> (preferences, approvers, loop).
    \<^verbatim>\<open>Mcp\<close>: \<^verbatim>\<open>mcp_gateway.py\<close>.
  \<^item> \<^verbatim>\<open>Menu\<close>: \<^verbatim>\<open>menu/\<close>. \<^verbatim>\<open>Signed_Auth\<close>, \<^verbatim>\<open>Console\<close>, \<^verbatim>\<open>Server\<close>, \<^verbatim>\<open>Duties\<close>: \<^verbatim>\<open>console/\<close>, from the signature
    of one request to what any sequence of requests can do to the policy history.
  \<^item> \<^verbatim>\<open>Inspector\<close>: \<^verbatim>\<open>inspector.py\<close>. \<^verbatim>\<open>Drill\<close>: \<^verbatim>\<open>diner/agent.py\<close>, \<^verbatim>\<open>curriculum/drill.py\<close>.
  \<^item> \<^verbatim>\<open>Apphome\<close>: \<^verbatim>\<open>apphome.py\<close>, \<^verbatim>\<open>keygen.py\<close>, \<^verbatim>\<open>init_app.py\<close> and the choice of the sandbox.
    \<^verbatim>\<open>Installer\<close>: \<^verbatim>\<open>installer.py\<close> and \<^verbatim>\<open>app/firstrun.py\<close>.
    \<^verbatim>\<open>Connect\<close>: \<^verbatim>\<open>app/connect.py\<close>. \<^verbatim>\<open>Screens\<close>: \<^verbatim>\<open>app/model.py\<close>, \<^verbatim>\<open>consumer/permissions.py\<close>,
    \<^verbatim>\<open>authoring/policy_form.py\<close>.
  \<^item> \<^verbatim>\<open>Programs\<close>: the programs that put the parts together: the factory \<open>build_default\<close> of \<^verbatim>\<open>loop.py\<close>,
    \<^verbatim>\<open>run_slice.py\<close>, \<^verbatim>\<open>consumer/__main__.py\<close> and the \<open>main\<close> of \<^verbatim>\<open>gateway.py\<close>, \<^verbatim>\<open>mcp_gateway.py\<close> and
    \<^verbatim>\<open>curriculum/drill.py\<close>. \<^verbatim>\<open>Drill_Verdict\<close>: what the drill reports of an intact pipeline.
    \<^verbatim>\<open>Console_Program\<close>: the factory, the answers' bytes and the \<open>main\<close> of \<^verbatim>\<open>console/server.py\<close>.
    \<^verbatim>\<open>Window\<close>: \<^verbatim>\<open>app/shell.py\<close>, the window as a state machine. \<^verbatim>\<open>Dialog\<close>: the dialog of
    \<^verbatim>\<open>consumer/native.py\<close> and the terminal of \<^verbatim>\<open>consumer/approval.py\<close>. \<^verbatim>\<open>Bundle\<close>: \<^verbatim>\<open>build_installer.py\<close>.

  \<^bold>\<open>How code becomes definitions.\<close> A dataclass is a record, an object with state is a record that every
  operation takes and returns. A call that may raise has the type \<open>exn + 'a\<close>; \<open>exn\<close> (theory \<^verbatim>\<open>Chain\<close>) has the
  exceptions that occur. A \<^verbatim>\<open>dict\<close> is an association list with distinct keys. SQLite tables are lists of rows
  in key order. Clocks, random identifiers, user input, what \<^verbatim>\<open>realpath\<close> answers and what other programs do
  are arguments. The operations keep the names of the Python functions where HOL leaves them free.

  \<^bold>\<open>What is shown.\<close>

  \<^item> The record. Every order placed, at the loop, the consumer's loop, the JSON gateway or the MCP gateway,
    adds exactly one row, signed and chained, and the ledger still verifies; two verified ledgers with the
    same last hash are equal up to a hash collision; the inspector accepts exactly what the verifier
    accepts and its report accounts for every receipt. The policy history refines the list of versions
    that were stored.
  \<^item> The gate. The cashier's verdict is the pipeline of checks the comments describe, nonces are
    single use, the rate limit holds over any window of an hour, tickets are minted on acceptance only;
    the chef touches nothing before the signature and reads only below the owner's directory; without the
    user's consent nothing runs; a policy under the second-person rule needs two people whoever sends
    requests.
  \<^item> The containment. The seccomp filter denies what it says, word by word of its program; a FULFILLED
    receipt from the Linux backend means that the chef ran confined.
    The AppContainer backend resumes the chef only without capabilities, inside its job, with the three
    grants it was given, and leaves no grant, handle or process behind when it returns.
  \<^item> The files. What the programs write they read back: canonical JSON, policies from the form and from the
    history, preferences, the configuration of an MCP host, the home of the first run.
    An installation that fails is not listed; preparing the application a second time changes nothing.
  \<^item> The whole. Running the slice on a ledger that verifies, with the key that signed it, ends with exit
    code 0 and two more rows. A session of the MCP program leaves a ledger that verifies, with one more row for
    each order its client placed, and says which containment the receipts name. The drill of an intact
    pipeline passes exactly when the rate limit is at most eleven. The operator console does nothing for
    a stranger. The desktop window does what was clicked and shows what is so; its dialog and the one of the
    gate fail closed.
  \<^item> The micro VM. A run that returns 0 has changed one file of the host, the draft; any other run has changed
    none; and the order that \<^verbatim>\<open>make_order.py\<close> writes is one that the chef serves.
  \<^item> Defects. Some theorems state where the code does not do what it means to (they are marked so in their
    texts); each has a concrete input at which it happens.

  \<^bold>\<open>Bounds and fuel.\<close> The JSON reader runs on fuel; \<open>json_loads_fuel\<close> shows that twice the length of the text
  and two suffices and that more changes nothing, so no text is refused for lack of it. The filter program
  is generated for at most 252 system calls, so that its 8-bit jump offsets reach. Python's integers are
  \<open>int\<close>; the words of the filter, of the Landlock rights and of the Win32 structures have the width of the
  field they stand for. Every loop is structural but two, which have a measure: the permissions
  editor's, and that of the machine for filter programs.

  \<^bold>\<open>Hypotheses on code that is not here.\<close> \<open>sig_correct\<close>: a signature made with a private key verifies under
  its public key. Nothing assumes that signatures cannot be forged or hashes do not collide; theorems about
  tampering say that an alteration yields a collision or a signature the holder of the key made.
  \<open>classic_bpf\<close>: the documented meaning of the three kinds of instruction of the filter, with \<open>bpf_run\<close> as an
  instance. \<open>starts\<close>: the backend can be started, which \<open>starts_subprocess\<close> shows of the default one.
  \<open>window_ok\<close>: the order's directory can be named, that is, has no NUL byte.
  \<open>icacls_documented\<close>: what granting and removing do to an access list.
  \<open>commands_stay_below\<close>: the helper programs of the micro VM write only below the directory they are given.

  \<^bold>\<open>Not modelled.\<close> Errors of the operating system in the middle of a call (disk full, permissions) other
  than those the code itself handles; the sockets of the console's HTTP server, the headers and
  the error pages of its base class; what tkinter draws (the
  models of the window and of the dialog have what is shown and what the user does); \<^verbatim>\<open>argparse\<close>, whose results are
  the arguments of each \<open>main\<close>; the generation of keys; the bytes of a zip archive.
  How \<^verbatim>\<open>ctypes\<close> declares the calls of \<^verbatim>\<open>chef/appcontainer.py\<close>.
  The text of error messages is left out where nothing reads it again.
\<close>

end
